(* ===== verification/Prelude.thy ===== *)
theory Prelude
  imports Complex_Main "HOL-Library.Product_Lexorder"
begin

text \<open>
  Shared vocabulary of the development: identifiers, instants, results that may carry an
  error, SQL tables as lists of rows with a primary key and a version column, the
  compare-and-set update every service of the program uses, and transition systems with
  their invariants.

  Two interfaces are stated as locales here and interpreted by the components:
  \<^item> \<open>versioned_table\<close>: a row type with a primary key and a version column; the laws of
    compare-and-set (a stale writer loses, the other rows are untouched) are proved once;
  \<^item> \<open>invariant_system\<close>: an initial predicate, a step relation and a predicate every step
    keeps; the predicate then holds in every reachable state.
\<close>

named_theorems table_simps \<open>lookups in updated tables\<close>
named_theorems res_simps \<open>results that may carry an error\<close>

section \<open>Identifiers, instants, results\<close>

text \<open>Identifiers are strings. Instants and durations are rational numbers of seconds.\<close>

type_synonym ident = string
type_synonym instant = rat
type_synonym duration = rat

text \<open>A raised exception is the left summand, a returned value the right one.\<close>

definition res_bind :: "'e + 'a \<Rightarrow> ('a \<Rightarrow> 'e + 'b) \<Rightarrow> 'e + 'b" where
  "res_bind m f = (case m of Inl e \<Rightarrow> Inl e | Inr x \<Rightarrow> f x)"

definition res_guard :: "bool \<Rightarrow> 'e \<Rightarrow> 'e + unit" where
  "res_guard b e = (if b then Inr () else Inl e)"

definition res_of_option :: "'e \<Rightarrow> 'a option \<Rightarrow> 'e + 'a" where
  "res_of_option e x = (case x of None \<Rightarrow> Inl e | Some v \<Rightarrow> Inr v)"

lemma res_bind_simps [simp, res_simps]:
  "res_bind (Inl e) f = Inl e"
  "res_bind (Inr x) f = f x"
  by (simp_all add: res_bind_def)

lemma res_bind_Inr_iff [res_simps]: "res_bind m f = Inr y \<longleftrightarrow> (\<exists>x. m = Inr x \<and> f x = Inr y)"
  by (cases m) auto

lemma res_bind_Inl_iff [res_simps]:
  "res_bind m f = Inl e \<longleftrightarrow> m = Inl e \<or> (\<exists>x. m = Inr x \<and> f x = Inl e)"
  by (cases m) auto

lemma res_guard_iff [res_simps]:
  "res_guard b e = Inr u \<longleftrightarrow> b"
  "res_guard b e = Inl e' \<longleftrightarrow> \<not> b \<and> e' = e"
  by (auto simp: res_guard_def)

lemma res_guard_simps [simp]:
  "res_guard True e = Inr ()"
  "res_guard False e = Inl e"
  by (simp_all add: res_guard_def)

lemma res_of_option_iff [res_simps]:
  "res_of_option e x = Inr v \<longleftrightarrow> x = Some v"
  "res_of_option e x = Inl e' \<longleftrightarrow> x = None \<and> e' = e"
  by (auto simp: res_of_option_def split: option.splits)

lemma res_of_option_simps [simp]:
  "res_of_option e None = Inl e"
  "res_of_option e (Some v) = Inr v"
  by (simp_all add: res_of_option_def)

section \<open>Tables\<close>

text \<open>
  A table is the list of its rows in insertion order. \<open>get_row\<close> is a primary-key read
  (\<open>session.get\<close>), \<open>put_row\<close> rewrites the row with a given key, \<open>cas_row\<close> is
  \<open>UPDATE .. WHERE id = i AND version = v\<close> with its row count compared with 1.
\<close>

fun get_row :: "('r \<Rightarrow> ident) \<Rightarrow> 'r list \<Rightarrow> ident \<Rightarrow> 'r option" where
  "get_row key [] i = None"
| "get_row key (r # t) i = (if key r = i then Some r else get_row key t i)"

definition put_row :: "('r \<Rightarrow> ident) \<Rightarrow> 'r list \<Rightarrow> ident \<Rightarrow> ('r \<Rightarrow> 'r) \<Rightarrow> 'r list" where
  "put_row key t i f = map (\<lambda>r. if key r = i then f r else r) t"

definition cas_row ::
  "('r \<Rightarrow> ident) \<Rightarrow> ('r \<Rightarrow> int) \<Rightarrow> (int \<Rightarrow> 'r \<Rightarrow> 'r) \<Rightarrow> 'r list \<Rightarrow> ident \<Rightarrow> int \<Rightarrow> ('r \<Rightarrow> 'r)
   \<Rightarrow> 'r list option" where
  "cas_row key ver set_ver t i v upd =
     (if length (filter (\<lambda>r. key r = i \<and> ver r = v) t) = 1
      then Some (map (\<lambda>r. if key r = i \<and> ver r = v then set_ver (v + 1) (upd r) else r) t)
      else None)"

abbreviation keys_distinct :: "('r \<Rightarrow> ident) \<Rightarrow> 'r list \<Rightarrow> bool" where
  "keys_distinct key t \<equiv> distinct (map key t)"

text \<open>A row that some earlier read of the table may have returned.\<close>

definition snapshot_of :: "('r \<Rightarrow> ident) \<Rightarrow> ('r \<Rightarrow> int) \<Rightarrow> 'r list \<Rightarrow> 'r \<Rightarrow> bool" where
  "snapshot_of key ver t j \<longleftrightarrow>
     (\<exists>r. get_row key t (key j) = Some r \<and> ver j \<le> ver r \<and> (ver j = ver r \<longrightarrow> j = r))"

lemma get_row_SomeD: "get_row key t i = Some r \<Longrightarrow> r \<in> set t \<and> key r = i"
  by (induction t) (auto split: if_splits)

lemma get_row_None_iff: "get_row key t i = None \<longleftrightarrow> i \<notin> key ` set t"
  by (induction t) auto

lemma get_row_in_set: "keys_distinct key t \<Longrightarrow> r \<in> set t \<Longrightarrow> get_row key t (key r) = Some r"
  by (induction t) (auto simp: image_iff)

lemma get_row_iff: "keys_distinct key t \<Longrightarrow> get_row key t i = Some r \<longleftrightarrow> r \<in> set t \<and> key r = i"
  using get_row_SomeD get_row_in_set by fastforce

lemma get_row_append [table_simps]:
  "get_row key (t @ u) i = (case get_row key t i of None \<Rightarrow> get_row key u i | Some r \<Rightarrow> Some r)"
  by (induction t) auto

lemma get_put_row [table_simps]:
  assumes "\<And>r. key (f r) = key r"
  shows "get_row key (put_row key t i f) k =
    (if k = i then map_option f (get_row key t i) else get_row key t k)"
  by (induction t) (auto simp: put_row_def assms)

lemma map_key_put_row [table_simps]:
  assumes "\<And>r. key (f r) = key r"
  shows "map key (put_row key t i f) = map key t"
  by (induction t) (auto simp: put_row_def assms)

lemma length_put_row [simp]: "length (put_row key t i f) = length t"
  by (simp add: put_row_def)

lemma set_put_rowD:
  "r \<in> set (put_row key t i f) \<Longrightarrow>
     (r \<in> set t \<and> key r \<noteq> i) \<or> (\<exists>r0\<in>set t. key r0 = i \<and> r = f r0)"
  by (auto simp: put_row_def split: if_splits)

lemma put_row_const:
  assumes "keys_distinct key t" and "get_row key t i = Some r"
  shows "put_row key t i f = put_row key t i (\<lambda>_. f r)"
proof -
  have "\<And>x. x \<in> set t \<Longrightarrow> key x = i \<Longrightarrow> x = r"
    using get_row_in_set [OF assms(1)] assms(2) by fastforce
  then show ?thesis by (auto simp: put_row_def)
qed

lemma get_put_row_const [table_simps]:
  assumes "key r = i"
  shows "get_row key (put_row key t i (\<lambda>_. r)) k =
    (if k = i then map_option (\<lambda>_. r) (get_row key t i) else get_row key t k)"
  by (induction t) (auto simp: put_row_def assms)

lemma map_key_put_row_const [table_simps]:
  "key r = i \<Longrightarrow> map key (put_row key t i (\<lambda>_. r)) = map key t"
  by (induction t) (auto simp: put_row_def)

lemma map_put_row_const:
  assumes "keys_distinct key t" and "get_row key t i = Some r0" and "f r = f r0"
  shows "map f (put_row key t i (\<lambda>_. r)) = map f t"
proof -
  have "\<And>x. x \<in> set t \<Longrightarrow> key x = i \<Longrightarrow> x = r0"
    using get_row_in_set [OF assms(1)] assms(2) by fastforce
  then show ?thesis using assms(3) by (auto simp: put_row_def)
qed

lemma image_one_changed: "a \<in> A \<Longrightarrow> (\<lambda>x. if x = a then b else x) ` A = insert b (A - {a})"
  by auto

lemma set_put_row_const:
  assumes "keys_distinct key t" and "get_row key t i = Some r0"
  shows "set (put_row key t i (\<lambda>_. r)) = insert r (set t - {r0})"
proof -
  have r0: "r0 \<in> set t" "key r0 = i" using get_row_SomeD [OF assms(2)] by simp_all
  have i: "key x = i \<longleftrightarrow> x = r0" if "x \<in> set t" for x
    using get_row_in_set [OF assms(1) that] assms(2) r0(2) by (metis option.inject)
  have "set (put_row key t i (\<lambda>_. r)) = (\<lambda>x. if x = r0 then r else x) ` set t"
    using i by (simp add: put_row_def cong: image_cong)
  also have "\<dots> = insert r (set t - {r0})" using r0(1) by (rule image_one_changed)
  finally show ?thesis .
qed

lemma snapshot_of_refl: "keys_distinct key t \<Longrightarrow> r \<in> set t \<Longrightarrow> snapshot_of key ver t r"
  by (auto simp: snapshot_of_def get_row_in_set)

lemma cas_row_map:
  "cas_row key ver set_ver t i v upd = Some t' \<Longrightarrow> (\<And>r. f (set_ver (v + 1) (upd r)) = f r) \<Longrightarrow>
   map f t' = map f t"
  by (auto simp: cas_row_def split: if_splits)

section \<open>Versioned tables: the compare-and-set interface\<close>

locale versioned_table =
  fixes key :: "'r \<Rightarrow> ident"
    and ver :: "'r \<Rightarrow> int"
    and set_ver :: "int \<Rightarrow> 'r \<Rightarrow> 'r"
  assumes key_set_ver: "key (set_ver v r) = key r"
    and ver_set_ver: "ver (set_ver v r) = v"
begin

lemma filter_key_ver:
  assumes "keys_distinct key t"
  shows "filter (\<lambda>r. key r = i \<and> ver r = v) t =
    (case get_row key t i of None \<Rightarrow> [] | Some r \<Rightarrow> if ver r = v then [r] else [])"
  using assms
proof (induction t)
  case (Cons r t)
  show ?case
  proof (cases "key r = i")
    case True
    with Cons.prems have "get_row key t i = None" by (simp add: get_row_None_iff)
    with True Cons show ?thesis by simp
  next
    case False
    with Cons show ?thesis by simp
  qed
qed simp

lemma cas_row_eq:
  assumes d: "keys_distinct key t"
  shows "cas_row key ver set_ver t i v upd =
    (case get_row key t i of
       None \<Rightarrow> None
     | Some r \<Rightarrow> if ver r = v then Some (put_row key t i (\<lambda>r. set_ver (v + 1) (upd r))) else None)"
proof (cases "\<exists>r. get_row key t i = Some r \<and> ver r = v")
  case True
  then obtain r where r: "get_row key t i = Some r" "ver r = v" by blast
  then have "\<And>x. x \<in> set t \<Longrightarrow> key x = i \<Longrightarrow> ver x = v"
    using get_row_in_set [OF d] by fastforce
  then have "map (\<lambda>r. if key r = i \<and> ver r = v then set_ver (v + 1) (upd r) else r) t =
             put_row key t i (\<lambda>r. set_ver (v + 1) (upd r))"
    by (auto simp: put_row_def)
  with r show ?thesis by (simp add: cas_row_def filter_key_ver [OF d])
next
  case False
  then show ?thesis
    by (auto simp: cas_row_def filter_key_ver [OF d] split: option.splits)
qed

lemma cas_row_SomeE:
  assumes "cas_row key ver set_ver t i v upd = Some t'" and "keys_distinct key t"
  obtains r where "get_row key t i = Some r" "ver r = v"
    "t' = put_row key t i (\<lambda>r. set_ver (v + 1) (upd r))"
  using assms by (auto simp: cas_row_eq split: option.splits if_splits)

text \<open>A writer that read the version another writer has meanwhile replaced loses.\<close>

lemma cas_row_once:
  assumes "keys_distinct key t" and "\<And>r. key (upd r) = key r"
    and "cas_row key ver set_ver t i v upd = Some t'"
  shows "cas_row key ver set_ver t' i v upd' = None"
proof -
  from assms(3,1) obtain r where r: "get_row key t i = Some r"
    and t': "t' = put_row key t i (\<lambda>r. set_ver (v + 1) (upd r))"
    by (rule cas_row_SomeE)
  have k: "\<And>r. key (set_ver (v + 1) (upd r)) = key r" by (simp add: key_set_ver assms(2))
  have "keys_distinct key t'" using assms(1) by (simp add: t' map_key_put_row [where key = key, OF k])
  moreover have "get_row key t' i = Some (set_ver (v + 1) (upd r))"
    by (simp add: t' r get_put_row [where key = key, OF k])
  ultimately show ?thesis by (simp add: cas_row_eq ver_set_ver)
qed

text \<open>A compare-and-set that succeeds acted on the current row, not on a stale copy of it.\<close>

lemma cas_row_current:
  assumes "keys_distinct key t" and "snapshot_of key ver t j"
    and "cas_row key ver set_ver t (key j) (ver j) upd = Some t'"
  shows "get_row key t (key j) = Some j"
proof -
  from assms(3,1) obtain r where "get_row key t (key j) = Some r" "ver r = ver j"
    by (rule cas_row_SomeE)
  with assms(2) show ?thesis by (auto simp: snapshot_of_def)
qed

lemma cas_row_snapshotE:
  assumes "cas_row key ver set_ver t (key j) (ver j) upd = Some t'" and "keys_distinct key t"
    and "snapshot_of key ver t j"
  obtains "get_row key t (key j) = Some j" "t' = put_row key t (key j) (\<lambda>_. set_ver (ver j + 1) (upd j))"
proof -
  have g: "get_row key t (key j) = Some j" by (rule cas_row_current [OF assms(2,3,1)])
  from assms(1,2) obtain r where "t' = put_row key t (key j) (\<lambda>r. set_ver (ver j + 1) (upd r))"
    by (rule cas_row_SomeE)
  also note put_row_const [OF assms(2) g, of "\<lambda>r. set_ver (ver j + 1) (upd r)"]
  finally show ?thesis using g that by blast
qed

lemma cas_row_current_Some:
  assumes "keys_distinct key t" and "get_row key t (key j) = Some j"
  shows "cas_row key ver set_ver t (key j) (ver j) upd = Some (put_row key t (key j) (\<lambda>_. set_ver (ver j + 1) (upd j)))"
  unfolding cas_row_eq [OF assms(1)] put_row_const [OF assms, of "\<lambda>r. set_ver (ver j + 1) (upd r)", symmetric]
  using assms(2) by simp

lemma snapshot_of_put_row_const:
  assumes "snapshot_of key ver t r" and "get_row key t i = Some j" and "key j' = i" and "ver j' = ver j + 1"
  shows "snapshot_of key ver (put_row key t i (\<lambda>_. j')) r"
proof -
  note g = get_put_row_const [where key = key, OF assms(3)]
  show ?thesis
  proof (cases "key r = i")
    case True
    with assms show ?thesis by (auto simp: snapshot_of_def g)
  next
    case False
    with assms(1) show ?thesis by (simp add: snapshot_of_def g)
  qed
qed

lemma snapshot_of_put_row:
  assumes "snapshot_of key ver t j" and "\<And>r. key (upd r) = key r"
    and "get_row key t i = Some r0" and "ver r0 = v"
  shows "snapshot_of key ver (put_row key t i (\<lambda>r. set_ver (v + 1) (upd r))) j"
proof -
  have k: "\<And>r. key (set_ver (v + 1) (upd r)) = key r" by (simp add: key_set_ver assms(2))
  show ?thesis
    using assms(1,3,4)
    by (auto simp: snapshot_of_def get_put_row [where key = key, OF k] ver_set_ver)
qed

end

section \<open>Transition systems and invariants\<close>

inductive reach :: "('s \<Rightarrow> bool) \<Rightarrow> ('s \<Rightarrow> 's \<Rightarrow> bool) \<Rightarrow> 's \<Rightarrow> bool" for init step where
  reach_init [intro]: "init s \<Longrightarrow> reach init step s"
| reach_step [intro]: "reach init step s \<Longrightarrow> step s s' \<Longrightarrow> reach init step s'"

locale invariant_system =
  fixes init :: "'s \<Rightarrow> bool"
    and step :: "'s \<Rightarrow> 's \<Rightarrow> bool"
    and inv :: "'s \<Rightarrow> bool"
  assumes inv_init: "init s \<Longrightarrow> inv s"
    and inv_step: "inv s \<Longrightarrow> step s s' \<Longrightarrow> inv s'"
begin

lemma reach_inv: "reach init step s \<Longrightarrow> inv s"
  by (induction rule: reach.induct) (auto intro: inv_init inv_step)

lemma steps_inv: "step\<^sup>*\<^sup>* s s' \<Longrightarrow> inv s \<Longrightarrow> inv s'"
  by (induction rule: rtranclp_induct) (auto intro: inv_step)

end

end
