(* ===== verification/Canonical_Json.thy ===== *)
theory Canonical_Json
  imports Prelude "HOL-Library.Char_ord" "HOL-Library.List_Lexorder" "HOL-Library.Multiset"
begin

text \<open>
  JSON values and their serialisation as \<open>json.dumps\<close> performs it with
  \<open>sort_keys=True\<close> and the separators \<open>(",", ":")\<close>: the canonical text every digest of
  the program hashes. A dictionary is the association list of its items; \<open>canon\<close> sorts the
  items of every dictionary by key, \<open>ser\<close> prints. Characters are the code points up to 255,
  numbers are integers (the digests of the program hash no floats).

  The main fact is that the text determines the value (\<open>ser_inj\<close>): no two values share a
  serialisation, whatever follows them in the text.
\<close>

datatype json =
    JNull
  | JBool bool
  | JInt int
  | JStr string
  | JArr "json list"
  | JObj "(string \<times> json) list"

section \<open>Numbers\<close>

fun show_nat :: "nat \<Rightarrow> string" where
  "show_nat n = (if n < 10 then [char_of (48 + n)] else show_nat (n div 10) @ [char_of (48 + n mod 10)])"

declare show_nat.simps [simp del]

definition show_int :: "int \<Rightarrow> string" where
  "show_int i = (if i < 0 then CHR ''-'' # show_nat (nat (- i)) else show_nat (nat i))"

definition is_digit :: "char \<Rightarrow> bool" where
  "is_digit c \<longleftrightarrow> (48::nat) \<le> of_char c \<and> (of_char c :: nat) \<le> 57"

definition digits_value :: "string \<Rightarrow> nat" where
  "digits_value = foldl (\<lambda>a c. 10 * a + (of_char c - 48)) 0"

lemma of_char_digit: "n < 10 \<Longrightarrow> (of_char (char_of (48 + n) :: char) :: nat) = 48 + n"
  by simp

lemma show_nat_digits: "\<forall>c\<in>set (show_nat n). is_digit c"
proof (induction n rule: show_nat.induct)
  case (1 n)
  then show ?case
    by (subst show_nat.simps) (auto simp: is_digit_def of_char_digit)
qed

lemma show_nat_nonempty: "show_nat n \<noteq> []"
  by (subst show_nat.simps) simp

lemma digits_value_show_nat: "digits_value (show_nat n) = n"
proof (induction n rule: show_nat.induct)
  case (1 n)
  then show ?case
    by (subst show_nat.simps) (auto simp: digits_value_def of_char_digit)
qed

text \<open>What may follow a value in the text: nothing, or one of the characters \<open>, ] }\<close>.\<close>

definition delimited :: "string \<Rightarrow> bool" where
  "delimited r \<longleftrightarrow> r = [] \<or> hd r \<in> {CHR '','', CHR '']'', CHR ''}''}"

lemma delimited_not_digit: "delimited r \<Longrightarrow> r = [] \<or> \<not> is_digit (hd r)"
  by (auto simp: delimited_def is_digit_def)

lemma digit_block_unique:
  assumes "\<forall>c\<in>set a. is_digit c" "\<forall>c\<in>set b. is_digit c" "delimited r" "delimited r'"
    and "a @ r = b @ r'"
  shows "a = b \<and> r = r'"
proof -
  have "takeWhile is_digit (a @ r) = a" "takeWhile is_digit (b @ r') = b"
    using assms(1-4) delimited_not_digit [of r] delimited_not_digit [of r']
    by (cases r; cases r'; simp add: takeWhile_append2)+
  with assms(5) show ?thesis by auto
qed

lemma show_nat_unique:
  assumes "delimited r" "delimited r'" "show_nat m @ r = show_nat n @ r'"
  shows "m = n \<and> r = r'"
proof -
  have eq: "show_nat m = show_nat n \<and> r = r'"
    using digit_block_unique [OF show_nat_digits show_nat_digits assms] .
  then have "digits_value (show_nat m) = digits_value (show_nat n)" by metis
  then have "m = n" by (simp only: digits_value_show_nat)
  with eq show ?thesis by simp
qed

lemma show_nat_head: "show_nat n @ r = c # s \<Longrightarrow> is_digit c"
  using show_nat_digits [of n] show_nat_nonempty [of n] by (cases "show_nat n") auto

lemma minus_not_digit [simp]: "\<not> is_digit (CHR ''-'')"
  by (simp add: is_digit_def)

lemma show_int_unique:
  assumes "delimited r" "delimited r'" "show_int i @ r = show_int j @ r'"
  shows "i = j \<and> r = r'"
proof (cases "i < 0")
  case True
  show ?thesis
  proof (cases "j < 0")
    case True
    with \<open>i < 0\<close> assms show_nat_unique [OF assms(1,2), of "nat (- i)" "nat (- j)"]
    show ?thesis by (auto simp: show_int_def)
  next
    case False
    with \<open>i < 0\<close> assms(3) show ?thesis
      using show_nat_head [of "nat j" r'] by (fastforce simp: show_int_def dest: sym)
  qed
next
  case False
  show ?thesis
  proof (cases "j < 0")
    case True
    with \<open>\<not> i < 0\<close> assms(3) show ?thesis
      using show_nat_head [of "nat i" r] by (fastforce simp: show_int_def)
  next
    case False
    with \<open>\<not> i < 0\<close> assms show_nat_unique [OF assms(1,2), of "nat i" "nat j"]
    show ?thesis by (auto simp: show_int_def)
  qed
qed

lemma show_int_head: "show_int i @ r = c # s \<Longrightarrow> is_digit c \<or> c = CHR ''-''"
  by (auto simp: show_int_def dest: show_nat_head split: if_splits)

section \<open>Strings\<close>

definition hex_digit :: "nat \<Rightarrow> char" where
  "hex_digit n = (if n < 10 then char_of (48 + n) else char_of (87 + n))"

text \<open>
  The escapes of \<open>json.encoder\<close>. With \<open>ensure_ascii\<close> every character outside the range
  from space to tilde is written as a four-digit escape; without it only the control
  characters are.
\<close>

definition escape_char :: "bool \<Rightarrow> char \<Rightarrow> string" where
  "escape_char ascii c =
     (if c = CHR 0x22 then [CHR 0x5C, CHR 0x22]
      else if c = CHR 0x5C then [CHR 0x5C, CHR 0x5C]
      else if c = CHR 0x0A then [CHR 0x5C, CHR ''n'']
      else if c = CHR 0x0D then [CHR 0x5C, CHR ''r'']
      else if c = CHR 0x09 then [CHR 0x5C, CHR ''t'']
      else if c = CHR 0x0C then [CHR 0x5C, CHR ''f'']
      else if c = CHR 0x08 then [CHR 0x5C, CHR ''b'']
      else if (of_char c :: nat) < 32 \<or> (ascii \<and> 126 < (of_char c :: nat))
        then [CHR 0x5C, CHR ''u'', CHR ''0'', CHR ''0'',
              hex_digit (of_char c div 16), hex_digit (of_char c mod 16)]
      else [c])"

definition quote :: "bool \<Rightarrow> string \<Rightarrow> string" where
  "quote ascii s = CHR 0x22 # concat (map (escape_char ascii) s) @ [CHR 0x22]"

lemma hex_digit_inj: "m < 16 \<Longrightarrow> n < 16 \<Longrightarrow> hex_digit m = hex_digit n \<Longrightarrow> m = n"
proof -
  have v: "(of_char (hex_digit k) :: nat) = (if k < 10 then 48 + k else 87 + k)" if "k < 16" for k
    using that by (cases "k < 10") (simp_all add: hex_digit_def)
  assume b: "m < 16" "n < 16" and e: "hex_digit m = hex_digit n"
  have "(if m < 10 then 48 + m else 87 + m) = (if n < 10 then 48 + n else 87 + n)"
    using v [OF b(1)] v [OF b(2)] unfolding e by metis
  with b show "m = n" by (simp split: if_splits)
qed

lemma hex_pair_inj:
  assumes "hex_digit (of_char c div 16) = hex_digit (of_char d div 16)"
    and "hex_digit (of_char c mod 16) = hex_digit (of_char d mod 16)"
  shows "c = d"
proof -
  have b: "(of_char c :: nat) < 256" "(of_char d :: nat) < 256"
    by (rule nat_of_char_less_256)+
  have "(of_char c :: nat) div 16 < 16" "(of_char d :: nat) div 16 < 16"
    using b by linarith+
  then have "(of_char c :: nat) div 16 = of_char d div 16"
    using assms(1) by (rule hex_digit_inj)
  moreover have "(of_char c :: nat) mod 16 = of_char d mod 16"
    using assms(2) by (intro hex_digit_inj) auto
  ultimately have "(of_char c :: nat) = of_char d"
    by (metis div_mult_mod_eq)
  then show ?thesis by simp
qed

lemma escape_char_unique: "escape_char a c @ x = escape_char a d @ y \<Longrightarrow> c = d \<and> x = y"
  by (auto simp: escape_char_def split: if_splits dest: hex_pair_inj)

lemma escape_char_not_quote: "escape_char a c @ x \<noteq> CHR 0x22 # y"
  by (auto simp: escape_char_def)

lemma escaped_unique:
  "concat (map (escape_char a) s) @ CHR 0x22 # r = concat (map (escape_char a) t) @ CHR 0x22 # r'
   \<Longrightarrow> s = t \<and> r = r'"
proof (induction s arbitrary: t)
  case Nil
  then show ?case
    by (cases t) (auto dest: escape_char_not_quote [THEN notE, OF sym])
next
  case (Cons c s)
  show ?case
  proof (cases t)
    case Nil
    with Cons.prems show ?thesis by (auto dest: escape_char_not_quote [THEN notE])
  next
    case (Cons d u)
    with Cons.prems have "c = d \<and> concat (map (escape_char a) s) @ CHR 0x22 # r =
        concat (map (escape_char a) u) @ CHR 0x22 # r'"
      by (intro escape_char_unique [where a = a]) simp
    with Cons.IH [of u] Cons show ?thesis by simp
  qed
qed

lemma quote_unique: "quote a s @ r = quote a t @ r' \<Longrightarrow> s = t \<and> r = r'"
  using escaped_unique [of a s r t r'] by (simp add: quote_def)

section \<open>Values\<close>

lemma list_three_cases [case_names Empty One More]:
  obtains "xs = []" | x where "xs = [x]" | x y zs where "xs = x # y # zs"
  by (cases xs rule: remdups_adj.cases) auto

lemma field_three_cases [case_names Empty One More]:
  obtains "xs = []" | k x where "xs = [(k, x)]" | k x y zs where "xs = (k, x) # y # zs"
  by (cases xs rule: remdups_adj.cases) auto

fun ser :: "bool \<Rightarrow> json \<Rightarrow> string"
  and ser_items :: "bool \<Rightarrow> json list \<Rightarrow> string"
  and ser_fields :: "bool \<Rightarrow> (string \<times> json) list \<Rightarrow> string" where
  "ser a JNull = ''null''"
| "ser a (JBool b) = (if b then ''true'' else ''false'')"
| "ser a (JInt i) = show_int i"
| "ser a (JStr s) = quote a s"
| "ser a (JArr vs) = CHR ''['' # ser_items a vs"
| "ser a (JObj kvs) = CHR ''{'' # ser_fields a kvs"
| "ser_items a [] = '']''"
| "ser_items a [v] = ser a v @ '']''"
| "ser_items a (v # w # vs) = ser a v @ '','' @ ser_items a (w # vs)"
| "ser_fields a [] = ''}''"
| "ser_fields a [(k, v)] = quote a k @ '':'' @ ser a v @ ''}''"
| "ser_fields a ((k, v) # f # fs) = quote a k @ '':'' @ ser a v @ '','' @ ser_fields a (f # fs)"

fun canon :: "json \<Rightarrow> json" where
  "canon (JArr vs) = JArr (map canon vs)"
| "canon (JObj kvs) = JObj (sort_key fst (map (\<lambda>(k, v). (k, canon v)) kvs))"
| "canon v = v"

text \<open>The first character of a value's text tells its constructor.\<close>

lemma ser_head:
  "ser a v @ r = c # s \<Longrightarrow>
     c = (case v of JNull \<Rightarrow> CHR ''n'' | JBool b \<Rightarrow> if b then CHR ''t'' else CHR ''f''
          | JInt i \<Rightarrow> c | JStr s \<Rightarrow> CHR 0x22 | JArr vs \<Rightarrow> CHR ''['' | JObj kvs \<Rightarrow> CHR ''{'')
     \<and> (is_digit c \<or> c = CHR ''-'' \<longleftrightarrow> (\<exists>i. v = JInt i))"
  by (cases v) (auto simp: quote_def is_digit_def dest: show_int_head split: if_splits)

lemma ser_nonempty: "ser a v \<noteq> []"
  by (cases v) (auto simp: quote_def show_int_def show_nat_nonempty)

lemma ser_not_closing: "ser a v @ r = c # s \<Longrightarrow> c \<noteq> CHR '']'' \<and> c \<noteq> CHR ''}'' \<and> c \<noteq> CHR '',''"
  by (drule ser_head) (auto simp: is_digit_def split: json.splits if_splits)

lemma ser_no_bracket [simp]:
  "ser a v @ r \<noteq> CHR '']'' # s" "CHR '']'' # s \<noteq> ser a v @ r"
  using ser_not_closing [of a v r] by (metis, metis)

lemma delimited_closers [simp]:
  "delimited (CHR '']'' # r)" "delimited (CHR ''}'' # r)" "delimited (CHR '','' # r)" "delimited []"
  by (simp_all add: delimited_def)

lemma ser_same_shape:
  assumes "ser a v @ r = ser a w @ r'"
  shows "(v = JNull \<longleftrightarrow> w = JNull) \<and> (\<forall>b. v = JBool b \<longleftrightarrow> w = JBool b) \<and>
    ((\<exists>i. v = JInt i) \<longleftrightarrow> (\<exists>i. w = JInt i)) \<and> ((\<exists>s. v = JStr s) \<longleftrightarrow> (\<exists>s. w = JStr s)) \<and>
    ((\<exists>s. v = JArr s) \<longleftrightarrow> (\<exists>s. w = JArr s)) \<and> ((\<exists>s. v = JObj s) \<longleftrightarrow> (\<exists>s. w = JObj s))"
proof -
  obtain c s where c: "ser a v @ r = c # s"
    using ser_nonempty [of a v] by (cases "ser a v") auto
  from ser_head [OF c] ser_head [OF c [unfolded assms]] show ?thesis
    by (cases v; cases w) (auto simp: is_digit_def split: if_splits)
qed

lemma ser_unique:
  "delimited r \<Longrightarrow> delimited r' \<Longrightarrow> ser a v @ r = ser a w @ r' \<Longrightarrow> v = w \<and> r = r'"
  "ser_items a vs @ r = ser_items a ws @ r' \<Longrightarrow> vs = ws \<and> r = r'"
  "ser_fields a kvs @ r = ser_fields a lws @ r' \<Longrightarrow> kvs = lws \<and> r = r'"
proof (induction a v and a vs and a kvs arbitrary: w r r' and ws r r' and lws r r'
    rule: ser_ser_items_ser_fields.induct)
  case (1 a)
  with ser_same_shape [OF 1(3)] show ?case by auto
next
  case (2 a b)
  from ser_same_shape [OF 2(3)] have "w = JBool b" by blast
  with 2(3) show ?case by simp
next
  case (3 a i)
  from ser_same_shape [OF 3(3)] obtain j where w: "w = JInt j" by blast
  with 3 show_int_unique [of r r' i j] show ?case by simp
next
  case (4 a s)
  from ser_same_shape [OF 4(3)] obtain t where w: "w = JStr t" by blast
  with 4 quote_unique [of a s r t r'] show ?case by simp
next
  case (5 a vs)
  from ser_same_shape [OF 5(4)] obtain ws where w: "w = JArr ws" by blast
  with 5(4) have "ser_items a vs @ r = ser_items a ws @ r'" by simp
  with 5(1) w show ?case by blast
next
  case (6 a kvs)
  from ser_same_shape [OF 6(4)] obtain lws where w: "w = JObj lws" by blast
  with 6(4) have "ser_fields a kvs @ r = ser_fields a lws @ r'" by simp
  with 6(1) w show ?case by blast
next
  case (7 a)
  then show ?case
    by (cases ws rule: list_three_cases) auto
next
  case (8 a v)
  show ?case
  proof (cases ws rule: list_three_cases)
    case Empty
    with 8(2) show ?thesis by simp
  next
    case (One w)
    with 8(2) have "ser a v @ CHR '']'' # r = ser a w @ CHR '']'' # r'" by simp
    from 8(1) [OF _ _ this] One show ?thesis by simp
  next
    case (More w w' ws')
    with 8(2) have "ser a v @ CHR '']'' # r = ser a w @ CHR '','' # ser_items a (w' # ws') @ r'"
      by simp
    from 8(1) [OF _ _ this] show ?thesis by simp
  qed
next
  case (9 a v v' vs)
  show ?case
  proof (cases ws rule: list_three_cases)
    case Empty
    with 9(3) show ?thesis by simp
  next
    case (One w)
    with 9(3) have "ser a v @ CHR '','' # ser_items a (v' # vs) @ r = ser a w @ CHR '']'' # r'"
      by simp
    from 9(1) [OF _ _ this] show ?thesis by simp
  next
    case (More w w' ws')
    with 9(3) have "ser a v @ CHR '','' # ser_items a (v' # vs) @ r =
        ser a w @ CHR '','' # ser_items a (w' # ws') @ r'"
      by simp
    from 9(1) [OF _ _ this] have "v = w" "ser_items a (v' # vs) @ r = ser_items a (w' # ws') @ r'"
      by simp_all
    with 9(2) More show ?thesis by blast
  qed
next
  case (10 a)
  then show ?case
    by (cases lws rule: field_three_cases) (auto simp: quote_def)
next
  case (11 a k v)
  show ?case
  proof (cases lws rule: field_three_cases)
    case Empty
    with 11(2) show ?thesis by (simp add: quote_def)
  next
    case (One l w)
    with 11(2) have "quote a k @ CHR '':'' # ser a v @ CHR ''}'' # r =
        quote a l @ CHR '':'' # ser a w @ CHR ''}'' # r'" by simp
    from quote_unique [OF this] have "k = l" "ser a v @ CHR ''}'' # r = ser a w @ CHR ''}'' # r'"
      by simp_all
    with 11(1) [OF _ _ this(2)] One show ?thesis by simp
  next
    case (More l w f fs)
    with 11(2) have "quote a k @ CHR '':'' # ser a v @ CHR ''}'' # r =
        quote a l @ CHR '':'' # ser a w @ CHR '','' # ser_fields a (f # fs) @ r'" by simp
    from quote_unique [OF this]
    have "ser a v @ CHR ''}'' # r = ser a w @ CHR '','' # ser_fields a (f # fs) @ r'" by simp
    from 11(1) [OF _ _ this] show ?thesis by simp
  qed
next
  case (12 a k v g gs)
  show ?case
  proof (cases lws rule: field_three_cases)
    case Empty
    with 12(3) show ?thesis by (simp add: quote_def)
  next
    case (One l w)
    with 12(3) have "quote a k @ CHR '':'' # ser a v @ CHR '','' # ser_fields a (g # gs) @ r =
        quote a l @ CHR '':'' # ser a w @ CHR ''}'' # r'" by simp
    from quote_unique [OF this]
    have "ser a v @ CHR '','' # ser_fields a (g # gs) @ r = ser a w @ CHR ''}'' # r'" by simp
    from 12(1) [OF _ _ this] show ?thesis by simp
  next
    case (More l w f fs)
    with 12(3) have "quote a k @ CHR '':'' # ser a v @ CHR '','' # ser_fields a (g # gs) @ r =
        quote a l @ CHR '':'' # ser a w @ CHR '','' # ser_fields a (f # fs) @ r'" by simp
    from quote_unique [OF this] have "k = l"
      "ser a v @ CHR '','' # ser_fields a (g # gs) @ r = ser a w @ CHR '','' # ser_fields a (f # fs) @ r'"
      by simp_all
    moreover from 12(1) [OF _ _ this(2)]
    have "v = w" "ser_fields a (g # gs) @ r = ser_fields a (f # fs) @ r'" by simp_all
    moreover from 12(2) [OF this(2)] have "g # gs = f # fs" "r = r'" by simp_all
    ultimately show ?thesis using More by simp
  qed
qed

lemma ser_inj: "ser a v = ser a w \<Longrightarrow> v = w"
  using ser_unique(1) [of "[]" "[]" a v w] by simp

text \<open>\<open>json.dumps(v, sort_keys=True, separators=(",", ":"), ensure_ascii=ascii)\<close>.\<close>

definition json_dumps :: "bool \<Rightarrow> json \<Rightarrow> string" where
  "json_dumps ascii v = ser ascii (canon v)"

text \<open>\<open>str.encode("utf-8")\<close> on code points up to 255.\<close>

definition utf8_char :: "char \<Rightarrow> string" where
  "utf8_char c = (let n = of_char c :: nat in
     if n < 128 then [c] else [char_of (192 + n div 64), char_of (128 + n mod 64)])"

definition utf8 :: "string \<Rightarrow> string" where
  "utf8 s = concat (map utf8_char s)"

lemma utf8_char_unique: "utf8_char c @ x = utf8_char d @ y \<Longrightarrow> c = d \<and> x = y"
proof -
  assume e: "utf8_char c @ x = utf8_char d @ y"
  define m where "m = (of_char c :: nat)"
  define n where "n = (of_char d :: nat)"
  have b: "m < 256" "n < 256" by (simp_all add: m_def n_def)
  have hi: "(of_char (char_of (192 + k div 64) :: char) :: nat) = 192 + k div 64"
    "(of_char (char_of (128 + k mod 64) :: char) :: nat) = 128 + k mod 64" if "k < 256" for k :: nat
    using that by simp_all
  have "m = n \<and> x = y"
  proof (cases "m < 128"; cases "n < 128")
    assume "\<not> m < 128" "\<not> n < 128"
    with e have "(char_of (192 + m div 64) :: char) = char_of (192 + n div 64)"
      "(char_of (128 + m mod 64) :: char) = char_of (128 + n mod 64)" "x = y"
      by (auto simp: utf8_char_def m_def n_def Let_def simp del: char_of_eq_iff)
    then have "m div 64 = n div 64" "m mod 64 = n mod 64"
      using hi [OF b(1)] hi [OF b(2)] by (metis add_left_cancel)+
    with \<open>x = y\<close> show ?thesis by (metis div_mult_mod_eq)
  next
    assume "m < 128" "n < 128"
    with e show ?thesis by (simp add: utf8_char_def m_def n_def Let_def)
  next
    assume "m < 128" "\<not> n < 128"
    with e have "c = char_of (192 + n div 64)" by (simp add: utf8_char_def m_def n_def Let_def)
    then have "m = 192 + n div 64" using hi(1) [OF b(2)] by (metis m_def)
    with \<open>m < 128\<close> show ?thesis by simp
  next
    assume "\<not> m < 128" "n < 128"
    with e have "d = char_of (192 + m div 64)" by (simp add: utf8_char_def m_def n_def Let_def)
    then have "n = 192 + m div 64" using hi(1) [OF b(1)] by (metis n_def)
    with \<open>n < 128\<close> show ?thesis by simp
  qed
  then show ?thesis by (simp add: m_def n_def)
qed

lemma utf8_inj: "utf8 s = utf8 t \<Longrightarrow> s = t"
proof (induction s arbitrary: t)
  case Nil
  then show ?case by (cases t) (auto simp: utf8_def utf8_char_def Let_def split: if_splits)
next
  case (Cons c s)
  show ?case
  proof (cases t)
    case Nil
    with Cons.prems show ?thesis by (auto simp: utf8_def utf8_char_def Let_def split: if_splits)
  next
    case (Cons d u)
    with Cons.prems have "c = d \<and> utf8 s = utf8 u"
      by (intro utf8_char_unique) (simp add: utf8_def)
    with Cons.IH [of u] Cons show ?thesis by simp
  qed
qed

text \<open>Equal canonical texts, equal canonical values.\<close>

lemma json_dumps_inj: "utf8 (json_dumps a v) = utf8 (json_dumps a w) \<Longrightarrow> canon v = canon w"
  by (auto simp: json_dumps_def dest: utf8_inj ser_inj)

text \<open>Sorting the items makes the text independent of the order a dictionary was filled in.\<close>

lemma canon_obj_perm:
  assumes "mset kvs = mset lws" and "distinct (map fst kvs)"
  shows "canon (JObj kvs) = canon (JObj lws)"
proof -
  let ?f = "\<lambda>(k, v). (k, canon v)"
  have fst: "map fst (map ?f xs) = map fst xs" for xs :: "(string \<times> json) list"
    by (induction xs) auto
  have "mset (map ?f kvs) = mset (map ?f lws)" using assms(1) by (simp add: mset_map)
  moreover have "inj_on fst (set (map ?f kvs))"
    using assms(2) by (metis distinct_map fst)
  ultimately have "sort_key fst (map ?f kvs) = sort_key fst (map ?f lws)"
    by (intro sort_key_inj_key_eq) (simp_all only: mset_sort sorted_sort_key)
  then show ?thesis by simp
qed

end
