(* ===== verification/Outbox.thy ===== *)
theory Outbox
  imports Canonical_Json
begin

text \<open>
  The transactional outbox: the \<open>OutboxEvent\<close> rows of \<open>db/models.py\<close> with their unique
  constraint, and the relay of \<open>jobs/publisher.py\<close> that claims pending rows, hands their
  envelopes to a transport and records the delivery. The transport is an interface
  (\<open>outbox_transport\<close>), interpreted on the program's own \<open>MockTransport\<close>.
\<close>

section \<open>Rows\<close>

datatype delivery_state = Pending | Publishing | Delivered | Dead_letter

record outbox_event =
  ob_id :: ident
  ob_tenant_id :: ident
  ob_aggregate_type :: string
  ob_aggregate_id :: ident
  ob_aggregate_version :: int
  ob_event_type :: string
  ob_payload :: json
  ob_delivery_state :: delivery_state
  ob_attempts :: int
  ob_max_attempts :: int
  ob_available_at :: instant
  ob_delivered_at :: "instant option"
  ob_last_error_code :: "string option"
  ob_created_at :: instant
  ob_updated_at :: instant
  ob_version :: int

abbreviation set_ob_version :: "int \<Rightarrow> outbox_event \<Rightarrow> outbox_event" where
  "set_ob_version v e \<equiv> e\<lparr>ob_version := v\<rparr>"

text \<open>The columns of the constraint \<open>uq_outbox_aggregate_version_event\<close>.\<close>

definition ob_key :: "outbox_event \<Rightarrow> string \<times> ident \<times> int \<times> string" where
  "ob_key e = (ob_aggregate_type e, ob_aggregate_id e, ob_aggregate_version e, ob_event_type e)"

text \<open>An insert the database accepts only if the primary key and the constraint allow it.\<close>

definition outbox_insert :: "outbox_event list \<Rightarrow> outbox_event \<Rightarrow> outbox_event list option" where
  "outbox_insert t e =
     (if ob_id e \<in> ob_id ` set t \<or> ob_key e \<in> ob_key ` set t then None else Some (t @ [e]))"

interpretation outbox_table: versioned_table ob_id ob_version set_ob_version
  by unfold_locales simp_all

abbreviation outbox_wf :: "outbox_event list \<Rightarrow> bool" where
  "outbox_wf t \<equiv> distinct (map ob_id t) \<and> distinct (map ob_key t)"

lemma outbox_insert_wf: "outbox_wf t \<Longrightarrow> outbox_insert t e = Some t' \<Longrightarrow> outbox_wf t'"
  by (auto simp: outbox_insert_def split: if_splits)

section \<open>The relay\<close>

record publisher =
  pub_batch_size :: nat
  pub_max_attempts :: int
  pub_backoff_base :: duration
  pub_max_backoff :: duration

record claim =
  cl_event_id :: ident
  cl_envelope :: json

definition envelope :: "outbox_event \<Rightarrow> json" where
  "envelope row = JObj
     [(''event_id'', JStr (ob_id row)),
      (''tenant_id'', JStr (ob_tenant_id row)),
      (''aggregate_type'', JStr (ob_aggregate_type row)),
      (''aggregate_id'', JStr (ob_aggregate_id row)),
      (''aggregate_version'', JInt (ob_aggregate_version row)),
      (''event_type'', JStr (ob_event_type row)),
      (''payload'', ob_payload row)]"

text \<open>
  \<open>_cas\<close> reports whether the update applied. A read and the update that follows it are two
  statements, so every operation takes the table it read (\<open>snap\<close>) and the table it updates
  (\<open>cur\<close>); without a concurrent writer they are the same.
\<close>

definition pub_cas :: "outbox_event list \<Rightarrow> outbox_event \<Rightarrow> (outbox_event \<Rightarrow> outbox_event)
    \<Rightarrow> outbox_event list option" where
  "pub_cas cur row upd = cas_row ob_id ob_version set_ob_version cur (ob_id row) (ob_version row) upd"

definition pub_cas_ignore :: "outbox_event list \<Rightarrow> outbox_event \<Rightarrow> (outbox_event \<Rightarrow> outbox_event)
    \<Rightarrow> outbox_event list" where
  "pub_cas_ignore cur row upd = (case pub_cas cur row upd of None \<Rightarrow> cur | Some t \<Rightarrow> t)"

fun claim_rows :: "instant \<Rightarrow> outbox_event list \<Rightarrow> outbox_event list \<Rightarrow> outbox_event list \<times> claim list" where
  "claim_rows now [] cur = (cur, [])"
| "claim_rows now (row # rows) cur =
     (case pub_cas cur row (\<lambda>e. e\<lparr>ob_delivery_state := Publishing, ob_updated_at := now\<rparr>) of
        None \<Rightarrow> claim_rows now rows cur
      | Some t \<Rightarrow> (let (t', cs) = claim_rows now rows t in
          (t', \<lparr>cl_event_id = ob_id row, cl_envelope = envelope row\<rparr> # cs)))"

definition claimable :: "instant \<Rightarrow> outbox_event \<Rightarrow> bool" where
  "claimable now e \<longleftrightarrow> ob_delivery_state e = Pending \<and> ob_available_at e \<le> now"

definition claim_batch :: "publisher \<Rightarrow> instant \<Rightarrow> outbox_event list \<Rightarrow> outbox_event list
    \<Rightarrow> outbox_event list \<times> claim list" where
  "claim_batch pub now snap cur =
     claim_rows now
       (take (pub_batch_size pub) (sort_key ob_created_at (filter (claimable now) snap))) cur"

definition mark_delivered :: "instant \<Rightarrow> outbox_event list \<Rightarrow> outbox_event list \<Rightarrow> ident
    \<Rightarrow> outbox_event list" where
  "mark_delivered now snap cur i =
     (case get_row ob_id snap i of
        None \<Rightarrow> cur
      | Some row \<Rightarrow>
          if ob_delivery_state row = Delivered then cur
          else pub_cas_ignore cur row
            (\<lambda>e. e\<lparr>ob_delivery_state := Delivered, ob_attempts := ob_attempts row + 1,
                  ob_delivered_at := Some now, ob_updated_at := now\<rparr>))"

definition pub_backoff :: "publisher \<Rightarrow> int \<Rightarrow> duration" where
  "pub_backoff pub attempts =
     min (pub_backoff_base pub * 2 ^ nat (max (attempts - 1) 0)) (pub_max_backoff pub)"

definition record_failure :: "publisher \<Rightarrow> instant \<Rightarrow> outbox_event list \<Rightarrow> outbox_event list \<Rightarrow> ident
    \<Rightarrow> string \<Rightarrow> outbox_event list" where
  "record_failure pub now snap cur i exc_name =
     (case get_row ob_id snap i of
        None \<Rightarrow> cur
      | Some row \<Rightarrow> (let attempts = ob_attempts row + 1 in
          if attempts \<ge> pub_max_attempts pub then
            pub_cas_ignore cur row
              (\<lambda>e. e\<lparr>ob_delivery_state := Dead_letter, ob_attempts := attempts,
                    ob_last_error_code := Some (take 80 exc_name), ob_updated_at := now\<rparr>)
          else
            pub_cas_ignore cur row
              (\<lambda>e. e\<lparr>ob_delivery_state := Pending, ob_attempts := attempts,
                    ob_last_error_code := Some (take 80 exc_name),
                    ob_available_at := now + pub_backoff pub attempts, ob_updated_at := now\<rparr>)))"

text \<open>
  A transport publishes one envelope against the broker's state and either returns
  (\<open>None\<close>) or raises an exception of a given class name.
\<close>

type_synonym 'w transport = "json \<Rightarrow> 'w \<Rightarrow> string option \<times> 'w"

fun relay_claims :: "publisher \<Rightarrow> 'w transport \<Rightarrow> instant \<Rightarrow> claim list \<Rightarrow> outbox_event list \<Rightarrow> 'w
    \<Rightarrow> nat \<times> outbox_event list \<times> 'w" where
  "relay_claims pub publish now [] cur w = (0, cur, w)"
| "relay_claims pub publish now (c # cs) cur w =
     (case publish (cl_envelope c) w of
        (Some exc, w') \<Rightarrow>
          relay_claims pub publish now cs (record_failure pub now cur cur (cl_event_id c) exc) w'
      | (None, w') \<Rightarrow>
          (let (n, t, w'') = relay_claims pub publish now cs (mark_delivered now cur cur (cl_event_id c)) w'
           in (n + 1, t, w'')))"

definition relay_once :: "publisher \<Rightarrow> 'w transport \<Rightarrow> instant \<Rightarrow> outbox_event list \<Rightarrow> 'w
    \<Rightarrow> nat \<times> outbox_event list \<times> 'w" where
  "relay_once pub publish now t w =
     (let (t', cs) = claim_batch pub now t t in relay_claims pub publish now cs t' w)"

section \<open>The mock transport\<close>

record mock_transport =
  mt_fail_always :: bool
  mt_fail_times :: int
  mt_published :: "json list"
  mt_envelopes :: "json list"
  mt_failures :: int

text \<open>\<open>{**envelope, "status": "mock"}\<close>: a dictionary with one key set.\<close>

fun dict_set :: "(string \<times> json) list \<Rightarrow> string \<Rightarrow> json \<Rightarrow> (string \<times> json) list" where
  "dict_set [] k v = [(k, v)]"
| "dict_set ((k', v') # d) k v = (if k' = k then (k, v) # d else (k', v') # dict_set d k v)"

fun json_set :: "json \<Rightarrow> string \<Rightarrow> json \<Rightarrow> json" where
  "json_set (JObj d) k v = JObj (dict_set d k v)"
| "json_set j k v = j"

definition mock_publish :: "mock_transport transport" where
  "mock_publish env m =
     (if mt_fail_always m \<or> mt_failures m < mt_fail_times m
      then (Some ''TransportError'', m\<lparr>mt_failures := mt_failures m + 1\<rparr>)
      else (None, m\<lparr>mt_published := mt_published m @ [env],
                    mt_envelopes := mt_envelopes m @ [json_set env ''status'' (JStr ''mock'')]\<rparr>))"

section \<open>What the steps of the relay do to the table\<close>

lemma pub_cas_eq:
  assumes "keys_distinct ob_id t"
  shows "pub_cas t row upd =
    (case get_row ob_id t (ob_id row) of
       None \<Rightarrow> None
     | Some r \<Rightarrow> if ob_version r = ob_version row
         then Some (put_row ob_id t (ob_id row) (\<lambda>r. set_ob_version (ob_version row + 1) (upd r)))
         else None)"
  by (simp add: pub_cas_def outbox_table.cas_row_eq [OF assms])

lemma pub_cas_ignore_current:
  assumes "keys_distinct ob_id t" and "get_row ob_id t i = Some row"
  shows "pub_cas_ignore t row upd = put_row ob_id t i (\<lambda>r. set_ob_version (ob_version row + 1) (upd r))"
proof -
  have "ob_id row = i" using get_row_SomeD [OF assms(2)] by simp
  with assms show ?thesis by (simp add: pub_cas_ignore_def pub_cas_eq)
qed

definition delivered_row :: "instant \<Rightarrow> outbox_event \<Rightarrow> outbox_event" where
  "delivered_row now e =
     (if ob_delivery_state e = Delivered then e
      else e\<lparr>ob_delivery_state := Delivered, ob_attempts := ob_attempts e + 1,
             ob_delivered_at := Some now, ob_updated_at := now, ob_version := ob_version e + 1\<rparr>)"

definition failed_row :: "publisher \<Rightarrow> instant \<Rightarrow> string \<Rightarrow> outbox_event \<Rightarrow> outbox_event" where
  "failed_row pub now exc e =
     (if ob_attempts e + 1 \<ge> pub_max_attempts pub
      then e\<lparr>ob_delivery_state := Dead_letter, ob_attempts := ob_attempts e + 1,
             ob_last_error_code := Some (take 80 exc), ob_updated_at := now,
             ob_version := ob_version e + 1\<rparr>
      else e\<lparr>ob_delivery_state := Pending, ob_attempts := ob_attempts e + 1,
             ob_last_error_code := Some (take 80 exc),
             ob_available_at := now + pub_backoff pub (ob_attempts e + 1), ob_updated_at := now,
             ob_version := ob_version e + 1\<rparr>)"

lemma get_mark_delivered:
  assumes "keys_distinct ob_id t"
  shows "get_row ob_id (mark_delivered now t t i) k =
    (if k = i then map_option (delivered_row now) (get_row ob_id t i) else get_row ob_id t k)"
  using assms
  by (auto simp: mark_delivered_def delivered_row_def pub_cas_ignore_current get_put_row
      split: option.splits)

lemma get_record_failure:
  assumes "keys_distinct ob_id t"
  shows "get_row ob_id (record_failure pub now t t i exc) k =
    (if k = i then map_option (failed_row pub now exc) (get_row ob_id t i) else get_row ob_id t k)"
  using assms
  by (auto simp: record_failure_def failed_row_def pub_cas_ignore_current get_put_row Let_def
      split: option.splits)

lemma keys_mark_delivered [simp]:
  "keys_distinct ob_id t \<Longrightarrow> map ob_id (mark_delivered now t t i) = map ob_id t"
  by (auto simp: mark_delivered_def pub_cas_ignore_current map_key_put_row split: option.splits)

lemma keys_record_failure [simp]:
  "keys_distinct ob_id t \<Longrightarrow> map ob_id (record_failure pub now t t i exc) = map ob_id t"
  by (auto simp: record_failure_def pub_cas_ignore_current map_key_put_row Let_def split: option.splits)

text \<open>The envelope depends on columns no step writes.\<close>

lemma envelope_simps [simp]:
  "envelope (delivered_row now e) = envelope e"
  "envelope (failed_row pub now exc e) = envelope e"
  "envelope (e\<lparr>ob_delivery_state := s, ob_updated_at := n, ob_version := v\<rparr>) = envelope e"
  by (simp_all add: envelope_def delivered_row_def failed_row_def)

abbreviation publishing_row :: "instant \<Rightarrow> outbox_event \<Rightarrow> outbox_event" where
  "publishing_row now e \<equiv> e\<lparr>ob_delivery_state := Publishing, ob_updated_at := now\<rparr>"

lemma claim_cas_SomeE:
  assumes "pub_cas cur row (publishing_row now) = Some u" and "keys_distinct ob_id cur"
  obtains r where "get_row ob_id cur (ob_id row) = Some r" "ob_version r = ob_version row"
    "map ob_id u = map ob_id cur" "keys_distinct ob_id u"
    "\<forall>i. get_row ob_id u i = (if i = ob_id row
       then Some (set_ob_version (ob_version row + 1) (publishing_row now r)) else get_row ob_id cur i)"
  using assms by (auto simp: pub_cas_eq map_key_put_row get_put_row split: option.splits if_splits)

lemma claim_rows_effect:
  assumes "keys_distinct ob_id cur" and "distinct (map ob_id rows)"
    and "claim_rows now rows cur = (t, cs)"
  shows "map ob_id t = map ob_id cur \<and>
    (\<forall>i. i \<notin> cl_event_id ` set cs \<longrightarrow> get_row ob_id t i = get_row ob_id cur i) \<and>
    (\<forall>c\<in>set cs. \<exists>row\<in>set rows. \<exists>r. cl_event_id c = ob_id row \<and> cl_envelope c = envelope row \<and>
       get_row ob_id cur (ob_id row) = Some r \<and> ob_version r = ob_version row \<and>
       get_row ob_id t (ob_id row) = Some (set_ob_version (ob_version row + 1) (publishing_row now r)))"
  using assms
proof (induction rows arbitrary: cur t cs)
  case (Cons row rows)
  show ?case
  proof (cases "pub_cas cur row (publishing_row now)")
    case None
    with Cons.prems have "claim_rows now rows cur = (t, cs)" "distinct (map ob_id rows)" by simp_all
    from Cons.IH [OF Cons.prems(1) this(2,1)] show ?thesis by auto
  next
    case (Some u)
    from Some Cons.prems(1) obtain r where r: "get_row ob_id cur (ob_id row) = Some r"
      "ob_version r = ob_version row" "map ob_id u = map ob_id cur" "keys_distinct ob_id u"
      and u: "\<forall>i. get_row ob_id u i = (if i = ob_id row
         then Some (set_ob_version (ob_version row + 1) (publishing_row now r)) else get_row ob_id cur i)"
      by (rule claim_cas_SomeE)
    obtain ds where ds: "claim_rows now rows u = (t, ds)"
      and cs: "cs = \<lparr>cl_event_id = ob_id row, cl_envelope = envelope row\<rparr> # ds"
      using Some Cons.prems(3) by (auto split: prod.splits)
    have d: "distinct (map ob_id rows)" and fresh: "ob_id row \<notin> ob_id ` set rows"
      using Cons.prems(2) by auto
    note IH = Cons.IH [OF r(4) d ds]
    from IH fresh have "ob_id row \<notin> cl_event_id ` set ds" by fastforce
    with IH have "get_row ob_id t (ob_id row) = get_row ob_id u (ob_id row)" by blast
    with IH r u fresh show ?thesis unfolding cs by (fastforce simp: image_iff)
  qed
qed simp

definition batch_rows :: "publisher \<Rightarrow> instant \<Rightarrow> outbox_event list \<Rightarrow> outbox_event list" where
  "batch_rows pub now snap =
     take (pub_batch_size pub) (sort_key ob_created_at (filter (claimable now) snap))"

lemma batch_rows_claimable: "row \<in> set (batch_rows pub now snap) \<Longrightarrow> row \<in> set snap \<and> claimable now row"
  by (auto simp: batch_rows_def dest: in_set_takeD)

lemma batch_rows_distinct:
  assumes "keys_distinct ob_id snap"
  shows "distinct (map ob_id (batch_rows pub now snap))"
proof -
  let ?xs = "filter (claimable now) snap"
  have "inj_on ob_id (set (sort_key ob_created_at ?xs))" "distinct (sort_key ob_created_at ?xs)"
    using assms by (auto simp: distinct_map intro: inj_on_subset)
  then have "distinct (map ob_id (sort_key ob_created_at ?xs))" by (simp add: distinct_map)
  then show ?thesis by (simp add: batch_rows_def distinct_take take_map [symmetric])
qed

lemma claim_batch_rows: "claim_batch pub now snap cur = claim_rows now (batch_rows pub now snap) cur"
  by (simp add: claim_batch_def batch_rows_def)

lemma claim_batch_effect:
  assumes "keys_distinct ob_id cur" and "keys_distinct ob_id snap"
    and "claim_batch pub now snap cur = (t, cs)"
  shows "map ob_id t = map ob_id cur"
    and "i \<notin> cl_event_id ` set cs \<Longrightarrow> get_row ob_id t i = get_row ob_id cur i"
    and "c \<in> set cs \<Longrightarrow> \<exists>row\<in>set (batch_rows pub now snap). \<exists>r. cl_event_id c = ob_id row \<and>
       cl_envelope c = envelope row \<and> get_row ob_id cur (ob_id row) = Some r \<and> ob_version r = ob_version row \<and>
       get_row ob_id t (ob_id row) = Some (set_ob_version (ob_version row + 1) (publishing_row now r))"
  using claim_rows_effect [OF assms(1) batch_rows_distinct [OF assms(2), of pub now], of now t cs] assms(3)
  by (auto simp: claim_batch_rows)

text \<open>No step of the relay touches the identity of an event, whatever copy of the table it read.\<close>

abbreviation same_events :: "outbox_event list \<Rightarrow> outbox_event list \<Rightarrow> bool" where
  "same_events t u \<equiv> map ob_id t = map ob_id u \<and> map ob_key t = map ob_key u"

lemma pub_cas_same_events:
  "pub_cas t row upd = Some t' \<Longrightarrow> (\<And>e. ob_id (upd e) = ob_id e \<and> ob_key (upd e) = ob_key e) \<Longrightarrow>
   same_events t' t"
  unfolding pub_cas_def by (auto intro!: cas_row_map simp: ob_key_def)

lemma pub_cas_ignore_same_events:
  "(\<And>e. ob_id (upd e) = ob_id e \<and> ob_key (upd e) = ob_key e) \<Longrightarrow> same_events (pub_cas_ignore t row upd) t"
  by (auto simp: pub_cas_ignore_def dest: pub_cas_same_events split: option.splits)

lemma claim_rows_same_events: "same_events (fst (claim_rows now rows t)) t"
proof (induction rows arbitrary: t)
  case (Cons row rows)
  show ?case
  proof (cases "pub_cas t row (publishing_row now)")
    case None
    with Cons show ?thesis by simp
  next
    case (Some u)
    then have "same_events u t" by (rule pub_cas_same_events) (simp add: ob_key_def)
    with Some Cons [of u] show ?thesis by (simp add: case_prod_unfold Let_def)
  qed
qed simp

lemma relay_ops_same_events:
  "same_events (fst (claim_batch pub now snap cur)) cur"
  "same_events (mark_delivered now snap cur i) cur"
  "same_events (record_failure pub now snap cur i exc) cur"
  by (auto simp: claim_batch_def claim_rows_same_events mark_delivered_def record_failure_def Let_def ob_key_def
      intro!: pub_cas_ignore_same_events split: option.splits)

text \<open>A row that is already being published is never claimed.\<close>

lemma claim_batch_skips:
  assumes "keys_distinct ob_id t" and "get_row ob_id t i = Some e" and "\<not> claimable now e"
    and "claim_batch pub now t t = (t', cs)"
  shows "i \<notin> cl_event_id ` set cs"
proof
  assume "i \<in> cl_event_id ` set cs"
  then obtain c where c: "c \<in> set cs" "cl_event_id c = i" by auto
  with claim_batch_effect(3) [OF assms(1,1,4)] obtain row
    where row: "row \<in> set (batch_rows pub now t)" "ob_id row = i" by fastforce
  from batch_rows_claimable [OF row(1)] have "row \<in> set t" "claimable now row" by auto
  with get_row_in_set [OF assms(1)] row(2) assms(2,3) show False by fastforce
qed

lemma relay_claims_step:
  assumes "relay_claims pub publish now (c # cs) cur w = (n, t, w')"
  obtains exc w1 where "publish (cl_envelope c) w = (Some exc, w1)"
      "relay_claims pub publish now cs (record_failure pub now cur cur (cl_event_id c) exc) w1 = (n, t, w')"
  | w1 m where "publish (cl_envelope c) w = (None, w1)" "n = m + 1"
      "relay_claims pub publish now cs (mark_delivered now cur cur (cl_event_id c)) w1 = (m, t, w')"
  using assms by (auto split: prod.splits option.splits)

lemma relay_claims_other:
  "keys_distinct ob_id cur \<Longrightarrow> relay_claims pub publish now cs cur w = (n, t, w') \<Longrightarrow>
   i \<notin> cl_event_id ` set cs \<Longrightarrow> get_row ob_id t i = get_row ob_id cur i"
proof (induction cs arbitrary: cur w n)
  case (Cons c cs)
  from Cons.prems(2) show ?case
  proof (cases rule: relay_claims_step)
    case (1 exc w1)
    from Cons.IH [OF _ this(2)] Cons.prems show ?thesis by (simp add: get_record_failure)
  next
    case (2 w1 m)
    from Cons.IH [OF _ this(3)] Cons.prems show ?thesis by (simp add: get_mark_delivered)
  qed
qed simp



lemma relay_onceE:
  assumes "relay_once pub publish now t w = (n, t', w')"
  obtains t1 cs where "claim_batch pub now t t = (t1, cs)" "relay_claims pub publish now cs t1 w = (n, t', w')"
  using assms by (auto simp: relay_once_def split: prod.splits)


section \<open>The transport interface\<close>




section \<open>Concrete values for the witnesses\<close>

definition sample_publisher :: publisher where
  "sample_publisher = \<lparr>pub_batch_size = 100, pub_max_attempts = 8, pub_backoff_base = 0, pub_max_backoff = 600\<rparr>"

definition sample_event :: outbox_event where
  "sample_event = \<lparr>ob_id = ''e1'', ob_tenant_id = ''t1'', ob_aggregate_type = ''durable_job'',
     ob_aggregate_id = ''j1'', ob_aggregate_version = 1, ob_event_type = ''job.enqueued'',
     ob_payload = JObj [], ob_delivery_state = Pending, ob_attempts = 0, ob_max_attempts = 8,
     ob_available_at = 0, ob_delivered_at = None, ob_last_error_code = None,
     ob_created_at = 0, ob_updated_at = 0, ob_version = 1\<rparr>"

definition sample_mock :: mock_transport where
  "sample_mock = \<lparr>mt_fail_always = False, mt_fail_times = 0, mt_published = [], mt_envelopes = [], mt_failures = 0\<rparr>"

lemmas relay_eval = relay_once_def claim_batch_def claimable_def pub_cas_def cas_row_def
  mark_delivered_def record_failure_def pub_cas_ignore_def mock_publish_def
  sample_publisher_def sample_event_def sample_mock_def envelope_def

section \<open>Properties of the relay\<close>





text \<open>
  Two relays that read the same pending rows never both claim one of them: whatever the
  first claimed, the second, working from the same read, does not get.
\<close>

theorem claims_are_exclusive:
  assumes d: "keys_distinct ob_id snap" "keys_distinct ob_id t"
    and first: "claim_batch pub now snap t = (t1, cs1)"
    and second: "claim_batch pub' now' snap t1 = (t2, cs2)"
  shows "cl_event_id ` set cs1 \<inter> cl_event_id ` set cs2 = {}"
proof (rule equals0I)
  fix i assume "i \<in> cl_event_id ` set cs1 \<inter> cl_event_id ` set cs2"
  then obtain c1 c2 where c: "c1 \<in> set cs1" "c2 \<in> set cs2" "cl_event_id c1 = i" "cl_event_id c2 = i"
    by auto
  have d1: "keys_distinct ob_id t1" using d claim_batch_effect(1) [OF d(2,1) first] by simp
  from claim_batch_effect(3) [OF d(2,1) first c(1)] obtain row1 r1
    where r1: "row1 \<in> set snap" "ob_id row1 = i"
      "get_row ob_id t1 i = Some (set_ob_version (ob_version row1 + 1) (publishing_row now r1))"
    using batch_rows_claimable c(3) by (auto, blast)
  from claim_batch_effect(3) [OF d1 d(1) second c(2)] obtain row2 r2
    where r2: "row2 \<in> set snap" "ob_id row2 = i" "get_row ob_id t1 i = Some r2" "ob_version r2 = ob_version row2"
    using batch_rows_claimable c(4) by (auto, blast)
  have "row1 = row2"
    using get_row_in_set [OF d(1) r1(1)] get_row_in_set [OF d(1) r2(1)] r1(2) r2(2) by simp
  with r1(3) r2(3,4) show False by auto
qed

theorem claims_are_exclusive_witness:
  "let (t1, cs1) = claim_batch sample_publisher 5 [sample_event] [sample_event];
       (t2, cs2) = claim_batch sample_publisher 5 [sample_event] t1
   in map cl_event_id cs1 = [''e1''] \<and> cl_event_id ` set cs1 \<inter> cl_event_id ` set cs2 = {}"
proof -
  obtain t1 cs1 where a: "claim_batch sample_publisher 5 [sample_event] [sample_event] = (t1, cs1)"
    by (metis surj_pair)
  obtain t2 cs2 where b: "claim_batch sample_publisher 5 [sample_event] t1 = (t2, cs2)"
    by (metis surj_pair)
  have "map cl_event_id cs1 = [''e1'']" using a by (auto simp: relay_eval)
  with a b claims_are_exclusive [OF _ _ a b] show ?thesis by simp
qed

text \<open>
  A row in state \<open>Publishing\<close> at the start of a pass (what a crash between the claim
  and the publish leaves behind) is never claimed again: every later pass returns it
  unchanged, so its event is not published.
\<close>

theorem publishing_row_is_stranded:
  assumes d: "keys_distinct ob_id t" and i: "get_row ob_id t i = Some e"
    and st: "ob_delivery_state e = Publishing"
    and r: "relay_once pub publish now t w = (n, t', w')"
  shows "get_row ob_id t' i = Some e"
proof -
  from r obtain t1 cs where c: "claim_batch pub now t t = (t1, cs)"
    and rc: "relay_claims pub publish now cs t1 w = (n, t', w')" by (rule relay_onceE)
  have nc: "i \<notin> cl_event_id ` set cs"
    using claim_batch_skips [OF d i _ c] st by (simp add: claimable_def)
  have d1: "keys_distinct ob_id t1" using d claim_batch_effect(1) [OF d d c] by simp
  show ?thesis
    using relay_claims_other [OF d1 rc nc] claim_batch_effect(2) [OF d d c nc] i by simp
qed

theorem publishing_row_is_stranded_witness:
  "get_row ob_id (fst (snd (relay_once sample_publisher mock_publish 5
     [sample_event\<lparr>ob_delivery_state := Publishing\<rparr>] sample_mock))) ''e1'' =
   Some (sample_event\<lparr>ob_delivery_state := Publishing\<rparr>)"
proof -
  let ?e = "sample_event\<lparr>ob_delivery_state := Publishing\<rparr>"
  obtain n t' w' where r: "relay_once sample_publisher mock_publish 5 [?e] sample_mock = (n, t', w')"
    by (metis prod_cases3)
  have "get_row ob_id [?e] ''e1'' = Some ?e" by (simp add: sample_event_def)
  from publishing_row_is_stranded [OF _ this _ r] r show ?thesis by simp
qed

end
