(* ===== verification/Durable_Jobs.thy ===== *)
theory Durable_Jobs
  imports Outbox
begin

text \<open>
  The durable job state machine of \<open>jobs/service.py\<close> over the \<open>DurableJob\<close> and
  \<open>OutboxEvent\<close> rows. Every method reads rows and then updates them with a
  compare-and-set; between the two statements another process may commit. Each operation
  therefore takes the database it read (\<open>snap\<close>) and the database it writes to (\<open>cur\<close>): the
  sequential behaviour is the instance \<open>snap = cur\<close>, and the theorems quantify over every
  earlier database.

  The clock (\<open>now\<close>), the identifiers \<open>new_id\<close> would draw (\<open>jid\<close>, \<open>eid\<close>), the hash function
  and the jitter drawn by the random generator are arguments.
\<close>

section \<open>Rows and states\<close>

datatype job_state =
    Queued | Leased | Running | Cancel_requested | Succeeded
  | Recoverable_failed | Terminal_failed | Cancelled

definition JOB_TERMINAL_STATES :: "job_state set" where
  "JOB_TERMINAL_STATES = {Succeeded, Terminal_failed, Cancelled}"

definition LEASABLE_STATES :: "job_state set" where
  "LEASABLE_STATES = {Queued, Recoverable_failed}"

definition ACTIVE_STATES :: "job_state set" where
  "ACTIVE_STATES = {Leased, Running}"

lemmas job_state_sets [simp] = JOB_TERMINAL_STATES_def LEASABLE_STATES_def ACTIVE_STATES_def

record durable_job =
  job_id :: ident
  job_tenant_id :: ident
  job_run_id :: "ident option"
  job_kind :: string
  job_idempotency_key :: string
  job_payload_schema_version :: int
  job_payload_digest :: string
  job_payload :: json
  job_state :: job_state
  job_priority_lane :: string
  job_lease_owner :: "string option"
  job_lease_expires_at :: "instant option"
  job_heartbeat_at :: "instant option"
  job_attempts :: int
  job_max_attempts :: int
  job_available_at :: instant
  job_deadline_at :: "instant option"
  job_result_ref :: "string option"
  job_last_error_code :: "string option"
  job_created_at :: instant
  job_updated_at :: instant
  job_version :: int

abbreviation set_job_version :: "int \<Rightarrow> durable_job \<Rightarrow> durable_job" where
  "set_job_version v j \<equiv> j\<lparr>job_version := v\<rparr>"

interpretation job_table: versioned_table job_id job_version set_job_version
  by unfold_locales simp_all

record jobs_db =
  jobs :: "durable_job list"
  outbox :: "outbox_event list"

text \<open>The first four are the reasons of a \<open>JobStateError\<close>.\<close>

datatype job_error =
    Job_missing
  | Job_not_owned
  | Job_wrong_state job_state
  | Job_conflict
  | Idempotency_conflict
  | Integrity_error

section \<open>Configuration and backoff\<close>

record job_service =
  js_backoff_base :: duration
  js_max_backoff :: duration
  js_backoff_jitter :: rat

definition job_service_init :: "duration \<Rightarrow> duration \<Rightarrow> rat \<Rightarrow> job_service" where
  "job_service_init base maxb jitter =
     \<lparr>js_backoff_base = base, js_max_backoff = maxb, js_backoff_jitter = max 0 (min 1 jitter)\<rparr>"

text \<open>\<open>draw\<close> is the value of \<open>rng.uniform(-jitter, jitter)\<close>.\<close>

definition backoff_seconds :: "job_service \<Rightarrow> rat \<Rightarrow> int \<Rightarrow> duration" where
  "backoff_seconds svc draw attempts =
     (let base = min (js_backoff_base svc * 2 ^ nat (max (attempts - 1) 0)) (js_max_backoff svc)
      in if js_backoff_jitter svc \<noteq> 0 \<and> base > 0
         then min (max (base * (1 + draw)) 0) (js_max_backoff svc)
         else base)"

section \<open>Internals\<close>

definition job_digest :: "(string \<Rightarrow> string) \<Rightarrow> json \<Rightarrow> string" where
  "job_digest sha256 payload = sha256 (utf8 (json_dumps True payload))"

definition load_job :: "jobs_db \<Rightarrow> ident \<Rightarrow> job_error + durable_job" where
  "load_job db i = res_of_option Job_missing (get_row job_id (jobs db) i)"

definition load_owned :: "jobs_db \<Rightarrow> ident \<Rightarrow> string \<Rightarrow> job_state set \<Rightarrow> job_error + durable_job" where
  "load_owned db i worker states =
     res_bind (load_job db i) (\<lambda>job.
       if job_lease_owner job \<noteq> Some worker then Inl Job_not_owned
       else if job_state job \<notin> states then Inl (Job_wrong_state (job_state job))
       else Inr job)"

definition find_by_idempotency :: "jobs_db \<Rightarrow> ident \<Rightarrow> string \<Rightarrow> string \<Rightarrow> durable_job option" where
  "find_by_idempotency db tenant kind key =
     find (\<lambda>j. job_tenant_id j = tenant \<and> job_kind j = kind \<and> job_idempotency_key j = key) (jobs db)"

definition reconcile_idempotent :: "durable_job \<Rightarrow> string \<Rightarrow> job_error + durable_job" where
  "reconcile_idempotent existing digest =
     (if job_payload_digest existing \<noteq> digest then Inl Idempotency_conflict else Inr existing)"

definition job_cas :: "jobs_db \<Rightarrow> durable_job \<Rightarrow> (durable_job \<Rightarrow> durable_job)
    \<Rightarrow> job_error + durable_job list \<times> int" where
  "job_cas cur job upd =
     (case cas_row job_id job_version set_job_version (jobs cur) (job_id job) (job_version job) upd of
        None \<Rightarrow> Inl Job_conflict
      | Some t \<Rightarrow> Inr (t, job_version job + 1))"

definition AGGREGATE_TYPE :: string where
  "AGGREGATE_TYPE = ''durable_job''"

definition job_emit :: "instant \<Rightarrow> ident \<Rightarrow> durable_job \<Rightarrow> string \<Rightarrow> int \<Rightarrow> (string \<times> json) list
    \<Rightarrow> outbox_event" where
  "job_emit now eid job event_type aggregate_version extra =
     (let base = [(''job_id'', JStr (job_id job)), (''kind'', JStr (job_kind job)),
                  (''tenant_id'', JStr (job_tenant_id job))];
          base = (case job_run_id job of None \<Rightarrow> base | Some r \<Rightarrow> dict_set base ''run_id'' (JStr r));
          payload = fold (\<lambda>(k, v) d. dict_set d k v) extra base
      in \<lparr>ob_id = eid, ob_tenant_id = job_tenant_id job, ob_aggregate_type = AGGREGATE_TYPE,
          ob_aggregate_id = job_id job, ob_aggregate_version = aggregate_version,
          ob_event_type = event_type, ob_payload = JObj payload, ob_delivery_state = Pending,
          ob_attempts = 0, ob_max_attempts = 8, ob_available_at = now, ob_delivered_at = None,
          ob_last_error_code = None, ob_created_at = now, ob_updated_at = now, ob_version = 1\<rparr>)"

text \<open>Commit of a job update together with its event; then the row is read back.\<close>

definition commit_event :: "jobs_db \<Rightarrow> durable_job list \<Rightarrow> outbox_event \<Rightarrow> job_error + jobs_db" where
  "commit_event cur t ev =
     (case outbox_insert (outbox cur) ev of
        None \<Rightarrow> Inl Integrity_error
      | Some ob \<Rightarrow> Inr (cur\<lparr>jobs := t, outbox := ob\<rparr>))"

definition refresh :: "jobs_db \<Rightarrow> ident \<Rightarrow> job_error + jobs_db \<times> durable_job" where
  "refresh db i = res_bind (load_job db i) (\<lambda>job. Inr (db, job))"

section \<open>Reads\<close>

definition get_job :: "jobs_db \<Rightarrow> ident \<Rightarrow> durable_job option" where
  "get_job db i = get_row job_id (jobs db) i"

definition list_outbox :: "jobs_db \<Rightarrow> ident \<Rightarrow> outbox_event list" where
  "list_outbox db aggregate = filter (\<lambda>e. ob_aggregate_id e = aggregate) (outbox db)"

section \<open>Enqueue\<close>

definition new_job :: "instant \<Rightarrow> ident \<Rightarrow> ident \<Rightarrow> ident option \<Rightarrow> string \<Rightarrow> string \<Rightarrow> int \<Rightarrow> string
    \<Rightarrow> json \<Rightarrow> string \<Rightarrow> int \<Rightarrow> durable_job" where
  "new_job now jid tenant run kind key schema digest payload lane max_attempts =
     \<lparr>job_id = jid, job_tenant_id = tenant, job_run_id = run, job_kind = kind,
      job_idempotency_key = key, job_payload_schema_version = schema,
      job_payload_digest = digest, job_payload = payload, job_state = Queued,
      job_priority_lane = lane, job_lease_owner = None, job_lease_expires_at = None,
      job_heartbeat_at = None, job_attempts = 0, job_max_attempts = max_attempts,
      job_available_at = now, job_deadline_at = None, job_result_ref = None,
      job_last_error_code = None, job_created_at = now, job_updated_at = now, job_version = 1\<rparr>"

text \<open>
  The row is inserted by \<open>session.flush()\<close>, before the \<open>try\<close> block: a violation of the
  primary key or of \<open>uq_durable_jobs_idem\<close> is raised there. Only a failure of the commit
  (the outbox insert) reaches the handler that re-reads the winner.
\<close>

definition enqueue :: "(string \<Rightarrow> string) \<Rightarrow> jobs_db \<Rightarrow> jobs_db \<Rightarrow> instant \<Rightarrow> ident \<Rightarrow> ident \<Rightarrow> ident
    \<Rightarrow> string \<Rightarrow> json \<Rightarrow> string \<Rightarrow> ident option \<Rightarrow> int \<Rightarrow> string \<Rightarrow> int
    \<Rightarrow> job_error + jobs_db \<times> durable_job" where
  "enqueue sha256 snap cur now jid eid tenant kind payload key run max_attempts lane schema =
     (let digest = job_digest sha256 payload in
      case find_by_idempotency snap tenant kind key of
        Some existing \<Rightarrow> res_bind (reconcile_idempotent existing digest) (\<lambda>j. Inr (cur, j))
      | None \<Rightarrow>
          (let job = new_job now jid tenant run kind key schema digest payload lane max_attempts in
           if jid \<in> job_id ` set (jobs cur) \<or> find_by_idempotency cur tenant kind key \<noteq> None
           then Inl Integrity_error
           else (case outbox_insert (outbox cur)
                        (job_emit now eid job ''job.enqueued'' (job_version job) []) of
                   Some ob \<Rightarrow> Inr (cur\<lparr>jobs := jobs cur @ [job], outbox := ob\<rparr>, job)
                 | None \<Rightarrow>
                     (case find_by_idempotency cur tenant kind key of
                        None \<Rightarrow> Inl Integrity_error
                      | Some collided \<Rightarrow>
                          res_bind (reconcile_idempotent collided digest) (\<lambda>j. Inr (cur, j))))))"

section \<open>Lease and run lifecycle\<close>

definition leasable :: "instant \<Rightarrow> string list option \<Rightarrow> durable_job \<Rightarrow> bool" where
  "leasable now lanes j \<longleftrightarrow>
     job_state j \<in> LEASABLE_STATES \<and> job_available_at j \<le> now \<and>
     (case lanes of None \<Rightarrow> True | Some ls \<Rightarrow> job_priority_lane j \<in> set ls)"

definition lease_candidates :: "instant \<Rightarrow> string list option \<Rightarrow> jobs_db \<Rightarrow> durable_job list" where
  "lease_candidates now lanes db =
     sort_key (\<lambda>j. (job_available_at j, job_created_at j)) (filter (leasable now lanes) (jobs db))"

fun lease_first :: "instant \<Rightarrow> string \<Rightarrow> instant \<Rightarrow> durable_job list \<Rightarrow> jobs_db
    \<Rightarrow> jobs_db \<times> durable_job option" where
  "lease_first now worker expires [] cur = (cur, None)"
| "lease_first now worker expires (job # rest) cur =
     (case cas_row job_id job_version set_job_version (jobs cur) (job_id job) (job_version job)
             (\<lambda>j. j\<lparr>job_state := Leased, job_lease_owner := Some worker,
                    job_lease_expires_at := Some expires, job_heartbeat_at := Some now,
                    job_attempts := job_attempts j + 1, job_updated_at := now\<rparr>) of
        None \<Rightarrow> lease_first now worker expires rest cur
      | Some t \<Rightarrow> (cur\<lparr>jobs := t\<rparr>, get_row job_id t (job_id job)))"

definition lease :: "jobs_db \<Rightarrow> jobs_db \<Rightarrow> instant \<Rightarrow> string \<Rightarrow> duration \<Rightarrow> string list option
    \<Rightarrow> jobs_db \<times> durable_job option" where
  "lease snap cur now worker lease_seconds lanes =
     lease_first now worker (now + lease_seconds) (lease_candidates now lanes snap) cur"

definition heartbeat :: "jobs_db \<Rightarrow> jobs_db \<Rightarrow> instant \<Rightarrow> ident \<Rightarrow> string \<Rightarrow> duration
    \<Rightarrow> job_error + jobs_db \<times> durable_job" where
  "heartbeat snap cur now i worker lease_seconds =
     res_bind (load_owned snap i worker ACTIVE_STATES) (\<lambda>job.
     res_bind (job_cas cur job (\<lambda>j. j\<lparr>job_heartbeat_at := Some now,
         job_lease_expires_at := Some (now + lease_seconds), job_updated_at := now\<rparr>)) (\<lambda>(t, v).
     refresh (cur\<lparr>jobs := t\<rparr>) i))"

definition start :: "jobs_db \<Rightarrow> jobs_db \<Rightarrow> instant \<Rightarrow> ident \<Rightarrow> string
    \<Rightarrow> job_error + jobs_db \<times> durable_job" where
  "start snap cur now i worker =
     res_bind (load_owned snap i worker {Leased}) (\<lambda>job.
     if job_state job = Running then Inr (cur, job) else
     res_bind (job_cas cur job (\<lambda>j. j\<lparr>job_state := Running, job_updated_at := now\<rparr>)) (\<lambda>(t, v).
     refresh (cur\<lparr>jobs := t\<rparr>) i))"

definition complete :: "jobs_db \<Rightarrow> jobs_db \<Rightarrow> instant \<Rightarrow> ident \<Rightarrow> ident \<Rightarrow> string \<Rightarrow> string option
    \<Rightarrow> job_error + jobs_db \<times> durable_job" where
  "complete snap cur now eid i worker result =
     res_bind (load_job snap i) (\<lambda>job.
     if job_state job = Succeeded then Inr (cur, job)
     else if job_lease_owner job \<noteq> Some worker then Inl Job_not_owned
     else if job_state job \<noteq> Running then Inl (Job_wrong_state (job_state job))
     else res_bind (job_cas cur job (\<lambda>j. j\<lparr>job_state := Succeeded, job_result_ref := result,
         job_updated_at := now\<rparr>)) (\<lambda>(t, v).
     res_bind (commit_event cur t (job_emit now eid job ''job.succeeded'' v [])) (\<lambda>db.
     refresh db i)))"

definition fail :: "job_service \<Rightarrow> rat \<Rightarrow> jobs_db \<Rightarrow> jobs_db \<Rightarrow> instant \<Rightarrow> ident \<Rightarrow> ident \<Rightarrow> string
    \<Rightarrow> string \<Rightarrow> bool \<Rightarrow> job_error + jobs_db \<times> durable_job" where
  "fail svc draw snap cur now eid i worker error_code recoverable =
     res_bind (load_owned snap i worker ACTIVE_STATES) (\<lambda>job.
     if recoverable \<and> job_attempts job < job_max_attempts job then
       res_bind (job_cas cur job (\<lambda>j. j\<lparr>job_state := Recoverable_failed,
           job_last_error_code := Some error_code, job_lease_owner := None,
           job_lease_expires_at := None,
           job_available_at := now + backoff_seconds svc draw (job_attempts job),
           job_updated_at := now\<rparr>)) (\<lambda>(t, v).
       res_bind (commit_event cur t (job_emit now eid job ''job.recoverable_failed'' v [])) (\<lambda>db.
       refresh db i))
     else
       res_bind (job_cas cur job (\<lambda>j. j\<lparr>job_state := Terminal_failed,
           job_last_error_code := Some error_code, job_lease_owner := None,
           job_lease_expires_at := None, job_updated_at := now\<rparr>)) (\<lambda>(t, v).
       res_bind (commit_event cur t (job_emit now eid job ''job.terminal_failed'' v [])) (\<lambda>db.
       refresh db i)))"

section \<open>Cancellation\<close>

definition request_cancel :: "jobs_db \<Rightarrow> jobs_db \<Rightarrow> instant \<Rightarrow> ident \<Rightarrow> ident
    \<Rightarrow> job_error + jobs_db \<times> durable_job" where
  "request_cancel snap cur now eid i =
     res_bind (load_job snap i) (\<lambda>job.
     if job_state job = Cancel_requested then Inr (cur, job)
     else if job_state job \<in> JOB_TERMINAL_STATES then Inl (Job_wrong_state (job_state job))
     else res_bind (job_cas cur job (\<lambda>j. j\<lparr>job_state := Cancel_requested, job_updated_at := now\<rparr>)) (\<lambda>(t, v).
     res_bind (commit_event cur t (job_emit now eid job ''job.cancel_requested'' v [])) (\<lambda>db.
     refresh db i)))"

definition finalize_cancel :: "jobs_db \<Rightarrow> jobs_db \<Rightarrow> instant \<Rightarrow> ident \<Rightarrow> ident
    \<Rightarrow> job_error + jobs_db \<times> durable_job" where
  "finalize_cancel snap cur now eid i =
     res_bind (load_job snap i) (\<lambda>job.
     if job_state job = Cancelled then Inr (cur, job)
     else if job_state job \<noteq> Cancel_requested then Inl (Job_wrong_state (job_state job))
     else res_bind (job_cas cur job (\<lambda>j. j\<lparr>job_state := Cancelled, job_lease_owner := None,
         job_lease_expires_at := None, job_updated_at := now\<rparr>)) (\<lambda>(t, v).
     res_bind (commit_event cur t (job_emit now eid job ''job.cancelled'' v [])) (\<lambda>db.
     refresh db i)))"

section \<open>Recovery\<close>

definition lease_expired :: "instant \<Rightarrow> durable_job \<Rightarrow> bool" where
  "lease_expired now j \<longleftrightarrow>
     job_state j \<in> ACTIVE_STATES \<and>
     (case job_lease_expires_at j of None \<Rightarrow> False | Some x \<Rightarrow> x < now)"

text \<open>
  One pass of the sweep's loop; \<open>fresh\<close> gives the identifier of the event drawn for a job. The
  branch on \<open>new_version is None\<close> is never taken: \<open>_cas\<close> raises on a conflict, and the
  transaction is rolled back with everything reaped so far.
\<close>

fun reap_rows :: "instant \<Rightarrow> (ident \<Rightarrow> ident) \<Rightarrow> durable_job list \<Rightarrow> jobs_db
    \<Rightarrow> job_error + jobs_db" where
  "reap_rows now fresh [] cur = Inr cur"
| "reap_rows now fresh (job # rest) cur =
     (if job_attempts job < job_max_attempts job then
        res_bind (job_cas cur job (\<lambda>j. j\<lparr>job_state := Recoverable_failed,
            job_last_error_code := Some ''LEASE_EXPIRED'', job_lease_owner := None,
            job_lease_expires_at := None, job_available_at := now, job_updated_at := now\<rparr>)) (\<lambda>(t, v).
        res_bind (commit_event cur t
            (job_emit now (fresh (job_id job)) job ''job.recoverable_failed'' v [])) (\<lambda>db.
        reap_rows now fresh rest db))
      else
        res_bind (job_cas cur job (\<lambda>j. j\<lparr>job_state := Terminal_failed,
            job_last_error_code := Some ''LEASE_EXPIRED'', job_lease_owner := None,
            job_lease_expires_at := None, job_updated_at := now\<rparr>)) (\<lambda>(t, v).
        res_bind (commit_event cur t
            (job_emit now (fresh (job_id job)) job ''job.terminal_failed'' v [])) (\<lambda>db.
        reap_rows now fresh rest db)))"

definition reap_expired_leases :: "jobs_db \<Rightarrow> jobs_db \<Rightarrow> instant \<Rightarrow> (ident \<Rightarrow> ident)
    \<Rightarrow> job_error + jobs_db \<times> durable_job list" where
  "reap_expired_leases snap cur now fresh =
     (let expired = filter (lease_expired now) (jobs snap) in
      res_bind (reap_rows now fresh expired cur) (\<lambda>db.
      Inr (db, List.map_filter (\<lambda>j. get_row job_id (jobs db) (job_id j)) expired)))"

section \<open>Abstract specification: one row moves at a time\<close>

text \<open>
  What the service promises: a row is inserted queued, and afterwards moves along the
  transitions below, each one bumping the version, with at most one event, named after the
  new state and carrying the new version.
\<close>

inductive job_row_step :: "durable_job \<Rightarrow> durable_job \<Rightarrow> string option \<Rightarrow> bool" where
  row_lease: "job_state j \<in> LEASABLE_STATES \<Longrightarrow>
    job_row_step j (j\<lparr>job_state := Leased, job_lease_owner := Some w, job_lease_expires_at := Some x,
      job_heartbeat_at := Some n, job_attempts := job_attempts j + 1, job_updated_at := n,
      job_version := job_version j + 1\<rparr>) None"
| row_heartbeat: "job_state j \<in> ACTIVE_STATES \<Longrightarrow> job_lease_owner j \<noteq> None \<Longrightarrow>
    job_row_step j (j\<lparr>job_heartbeat_at := Some n, job_lease_expires_at := Some x,
      job_updated_at := n, job_version := job_version j + 1\<rparr>) None"
| row_start: "job_state j = Leased \<Longrightarrow>
    job_row_step j (j\<lparr>job_state := Running, job_updated_at := n, job_version := job_version j + 1\<rparr>) None"
| row_complete: "job_state j = Running \<Longrightarrow>
    job_row_step j (j\<lparr>job_state := Succeeded, job_result_ref := r, job_updated_at := n,
      job_version := job_version j + 1\<rparr>) (Some ''job.succeeded'')"
| row_requeue: "job_state j \<in> ACTIVE_STATES \<Longrightarrow> job_attempts j < job_max_attempts j \<Longrightarrow>
    job_row_step j (j\<lparr>job_state := Recoverable_failed, job_last_error_code := Some c,
      job_lease_owner := None, job_lease_expires_at := None, job_available_at := a,
      job_updated_at := n, job_version := job_version j + 1\<rparr>) (Some ''job.recoverable_failed'')"
| row_give_up: "job_state j \<in> ACTIVE_STATES \<Longrightarrow>
    job_row_step j (j\<lparr>job_state := Terminal_failed, job_last_error_code := Some c,
      job_lease_owner := None, job_lease_expires_at := None, job_updated_at := n,
      job_version := job_version j + 1\<rparr>) (Some ''job.terminal_failed'')"
| row_cancel: "job_state j \<notin> JOB_TERMINAL_STATES \<Longrightarrow> job_state j \<noteq> Cancel_requested \<Longrightarrow>
    job_row_step j (j\<lparr>job_state := Cancel_requested, job_updated_at := n,
      job_version := job_version j + 1\<rparr>) (Some ''job.cancel_requested'')"
| row_cancelled: "job_state j = Cancel_requested \<Longrightarrow>
    job_row_step j (j\<lparr>job_state := Cancelled, job_lease_owner := None, job_lease_expires_at := None,
      job_updated_at := n, job_version := job_version j + 1\<rparr>) (Some ''job.cancelled'')"

inductive job_spec_step :: "jobs_db \<Rightarrow> jobs_db \<Rightarrow> bool" where
  spec_insert: "job_id j \<notin> job_id ` set (jobs db) \<Longrightarrow>
    find_by_idempotency db (job_tenant_id j) (job_kind j) (job_idempotency_key j) = None \<Longrightarrow>
    j = new_job now jid tenant run kind key schema digest payload lane max_attempts \<Longrightarrow>
    outbox_insert (outbox db) (job_emit now eid j ''job.enqueued'' (job_version j) []) = Some ob \<Longrightarrow>
    job_spec_step db (db\<lparr>jobs := jobs db @ [j], outbox := ob\<rparr>)"
| spec_quiet: "get_row job_id (jobs db) i = Some j \<Longrightarrow> job_row_step j j' None \<Longrightarrow>
    job_spec_step db (db\<lparr>jobs := put_row job_id (jobs db) i (\<lambda>_. j')\<rparr>)"
| spec_event: "get_row job_id (jobs db) i = Some j \<Longrightarrow> job_row_step j j' (Some ty) \<Longrightarrow>
    outbox_insert (outbox db) (job_emit now eid j ty (job_version j') []) = Some ob \<Longrightarrow>
    job_spec_step db (db\<lparr>jobs := put_row job_id (jobs db) i (\<lambda>_. j'), outbox := ob\<rparr>)"
| spec_relay: "map ob_id ob = map ob_id (outbox db) \<Longrightarrow> map ob_key ob = map ob_key (outbox db) \<Longrightarrow>
    job_spec_step db (db\<lparr>outbox := ob\<rparr>)"

inductive_simps job_row_step_quiet: "job_row_step j j' None"
inductive_cases job_spec_stepE: "job_spec_step db db'"

text \<open>What no transition of a row touches.\<close>

lemma job_row_step_frame:
  assumes "job_row_step j j' ev"
  shows "job_id j' = job_id j" "job_tenant_id j' = job_tenant_id j" "job_kind j' = job_kind j"
    "job_idempotency_key j' = job_idempotency_key j" "job_payload j' = job_payload j"
    "job_payload_digest j' = job_payload_digest j" "job_max_attempts j' = job_max_attempts j"
    "job_version j' = job_version j + 1" "job_state j \<notin> JOB_TERMINAL_STATES"
  using assms by (induction rule: job_row_step.induct) auto

section \<open>The operations implement the specification\<close>

definition jobs_wf :: "jobs_db \<Rightarrow> bool" where
  "jobs_wf db \<longleftrightarrow> keys_distinct job_id (jobs db) \<and> outbox_wf (outbox db)"

text \<open>Every row of \<open>snap\<close> is a row an earlier read of \<open>cur\<close> may have returned.\<close>

definition job_snapshot :: "jobs_db \<Rightarrow> jobs_db \<Rightarrow> bool" where
  "job_snapshot snap cur \<longleftrightarrow>
     keys_distinct job_id (jobs snap) \<and> (\<forall>j\<in>set (jobs snap). snapshot_of job_id job_version (jobs cur) j)"

lemma job_snapshot_refl: "jobs_wf db \<Longrightarrow> job_snapshot db db"
  by (simp add: job_snapshot_def jobs_wf_def snapshot_of_refl)

lemma job_cas_InrD:
  assumes "jobs_wf cur" and "snapshot_of job_id job_version (jobs cur) job"
    and "\<And>j. job_id (upd j) = job_id j" and "job_cas cur job upd = Inr (t, v)"
  shows "get_row job_id (jobs cur) (job_id job) = Some job" "v = job_version job + 1"
    "t = put_row job_id (jobs cur) (job_id job) (\<lambda>_. set_job_version (job_version job + 1) (upd job))"
proof -
  have d: "keys_distinct job_id (jobs cur)" using assms(1) by (simp add: jobs_wf_def)
  have c: "cas_row job_id job_version set_job_version (jobs cur) (job_id job) (job_version job) upd = Some t"
    and "v = job_version job + 1" using assms(4) by (auto simp: job_cas_def split: option.splits)
  then show "v = job_version job + 1" by simp
  show cur: "get_row job_id (jobs cur) (job_id job) = Some job"
    by (rule job_table.cas_row_current [OF d assms(2) c])
  show "t = put_row job_id (jobs cur) (job_id job) (\<lambda>_. set_job_version (job_version job + 1) (upd job))"
  proof -
    have "t = put_row job_id (jobs cur) (job_id job) (\<lambda>r. set_job_version (job_version job + 1) (upd r))"
      using c d cur by (simp add: job_table.cas_row_eq)
    also have "\<dots> = put_row job_id (jobs cur) (job_id job) (\<lambda>_. set_job_version (job_version job + 1) (upd job))"
      by (rule put_row_const [OF d cur])
    finally show ?thesis .
  qed
qed

lemma job_cas_quiet:
  assumes "jobs_wf cur" and "snapshot_of job_id job_version (jobs cur) job"
    and "\<And>j. job_id (upd j) = job_id j" and "job_cas cur job upd = Inr (t, v)"
    and "job_row_step job (set_job_version (job_version job + 1) (upd job)) None"
  shows "job_spec_step cur (cur\<lparr>jobs := t\<rparr>)"
  using job_cas_InrD [OF assms(1-4)] assms(5) by (simp add: spec_quiet)

lemma job_cas_event:
  assumes "jobs_wf cur" and "snapshot_of job_id job_version (jobs cur) job"
    and "\<And>j. job_id (upd j) = job_id j" and "job_cas cur job upd = Inr (t, v)"
    and "commit_event cur t (job_emit now eid job ty v []) = Inr db"
    and "job_row_step job (set_job_version (job_version job + 1) (upd job)) (Some ty)"
  shows "job_spec_step cur db"
proof -
  note c = job_cas_InrD [OF assms(1-4)]
  obtain ob where ob: "outbox_insert (outbox cur) (job_emit now eid job ty (job_version job + 1) []) = Some ob"
    and db: "db = cur\<lparr>jobs := t, outbox := ob\<rparr>"
    using assms(5) c(2) by (auto simp: commit_event_def split: option.splits)
  show ?thesis unfolding db c(3)
    by (rule spec_event [OF c(1) assms(6)]) (use ob in simp)
qed

lemma load_job_snapshot:
  assumes "job_snapshot snap cur" and "load_job snap i = Inr job"
  shows "snapshot_of job_id job_version (jobs cur) job" "job_id job = i"
  using assms get_row_SomeD [of job_id "jobs snap" i job]
  by (auto simp: load_job_def job_snapshot_def res_simps)

lemma load_ownedD:
  "load_owned snap i w S = Inr job \<Longrightarrow>
     load_job snap i = Inr job \<and> job_lease_owner job = Some w \<and> job_state job \<in> S"
  by (auto simp: load_owned_def res_simps split: if_splits)

lemma refreshD: "refresh db i = Inr (db', j) \<Longrightarrow> db' = db \<and> get_row job_id (jobs db) i = Some j"
  by (auto simp: refresh_def load_job_def res_simps)

text \<open>A loaded row and the compare-and-set on it, as one rule for the operations below.\<close>

lemmas job_op_dests = load_ownedD refreshD load_job_snapshot

lemma heartbeat_refines:
  assumes "jobs_wf cur" "job_snapshot snap cur" "heartbeat snap cur now i w secs = Inr (cur', j')"
  shows "job_spec_step cur cur'"
proof -
  from assms(3) obtain job t v where l: "load_owned snap i w ACTIVE_STATES = Inr job"
    and c: "job_cas cur job (\<lambda>j. j\<lparr>job_heartbeat_at := Some now,
         job_lease_expires_at := Some (now + secs), job_updated_at := now\<rparr>) = Inr (t, v)"
    and r: "refresh (cur\<lparr>jobs := t\<rparr>) i = Inr (cur', j')"
    by (auto simp: heartbeat_def res_simps)
  note l = load_ownedD [OF l]
  have "job_spec_step cur (cur\<lparr>jobs := t\<rparr>)"
    by (rule job_cas_quiet [OF assms(1) load_job_snapshot(1) [OF assms(2)] _ c])
       (use l in \<open>auto intro!: row_heartbeat\<close>)
  with refreshD [OF r] show ?thesis by simp
qed

lemma start_refines:
  assumes "jobs_wf cur" "job_snapshot snap cur" "start snap cur now i w = Inr (cur', j')"
  shows "job_spec_step cur cur'"
proof -
  from assms(3) obtain job t v where l: "load_owned snap i w {Leased} = Inr job"
    and c: "job_cas cur job (\<lambda>j. j\<lparr>job_state := Running, job_updated_at := now\<rparr>) = Inr (t, v)"
    and r: "refresh (cur\<lparr>jobs := t\<rparr>) i = Inr (cur', j')"
    by (auto simp: start_def res_simps split: if_splits dest: load_ownedD)
  note l = load_ownedD [OF l]
  have "job_spec_step cur (cur\<lparr>jobs := t\<rparr>)"
    by (rule job_cas_quiet [OF assms(1) load_job_snapshot(1) [OF assms(2)] _ c])
       (use l in \<open>auto intro!: row_start\<close>)
  with refreshD [OF r] show ?thesis by simp
qed

lemma complete_refines:
  assumes "jobs_wf cur" "job_snapshot snap cur" "complete snap cur now eid i w res = Inr (cur', j')"
  shows "job_spec_step\<^sup>=\<^sup>= cur cur'"
proof -
  from assms(3) obtain job where l: "load_job snap i = Inr job" by (auto simp: complete_def res_simps)
  show ?thesis
  proof (cases "job_state job = Succeeded")
    case True
    with l assms(3) show ?thesis by (simp add: complete_def)
  next
    case False
    with l assms(3) obtain t v db where s: "job_state job = Running"
      and c: "job_cas cur job (\<lambda>j. j\<lparr>job_state := Succeeded, job_result_ref := res,
         job_updated_at := now\<rparr>) = Inr (t, v)"
      and e: "commit_event cur t (job_emit now eid job ''job.succeeded'' v []) = Inr db"
      and r: "refresh db i = Inr (cur', j')"
      by (auto simp: complete_def res_simps split: if_splits)
    have "job_spec_step cur db"
      by (rule job_cas_event [OF assms(1) load_job_snapshot(1) [OF assms(2) l] _ c e])
         (use s in \<open>auto intro!: row_complete\<close>)
    with refreshD [OF r] show ?thesis by simp
  qed
qed

lemma fail_refines:
  assumes "jobs_wf cur" "job_snapshot snap cur"
    and "fail svc draw snap cur now eid i w code recov = Inr (cur', j')"
  shows "job_spec_step cur cur'"
proof -
  from assms(3) obtain job where "load_owned snap i w ACTIVE_STATES = Inr job"
    by (auto simp: fail_def res_simps)
  note l = this load_ownedD [OF this]
  have snap: "snapshot_of job_id job_version (jobs cur) job"
    using load_job_snapshot(1) [OF assms(2)] l(2) by blast
  show ?thesis
  proof (cases "recov \<and> job_attempts job < job_max_attempts job")
    case True
    with l(1) assms(3) obtain t v db where
      c: "job_cas cur job (\<lambda>j. j\<lparr>job_state := Recoverable_failed, job_last_error_code := Some code,
           job_lease_owner := None, job_lease_expires_at := None,
           job_available_at := now + backoff_seconds svc draw (job_attempts job),
           job_updated_at := now\<rparr>) = Inr (t, v)"
      and e: "commit_event cur t (job_emit now eid job ''job.recoverable_failed'' v []) = Inr db"
      and r: "refresh db i = Inr (cur', j')"
      by (auto simp: fail_def res_simps)
    have "job_spec_step cur db"
      by (rule job_cas_event [OF assms(1) snap _ c e]) (use l True in \<open>auto intro!: row_requeue\<close>)
    with refreshD [OF r] show ?thesis by simp
  next
    case False
    with l(1) assms(3) obtain t v db where
      c: "job_cas cur job (\<lambda>j. j\<lparr>job_state := Terminal_failed, job_last_error_code := Some code,
           job_lease_owner := None, job_lease_expires_at := None, job_updated_at := now\<rparr>) = Inr (t, v)"
      and e: "commit_event cur t (job_emit now eid job ''job.terminal_failed'' v []) = Inr db"
      and r: "refresh db i = Inr (cur', j')"
      by (auto simp: fail_def res_simps)
    have "job_spec_step cur db"
      by (rule job_cas_event [OF assms(1) snap _ c e]) (use l in \<open>auto intro!: row_give_up\<close>)
    with refreshD [OF r] show ?thesis by simp
  qed
qed

lemma request_cancel_refines:
  assumes "jobs_wf cur" "job_snapshot snap cur" "request_cancel snap cur now eid i = Inr (cur', j')"
  shows "job_spec_step\<^sup>=\<^sup>= cur cur'"
proof -
  from assms(3) obtain job where l: "load_job snap i = Inr job" by (auto simp: request_cancel_def res_simps)
  show ?thesis
  proof (cases "job_state job = Cancel_requested")
    case True
    with l assms(3) show ?thesis by (simp add: request_cancel_def)
  next
    case False
    with l assms(3) obtain t v db where s: "job_state job \<notin> JOB_TERMINAL_STATES"
      and c: "job_cas cur job (\<lambda>j. j\<lparr>job_state := Cancel_requested, job_updated_at := now\<rparr>) = Inr (t, v)"
      and e: "commit_event cur t (job_emit now eid job ''job.cancel_requested'' v []) = Inr db"
      and r: "refresh db i = Inr (cur', j')"
      by (auto simp: request_cancel_def res_simps split: if_splits)
    have "job_spec_step cur db"
      by (rule job_cas_event [OF assms(1) load_job_snapshot(1) [OF assms(2) l] _ c e])
         (use s False in \<open>auto intro!: row_cancel\<close>)
    with refreshD [OF r] show ?thesis by simp
  qed
qed

lemma finalize_cancel_refines:
  assumes "jobs_wf cur" "job_snapshot snap cur" "finalize_cancel snap cur now eid i = Inr (cur', j')"
  shows "job_spec_step\<^sup>=\<^sup>= cur cur'"
proof -
  from assms(3) obtain job where l: "load_job snap i = Inr job" by (auto simp: finalize_cancel_def res_simps)
  show ?thesis
  proof (cases "job_state job = Cancelled")
    case True
    with l assms(3) show ?thesis by (simp add: finalize_cancel_def)
  next
    case False
    with l assms(3) obtain t v db where s: "job_state job = Cancel_requested"
      and c: "job_cas cur job (\<lambda>j. j\<lparr>job_state := Cancelled, job_lease_owner := None,
         job_lease_expires_at := None, job_updated_at := now\<rparr>) = Inr (t, v)"
      and e: "commit_event cur t (job_emit now eid job ''job.cancelled'' v []) = Inr db"
      and r: "refresh db i = Inr (cur', j')"
      by (auto simp: finalize_cancel_def res_simps split: if_splits)
    have "job_spec_step cur db"
      by (rule job_cas_event [OF assms(1) load_job_snapshot(1) [OF assms(2) l] _ c e])
         (use s in \<open>auto intro!: row_cancelled\<close>)
    with refreshD [OF r] show ?thesis by simp
  qed
qed

text \<open>The lease takes the first candidate whose row has not changed since it was read.\<close>

lemma lease_first_SomeD:
  assumes "jobs_wf cur" and "\<forall>j\<in>set cs. snapshot_of job_id job_version (jobs cur) j"
    and "lease_first now w x cs cur = (cur', Some j')"
  shows "\<exists>job\<in>set cs. get_row job_id (jobs cur) (job_id job) = Some job \<and>
    j' = job\<lparr>job_state := Leased, job_lease_owner := Some w, job_lease_expires_at := Some x,
           job_heartbeat_at := Some now, job_attempts := job_attempts job + 1, job_updated_at := now,
           job_version := job_version job + 1\<rparr> \<and>
    cur' = cur\<lparr>jobs := put_row job_id (jobs cur) (job_id job) (\<lambda>_. j')\<rparr>"
  using assms(2,3)
proof (induction cs)
  case (Cons job cs)
  let ?upd = "\<lambda>j. j\<lparr>job_state := Leased, job_lease_owner := Some w,
                    job_lease_expires_at := Some x, job_heartbeat_at := Some now,
                    job_attempts := job_attempts j + 1, job_updated_at := now\<rparr>"
  show ?case
  proof (cases "job_cas cur job ?upd")
    case (Inl e)
    with Cons show ?thesis by (auto simp: job_cas_def split: option.splits)
  next
    case (Inr tv)
    obtain t v where tv: "tv = (t, v)" by (cases tv)
    have u: "\<And>j. job_id (?upd j) = job_id j" by simp
    note c = job_cas_InrD [OF assms(1) _ u Inr [unfolded tv]]
    have "cur' = cur\<lparr>jobs := t\<rparr>" "get_row job_id t (job_id job) = Some j'"
      using Inr tv Cons.prems(2) by (auto simp: job_cas_def split: option.splits)
    with c Cons.prems(1) show ?thesis by (auto simp: get_put_row_const)
  qed
qed simp

lemma lease_first_NoneD: "lease_first now w x cs cur = (cur', None) \<Longrightarrow> jobs_wf cur \<Longrightarrow> cur' = cur"
proof (induction cs)
  case (Cons job cs)
  let ?upd = "\<lambda>j. j\<lparr>job_state := Leased, job_lease_owner := Some w,
                    job_lease_expires_at := Some x, job_heartbeat_at := Some now,
                    job_attempts := job_attempts j + 1, job_updated_at := now\<rparr>"
  have found: "get_row job_id t (job_id job) \<noteq> None"
    if "cas_row job_id job_version set_job_version (jobs cur) (job_id job) (job_version job) u = Some t"
      and "\<And>j. job_id (u j) = job_id j" for t u
  proof -
    have d: "keys_distinct job_id (jobs cur)" using Cons.prems(2) by (simp add: jobs_wf_def)
    have k: "\<And>j. job_id (set_job_version v (u j)) = job_id j" for v by (simp add: that(2))
    from that(1) d obtain r where "get_row job_id (jobs cur) (job_id job) = Some r"
      "t = put_row job_id (jobs cur) (job_id job) (\<lambda>r. set_job_version (job_version job + 1) (u r))"
      by (rule job_table.cas_row_SomeE)
    then show ?thesis by (simp add: get_put_row [where key = job_id, OF k])
  qed
  show ?case
  proof (cases "cas_row job_id job_version set_job_version (jobs cur) (job_id job) (job_version job) ?upd")
    case None
    with Cons show ?thesis by simp
  next
    case (Some t)
    from found [OF Some] Some Cons.prems(1) show ?thesis by simp
  qed
qed simp

lemma lease_candidates_set:
  "set (lease_candidates now lanes db) = {j \<in> set (jobs db). leasable now lanes j}"
  by (auto simp: lease_candidates_def)

lemma lease_SomeD:
  assumes "jobs_wf cur" "job_snapshot snap cur" "lease snap cur now w secs lanes = (cur', Some j')"
  obtains job where "job \<in> set (jobs snap)" "leasable now lanes job"
    "get_row job_id (jobs cur) (job_id job) = Some job"
    "j' = job\<lparr>job_state := Leased, job_lease_owner := Some w, job_lease_expires_at := Some (now + secs),
           job_heartbeat_at := Some now, job_attempts := job_attempts job + 1, job_updated_at := now,
           job_version := job_version job + 1\<rparr>"
    "cur' = cur\<lparr>jobs := put_row job_id (jobs cur) (job_id job) (\<lambda>_. j')\<rparr>"
proof -
  have "\<forall>j\<in>set (lease_candidates now lanes snap). snapshot_of job_id job_version (jobs cur) j"
    using assms(2) by (auto simp: lease_candidates_set job_snapshot_def)
  from lease_first_SomeD [OF assms(1) this assms(3) [unfolded lease_def]] that show ?thesis
    by (fastforce simp: lease_candidates_set)
qed

lemma lease_refines:
  assumes "jobs_wf cur" "job_snapshot snap cur" "lease snap cur now w secs lanes = (cur', r)"
  shows "job_spec_step\<^sup>=\<^sup>= cur cur'"
proof (cases r)
  case None
  with assms(1,3) have "cur' = cur" by (auto simp: lease_def intro: lease_first_NoneD)
  then show ?thesis by simp
next
  case (Some j')
  from assms(1,2) assms(3) [unfolded Some] obtain job where j: "leasable now lanes job"
    "get_row job_id (jobs cur) (job_id job) = Some job"
    "j' = job\<lparr>job_state := Leased, job_lease_owner := Some w, job_lease_expires_at := Some (now + secs),
           job_heartbeat_at := Some now, job_attempts := job_attempts job + 1, job_updated_at := now,
           job_version := job_version job + 1\<rparr>"
    "cur' = cur\<lparr>jobs := put_row job_id (jobs cur) (job_id job) (\<lambda>_. j')\<rparr>"
    by (rule lease_SomeD)
  have "job_row_step job j' None"
    unfolding j(3) by (rule row_lease) (use j(1) in \<open>simp add: leasable_def\<close>)
  from spec_quiet [OF j(2) this] j(4) show ?thesis by simp
qed

lemma enqueue_refines:
  assumes "enqueue sha snap cur now jid eid tenant kind payload key run maxa lane schema = Inr (cur', j')"
  shows "job_spec_step\<^sup>=\<^sup>= cur cur'"
proof (cases "find_by_idempotency snap tenant kind key")
  case (Some j)
  with assms show ?thesis by (auto simp: enqueue_def res_simps)
next
  case None
  let ?j = "new_job now jid tenant run kind key schema (job_digest sha payload) payload lane maxa"
  from None assms obtain ob where fresh: "jid \<notin> job_id ` set (jobs cur)" "find_by_idempotency cur tenant kind key = None"
    and ob: "outbox_insert (outbox cur) (job_emit now eid ?j ''job.enqueued'' (job_version ?j) []) = Some ob"
    and cur': "cur' = cur\<lparr>jobs := jobs cur @ [?j], outbox := ob\<rparr>"
    by (auto simp: enqueue_def Let_def split: if_splits option.splits)
  have "job_spec_step cur cur'" unfolding cur'
    by (rule spec_insert [OF _ _ refl ob]) (use fresh in \<open>simp_all add: new_job_def\<close>)
  then show ?thesis by simp
qed

section \<open>Invariants\<close>

lemma outbox_insert_SomeD:
  "outbox_insert t e = Some t' \<Longrightarrow> t' = t @ [e] \<and> ob_id e \<notin> ob_id ` set t \<and> ob_key e \<notin> ob_key ` set t"
  by (auto simp: outbox_insert_def split: if_splits)

lemma job_emit_key [simp]:
  "ob_key (job_emit now eid j ty v extra) = (AGGREGATE_TYPE, job_id j, v, ty)"
  "ob_id (job_emit now eid j ty v extra) = eid"
  by (simp_all add: job_emit_def ob_key_def Let_def)

lemma spec_step_wf:
  assumes "job_spec_step db db'" and "jobs_wf db"
  shows "jobs_wf db'"
  using assms(1)
proof (cases rule: job_spec_step.cases)
  case spec_insert
  with assms(2) show ?thesis by (auto simp: jobs_wf_def dest: outbox_insert_SomeD)
next
  case (spec_quiet i j j')
  then have "job_id j' = i" using job_row_step_frame(1) get_row_SomeD by metis
  with spec_quiet assms(2) show ?thesis by (auto simp: jobs_wf_def map_key_put_row_const)
next
  case (spec_event i j j' ty now eid ob)
  then have "job_id j' = i" using job_row_step_frame(1) get_row_SomeD by metis
  with spec_event assms(2) show ?thesis
    by (auto simp: jobs_wf_def map_key_put_row_const dest!: outbox_insert_SomeD)
next
  case spec_relay
  with assms(2) show ?thesis by (simp add: jobs_wf_def)
qed

lemma row_step_snapshot:
  assumes "get_row job_id t i = Some j" and "job_row_step j j' ev" and "snapshot_of job_id job_version t r"
  shows "snapshot_of job_id job_version (put_row job_id t i (\<lambda>_. j')) r"
proof -
  have k: "job_id j' = i" and v: "job_version j' = job_version j + 1"
    using job_row_step_frame(1,8) [OF assms(2)] get_row_SomeD [OF assms(1)] by simp_all
  note g = get_put_row_const [where key = job_id, OF k]
  show ?thesis
  proof (cases "job_id r = i")
    case True
    with assms(1,3) v show ?thesis by (auto simp: snapshot_of_def g)
  next
    case False
    with assms(3) show ?thesis by (simp add: snapshot_of_def g)
  qed
qed

text \<open>A row once read stays an earlier version of the row: versions only grow, and equal
  versions mean equal rows.\<close>

lemma spec_step_snapshot:
  assumes "job_spec_step db db'" and "snapshot_of job_id job_version (jobs db) r"
  shows "snapshot_of job_id job_version (jobs db') r"
  using assms(1)
proof (cases rule: job_spec_step.cases)
  case spec_insert
  with assms(2) show ?thesis by (auto simp: snapshot_of_def get_row_append)
next
  case spec_quiet
  with assms(2) show ?thesis by (simp add: row_step_snapshot)
next
  case spec_event
  with assms(2) show ?thesis by (simp add: row_step_snapshot)
next
  case spec_relay
  with assms(2) show ?thesis by simp
qed

lemma spec_steps_wf: "job_spec_step\<^sup>*\<^sup>* db db' \<Longrightarrow> jobs_wf db \<Longrightarrow> jobs_wf db'"
  by (induction rule: rtranclp_induct) (auto intro: spec_step_wf)

lemma spec_steps_snapshot:
  "job_spec_step\<^sup>*\<^sup>* db db' \<Longrightarrow> snapshot_of job_id job_version (jobs db) r \<Longrightarrow>
   snapshot_of job_id job_version (jobs db') r"
  by (induction rule: rtranclp_induct) (auto intro: spec_step_snapshot)

lemma reap_rows_refines:
  "jobs_wf cur \<Longrightarrow> \<forall>j\<in>set js. snapshot_of job_id job_version (jobs cur) j \<and> job_state j \<in> ACTIVE_STATES \<Longrightarrow>
   reap_rows now fresh js cur = Inr cur' \<Longrightarrow> job_spec_step\<^sup>*\<^sup>* cur cur'"
proof (induction js arbitrary: cur)
  case (Cons job js)
  have s: "snapshot_of job_id job_version (jobs cur) job" "job_state job \<in> ACTIVE_STATES"
    using Cons.prems(2) by simp_all
  obtain db where db: "job_spec_step cur db" "reap_rows now fresh js db = Inr cur'"
  proof (cases "job_attempts job < job_max_attempts job")
    case True
    with Cons.prems(3) obtain t v db where
      c: "job_cas cur job (\<lambda>j. j\<lparr>job_state := Recoverable_failed, job_last_error_code := Some ''LEASE_EXPIRED'',
            job_lease_owner := None, job_lease_expires_at := None, job_available_at := now,
            job_updated_at := now\<rparr>) = Inr (t, v)"
      and e: "commit_event cur t (job_emit now (fresh (job_id job)) job ''job.recoverable_failed'' v []) = Inr db"
      and r: "reap_rows now fresh js db = Inr cur'"
      by (auto simp: res_simps)
    have "job_spec_step cur db"
      by (rule job_cas_event [OF Cons.prems(1) s(1) _ c e]) (use s(2) True in \<open>auto intro!: row_requeue\<close>)
    with r that show ?thesis by blast
  next
    case False
    with Cons.prems(3) obtain t v db where
      c: "job_cas cur job (\<lambda>j. j\<lparr>job_state := Terminal_failed, job_last_error_code := Some ''LEASE_EXPIRED'',
            job_lease_owner := None, job_lease_expires_at := None, job_updated_at := now\<rparr>) = Inr (t, v)"
      and e: "commit_event cur t (job_emit now (fresh (job_id job)) job ''job.terminal_failed'' v []) = Inr db"
      and r: "reap_rows now fresh js db = Inr cur'"
      by (auto simp: res_simps)
    have "job_spec_step cur db"
      by (rule job_cas_event [OF Cons.prems(1) s(1) _ c e]) (use s(2) in \<open>auto intro!: row_give_up\<close>)
    with r that show ?thesis by blast
  qed
  have "job_spec_step\<^sup>*\<^sup>* db cur'"
    using Cons.prems(2) by (intro Cons.IH [OF spec_step_wf [OF db(1) Cons.prems(1)] _ db(2)])
      (auto intro: spec_step_snapshot [OF db(1)])
  with db(1) show ?case by (rule converse_rtranclp_into_rtranclp)
qed simp

lemma reap_refines:
  assumes "jobs_wf cur" "job_snapshot snap cur" "reap_expired_leases snap cur now fresh = Inr (cur', js)"
  shows "job_spec_step\<^sup>*\<^sup>* cur cur'"
proof -
  from assms(3) have "reap_rows now fresh (filter (lease_expired now) (jobs snap)) cur = Inr cur'"
    by (auto simp: reap_expired_leases_def Let_def res_simps)
  then show ?thesis
    using assms(2) by (intro reap_rows_refines [OF assms(1)]) (auto simp: job_snapshot_def lease_expired_def)
qed

end
