(* ===== verification/Job_Invariants.thy ===== *)
theory Job_Invariants
  imports Durable_Jobs
begin

text \<open>
  What holds of the durable job table in every state the service can reach. The concrete
  system is \<open>job_step\<close>: its state is the list of databases committed so far (current one
  first), and every step runs one method of the service, or one method of the outbox
  publisher, against any earlier database as the one it read. Every such step is a sequence
  of steps of the specification \<open>job_spec_step\<close>, so the invariants of the specification hold
  of the code under every interleaving.
\<close>

section \<open>The invariant of the specification\<close>

text \<open>The row invariant: the attempt budget, and who holds a lease in which state.\<close>

definition job_ok :: "durable_job \<Rightarrow> bool" where
  "job_ok j \<longleftrightarrow>
     1 \<le> job_version j \<and> 0 \<le> job_attempts j \<and> job_attempts j \<le> max 1 (job_max_attempts j) \<and>
     (job_state j = Queued \<longrightarrow> job_attempts j = 0) \<and>
     (job_state j = Recoverable_failed \<longrightarrow> job_attempts j < job_max_attempts j) \<and>
     (job_state j \<in> ACTIVE_STATES \<longrightarrow>
        1 \<le> job_attempts j \<and> job_lease_owner j \<noteq> None \<and> job_lease_expires_at j \<noteq> None) \<and>
     (job_state j \<in> {Queued, Recoverable_failed, Terminal_failed, Cancelled} \<longrightarrow>
        job_lease_owner j = None \<and> job_lease_expires_at j = None) \<and>
     (job_state j = Succeeded \<longrightarrow> job_lease_owner j \<noteq> None)"

lemma job_ok_step: "job_row_step j j' ev \<Longrightarrow> job_ok j \<Longrightarrow> job_ok j'"
  by (induction rule: job_row_step.induct) (cases "job_state j"; simp add: job_ok_def max_def split: if_splits; linarith?)+

lemma job_ok_new: "job_ok (new_job now jid tenant run kind key schema digest payload lane maxa)"
  by (simp add: job_ok_def new_job_def)

definition TERMINAL_EVENTS :: "string set" where
  "TERMINAL_EVENTS = {''job.succeeded'', ''job.terminal_failed'', ''job.cancelled''}"

definition terminal_count :: "outbox_event list \<Rightarrow> ident \<Rightarrow> nat" where
  "terminal_count ob i =
     length (filter (\<lambda>(ty, a, v, et). ty = AGGREGATE_TYPE \<and> a = i \<and> et \<in> TERMINAL_EVENTS) (map ob_key ob))"

lemma row_step_terminal:
  "job_row_step j j' ev \<Longrightarrow> job_state j' \<in> JOB_TERMINAL_STATES \<longleftrightarrow> (\<exists>ty\<in>TERMINAL_EVENTS. ev = Some ty)"
  by (induction rule: job_row_step.induct) (auto simp: TERMINAL_EVENTS_def)

lemma terminal_count_emit:
  "terminal_count (ob @ [job_emit now eid j ty v extra]) i =
     terminal_count ob i + (if job_id j = i \<and> ty \<in> TERMINAL_EVENTS then 1 else 0)"
  by (simp add: terminal_count_def)

lemma terminal_count_keys: "map ob_key ob = map ob_key ob' \<Longrightarrow> terminal_count ob i = terminal_count ob' i"
  by (simp only: terminal_count_def)

definition idempotency_triple :: "durable_job \<Rightarrow> ident \<times> string \<times> string" where
  "idempotency_triple j = (job_tenant_id j, job_kind j, job_idempotency_key j)"

text \<open>Every event of a job carries a version the job has reached.\<close>

definition events_bounded :: "durable_job list \<Rightarrow> outbox_event list \<Rightarrow> bool" where
  "events_bounded js ob \<longleftrightarrow>
     (\<forall>(ty, a, v, et)\<in>set (map ob_key ob). ty = AGGREGATE_TYPE \<longrightarrow>
        (\<exists>j. get_row job_id js a = Some j \<and> v \<le> job_version j))"

definition jobs_inv :: "jobs_db \<Rightarrow> bool" where
  "jobs_inv db \<longleftrightarrow>
     jobs_wf db \<and> distinct (map idempotency_triple (jobs db)) \<and>
     (\<forall>j\<in>set (jobs db). job_ok j) \<and> events_bounded (jobs db) (outbox db) \<and>
     (\<forall>j\<in>set (jobs db). terminal_count (outbox db) (job_id j) =
        (if job_state j \<in> JOB_TERMINAL_STATES then 1 else 0))"

definition jobs_init :: "jobs_db \<Rightarrow> bool" where
  "jobs_init db \<longleftrightarrow> jobs db = [] \<and> outbox db = []"

lemma find_by_idempotency_None:
  "find_by_idempotency db t k key = None \<longleftrightarrow> (t, k, key) \<notin> idempotency_triple ` set (jobs db)"
  by (auto simp: find_by_idempotency_def find_None_iff idempotency_triple_def image_iff)

lemma events_bounded_row:
  assumes "events_bounded js ob" and "get_row job_id js i = Some j" and "job_row_step j j' ev"
  shows "events_bounded (put_row job_id js i (\<lambda>_. j')) ob"
proof -
  have k: "job_id j' = i" and v: "job_version j' = job_version j + 1"
    using job_row_step_frame(1,8) [OF assms(3)] get_row_SomeD [OF assms(2)] by simp_all
  note g = get_put_row_const [where key = job_id, OF k]
  show ?thesis
    using assms(1,2) v unfolding events_bounded_def g by (fastforce split: prod.splits)
qed

lemma events_bounded_emit:
  assumes "events_bounded js ob" and "get_row job_id js (job_id j) = Some j'" and "v \<le> job_version j'"
  shows "events_bounded js (ob @ [job_emit now eid j ty v extra])"
  using assms by (simp add: events_bounded_def)

lemma events_bounded_insert:
  assumes "events_bounded js ob" and "get_row job_id js (job_id j) = None"
  shows "events_bounded (js @ [j]) (ob @ [job_emit now eid j ty (job_version j) extra])"
proof (rule events_bounded_emit)
  have "get_row job_id (js @ [j]) a = Some r" if "get_row job_id js a = Some r" for a r
    using that by (simp add: get_row_append)
  then show "events_bounded (js @ [j]) ob"
    using assms(1) unfolding events_bounded_def by fast
  show "get_row job_id (js @ [j]) (job_id j) = Some j" using assms(2) by (simp add: get_row_append)
qed simp

lemma terminal_count_unknown:
  assumes "events_bounded js ob" and "get_row job_id js i = None"
  shows "terminal_count ob i = 0"
proof -
  have "a \<noteq> i" if "(AGGREGATE_TYPE, a, v, et) \<in> set (map ob_key ob)" for a v et
    using assms that unfolding events_bounded_def by fastforce
  then have "\<And>x v et. x \<in> set ob \<Longrightarrow> ob_key x \<noteq> (AGGREGATE_TYPE, i, v, et)"
    by (metis image_eqI set_map)
  then show ?thesis unfolding terminal_count_def by (auto simp: filter_empty_conv)
qed

lemma jobs_inv_row:
  assumes inv: "jobs_inv db" and i: "get_row job_id (jobs db) i = Some j" and st: "job_row_step j j' ev"
    and js: "js = put_row job_id (jobs db) i (\<lambda>_. j')"
  shows "keys_distinct job_id js" "distinct (map idempotency_triple js)" "\<forall>j\<in>set js. job_ok j"
    "events_bounded js (outbox db)" "set js = insert j' (set (jobs db) - {j})" "job_id j' = i" "job_id j = i"
proof -
  note f = job_row_step_frame [OF st]
  have d: "keys_distinct job_id (jobs db)" using inv by (simp add: jobs_inv_def jobs_wf_def)
  have j: "j \<in> set (jobs db)" "job_id j = i" using get_row_SomeD [OF i] by simp_all
  then show "job_id j = i" "job_id j' = i" using f(1) by simp_all
  show "keys_distinct job_id js"
    using d f(1) j(2) by (simp add: js map_key_put_row_const)
  have "idempotency_triple j' = idempotency_triple j" using f by (simp add: idempotency_triple_def)
  then show "distinct (map idempotency_triple js)"
    using inv map_put_row_const [OF d i, of idempotency_triple j'] by (simp add: js jobs_inv_def)
  show s: "set js = insert j' (set (jobs db) - {j})"
    unfolding js by (rule set_put_row_const [OF d i])
  show "\<forall>j\<in>set js. job_ok j"
    using inv j job_ok_step [OF st] by (auto simp: s jobs_inv_def)
  show "events_bounded js (outbox db)"
    unfolding js by (rule events_bounded_row [OF _ i st]) (use inv in \<open>simp add: jobs_inv_def\<close>)
qed

lemma same_job: "keys_distinct job_id js \<Longrightarrow> a \<in> set js \<Longrightarrow> b \<in> set js \<Longrightarrow> job_id a = job_id b \<Longrightarrow> a = b"
  by (metis get_row_in_set option.inject)

lemma jobs_invI:
  assumes "jobs_wf db" and "jobs db = js" and "outbox db = ob" and "distinct (map idempotency_triple js)"
    and "\<forall>x\<in>set js. job_ok x" and "events_bounded js ob"
    and "\<And>x. x \<in> set js \<Longrightarrow> terminal_count ob (job_id x) = (if job_state x \<in> JOB_TERMINAL_STATES then 1 else 0)"
  shows "jobs_inv db"
  unfolding jobs_inv_def assms(2,3) using assms(1,4,5,6,7) by blast

lemma jobs_inv_step:
  assumes inv: "jobs_inv db" and st: "job_spec_step db db'"
  shows "jobs_inv db'"
proof -
  have wf: "jobs_wf db'" using spec_step_wf [OF st] inv by (simp add: jobs_inv_def)
  have d: "keys_distinct job_id (jobs db)" using inv by (simp add: jobs_inv_def jobs_wf_def)
  have le: "terminal_count (outbox db) (job_id j) = (if job_state j \<in> JOB_TERMINAL_STATES then 1 else 0)"
    if "j \<in> set (jobs db)" for j using inv that by (simp add: jobs_inv_def)
  from st show ?thesis
  proof (cases rule: job_spec_step.cases)
    case (spec_insert j now jid tenant run kind key schema digest payload lane maxa eid ob)
    note ob = outbox_insert_SomeD [OF spec_insert(5), THEN conjunct1]
    have fresh: "get_row job_id (jobs db) (job_id j) = None" using spec_insert(2) by (simp add: get_row_None_iff)
    have ok: "job_ok j" "job_state j = Queued"
      unfolding spec_insert(4) by (rule job_ok_new, simp add: new_job_def)
    have tc: "terminal_count (outbox db) (job_id j) = 0"
      by (rule terminal_count_unknown) (use inv fresh in \<open>simp_all add: jobs_inv_def\<close>)
    have eb: "events_bounded (jobs db @ [j]) ob"
      unfolding ob by (rule events_bounded_insert) (use inv fresh in \<open>simp_all add: jobs_inv_def\<close>)
    have t: "distinct (map idempotency_triple (jobs db @ [j]))"
      using inv spec_insert(3) by (simp add: jobs_inv_def find_by_idempotency_None idempotency_triple_def)
    have tcs: "terminal_count ob (job_id x) = (if job_state x \<in> JOB_TERMINAL_STATES then 1 else 0)"
      if "x \<in> set (jobs db @ [j])" for x
      using that le tc ok(2) by (auto simp: ob terminal_count_emit TERMINAL_EVENTS_def)
    have oks: "\<forall>x\<in>set (jobs db @ [j]). job_ok x" using inv ok(1) by (simp add: jobs_inv_def)
    show ?thesis by (rule jobs_invI [OF wf _ _ t oks eb tcs]) (simp_all only: spec_insert(1), simp_all)
  next
    case (spec_quiet i j j')
    note r = jobs_inv_row [OF inv spec_quiet(2,3) refl]
    have "job_state j' \<notin> JOB_TERMINAL_STATES" "job_state j \<notin> JOB_TERMINAL_STATES"
      using row_step_terminal [OF spec_quiet(3)] job_row_step_frame(9) [OF spec_quiet(3)] by simp_all
    with le get_row_SomeD [OF spec_quiet(2)] r(6)
    have tc: "terminal_count (outbox db) (job_id x) = (if job_state x \<in> JOB_TERMINAL_STATES then 1 else 0)"
      if "x \<in> insert j' (set (jobs db) - {j})" for x using that by fastforce
    show ?thesis
      by (rule jobs_invI [OF wf _ _ r(2,3,4) tc [folded r(5)]]) (simp_all only: spec_quiet(1), simp_all)
  next
    case (spec_event i j j' ty now eid ob)
    note r = jobs_inv_row [OF inv spec_event(2,3) refl]
    note ob = outbox_insert_SomeD [OF spec_event(4), THEN conjunct1]
    have j: "j \<in> set (jobs db)" using get_row_SomeD [OF spec_event(2)] by simp
    have nt: "job_state j \<notin> JOB_TERMINAL_STATES" by (rule job_row_step_frame(9) [OF spec_event(3)])
    have tt: "job_state j' \<in> JOB_TERMINAL_STATES \<longleftrightarrow> ty \<in> TERMINAL_EVENTS"
      using row_step_terminal [OF spec_event(3)] by simp
    have tc: "terminal_count ob (job_id x) = (if job_state x \<in> JOB_TERMINAL_STATES then 1 else 0)"
      if "x \<in> insert j' (set (jobs db) - {j})" for x
    proof (cases "x = j'")
      case True
      then show ?thesis using le [OF j] nt tt r(6,7) by (simp only: ob terminal_count_emit) simp
    next
      case False
      with that have x: "x \<in> set (jobs db)" "x \<noteq> j" by simp_all
      with same_job [OF d x(1) j] have "job_id j \<noteq> job_id x" by auto
      then show ?thesis using le [OF x(1)] by (simp only: ob terminal_count_emit) simp
    qed
    have eb: "events_bounded (put_row job_id (jobs db) i (\<lambda>_. j')) ob"
      unfolding ob by (rule events_bounded_emit [OF r(4) _ order_refl])
        (use spec_event(2) r(6,7) in \<open>simp add: get_put_row_const [where key = job_id]\<close>)
    show ?thesis
      by (rule jobs_invI [OF wf _ _ r(2,3) eb tc [folded r(5)]]) (simp_all only: spec_event(1), simp_all)
  next
    case (spec_relay ob)
    then show ?thesis
      using inv wf terminal_count_keys [OF spec_relay(3)] by (simp add: jobs_inv_def events_bounded_def)
  qed
qed

section \<open>The concrete system\<close>

text \<open>
  A history is the list of committed databases, the current one first. A method call reads
  \<open>snap\<close>, any database of the history, and commits against the current one; a call that
  raises commits nothing.
\<close>

inductive job_step :: "(string \<Rightarrow> string) \<Rightarrow> job_service \<Rightarrow> jobs_db list \<Rightarrow> jobs_db list \<Rightarrow> bool"
  for sha256 svc where
  step_enqueue: "snap \<in> set (cur # past) \<Longrightarrow>
    enqueue sha256 snap cur now jid eid tenant kind payload key run maxa lane schema = Inr (cur', j) \<Longrightarrow>
    job_step sha256 svc (cur # past) (cur' # cur # past)"
| step_lease: "snap \<in> set (cur # past) \<Longrightarrow> lease snap cur now w secs lanes = (cur', r) \<Longrightarrow>
    job_step sha256 svc (cur # past) (cur' # cur # past)"
| step_heartbeat: "snap \<in> set (cur # past) \<Longrightarrow> heartbeat snap cur now i w secs = Inr (cur', j) \<Longrightarrow>
    job_step sha256 svc (cur # past) (cur' # cur # past)"
| step_start: "snap \<in> set (cur # past) \<Longrightarrow> start snap cur now i w = Inr (cur', j) \<Longrightarrow>
    job_step sha256 svc (cur # past) (cur' # cur # past)"
| step_complete: "snap \<in> set (cur # past) \<Longrightarrow> complete snap cur now eid i w res = Inr (cur', j) \<Longrightarrow>
    job_step sha256 svc (cur # past) (cur' # cur # past)"
| step_fail: "snap \<in> set (cur # past) \<Longrightarrow> fail svc draw snap cur now eid i w code recov = Inr (cur', j) \<Longrightarrow>
    job_step sha256 svc (cur # past) (cur' # cur # past)"
| step_request_cancel: "snap \<in> set (cur # past) \<Longrightarrow> request_cancel snap cur now eid i = Inr (cur', j) \<Longrightarrow>
    job_step sha256 svc (cur # past) (cur' # cur # past)"
| step_finalize_cancel: "snap \<in> set (cur # past) \<Longrightarrow> finalize_cancel snap cur now eid i = Inr (cur', j) \<Longrightarrow>
    job_step sha256 svc (cur # past) (cur' # cur # past)"
| step_reap: "snap \<in> set (cur # past) \<Longrightarrow> reap_expired_leases snap cur now fresh = Inr (cur', js) \<Longrightarrow>
    job_step sha256 svc (cur # past) (cur' # cur # past)"
| step_claim: "snap \<in> set (cur # past) \<Longrightarrow> claim_batch pub now (outbox snap) (outbox cur) = (ob, cs) \<Longrightarrow>
    job_step sha256 svc (cur # past) (cur\<lparr>outbox := ob\<rparr> # cur # past)"
| step_delivered: "snap \<in> set (cur # past) \<Longrightarrow>
    job_step sha256 svc (cur # past)
      (cur\<lparr>outbox := mark_delivered now (outbox snap) (outbox cur) i\<rparr> # cur # past)"
| step_failure: "snap \<in> set (cur # past) \<Longrightarrow>
    job_step sha256 svc (cur # past)
      (cur\<lparr>outbox := record_failure pub now (outbox snap) (outbox cur) i exc\<rparr> # cur # past)"

definition hist_init :: "jobs_db list \<Rightarrow> bool" where
  "hist_init h \<longleftrightarrow> (\<exists>db. h = [db] \<and> jobs_init db)"

definition hist_inv :: "jobs_db list \<Rightarrow> bool" where
  "hist_inv h \<longleftrightarrow> h \<noteq> [] \<and> (\<forall>db\<in>set h. jobs_inv db \<and> job_spec_step\<^sup>*\<^sup>* db (hd h))"

lemma jobs_inv_init: "jobs_init db \<Longrightarrow> jobs_inv db"
  by (simp add: jobs_init_def jobs_inv_def jobs_wf_def events_bounded_def)

interpretation job_spec: invariant_system jobs_init job_spec_step jobs_inv
  by unfold_locales (rule jobs_inv_init jobs_inv_step; assumption)+

lemma jobs_inv_wf: "jobs_inv db \<Longrightarrow> jobs_wf db"
  by (simp add: jobs_inv_def)

lemma spec_steps_job_snapshot: "job_spec_step\<^sup>*\<^sup>* snap cur \<Longrightarrow> jobs_wf snap \<Longrightarrow> job_snapshot snap cur"
  unfolding job_snapshot_def
  using spec_steps_snapshot [of snap cur] by (auto simp: jobs_wf_def intro: snapshot_of_refl)

text \<open>Every call is a sequence of steps of the specification.\<close>

lemma job_step_refines:
  assumes "job_step sha256 svc h h'" and "hist_inv h"
  shows "\<exists>cur'. h' = cur' # h \<and> job_spec_step\<^sup>*\<^sup>* (hd h) cur'"
proof -
  have wf: "jobs_wf (hd h)" using assms(2) by (simp add: hist_inv_def jobs_inv_def)
  have sn: "job_snapshot snap (hd h)" if "snap \<in> set h" for snap
    using assms(2) that by (auto simp: hist_inv_def intro!: spec_steps_job_snapshot jobs_inv_wf)
  have rel: "job_spec_step\<^sup>*\<^sup>* cur (cur\<lparr>outbox := ob\<rparr>)" if "same_events ob (outbox cur)" for cur ob
    using that by (blast intro: spec_relay)
  have eq: "job_spec_step\<^sup>=\<^sup>= a b \<Longrightarrow> job_spec_step\<^sup>*\<^sup>* a b" for a b by auto
  have one: "job_spec_step a b \<Longrightarrow> job_spec_step\<^sup>*\<^sup>* a b" for a b by (rule r_into_rtranclp)
  from assms(1) show ?thesis
  proof (cases rule: job_step.cases)
    case step_enqueue then show ?thesis by (auto dest: enqueue_refines intro: eq r_into_rtranclp)
  next
    case step_lease with wf sn show ?thesis by (auto intro!: lease_refines [THEN eq, rotated 2])
  next
    case step_heartbeat with wf sn show ?thesis by (auto intro!: heartbeat_refines [THEN one, rotated 2])
  next
    case step_start with wf sn show ?thesis by (auto intro!: start_refines [THEN one, rotated 2])
  next
    case step_complete with wf sn show ?thesis by (auto intro!: complete_refines [THEN eq, rotated 2])
  next
    case step_fail with wf sn show ?thesis by (auto intro!: fail_refines [THEN one, rotated 2])
  next
    case step_request_cancel with wf sn show ?thesis by (auto intro!: request_cancel_refines [THEN eq, rotated 2])
  next
    case step_finalize_cancel with wf sn show ?thesis by (auto intro!: finalize_cancel_refines [THEN eq, rotated 2])
  next
    case step_reap with wf sn show ?thesis by (auto intro!: reap_refines [rotated 2])
  next
    case (step_claim snap cur past pub now ob cs)
    then have "same_events ob (outbox cur)" using relay_ops_same_events(1) [of pub now "outbox snap" "outbox cur"] by simp
    with step_claim rel show ?thesis by simp
  next
    case step_delivered then show ?thesis using rel relay_ops_same_events(2) by simp
  next
    case step_failure then show ?thesis using rel relay_ops_same_events(3) by simp
  qed
qed

lemma hist_inv_step:
  assumes "hist_inv h" and "job_step sha256 svc h h'"
  shows "hist_inv h'"
proof -
  from job_step_refines [OF assms(2,1)] obtain cur' where h': "h' = cur' # h" and s: "job_spec_step\<^sup>*\<^sup>* (hd h) cur'"
    by blast
  have "jobs_inv cur'" using job_spec.steps_inv [OF s] assms(1) by (simp add: hist_inv_def)
  with assms(1) s h' show ?thesis by (auto simp: hist_inv_def intro: rtranclp_trans)
qed

interpretation job_system: invariant_system hist_init "job_step sha256 svc" hist_inv for sha256 svc
proof unfold_locales
  show "hist_init h \<Longrightarrow> hist_inv h" for h by (auto simp: hist_init_def hist_inv_def jobs_inv_init)
qed (rule hist_inv_step)

section \<open>Facts the properties rest on\<close>

lemma row_step_terminal_stays:
  assumes "get_row job_id t i = Some j0" and "job_row_step j0 j1 ev"
    and "get_row job_id t k = Some j" and "job_state j \<in> JOB_TERMINAL_STATES"
  shows "get_row job_id (put_row job_id t i (\<lambda>_. j1)) k = Some j"
proof -
  have "job_id j1 = i" using job_row_step_frame(1) [OF assms(2)] get_row_SomeD [OF assms(1)] by simp
  note g = get_put_row_const [where key = job_id, OF this]
  have "k \<noteq> i" using assms job_row_step_frame(9) [OF assms(2)] by auto
  then show ?thesis using assms(3) by (simp add: g)
qed

lemma spec_step_terminal_stays:
  assumes "job_spec_step db db'" and "get_row job_id (jobs db) k = Some j"
    and "job_state j \<in> JOB_TERMINAL_STATES"
  shows "get_row job_id (jobs db') k = Some j"
  using assms(1)
proof (cases rule: job_spec_step.cases)
  case spec_insert
  with assms(2) show ?thesis by (simp add: get_row_append)
next
  case (spec_quiet i j0 j1)
  with row_step_terminal_stays [OF spec_quiet(2,3) assms(2,3)] show ?thesis by simp
next
  case (spec_event i j0 j1 ty now eid ob)
  with row_step_terminal_stays [OF spec_event(2,3) assms(2,3)] show ?thesis by simp
next
  case spec_relay
  with assms(2) show ?thesis by simp
qed

lemma spec_steps_terminal_stays:
  "job_spec_step\<^sup>*\<^sup>* db db' \<Longrightarrow> get_row job_id (jobs db) k = Some j \<Longrightarrow> job_state j \<in> JOB_TERMINAL_STATES \<Longrightarrow>
   get_row job_id (jobs db') k = Some j"
  by (induction rule: rtranclp_induct) (auto simp del: job_state_sets intro: spec_step_terminal_stays)

text \<open>The columns that identify a job and its payload are written once.\<close>

definition job_identity :: "durable_job \<Rightarrow> ident \<times> (ident \<times> string \<times> string) \<times> string \<times> json" where
  "job_identity j = (job_id j, idempotency_triple j, job_payload_digest j, job_payload j)"

lemma spec_step_identity:
  assumes "job_spec_step db db'" and "jobs_wf db"
  shows "\<exists>new. map job_identity (jobs db') = map job_identity (jobs db) @ new"
proof -
  have put: "map job_identity (put_row job_id (jobs db) i (\<lambda>_. j')) = map job_identity (jobs db)"
    if "get_row job_id (jobs db) i = Some j" "job_row_step j j' ev" for i j j' ev
  proof (rule map_put_row_const [OF _ that(1)])
    show "keys_distinct job_id (jobs db)" using assms(2) by (simp add: jobs_wf_def)
    show "job_identity j' = job_identity j"
      using job_row_step_frame [OF that(2)] by (simp add: job_identity_def idempotency_triple_def)
  qed
  from assms(1) show ?thesis
    by (cases rule: job_spec_step.cases) (auto dest: put)
qed

lemma spec_steps_identity:
  "job_spec_step\<^sup>*\<^sup>* db db' \<Longrightarrow> jobs_wf db \<Longrightarrow> \<exists>new. map job_identity (jobs db') = map job_identity (jobs db) @ new"
proof (induction rule: rtranclp_induct)
  case (step y z)
  from step.IH step.prems obtain n1 where n1: "map job_identity (jobs y) = map job_identity (jobs db) @ n1" by blast
  from spec_step_identity [OF step.hyps(2) spec_steps_wf [OF step.hyps(1) step.prems]]
  obtain n2 where "map job_identity (jobs z) = map job_identity (jobs y) @ n2" by blast
  with n1 show ?case by simp
qed simp

section \<open>A concrete history\<close>

definition sample_service :: job_service where
  "sample_service = job_service_init 2 300 0"

definition empty_db :: jobs_db where
  "empty_db = \<lparr>jobs = [], outbox = []\<rparr>"

definition sample_job :: durable_job where
  "sample_job = new_job 0 ''j1'' ''t1'' None ''ingest'' ''k1'' 1 (job_digest id JNull) JNull ''default'' 3"

definition queued_db :: jobs_db where
  "queued_db = \<lparr>jobs = [sample_job], outbox = [job_emit 0 ''e1'' sample_job ''job.enqueued'' 1 []]\<rparr>"

definition cancelling_job :: durable_job where
  "cancelling_job = sample_job\<lparr>job_state := Cancel_requested, job_updated_at := 1, job_version := 2\<rparr>"

definition cancelling_db :: jobs_db where
  "cancelling_db = \<lparr>jobs = [cancelling_job],
     outbox = outbox queued_db @ [job_emit 1 ''e2'' sample_job ''job.cancel_requested'' 2 []]\<rparr>"

definition cancelled_job :: durable_job where
  "cancelled_job = sample_job\<lparr>job_state := Cancelled, job_updated_at := 2, job_version := 3\<rparr>"

definition cancelled_db :: jobs_db where
  "cancelled_db = \<lparr>jobs = [cancelled_job],
     outbox = outbox cancelling_db @ [job_emit 2 ''e3'' cancelling_job ''job.cancelled'' 3 []]\<rparr>"

lemmas sample_defs = empty_db_def sample_job_def queued_db_def cancelling_job_def cancelling_db_def
  cancelled_job_def cancelled_db_def new_job_def

lemmas job_op_defs = load_job_def load_owned_def job_cas_def commit_event_def refresh_def
  cas_row_def outbox_insert_def

lemma sample_enqueue:
  "enqueue id empty_db empty_db 0 ''j1'' ''e1'' ''t1'' ''ingest'' JNull ''k1'' None 3 ''default'' 1 =
   Inr (queued_db, sample_job)"
  by (simp add: enqueue_def sample_defs find_by_idempotency_def outbox_insert_def Let_def)

lemma sample_request_cancel: "request_cancel queued_db queued_db 1 ''e2'' ''j1'' = Inr (cancelling_db, cancelling_job)"
  by (simp add: request_cancel_def sample_defs job_op_defs)

lemma sample_finalize_cancel: "finalize_cancel cancelling_db cancelling_db 2 ''e3'' ''j1'' = Inr (cancelled_db, cancelled_job)"
  by (simp add: finalize_cancel_def sample_defs job_op_defs)

lemma sample_reach_queued: "reach hist_init (job_step id sample_service) [queued_db, empty_db]"
proof (rule reach_step)
  show "reach hist_init (job_step id sample_service) [empty_db]"
    by (rule reach_init) (simp add: hist_init_def jobs_init_def empty_db_def)
  show "job_step id sample_service [empty_db] [queued_db, empty_db]"
    by (rule step_enqueue [OF _ sample_enqueue]) simp
qed

lemma sample_reach_cancelled:
  "reach hist_init (job_step id sample_service) [cancelled_db, cancelling_db, queued_db, empty_db]"
proof (rule reach_step [OF reach_step [OF sample_reach_queued]])
  show "job_step id sample_service [queued_db, empty_db] [cancelling_db, queued_db, empty_db]"
    by (rule step_request_cancel [OF _ sample_request_cancel]) simp
  show "job_step id sample_service [cancelling_db, queued_db, empty_db] [cancelled_db, cancelling_db, queued_db, empty_db]"
    by (rule step_finalize_cancel [OF _ sample_finalize_cancel]) simp
qed

section \<open>Properties\<close>

text \<open>
  C21. Whatever calls interleave, on whatever stale reads, every row of the job table keeps
  its attempt budget and its lease discipline: at most \<open>max 1 max_attempts\<close> attempts, an owner
  and an expiry exactly while it is leased or running, none while it is queued, waiting for
  a retry, given up or cancelled.
\<close>

theorem reachable_jobs_safe:
  assumes "reach hist_init (job_step sha256 svc) (cur # past)" and "j \<in> set (jobs cur)"
  shows "0 \<le> job_attempts j \<and> job_attempts j \<le> max 1 (job_max_attempts j) \<and>
    (job_state j = Recoverable_failed \<longrightarrow> job_attempts j < job_max_attempts j) \<and>
    (job_state j \<in> ACTIVE_STATES \<longrightarrow> job_lease_owner j \<noteq> None \<and> job_lease_expires_at j \<noteq> None) \<and>
    (job_state j \<in> {Queued, Recoverable_failed, Terminal_failed, Cancelled} \<longrightarrow>
       job_lease_owner j = None \<and> job_lease_expires_at j = None)"
proof -
  have "jobs_inv cur" using job_system.reach_inv [OF assms(1)] by (simp add: hist_inv_def)
  then have "job_ok j" using assms(2) by (simp add: jobs_inv_def)
  then show ?thesis by (simp add: job_ok_def)
qed

theorem reachable_jobs_safe_witness:
  "jobs queued_db = [sample_job] \<and> 0 \<le> job_attempts sample_job \<and> job_attempts sample_job \<le> max 1 3"
  using reachable_jobs_safe [OF sample_reach_queued, of sample_job] by (simp add: sample_defs)

text \<open>
  C2. In every reachable state the outbox holds exactly one terminal event (succeeded,
  terminal_failed or cancelled) for a job in a terminal state and none for any other job:
  the transition and its event are committed together, and no retry duplicates it.
\<close>

theorem one_terminal_event:
  assumes "reach hist_init (job_step sha256 svc) (cur # past)" and "j \<in> set (jobs cur)"
  shows "length (filter (\<lambda>e. ob_aggregate_type e = AGGREGATE_TYPE \<and> ob_aggregate_id e = job_id j \<and>
             ob_event_type e \<in> {''job.succeeded'', ''job.terminal_failed'', ''job.cancelled''}) (outbox cur)) =
         (if job_state j \<in> {Succeeded, Terminal_failed, Cancelled} then 1 else 0)"
proof -
  have "jobs_inv cur" using job_system.reach_inv [OF assms(1)] by (simp add: hist_inv_def)
  then have "terminal_count (outbox cur) (job_id j) = (if job_state j \<in> JOB_TERMINAL_STATES then 1 else 0)"
    using assms(2) by (simp add: jobs_inv_def)
  then show ?thesis
    by (simp add: terminal_count_def TERMINAL_EVENTS_def ob_key_def filter_map comp_def)
qed

theorem one_terminal_event_witness:
  "cancelled_job \<in> set (jobs cancelled_db) \<and>
   length (filter (\<lambda>e. ob_aggregate_type e = AGGREGATE_TYPE \<and> ob_aggregate_id e = ''j1'' \<and>
      ob_event_type e \<in> {''job.succeeded'', ''job.terminal_failed'', ''job.cancelled''}) (outbox cancelled_db)) = 1"
proof -
  have "cancelled_job \<in> set (jobs cancelled_db)" "job_id cancelled_job = ''j1''" "job_state cancelled_job = Cancelled"
    by (simp_all add: sample_defs)
  with one_terminal_event [OF sample_reach_cancelled this(1)] show ?thesis by simp
qed

text \<open>
  A job that has reached a terminal state in some committed database is in the current
  one with the very same row: no call, however stale its read, revives or rewrites it.
\<close>

theorem terminal_states_absorbing:
  assumes "reach hist_init (job_step sha256 svc) h" and "db \<in> set h" and "j \<in> set (jobs db)"
    and "job_state j \<in> JOB_TERMINAL_STATES"
  shows "get_row job_id (jobs (hd h)) (job_id j) = Some j"
proof -
  have "jobs_inv db" "job_spec_step\<^sup>*\<^sup>* db (hd h)"
    using job_system.reach_inv [OF assms(1)] assms(2) by (simp_all add: hist_inv_def)
  moreover from this(1) have "get_row job_id (jobs db) (job_id j) = Some j"
    using assms(3) by (simp add: jobs_inv_def jobs_wf_def get_row_in_set)
  ultimately show ?thesis using assms(4) by (blast intro: spec_steps_terminal_stays)
qed

theorem terminal_states_absorbing_witness:
  "job_state cancelled_job \<in> JOB_TERMINAL_STATES \<and>
   get_row job_id (jobs (hd [cancelled_db, cancelling_db, queued_db, empty_db])) (job_id cancelled_job) = Some cancelled_job"
  using terminal_states_absorbing [OF sample_reach_cancelled, of cancelled_db cancelled_job]
  by (simp add: sample_defs)

text \<open>
  C20. Refinement: every call the service can make in a reachable state, on any earlier read,
  is a finite sequence of the transitions of the specification.
\<close>

theorem job_service_refines_spec:
  assumes "reach hist_init (job_step sha256 svc) h" and "job_step sha256 svc h h'"
  shows "\<exists>cur'. h' = cur' # h \<and> job_spec_step\<^sup>*\<^sup>* (hd h) cur'"
  by (rule job_step_refines [OF assms(2) job_system.reach_inv [OF assms(1)]])

theorem job_service_refines_spec_witness: "job_spec_step\<^sup>*\<^sup>* queued_db cancelling_db"
  using job_service_refines_spec [OF sample_reach_queued step_request_cancel [OF _ sample_request_cancel]] by simp

end
