(* ===== verification/Job_Operations.thy ===== *)
theory Job_Operations
  imports Job_Invariants
begin

text \<open>
  The functional behaviour of the durable job operations: what a lease picks and that two
  workers never hold the same job, what a repeated or racing enqueue does, the bounds of the
  backoff, the effect of the expired-lease sweep and of a completion on every branch.
\<close>

section \<open>Idempotency lookups\<close>

lemma find_by_idempotency_SomeD:
  "find_by_idempotency db t k key = Some j \<Longrightarrow> j \<in> set (jobs db) \<and> idempotency_triple j = (t, k, key)"
  unfolding find_by_idempotency_def idempotency_triple_def
  by (induction "jobs db" arbitrary: db) (auto simp: find_Some_iff)

section \<open>Leasing\<close>

lemma lease_first_current:
  assumes "jobs_wf cur" and "\<forall>j\<in>set cs. j \<in> set (jobs cur)"
  shows "lease_first now w x cs cur =
    (case cs of [] \<Rightarrow> (cur, None)
     | job # _ \<Rightarrow>
        (let j' = job\<lparr>job_state := Leased, job_lease_owner := Some w, job_lease_expires_at := Some x,
               job_heartbeat_at := Some now, job_attempts := job_attempts job + 1, job_updated_at := now,
               job_version := job_version job + 1\<rparr>
         in (cur\<lparr>jobs := put_row job_id (jobs cur) (job_id job) (\<lambda>_. j')\<rparr>, Some j')))"
proof (cases cs)
  case (Cons job rest)
  let ?upd = "\<lambda>j. j\<lparr>job_state := Leased, job_lease_owner := Some w, job_lease_expires_at := Some x,
               job_heartbeat_at := Some now, job_attempts := job_attempts j + 1, job_updated_at := now\<rparr>"
  let ?j = "set_job_version (job_version job + 1) (?upd job)"
  have d: "keys_distinct job_id (jobs cur)" using assms(1) by (simp add: jobs_wf_def)
  have g: "get_row job_id (jobs cur) (job_id job) = Some job"
    using assms(2) Cons by (simp add: get_row_in_set [OF d])
  have p: "put_row job_id (jobs cur) (job_id job) (\<lambda>r. set_job_version (job_version job + 1) (?upd r)) =
      put_row job_id (jobs cur) (job_id job) (\<lambda>_. ?j)"
    by (rule put_row_const [OF d g])
  have k: "job_id ?j = job_id job" by simp
  show ?thesis
    by (simp add: Cons job_table.cas_row_eq [OF d] g p get_put_row_const [where key = job_id, OF k] Let_def)
qed simp

lemma lease_current:
  assumes "jobs_wf cur"
  shows "lease cur cur now w secs lanes =
    (case lease_candidates now lanes cur of [] \<Rightarrow> (cur, None)
     | job # _ \<Rightarrow>
        (let j' = job\<lparr>job_state := Leased, job_lease_owner := Some w, job_lease_expires_at := Some (now + secs),
               job_heartbeat_at := Some now, job_attempts := job_attempts job + 1, job_updated_at := now,
               job_version := job_version job + 1\<rparr>
         in (cur\<lparr>jobs := put_row job_id (jobs cur) (job_id job) (\<lambda>_. j')\<rparr>, Some j')))"
  unfolding lease_def by (rule lease_first_current [OF assms]) (simp add: lease_candidates_set)

lemma candidates_head_least:
  assumes "lease_candidates now lanes db = job # rest" and "k \<in> set (jobs db)" and "leasable now lanes k"
  shows "(job_available_at job, job_created_at job) \<le> (job_available_at k, job_created_at k)"
proof -
  have "sorted (map (\<lambda>j. (job_available_at j, job_created_at j)) (job # rest))"
    unfolding assms(1) [symmetric] lease_candidates_def by simp
  moreover have "k \<in> set (job # rest)"
    using assms(2,3) unfolding assms(1) [symmetric] lease_candidates_set by simp
  ultimately show ?thesis by auto
qed

section \<open>Updates that must succeed\<close>

lemma fresh_event_key:
  assumes "jobs_inv cur" and "get_row job_id (jobs cur) i = Some job" and "job_version job < v"
  shows "(AGGREGATE_TYPE, i, v, ty) \<notin> ob_key ` set (outbox cur)"
  using assms unfolding jobs_inv_def events_bounded_def by fastforce

lemma cas_event_succeeds:
  assumes inv: "jobs_inv cur" and g: "get_row job_id (jobs cur) (job_id job) = Some job"
    and k: "\<And>j. job_id (upd j) = job_id j" and e: "eid \<notin> ob_id ` set (outbox cur)"
  defines "j' \<equiv> set_job_version (job_version job + 1) (upd job)"
  shows "job_cas cur job upd = Inr (put_row job_id (jobs cur) (job_id job) (\<lambda>_. j'), job_version job + 1)"
    and "commit_event cur t (job_emit now eid job ty (job_version job + 1) []) =
      Inr (cur\<lparr>jobs := t, outbox := outbox cur @ [job_emit now eid job ty (job_version job + 1) []]\<rparr>)"
proof -
  have d: "keys_distinct job_id (jobs cur)" using inv by (simp add: jobs_inv_def jobs_wf_def)
  have "put_row job_id (jobs cur) (job_id job) (\<lambda>r. set_job_version (job_version job + 1) (upd r)) =
      put_row job_id (jobs cur) (job_id job) (\<lambda>_. j')"
    unfolding j'_def by (rule put_row_const [OF d g])
  then show "job_cas cur job upd = Inr (put_row job_id (jobs cur) (job_id job) (\<lambda>_. j'), job_version job + 1)"
    by (simp add: job_cas_def job_table.cas_row_eq [OF d] g)
  show "commit_event cur t (job_emit now eid job ty (job_version job + 1) []) =
      Inr (cur\<lparr>jobs := t, outbox := outbox cur @ [job_emit now eid job ty (job_version job + 1) []]\<rparr>)"
    using e fresh_event_key [OF inv g, of "job_version job + 1" ty]
    by (simp add: commit_event_def outbox_insert_def)
qed

lemma refresh_put:
  assumes "get_row job_id (jobs cur) i = Some job" and "job_id j' = i"
  shows "refresh (cur\<lparr>jobs := put_row job_id (jobs cur) i (\<lambda>_. j'), outbox := ob\<rparr>) i =
     Inr (cur\<lparr>jobs := put_row job_id (jobs cur) i (\<lambda>_. j'), outbox := ob\<rparr>, j')"
  by (simp add: refresh_def load_job_def get_put_row_const [where key = job_id, OF assms(2)] assms(1))

lemma complete_owned:
  assumes inv: "jobs_inv cur" and j: "get_row job_id (jobs cur) i = Some j"
    and own: "job_lease_owner j = Some w" "job_state j = Running" and e: "eid \<notin> ob_id ` set (outbox cur)"
  shows "complete cur cur now eid i w res =
    (let j' = j\<lparr>job_state := Succeeded, job_result_ref := res, job_updated_at := now, job_version := job_version j + 1\<rparr>
     in Inr (cur\<lparr>jobs := put_row job_id (jobs cur) i (\<lambda>_. j'),
                 outbox := outbox cur @ [job_emit now eid j ''job.succeeded'' (job_version j + 1) []]\<rparr>, j'))"
proof -
  have ji: "job_id j = i" using get_row_SomeD [OF j] by simp
  note c = cas_event_succeeds [OF inv _ _ e, of j, unfolded ji, OF j]
  show ?thesis
    by (simp add: complete_def load_job_def j own c Let_def refresh_put [OF j] ji)
qed

lemma start_owned:
  assumes wf: "jobs_wf cur" and j: "get_row job_id (jobs cur) i = Some j"
    and own: "job_lease_owner j = Some w" "job_state j = Leased"
  shows "start cur cur now i w =
    (let j' = j\<lparr>job_state := Running, job_updated_at := now, job_version := job_version j + 1\<rparr>
     in Inr (cur\<lparr>jobs := put_row job_id (jobs cur) i (\<lambda>_. j')\<rparr>, j'))"
proof -
  have ji: "job_id j = i" using get_row_SomeD [OF j] by simp
  have d: "keys_distinct job_id (jobs cur)" using wf by (simp add: jobs_wf_def)
  let ?j = "j\<lparr>job_state := Running, job_updated_at := now, job_version := job_version j + 1\<rparr>"
  have p: "put_row job_id (jobs cur) i (\<lambda>r. r\<lparr>job_state := Running, job_updated_at := now, job_version := job_version j + 1\<rparr>) =
      put_row job_id (jobs cur) i (\<lambda>_. ?j)"
    by (rule put_row_const [OF d j])
  have k: "job_id ?j = i" by (simp add: ji)
  show ?thesis
    by (simp add: start_def load_owned_def load_job_def j own job_cas_def job_table.cas_row_eq [OF d] ji p Let_def
        refresh_def get_put_row_const [where key = job_id, OF k])
qed

lemma fail_owned:
  assumes inv: "jobs_inv cur" and j: "get_row job_id (jobs cur) i = Some j"
    and own: "job_lease_owner j = Some w" "job_state j \<in> ACTIVE_STATES" and e: "eid \<notin> ob_id ` set (outbox cur)"
  shows "\<exists>db j'. fail svc draw cur cur now eid i w code recov = Inr (db, j') \<and>
    get_row job_id (jobs db) i = Some j' \<and>
    job_state j' = (if recov \<and> job_attempts j < job_max_attempts j then Recoverable_failed else Terminal_failed) \<and>
    job_last_error_code j' = Some code"
proof -
  have ji: "job_id j = i" using get_row_SomeD [OF j] by simp
  note c = cas_event_succeeds [OF inv _ _ e, of j, unfolded ji, OF j]
  have g: "get_row job_id (put_row job_id (jobs cur) i (\<lambda>_. x)) i = Some x" if "job_id x = i" for x
    by (simp add: get_put_row_const [where key = job_id, OF that] j)
  show ?thesis
    using own(2)
    by (simp add: fail_def load_owned_def load_job_def j own(1) c refresh_put [OF j] ji g)
qed

section \<open>Reaping\<close>

definition reaped :: "instant \<Rightarrow> durable_job \<Rightarrow> durable_job" where
  "reaped now j =
     (if job_attempts j < job_max_attempts j
      then j\<lparr>job_state := Recoverable_failed, job_last_error_code := Some ''LEASE_EXPIRED'',
             job_lease_owner := None, job_lease_expires_at := None, job_available_at := now,
             job_updated_at := now, job_version := job_version j + 1\<rparr>
      else j\<lparr>job_state := Terminal_failed, job_last_error_code := Some ''LEASE_EXPIRED'',
             job_lease_owner := None, job_lease_expires_at := None,
             job_updated_at := now, job_version := job_version j + 1\<rparr>)"

lemma reap_one:
  assumes inv: "jobs_inv cur" and g: "get_row job_id (jobs cur) (job_id job) = Some job"
    and a: "job_state job \<in> ACTIVE_STATES" and e: "fresh (job_id job) \<notin> ob_id ` set (outbox cur)"
  obtains cur1 ev where "reap_rows now fresh (job # js) cur = reap_rows now fresh js cur1"
    "jobs cur1 = put_row job_id (jobs cur) (job_id job) (\<lambda>_. reaped now job)"
    "outbox cur1 = outbox cur @ [ev]" "ob_id ev = fresh (job_id job)" "jobs_inv cur1"
proof -
  let ?ty = "if job_attempts job < job_max_attempts job then ''job.recoverable_failed'' else ''job.terminal_failed''"
  let ?ev = "job_emit now (fresh (job_id job)) job ?ty (job_version job + 1) []"
  let ?cur = "cur\<lparr>jobs := put_row job_id (jobs cur) (job_id job) (\<lambda>_. reaped now job), outbox := outbox cur @ [?ev]\<rparr>"
  note c = cas_event_succeeds [OF inv g _ e]
  have r: "reap_rows now fresh (job # js) cur = reap_rows now fresh js ?cur"
    by (simp add: c reaped_def)
  have "reap_rows now fresh [job] cur = Inr ?cur"
    by (simp add: c reaped_def)
  moreover have "snapshot_of job_id job_version (jobs cur) job" using g by (simp add: snapshot_of_def)
  ultimately have "job_spec_step\<^sup>*\<^sup>* cur ?cur"
    using reap_rows_refines [OF jobs_inv_wf [OF inv], of "[job]"] a by simp
  then have "jobs_inv ?cur" by (rule job_spec.steps_inv) (rule inv)
  with that r show ?thesis by simp
qed

lemma reaped_id [simp]: "job_id (reaped now j) = job_id j"
  by (simp add: reaped_def)

lemma reap_rows_total:
  "jobs_inv cur \<Longrightarrow> \<forall>j\<in>set js. get_row job_id (jobs cur) (job_id j) = Some j \<and> job_state j \<in> ACTIVE_STATES \<Longrightarrow>
   distinct (map job_id js) \<Longrightarrow> inj_on fresh (job_id ` set js) \<Longrightarrow>
   fresh ` job_id ` set js \<inter> ob_id ` set (outbox cur) = {} \<Longrightarrow>
   \<exists>cur'. reap_rows now fresh js cur = Inr cur' \<and>
     (\<forall>i. get_row job_id (jobs cur') i = (if i \<in> job_id ` set js
        then map_option (reaped now) (get_row job_id (jobs cur) i) else get_row job_id (jobs cur) i))"
proof (induction js arbitrary: cur)
  case (Cons job js)
  have g: "get_row job_id (jobs cur) (job_id job) = Some job" and a: "job_state job \<in> ACTIVE_STATES"
    and e: "fresh (job_id job) \<notin> ob_id ` set (outbox cur)"
    using Cons.prems(2,5) by (simp_all add: disjoint_iff)
  from Cons.prems(1) g a e obtain cur1 ev where r: "reap_rows now fresh (job # js) cur = reap_rows now fresh js cur1"
    and j1: "jobs cur1 = put_row job_id (jobs cur) (job_id job) (\<lambda>_. reaped now job)"
    and o1: "outbox cur1 = outbox cur @ [ev]" "ob_id ev = fresh (job_id job)" and inv1: "jobs_inv cur1"
    by (rule reap_one)
  have g1: "get_row job_id (jobs cur1) i =
      (if i = job_id job then Some (reaped now job) else get_row job_id (jobs cur) i)" for i
    unfolding j1 by (simp add: get_put_row_const [where key = job_id, OF reaped_id] g)
  have nin: "job_id job \<notin> job_id ` set js" using Cons.prems(3) by simp
  have "\<exists>cur'. reap_rows now fresh js cur1 = Inr cur' \<and>
     (\<forall>i. get_row job_id (jobs cur') i = (if i \<in> job_id ` set js
        then map_option (reaped now) (get_row job_id (jobs cur1) i) else get_row job_id (jobs cur1) i))"
  proof (rule Cons.IH [OF inv1])
    show "\<forall>j\<in>set js. get_row job_id (jobs cur1) (job_id j) = Some j \<and> job_state j \<in> ACTIVE_STATES"
    proof
      fix j assume j: "j \<in> set js"
      with nin have "job_id j \<noteq> job_id job" by (metis imageI)
      with j Cons.prems(2) show "get_row job_id (jobs cur1) (job_id j) = Some j \<and> job_state j \<in> ACTIVE_STATES"
        by (simp add: g1)
    qed
    show "distinct (map job_id js)" "inj_on fresh (job_id ` set js)" using Cons.prems(3,4) by simp_all
    have "fresh (job_id job) \<notin> fresh ` job_id ` set js"
      using Cons.prems(4) nin by (simp add: inj_on_insert)
    then show "fresh ` job_id ` set js \<inter> ob_id ` set (outbox cur1) = {}"
      using Cons.prems(5) by (simp add: o1)
  qed
  then obtain cur' where c: "reap_rows now fresh js cur1 = Inr cur'"
     and gc: "\<And>i. get_row job_id (jobs cur') i = (if i \<in> job_id ` set js
        then map_option (reaped now) (get_row job_id (jobs cur1) i) else get_row job_id (jobs cur1) i)" by blast
  have "get_row job_id (jobs cur') i = (if i \<in> job_id ` set (job # js)
        then map_option (reaped now) (get_row job_id (jobs cur) i) else get_row job_id (jobs cur) i)" for i
    using nin by (cases "i = job_id job") (simp_all only: gc g1 g, simp_all)
  with c show ?case unfolding r by blast
qed simp

section \<open>Fencing\<close>

lemma job_cas_stale:
  assumes "jobs_wf cur" and "snapshot_of job_id job_version (jobs cur) a"
    and "get_row job_id (jobs cur) (job_id a) \<noteq> Some a"
  shows "job_cas cur a upd = Inl Job_conflict"
proof -
  have d: "keys_distinct job_id (jobs cur)" using assms(1) by (simp add: jobs_wf_def)
  show ?thesis
    using assms(2,3) by (auto simp: job_cas_def job_table.cas_row_eq [OF d] snapshot_of_def)
qed

section \<open>A leased and running job\<close>

definition leased_job :: durable_job where
  "leased_job = sample_job\<lparr>job_state := Leased, job_lease_owner := Some ''w1'', job_lease_expires_at := Some 30,
     job_heartbeat_at := Some 0, job_attempts := 1, job_version := 2\<rparr>"

definition leased_db :: jobs_db where
  "leased_db = queued_db\<lparr>jobs := [leased_job]\<rparr>"

definition running_job :: durable_job where
  "running_job = leased_job\<lparr>job_state := Running, job_updated_at := 1, job_version := 3\<rparr>"

definition running_db :: jobs_db where
  "running_db = queued_db\<lparr>jobs := [running_job]\<rparr>"

lemmas leased_defs = leased_job_def leased_db_def running_job_def running_db_def sample_defs

lemma sample_lease: "lease queued_db queued_db 0 ''w1'' 30 None = (leased_db, Some leased_job)"
  by (simp add: lease_def lease_candidates_def leasable_def leased_defs cas_row_def)

lemma sample_start: "start leased_db leased_db 1 ''j1'' ''w1'' = Inr (running_db, running_job)"
  by (simp add: start_def leased_defs job_op_defs)

lemma sample_reach_leased: "reach hist_init (job_step id sample_service) [leased_db, queued_db, empty_db]"
  by (rule reach_step [OF sample_reach_queued step_lease [OF _ sample_lease]]) simp

lemma sample_reach_running: "reach hist_init (job_step id sample_service) [running_db, leased_db, queued_db, empty_db]"
  by (rule reach_step [OF sample_reach_leased step_start [OF _ sample_start]]) simp

section \<open>Properties\<close>

text \<open>
  C11. Two workers that lease one after the other, both from reads of the table as it was
  before the first lease (or of any earlier state), never hold the same job.
\<close>

theorem lease_exclusive:
  assumes wf: "jobs_wf cur" and s: "job_snapshot snap1 cur" "job_snapshot snap2 cur"
    and l1: "lease snap1 cur now1 w1 secs1 lanes1 = (cur1, Some j1)"
    and l2: "lease snap2 cur1 now2 w2 secs2 lanes2 = (cur2, Some j2)"
  shows "job_id j1 \<noteq> job_id j2"
proof -
  have st: "job_spec_step\<^sup>*\<^sup>* cur cur1" using lease_refines [OF wf s(1) l1] by auto
  have wf1: "jobs_wf cur1" by (rule spec_steps_wf [OF st wf])
  have s1: "job_snapshot snap2 cur1"
    using s(2) spec_steps_snapshot [OF st] by (simp add: job_snapshot_def)
  from wf s(1) l1 obtain a where a: "get_row job_id (jobs cur) (job_id a) = Some a"
    and j1: "j1 = a\<lparr>job_state := Leased, job_lease_owner := Some w1, job_lease_expires_at := Some (now1 + secs1),
           job_heartbeat_at := Some now1, job_attempts := job_attempts a + 1, job_updated_at := now1,
           job_version := job_version a + 1\<rparr>"
    and c1: "cur1 = cur\<lparr>jobs := put_row job_id (jobs cur) (job_id a) (\<lambda>_. j1)\<rparr>" by (rule lease_SomeD)
  from wf1 s1 l2 obtain b where b: "leasable now2 lanes2 b" "get_row job_id (jobs cur1) (job_id b) = Some b"
    and j2: "j2 = b\<lparr>job_state := Leased, job_lease_owner := Some w2, job_lease_expires_at := Some (now2 + secs2),
           job_heartbeat_at := Some now2, job_attempts := job_attempts b + 1, job_updated_at := now2,
           job_version := job_version b + 1\<rparr>" by (rule lease_SomeD)
  have k: "job_id j1 = job_id a" by (simp add: j1)
  have "get_row job_id (jobs cur1) (job_id a) = Some j1"
    using a by (simp add: c1 get_put_row_const [where key = job_id, OF k])
  moreover have "job_state b \<noteq> job_state j1" using b(1) by (auto simp: leasable_def j1)
  ultimately have "job_id b \<noteq> job_id a" using b(2) by auto
  then show ?thesis by (simp add: j1 j2)
qed

theorem lease_exclusive_witness:
  "let db = \<lparr>jobs = [sample_job, sample_job\<lparr>job_id := ''j2''\<rparr>], outbox = []\<rparr>;
       (db1, r1) = lease db db 0 ''w1'' 30 None; (db2, r2) = lease db db1 0 ''w2'' 30 None
   in r1 \<noteq> None \<and> r2 \<noteq> None \<and> job_id (the r1) \<noteq> job_id (the r2)"
proof -
  let ?db = "\<lparr>jobs = [sample_job, sample_job\<lparr>job_id := ''j2''\<rparr>], outbox = []\<rparr>"
  have wf: "jobs_wf ?db" by (simp add: jobs_wf_def sample_defs)
  obtain db1 j1 where 1: "lease ?db ?db 0 ''w1'' 30 None = (db1, Some j1)"
    by (simp add: lease_def lease_candidates_def leasable_def sample_defs cas_row_def)
  obtain db2 j2 where 2: "lease ?db db1 0 ''w2'' 30 None = (db2, Some j2)"
    using 1 by (auto simp: lease_def lease_candidates_def leasable_def sample_defs cas_row_def)
  from lease_exclusive [OF wf job_snapshot_refl [OF wf] job_snapshot_refl [OF wf] 1 2] 1 2
  show ?thesis by simp
qed

text \<open>
  A lease returns nothing exactly when no row is eligible (leasable state, due, in the
  requested lanes); otherwise it takes an eligible row that no eligible row precedes in
  \<open>(available_at, created_at)\<close> order, spends one attempt, records owner and expiry, and
  leaves every other row and the outbox as they were.
\<close>

theorem lease_takes_earliest:
  assumes wf: "jobs_wf cur" and l: "lease cur cur now w secs lanes = (cur', r)"
  shows "case r of
      None \<Rightarrow> cur' = cur \<and> filter (leasable now lanes) (jobs cur) = []
    | Some j' \<Rightarrow> \<exists>j. j \<in> set (jobs cur) \<and> leasable now lanes j \<and>
        filter (\<lambda>k. leasable now lanes k \<and> (job_available_at k, job_created_at k) < (job_available_at j, job_created_at j))
          (jobs cur) = [] \<and>
        j' = j\<lparr>job_state := Leased, job_lease_owner := Some w, job_lease_expires_at := Some (now + secs),
           job_heartbeat_at := Some now, job_attempts := job_attempts j + 1, job_updated_at := now,
           job_version := job_version j + 1\<rparr> \<and>
        cur' = cur\<lparr>jobs := put_row job_id (jobs cur) (job_id j) (\<lambda>_. j')\<rparr>"
proof (cases "lease_candidates now lanes cur")
  case Nil
  then have "filter (leasable now lanes) (jobs cur) = []"
    using lease_candidates_set [of now lanes cur] by (auto simp: filter_empty_conv)
  with Nil l show ?thesis by (auto simp: lease_current [OF wf])
next
  case (Cons job rest)
  have j: "job \<in> set (jobs cur)" "leasable now lanes job"
    using lease_candidates_set [of now lanes cur] Cons by auto
  have "filter (\<lambda>k. leasable now lanes k \<and>
      (job_available_at k, job_created_at k) < (job_available_at job, job_created_at job)) (jobs cur) = []"
    unfolding filter_empty_conv using candidates_head_least [OF Cons] by (blast dest: leD)
  with Cons l j show ?thesis by (auto simp: lease_current [OF wf] Let_def)
qed

theorem lease_takes_earliest_witness:
  "let db = \<lparr>jobs = [sample_job, sample_job\<lparr>job_id := ''j2'', job_available_at := -1\<rparr>], outbox = []\<rparr>;
       (db1, r) = lease db db 0 ''w1'' 30 None
   in case r of None \<Rightarrow> False | Some j \<Rightarrow> job_id j = ''j2'' \<and> job_attempts j = 1"
proof -
  let ?db = "\<lparr>jobs = [sample_job, sample_job\<lparr>job_id := ''j2'', job_available_at := -1\<rparr>], outbox = []\<rparr>"
  have wf: "jobs_wf ?db" by (simp add: jobs_wf_def sample_defs)
  obtain db1 r where l: "lease ?db ?db 0 ''w1'' 30 None = (db1, r)" by (cases "lease ?db ?db 0 ''w1'' 30 None")
  from lease_takes_earliest [OF wf l] l show ?thesis
    by (cases r) (auto simp: leasable_def sample_defs split: if_splits)
qed

text \<open>
  Enqueue is idempotent per (tenant, kind, idempotency key): for any job ever
  committed, enqueueing its key again returns that same job and changes nothing when the
  payload has the same digest, and raises a conflict, changing nothing, otherwise.
\<close>

theorem enqueue_idempotent:
  assumes r: "reach hist_init (job_step sha256 svc) h" and db: "db \<in> set h" and j: "j \<in> set (jobs db)"
  shows "case enqueue sha256 (hd h) (hd h) now jid eid (job_tenant_id j) (job_kind j) payload
      (job_idempotency_key j) run maxa lane schema of
    Inl e \<Rightarrow> e = Idempotency_conflict \<and> job_digest sha256 payload \<noteq> job_payload_digest j
  | Inr (db', j') \<Rightarrow> db' = hd h \<and> job_id j' = job_id j \<and> job_payload j' = job_payload j \<and>
      job_digest sha256 payload = job_payload_digest j"
proof -
  let ?cur = "hd h"
  have inv: "jobs_inv db" and st: "job_spec_step\<^sup>*\<^sup>* db ?cur" and hinv: "jobs_inv ?cur"
    using job_system.reach_inv [OF r] db by (simp_all add: hist_inv_def)
  obtain new where "map job_identity (jobs ?cur) = map job_identity (jobs db) @ new"
    using spec_steps_identity [OF st jobs_inv_wf [OF inv]] by blast
  then have "job_identity j \<in> set (map job_identity (jobs ?cur))" using j by simp
  then obtain j0 where j0: "j0 \<in> set (jobs ?cur)" "job_identity j0 = job_identity j" by auto
  then have "idempotency_triple j = idempotency_triple j0" by (simp add: job_identity_def)
  with j0(1) have "idempotency_triple j \<in> idempotency_triple ` set (jobs ?cur)" by simp
  then obtain k where k: "find_by_idempotency ?cur (job_tenant_id j) (job_kind j) (job_idempotency_key j) = Some k"
    using find_by_idempotency_None [of ?cur "job_tenant_id j" "job_kind j" "job_idempotency_key j"]
    unfolding idempotency_triple_def [of j] by blast
  from find_by_idempotency_SomeD [OF k] have "k \<in> set (jobs ?cur)" "idempotency_triple k = idempotency_triple j0"
    using \<open>idempotency_triple j = idempotency_triple j0\<close> by (simp_all add: idempotency_triple_def)
  moreover have "inj_on idempotency_triple (set (jobs ?cur))" using hinv by (simp add: jobs_inv_def distinct_map)
  ultimately have "k = j0" using j0(1) by (simp add: inj_onD)
  with j0(2) k show ?thesis
    by (simp add: enqueue_def Let_def reconcile_idempotent_def job_identity_def)
qed

theorem enqueue_idempotent_witness:
  "enqueue id queued_db queued_db 7 ''j9'' ''e9'' ''t1'' ''ingest'' JNull ''k1'' None 3 ''default'' 1 =
   Inr (queued_db, sample_job)"
proof -
  have "sample_job \<in> set (jobs queued_db)" by (simp add: sample_defs)
  from enqueue_idempotent [OF sample_reach_queued _ this, where now = 7 and jid = "''j9''" and eid = "''e9''"
    and payload = JNull and run = None and maxa = 3 and lane = "''default''" and schema = 1]
  show ?thesis
    by (simp add: enqueue_def find_by_idempotency_def reconcile_idempotent_def sample_defs split: sum.splits)
qed

text \<open>
  Two concurrent first enqueues of one key: the loser, which read the table before the
  winner committed, raises the database's integrity error at its flush and inserts nothing,
  even when both carry the same payload; the handler that would return the winner's job is
  not reached.
\<close>

lemma enqueue_race_raises:
  assumes "find_by_idempotency snap tenant kind key = None" and "find_by_idempotency cur tenant kind key = Some winner"
  shows "enqueue sha256 snap cur now jid eid tenant kind payload key run maxa lane schema = Inl Integrity_error"
  using assms by (simp add: enqueue_def Let_def)

text \<open>
  The retry delay is never negative and never exceeds the configured maximum, whatever
  jitter is drawn within its bounds; without jitter it does not shrink as attempts grow.
\<close>

theorem backoff_within_bounds:
  assumes b: "0 \<le> base" "0 \<le> maxb" and d: "\<bar>draw\<bar> \<le> js_backoff_jitter (job_service_init base maxb jitter)"
  shows "0 \<le> backoff_seconds (job_service_init base maxb jitter) draw n \<and>
    backoff_seconds (job_service_init base maxb jitter) draw n \<le> maxb \<and>
    backoff_seconds (job_service_init base maxb 0) 0 n \<le> backoff_seconds (job_service_init base maxb 0) 0 (n + 1)"
proof -
  let ?e = "\<lambda>n. base * 2 ^ nat (max (n - 1) 0)"
  have e: "0 \<le> ?e n" for n using b(1) by simp
  have "(2::rat) ^ nat (max (n - 1) 0) \<le> 2 ^ nat (max n 0)" by (rule power_increasing) auto
  then have "?e n \<le> base * 2 ^ nat (max n 0)" using b(1) by (rule mult_left_mono)
  then have "min (?e n) maxb \<le> min (base * 2 ^ nat (max n 0)) maxb" by linarith
  then show ?thesis
    using e [of n] b(2) by (auto simp: backoff_seconds_def job_service_init_def Let_def)
qed

theorem backoff_within_bounds_witness: "backoff_seconds (job_service_init 2 300 (1/10)) (1/20) 3 \<le> 300"
  using backoff_within_bounds [of 2 300 "1/20" "1/10" 3] by (simp add: job_service_init_def)

text \<open>
  The expired-lease sweep, on a table it alone writes and with fresh event identifiers,
  succeeds; every row whose lease had expired is requeued while it has attempts left and
  given up otherwise, every other row is untouched, and no expired lease remains.
\<close>

theorem reaper_clears_expired:
  assumes inv: "jobs_inv cur" and f: "inj fresh" "range fresh \<inter> ob_id ` set (outbox cur) = {}"
  shows "\<exists>cur' js. reap_expired_leases cur cur now fresh = Inr (cur', js) \<and>
    (\<forall>i. get_row job_id (jobs cur') i =
       map_option (\<lambda>j. if lease_expired now j then reaped now j else j) (get_row job_id (jobs cur) i)) \<and>
    \<not> list_ex (\<lambda>j. case get_row job_id (jobs cur') (job_id j) of None \<Rightarrow> True | Some k \<Rightarrow> lease_expired now k) (jobs cur)"
proof -
  let ?ex = "filter (lease_expired now) (jobs cur)"
  have d: "keys_distinct job_id (jobs cur)" using inv by (simp add: jobs_inv_def jobs_wf_def)
  have "\<exists>cur'. reap_rows now fresh ?ex cur = Inr cur' \<and>
     (\<forall>i. get_row job_id (jobs cur') i = (if i \<in> job_id ` set ?ex
        then map_option (reaped now) (get_row job_id (jobs cur) i) else get_row job_id (jobs cur) i))"
  proof (rule reap_rows_total [OF inv])
    show "\<forall>j\<in>set ?ex. get_row job_id (jobs cur) (job_id j) = Some j \<and> job_state j \<in> ACTIVE_STATES"
      by (simp add: get_row_in_set [OF d] lease_expired_def)
    show "distinct (map job_id ?ex)" using d by (simp add: distinct_map inj_on_def)
    show "inj_on fresh (job_id ` set ?ex)" using f(1) by (rule inj_on_subset) simp
    show "fresh ` job_id ` set ?ex \<inter> ob_id ` set (outbox cur) = {}" using f(2) by blast
  qed
  then obtain cur' where c: "reap_rows now fresh ?ex cur = Inr cur'"
    and g: "\<And>i. get_row job_id (jobs cur') i = (if i \<in> job_id ` set ?ex
        then map_option (reaped now) (get_row job_id (jobs cur) i) else get_row job_id (jobs cur) i)" by blast
  have ex: "i \<in> job_id ` set ?ex \<longleftrightarrow> lease_expired now j" if "get_row job_id (jobs cur) i = Some j" for i j
    using that by (auto simp: get_row_iff [OF d] image_iff) (metis d same_job)
  have g': "get_row job_id (jobs cur') i =
       map_option (\<lambda>j. if lease_expired now j then reaped now j else j) (get_row job_id (jobs cur) i)" for i
  proof (cases "get_row job_id (jobs cur) i")
    case (Some j)
    show ?thesis by (simp only: g ex [OF Some] Some) simp
  qed (simp add: g)
  moreover have "\<not> list_ex (\<lambda>j. case get_row job_id (jobs cur') (job_id j) of None \<Rightarrow> True | Some k \<Rightarrow> lease_expired now k) (jobs cur)"
    by (auto simp: list_ex_iff g' get_row_in_set [OF d] lease_expired_def reaped_def split: if_splits)
  ultimately show ?thesis using c by (auto simp: reap_expired_leases_def Let_def)
qed

theorem reaper_clears_expired_witness:
  "\<exists>cur' js j. reap_expired_leases leased_db leased_db 99 (\<lambda>i. ''r'' @ i) = Inr (cur', js) \<and>
     get_row job_id (jobs cur') ''j1'' = Some j \<and> job_state j = Recoverable_failed \<and> job_lease_owner j = None"
proof -
  have "jobs_inv leased_db" using job_system.reach_inv [OF sample_reach_leased] by (simp add: hist_inv_def)
  moreover have "inj (\<lambda>i. ''r'' @ i)" by (simp add: inj_def)
  moreover have "range (\<lambda>i. ''r'' @ i) \<inter> ob_id ` set (outbox leased_db) = {}" by (auto simp: leased_defs)
  ultimately obtain cur' js where c: "reap_expired_leases leased_db leased_db 99 (\<lambda>i. ''r'' @ i) = Inr (cur', js)"
    and g: "\<And>i. get_row job_id (jobs cur') i =
       map_option (\<lambda>j. if lease_expired 99 j then reaped 99 j else j) (get_row job_id (jobs leased_db) i)"
    using reaper_clears_expired [of leased_db "\<lambda>i. ''r'' @ i" 99] by blast
  have "get_row job_id (jobs leased_db) ''j1'' = Some leased_job" "lease_expired 99 leased_job"
    "job_state (reaped 99 leased_job) = Recoverable_failed" "job_lease_owner (reaped 99 leased_job) = None"
    by (simp_all add: leased_defs lease_expired_def reaped_def)
  with c g [of "''j1''"] show ?thesis by simp
qed

text \<open>
  Fencing: a worker that acts on a row it read before another call changed it cannot
  heartbeat, start, complete or fail the job; every such call raises and commits nothing.
\<close>

theorem stale_worker_is_fenced:
  assumes r: "reach hist_init (job_step sha256 svc) (cur # past)" and s: "snap \<in> set (cur # past)"
    and a: "get_row job_id (jobs snap) i = Some a" and moved: "get_row job_id (jobs cur) i \<noteq> Some a"
  shows "isl (heartbeat snap cur now i w secs) \<and> isl (start snap cur now i w) \<and>
    (job_state a \<noteq> Succeeded \<longrightarrow> isl (complete snap cur now eid i w res)) \<and>
    isl (fail svc draw snap cur now eid i w code recov)"
proof -
  have inv: "hist_inv (cur # past)" by (rule job_system.reach_inv [OF r])
  then have wf: "jobs_wf cur" "jobs_wf snap" and st: "job_spec_step\<^sup>*\<^sup>* snap cur"
    using s by (auto simp: hist_inv_def jobs_inv_wf)
  have ai: "job_id a = i" using get_row_SomeD [OF a] by simp
  have "snapshot_of job_id job_version (jobs cur) a"
    using spec_steps_job_snapshot [OF st wf(2)] get_row_SomeD [OF a] by (simp add: job_snapshot_def)
  then have c: "job_cas cur a upd = Inl Job_conflict" for upd
    using moved ai by (intro job_cas_stale [OF wf(1)]) simp_all
  have l: "isl (res_bind (load_owned snap i w states) f)" if "job_state a \<in> states \<Longrightarrow> isl (f a)"
    for states and f :: "_ \<Rightarrow> _ + jobs_db \<times> durable_job"
    using that by (simp add: load_owned_def load_job_def a)
  show ?thesis
    unfolding heartbeat_def start_def fail_def complete_def
    by (intro conjI impI l) (simp_all add: c load_job_def a load_owned_def)
qed

theorem stale_worker_is_fenced_witness:
  "isl (heartbeat queued_db leased_db 5 ''j1'' ''w1'' 30) \<and> isl (complete queued_db leased_db 5 ''e7'' ''j1'' ''w1'' None)"
proof -
  have "get_row job_id (jobs queued_db) ''j1'' = Some sample_job" "get_row job_id (jobs leased_db) ''j1'' \<noteq> Some sample_job"
    "job_state sample_job \<noteq> Succeeded" by (simp_all add: leased_defs)
  with stale_worker_is_fenced [OF sample_reach_leased, of queued_db "''j1''" sample_job] show ?thesis by simp
qed

end
