(* ===== verification/Run_Vocabulary.thy ===== *)
theory Run_Vocabulary
  imports Prelude
begin

text \<open>The run-facing event types of \<open>sse/run_events.py\<close>, shared by the worker and the event stream.\<close>

definition RUN_STARTED :: string where "RUN_STARTED = ''run.started''"
definition RUN_PROGRESS :: string where "RUN_PROGRESS = ''run.progress''"
definition RUN_SUCCEEDED :: string where "RUN_SUCCEEDED = ''run.succeeded''"
definition RUN_FAILED :: string where "RUN_FAILED = ''run.failed''"
definition RUN_CANCELLED :: string where "RUN_CANCELLED = ''run.cancelled''"

definition TERMINAL_EVENT_TYPES :: "string set" where
  "TERMINAL_EVENT_TYPES = {RUN_SUCCEEDED, RUN_FAILED, RUN_CANCELLED}"

definition JOB_STATE_TO_RUN_EVENT :: "(string \<times> string) list" where
  "JOB_STATE_TO_RUN_EVENT = [(''succeeded'', RUN_SUCCEEDED), (''terminal_failed'', RUN_FAILED), (''cancelled'', RUN_CANCELLED)]"

end
