(* ===== verification/Job_Runner.thy ===== *)
theory Job_Runner
  imports Job_Operations Run_Vocabulary
begin

text \<open>
  The drain of the durable job queue: \<open>jobs/runner.py\<close> (\<open>LocalJobRunner\<close>, the submit helpers)
  and the worker cycle of \<open>jobs/consumer.py\<close>.

  A handler is a parameter: for a payload it gives the sequence of polling intervals it
  needs, each with what other processes commit meanwhile, and its outcome (a result
  reference, or the class name of the exception it raises). Identifiers drawn by \<open>new_id\<close>
  come from the supply \<open>mk\<close>, the jitter of the backoff from \<open>draw\<close>.
\<close>

section \<open>Handlers, configuration, state\<close>

record handler_run =
  hr_ticks :: "(duration \<times> (jobs_db \<Rightarrow> jobs_db)) list"
  hr_outcome :: "string + string option"

type_synonym job_handler = "json \<Rightarrow> handler_run"
type_synonym handler_registry = "string \<rightharpoonup> job_handler"

definition registry_register :: "handler_registry \<Rightarrow> string \<Rightarrow> job_handler \<Rightarrow> handler_registry" where
  "registry_register r kind h = r(kind \<mapsto> h)"

definition registry_get :: "handler_registry \<Rightarrow> string \<Rightarrow> job_handler option" where
  "registry_get r kind = r kind"

record runner =
  rn_worker_id :: string
  rn_lease_seconds :: duration
  rn_max_jobs :: nat
  rn_cancel_poll_seconds :: "duration option"
  rn_lanes :: "string list option"
  rn_event_stream :: bool

text \<open>The database, the clock, the identifiers drawn, the lifecycle events handed to the stream
  and the drain nudges scheduled as background tasks.\<close>

record world =
  w_db :: jobs_db
  w_now :: instant
  w_ids :: nat
  w_lifecycle :: "(ident \<times> string \<times> json) list"
  w_nudges :: nat

text \<open>Errors of the stream are swallowed: the call only records what is handed to it.\<close>

definition publish_lifecycle :: "runner \<Rightarrow> world \<Rightarrow> ident \<Rightarrow> string \<Rightarrow> json \<Rightarrow> world" where
  "publish_lifecycle rn w run_id event_type data =
     (if rn_event_stream rn then w\<lparr>w_lifecycle := w_lifecycle w @ [(run_id, event_type, data)]\<rparr> else w)"

text \<open>\<open>except JobStateError\<close> catches these; every other error propagates.\<close>

fun is_state_error :: "job_error \<Rightarrow> bool" where
  "is_state_error Job_missing = True"
| "is_state_error Job_not_owned = True"
| "is_state_error (Job_wrong_state _) = True"
| "is_state_error Job_conflict = True"
| "is_state_error Idempotency_conflict = False"
| "is_state_error Integrity_error = False"

fun error_type_name :: "job_error \<Rightarrow> string" where
  "error_type_name Idempotency_conflict = ''JobIdempotencyConflict''"
| "error_type_name Integrity_error = ''IntegrityError''"
| "error_type_name _ = ''JobStateError''"

section \<open>One job\<close>

definition safe_fail :: "job_service \<Rightarrow> rat \<Rightarrow> (nat \<Rightarrow> ident) \<Rightarrow> runner \<Rightarrow> world \<Rightarrow> ident \<Rightarrow> string \<Rightarrow> bool
    \<Rightarrow> ident \<Rightarrow> job_error + world" where
  "safe_fail svc draw mk rn w i code recoverable run_id =
     (case fail svc draw (w_db w) (w_db w) (w_now w) (mk (w_ids w)) i (rn_worker_id rn) code recoverable of
        Inl e \<Rightarrow> if is_state_error e then Inr w else Inl e
      | Inr (db, job) \<Rightarrow>
          (let w' = w\<lparr>w_db := db, w_ids := w_ids w + 1\<rparr> in
           if job_state job = Terminal_failed
           then Inr (publish_lifecycle rn w' run_id RUN_FAILED (JObj [(''error_code'', JStr code)]))
           else Inr w'))"

definition safe_finalize_cancel :: "(nat \<Rightarrow> ident) \<Rightarrow> world \<Rightarrow> ident \<Rightarrow> job_error + world" where
  "safe_finalize_cancel mk w i =
     (case finalize_cancel (w_db w) (w_db w) (w_now w) (mk (w_ids w)) i of
        Inl e \<Rightarrow> if is_state_error e then Inr w else Inl e
      | Inr (db, job) \<Rightarrow> Inr (w\<lparr>w_db := db, w_ids := w_ids w + 1\<rparr>))"

definition cancel_seen :: "jobs_db \<Rightarrow> ident \<Rightarrow> bool" where
  "cancel_seen db i = (case get_job db i of None \<Rightarrow> False | Some job \<Rightarrow> job_state job = Cancel_requested)"

text \<open>
  The polling loop: one round per interval the handler needs. The first result is the
  exception the handler raised, or the pair \<open>(result_ref, cancelled)\<close>.
\<close>

fun run_with_cancellation :: "(duration \<times> (jobs_db \<Rightarrow> jobs_db)) list \<Rightarrow> string + string option \<Rightarrow> world \<Rightarrow> ident
    \<Rightarrow> (string + string option \<times> bool) \<times> world" where
  "run_with_cancellation [] outcome w i =
     (case outcome of
        Inl exc \<Rightarrow> (Inl exc, w)
      | Inr result_ref \<Rightarrow>
          if cancel_seen (w_db w) i then (Inr (None, True), w) else (Inr (result_ref, False), w))"
| "run_with_cancellation ((dt, meanwhile) # ticks) outcome w i =
     (let w' = w\<lparr>w_db := meanwhile (w_db w), w_now := w_now w + dt\<rparr> in
      if cancel_seen (w_db w') i then (Inr (None, True), w')
      else run_with_cancellation ticks outcome w' i)"

text \<open>Without polling the handler is awaited to its end.\<close>

fun run_plain :: "(duration \<times> (jobs_db \<Rightarrow> jobs_db)) list \<Rightarrow> world \<Rightarrow> world" where
  "run_plain [] w = w"
| "run_plain ((dt, meanwhile) # ticks) w =
     run_plain ticks (w\<lparr>w_db := meanwhile (w_db w), w_now := w_now w + dt\<rparr>)"

definition run_handler :: "runner \<Rightarrow> handler_run \<Rightarrow> world \<Rightarrow> ident \<Rightarrow> (string + string option \<times> bool) \<times> world" where
  "run_handler rn h w i =
     (case rn_cancel_poll_seconds rn of
        Some _ \<Rightarrow> run_with_cancellation (hr_ticks h) (hr_outcome h) w i
      | None \<Rightarrow> (case hr_outcome h of
            Inl exc \<Rightarrow> (Inl exc, run_plain (hr_ticks h) w)
          | Inr result_ref \<Rightarrow> (Inr (result_ref, False), run_plain (hr_ticks h) w)))"

definition run_one :: "job_service \<Rightarrow> rat \<Rightarrow> (nat \<Rightarrow> ident) \<Rightarrow> handler_registry \<Rightarrow> runner \<Rightarrow> world \<Rightarrow> ident
    \<Rightarrow> string \<Rightarrow> json \<Rightarrow> ident \<Rightarrow> job_error + world" where
  "run_one svc draw mk reg rn w i kind payload run_id =
     (case registry_get reg kind of
        None \<Rightarrow> safe_fail svc draw mk rn w i ''NO_HANDLER'' False run_id
      | Some handler \<Rightarrow>
         (case start (w_db w) (w_db w) (w_now w) i (rn_worker_id rn) of
            Inl e \<Rightarrow> safe_fail svc draw mk rn w i (error_type_name e) True run_id
          | Inr (db, _) \<Rightarrow>
             (let w1 = publish_lifecycle rn (w\<lparr>w_db := db\<rparr>) run_id RUN_STARTED (JObj [(''job_id'', JStr i)]) in
              case run_handler rn (handler payload) w1 i of
                (Inl exc, w2) \<Rightarrow> safe_fail svc draw mk rn w2 i exc True run_id
              | (Inr (result_ref, cancelled), w2) \<Rightarrow>
                  if cancelled then
                    (case safe_finalize_cancel mk w2 i of
                       Inl e \<Rightarrow> safe_fail svc draw mk rn w2 i (error_type_name e) True run_id
                     | Inr w3 \<Rightarrow> Inr (publish_lifecycle rn w3 run_id RUN_CANCELLED (JObj [])))
                  else
                    (case complete (w_db w2) (w_db w2) (w_now w2) (mk (w_ids w2)) i (rn_worker_id rn) result_ref of
                       Inl e \<Rightarrow> if is_state_error e then Inr w2 else Inl e
                     | Inr (db', _) \<Rightarrow>
                         Inr (publish_lifecycle rn (w2\<lparr>w_db := db', w_ids := w_ids w2 + 1\<rparr>) run_id
                                RUN_SUCCEEDED (JObj []))))))"

section \<open>The drain\<close>

text \<open>The loop runs at most \<open>max_jobs\<close> times; the argument counts the rounds left.\<close>

fun drain_loop :: "job_service \<Rightarrow> rat \<Rightarrow> (nat \<Rightarrow> ident) \<Rightarrow> handler_registry \<Rightarrow> runner \<Rightarrow> nat \<Rightarrow> nat \<Rightarrow> world
    \<Rightarrow> job_error + nat \<times> world" where
  "drain_loop svc draw mk reg rn 0 processed w = Inr (processed, w)"
| "drain_loop svc draw mk reg rn (Suc left) processed w =
     (case lease (w_db w) (w_db w) (w_now w) (rn_worker_id rn) (rn_lease_seconds rn) (rn_lanes rn) of
        (db, None) \<Rightarrow> Inr (processed, w\<lparr>w_db := db\<rparr>)
      | (db, Some job) \<Rightarrow>
          res_bind (run_one svc draw mk reg rn (w\<lparr>w_db := db\<rparr>) (job_id job) (job_kind job) (job_payload job)
              (case job_run_id job of None \<Rightarrow> job_id job | Some r \<Rightarrow> if r = [] then job_id job else r))
            (\<lambda>w'. drain_loop svc draw mk reg rn left (processed + 1) w'))"

definition drain_once :: "job_service \<Rightarrow> rat \<Rightarrow> (nat \<Rightarrow> ident) \<Rightarrow> handler_registry \<Rightarrow> runner \<Rightarrow> world
    \<Rightarrow> job_error + nat \<times> world" where
  "drain_once svc draw mk reg rn w = drain_loop svc draw mk reg rn (rn_max_jobs rn) 0 w"

record worker_runtime =
  wr_registry :: handler_registry
  wr_worker_id :: string
  wr_lease_seconds :: duration
  wr_cancel_poll_seconds :: duration
  wr_event_stream :: bool

text \<open>
  The cycle of the broker's worker: reap, then lease and run one job. Its service is built
  with the default tuning (base 0, maximum 600, no jitter). \<open>fresh\<close> names the events of the
  sweep.
\<close>

definition drain_one_cycle :: "rat \<Rightarrow> (nat \<Rightarrow> ident) \<Rightarrow> (ident \<Rightarrow> ident) \<Rightarrow> worker_runtime \<Rightarrow> world
    \<Rightarrow> job_error + nat \<times> world" where
  "drain_one_cycle draw mk fresh rt w =
     (let svc = job_service_init 0 600 0 in
      res_bind (reap_expired_leases (w_db w) (w_db w) (w_now w) fresh) (\<lambda>(db, _).
      drain_once svc draw mk (wr_registry rt)
        \<lparr>rn_worker_id = wr_worker_id rt, rn_lease_seconds = wr_lease_seconds rt, rn_max_jobs = 1,
         rn_cancel_poll_seconds = Some (wr_cancel_poll_seconds rt), rn_lanes = None,
         rn_event_stream = wr_event_stream rt\<rparr>
        (w\<lparr>w_db := db\<rparr>)))"

section \<open>Submitting work\<close>

definition DOCUMENT_INDEX_KIND :: string where "DOCUMENT_INDEX_KIND = ''document_index''"
definition EVAL_RUN_KIND :: string where "EVAL_RUN_KIND = ''eval_run''"

definition enqueue_world :: "(string \<Rightarrow> string) \<Rightarrow> (nat \<Rightarrow> ident) \<Rightarrow> world \<Rightarrow> ident \<Rightarrow> string \<Rightarrow> json \<Rightarrow> string
    \<Rightarrow> job_error + world" where
  "enqueue_world sha256 mk w tenant kind payload key =
     res_bind (enqueue sha256 (w_db w) (w_db w) (w_now w) (mk (w_ids w)) (mk (w_ids w + 1)) tenant kind payload key
        None 5 ''default'' 1)
       (\<lambda>(db, _). Inr (w\<lparr>w_db := db, w_ids := w_ids w + 2\<rparr>))"

definition nudge :: "world \<Rightarrow> world" where
  "nudge w = w\<lparr>w_nudges := w_nudges w + 1\<rparr>"

definition document_payload :: "ident \<Rightarrow> json" where
  "document_payload document_id = JObj [(''document_id'', JStr document_id)]"

definition submit_document_index :: "(string \<Rightarrow> string) \<Rightarrow> (nat \<Rightarrow> ident) \<Rightarrow> world \<Rightarrow> ident \<Rightarrow> ident \<Rightarrow> string
    \<Rightarrow> job_error + world" where
  "submit_document_index sha256 mk w tenant document_id key =
     res_bind (enqueue_world sha256 mk w tenant DOCUMENT_INDEX_KIND (document_payload document_id) key)
       (\<lambda>w'. Inr (nudge w'))"

fun enqueue_batch :: "(string \<Rightarrow> string) \<Rightarrow> (nat \<Rightarrow> ident) \<Rightarrow> ident \<Rightarrow> (ident \<times> string) list \<Rightarrow> nat \<Rightarrow> world
    \<Rightarrow> job_error + nat \<times> world" where
  "enqueue_batch sha256 mk tenant [] enqueued w = Inr (enqueued, w)"
| "enqueue_batch sha256 mk tenant ((document_id, key) # items) enqueued w =
     res_bind (enqueue_world sha256 mk w tenant DOCUMENT_INDEX_KIND (document_payload document_id) key)
       (\<lambda>w'. enqueue_batch sha256 mk tenant items (enqueued + 1) w')"

definition submit_document_index_batch :: "(string \<Rightarrow> string) \<Rightarrow> (nat \<Rightarrow> ident) \<Rightarrow> world \<Rightarrow> ident
    \<Rightarrow> (ident \<times> string) list \<Rightarrow> job_error + nat \<times> world" where
  "submit_document_index_batch sha256 mk w tenant items =
     res_bind (enqueue_batch sha256 mk tenant items 0 w) (\<lambda>(enqueued, w').
       Inr (enqueued, if enqueued \<noteq> 0 then nudge w' else w'))"

definition submit_eval_run :: "(string \<Rightarrow> string) \<Rightarrow> (nat \<Rightarrow> ident) \<Rightarrow> world \<Rightarrow> ident \<Rightarrow> ident \<Rightarrow> json
    \<Rightarrow> job_error + world" where
  "submit_eval_run sha256 mk w tenant run_id data =
     res_bind (enqueue_world sha256 mk w tenant EVAL_RUN_KIND
        (JObj [(''run_id'', JStr run_id), (''tenant_id'', JStr tenant), (''data'', data)]) run_id)
       (\<lambda>w'. Inr (nudge w'))"

section \<open>What the drain does to the table\<close>

text \<open>Whatever other processes commit while a handler runs, they commit through the service.\<close>

abbreviation spec_run :: "jobs_db \<Rightarrow> jobs_db \<Rightarrow> bool" where
  "spec_run db db' \<equiv> job_spec_step\<^sup>*\<^sup>* db db'"

definition env_ok :: "(duration \<times> (jobs_db \<Rightarrow> jobs_db)) list \<Rightarrow> bool" where
  "env_ok ticks \<longleftrightarrow> (\<forall>f\<in>snd ` set ticks. \<forall>db. jobs_inv db \<longrightarrow> spec_run db (f db))"

definition service_only :: "handler_registry \<Rightarrow> bool" where
  "service_only reg \<longleftrightarrow> (\<forall>kind h payload. reg kind = Some h \<longrightarrow> env_ok (hr_ticks (h payload)))"

lemma publish_lifecycle_db [simp]:
  "w_db (publish_lifecycle rn w r t d) = w_db w" "w_now (publish_lifecycle rn w r t d) = w_now w"
  "w_ids (publish_lifecycle rn w r t d) = w_ids w"
  by (simp_all add: publish_lifecycle_def)

lemma spec_run_one: "job_spec_step\<^sup>=\<^sup>= a b \<Longrightarrow> spec_run a b" "job_spec_step a b \<Longrightarrow> spec_run a b"
  by auto

lemma safe_fail_run:
  assumes "jobs_inv (w_db w)" and "safe_fail svc draw mk rn w i code rec r = Inr w'"
  shows "spec_run (w_db w) (w_db w')"
proof (cases "fail svc draw (w_db w) (w_db w) (w_now w) (mk (w_ids w)) i (rn_worker_id rn) code rec")
  case (Inl e)
  with assms(2) show ?thesis by (auto simp: safe_fail_def split: if_splits)
next
  case (Inr p)
  obtain db j where p: "p = (db, j)" by (cases p)
  have wf: "jobs_wf (w_db w)" by (rule jobs_inv_wf [OF assms(1)])
  have "job_spec_step (w_db w) db" by (rule fail_refines [OF wf job_snapshot_refl [OF wf] Inr [unfolded p]])
  with assms(2) Inr p show ?thesis by (auto simp: safe_fail_def Let_def split: if_splits)
qed

lemma safe_finalize_cancel_run:
  assumes "jobs_inv (w_db w)" and "safe_finalize_cancel mk w i = Inr w'"
  shows "spec_run (w_db w) (w_db w')"
proof (cases "finalize_cancel (w_db w) (w_db w) (w_now w) (mk (w_ids w)) i")
  case (Inl e)
  with assms(2) show ?thesis by (auto simp: safe_finalize_cancel_def split: if_splits)
next
  case (Inr p)
  obtain db j where p: "p = (db, j)" by (cases p)
  have wf: "jobs_wf (w_db w)" by (rule jobs_inv_wf [OF assms(1)])
  have "job_spec_step\<^sup>=\<^sup>= (w_db w) db" by (rule finalize_cancel_refines [OF wf job_snapshot_refl [OF wf] Inr [unfolded p]])
  with assms(2) Inr p show ?thesis by (auto simp: safe_finalize_cancel_def)
qed

lemma run_with_cancellation_run:
  "jobs_inv (w_db w) \<Longrightarrow> env_ok ticks \<Longrightarrow>
   spec_run (w_db w) (w_db (snd (run_with_cancellation ticks outcome w i))) \<and>
   spec_run (w_db w) (w_db (run_plain ticks w))"
proof (induction ticks arbitrary: w)
  case Nil
  show ?case by (simp split: sum.splits)
next
  case (Cons t ticks)
  obtain dt f where t: "t = (dt, f)" by (cases t)
  let ?w = "w\<lparr>w_db := f (w_db w), w_now := w_now w + dt\<rparr>"
  have s: "spec_run (w_db w) (f (w_db w))" using Cons.prems by (simp add: t env_ok_def)
  have i: "jobs_inv (w_db ?w)" using job_spec.steps_inv [OF s Cons.prems(1)] by simp
  have e: "env_ok ticks" using Cons.prems(2) by (simp add: env_ok_def)
  from Cons.IH [OF i e]
  have "spec_run (f (w_db w)) (w_db (snd (run_with_cancellation ticks outcome ?w i)))"
    "spec_run (f (w_db w)) (w_db (run_plain ticks ?w))" by simp_all
  with s show ?case by (auto simp: t Let_def intro: rtranclp_trans)
qed

lemma run_handler_run:
  assumes "jobs_inv (w_db w)" and "env_ok (hr_ticks h)"
    and "run_handler rn h w i = (r, w')"
  shows "spec_run (w_db w) (w_db w')"
  using run_with_cancellation_run [OF assms(1,2), of "hr_outcome h" i] assms(3)
  by (auto simp: run_handler_def split: option.splits sum.splits)

lemma complete_run: "jobs_inv db \<Longrightarrow> complete db db now eid i wk res = Inr (db', j) \<Longrightarrow> spec_run db db'"
  by (rule spec_run_one(1) [OF complete_refines [OF jobs_inv_wf job_snapshot_refl [OF jobs_inv_wf]]])

lemma run_one_run:
  assumes inv: "jobs_inv (w_db w)" and env: "service_only reg"
    and r: "run_one svc draw mk reg rn w i kind payload rid = Inr w'"
  shows "spec_run (w_db w) (w_db w')"
proof (cases "reg kind")
  case None
  with r show ?thesis by (auto simp: run_one_def registry_get_def intro: safe_fail_run [OF inv])
next
  case (Some h)
  note wf = jobs_inv_wf [OF inv]
  show ?thesis
  proof (cases "start (w_db w) (w_db w) (w_now w) i (rn_worker_id rn)")
    case (Inl e)
    with Some r show ?thesis by (auto simp: run_one_def registry_get_def intro: safe_fail_run [OF inv])
  next
    case (Inr p)
    obtain db j where p: "p = (db, j)" by (cases p)
    have s1: "spec_run (w_db w) db"
      using start_refines [OF wf job_snapshot_refl [OF wf] Inr [unfolded p]] by simp
    note inv1 = job_spec.steps_inv [OF s1 inv]
    let ?w1 = "publish_lifecycle rn (w\<lparr>w_db := db\<rparr>) rid RUN_STARTED (JObj [(''job_id'', JStr i)])"
    obtain o2 w2 where h: "run_handler rn (h payload) ?w1 i = (o2, w2)" by fastforce
    have s2: "spec_run db (w_db w2)"
      using run_handler_run [OF _ _ h] inv1 env Some by (simp add: service_only_def)
    note inv2 = job_spec.steps_inv [OF s2 inv1]
    note step = r [unfolded run_one_def registry_get_def Some option.case Inr p sum.case prod.case Let_def h]
    have "spec_run (w_db w2) (w_db w')"
    proof (cases o2)
      case (Inl exc)
      with step show ?thesis by (auto intro: safe_fail_run [OF inv2])
    next
      case o2: (Inr q)
      obtain res canc where q: "q = (res, canc)" by (cases q)
      show ?thesis
      proof (cases canc)
        case True
        with step o2 q show ?thesis
          by (auto intro: safe_fail_run [OF inv2] safe_finalize_cancel_run [OF inv2] split: sum.splits)
      next
        case False
        with step o2 q show ?thesis
          by (auto intro: complete_run [OF inv2] split: sum.splits if_splits)
      qed
    qed
    with s1 s2 show ?thesis by (meson rtranclp_trans)
  qed
qed

lemma lease_run: "jobs_inv db \<Longrightarrow> lease db db now wk secs lanes = (db', r) \<Longrightarrow> spec_run db db'"
  using lease_refines [OF jobs_inv_wf job_snapshot_refl [OF jobs_inv_wf]] by blast

lemma drain_loop_run:
  "jobs_inv (w_db w) \<Longrightarrow> service_only reg \<Longrightarrow> drain_loop svc draw mk reg rn k n w = Inr (n', w') \<Longrightarrow>
   spec_run (w_db w) (w_db w') \<and> n \<le> n' \<and> n' \<le> n + k \<and>
   (n' < n + k \<longrightarrow> filter (leasable (w_now w') (rn_lanes rn)) (jobs (w_db w')) = [])"
proof (induction k arbitrary: n w)
  case (Suc k)
  obtain db r where l: "lease (w_db w) (w_db w) (w_now w) (rn_worker_id rn) (rn_lease_seconds rn) (rn_lanes rn) = (db, r)"
    by fastforce
  note s1 = lease_run [OF Suc.prems(1) l]
  note inv1 = job_spec.steps_inv [OF s1 Suc.prems(1)]
  show ?case
  proof (cases r)
    case None
    have "db = w_db w" "filter (leasable (w_now w) (rn_lanes rn)) (jobs (w_db w)) = []"
      using l None lease_current [OF jobs_inv_wf [OF Suc.prems(1)]] lease_candidates_set [of "w_now w" "rn_lanes rn" "w_db w"]
      by (auto simp: filter_empty_conv Let_def split: list.splits)
    with l None Suc.prems(3) show ?thesis by auto
  next
    case (Some job)
    from l Some Suc.prems(3) obtain w1 rid where
      r1: "run_one svc draw mk reg rn (w\<lparr>w_db := db\<rparr>) (job_id job) (job_kind job) (job_payload job) rid = Inr w1"
      and d: "drain_loop svc draw mk reg rn k (n + 1) w1 = Inr (n', w')"
      by (auto simp: res_simps)
    have s2: "spec_run db (w_db w1)" using run_one_run [OF _ Suc.prems(2) r1] inv1 by simp
    have "spec_run (w_db w) (w_db w1)" using s1 s2 by (rule rtranclp_trans)
    with Suc.IH [OF job_spec.steps_inv [OF s2 inv1] Suc.prems(2) d] show ?thesis
      by (auto intro: rtranclp_trans)
  qed
qed simp

section \<open>Properties\<close>

text \<open>
  A drain, with handlers of any kind and anything the service allows committed
  meanwhile, moves the table only along the transitions of the job specification; it runs
  at most \<open>max_jobs\<close> jobs, and when it stops earlier no job is eligible in its lanes.
\<close>

theorem drain_exhausts_queue:
  assumes "jobs_inv (w_db w)" and "service_only reg" and "drain_once svc draw mk reg rn w = Inr (n, w')"
  shows "job_spec_step\<^sup>*\<^sup>* (w_db w) (w_db w') \<and> n \<le> rn_max_jobs rn \<and>
    (n < rn_max_jobs rn \<longrightarrow> filter (leasable (w_now w') (rn_lanes rn)) (jobs (w_db w')) = [])"
  using drain_loop_run [OF assms(1,2) assms(3) [unfolded drain_once_def]] by simp

definition sample_world :: world where
  "sample_world = \<lparr>w_db = queued_db, w_now = 0, w_ids = 0, w_lifecycle = [], w_nudges = 0\<rparr>"

definition sample_runner :: runner where
  "sample_runner = \<lparr>rn_worker_id = ''w1'', rn_lease_seconds = 30, rn_max_jobs = 2,
     rn_cancel_poll_seconds = Some 1, rn_lanes = None, rn_event_stream = True\<rparr>"

definition sample_registry :: handler_registry where
  "sample_registry = registry_register Map.empty ''ingest'' (\<lambda>_. \<lparr>hr_ticks = [(1, \<lambda>db. db)], hr_outcome = Inr (Some ''ok'')\<rparr>)"

definition sample_ids :: "nat \<Rightarrow> ident" where
  "sample_ids n = replicate n CHR ''x''"

lemma sample_service_only: "service_only sample_registry"
  by (simp add: service_only_def env_ok_def sample_registry_def registry_register_def)

lemma sample_inv: "jobs_inv queued_db"
  using job_system.reach_inv [OF sample_reach_queued] by (simp add: hist_inv_def)

definition started_job :: durable_job where
  "started_job = leased_job\<lparr>job_state := Running, job_version := 3\<rparr>"

definition started_db :: jobs_db where
  "started_db = queued_db\<lparr>jobs := [started_job]\<rparr>"

definition done_job :: durable_job where
  "done_job = started_job\<lparr>job_state := Succeeded, job_result_ref := Some ''ok'', job_updated_at := 1, job_version := 4\<rparr>"

definition done_db :: jobs_db where
  "done_db = \<lparr>jobs = [done_job], outbox = outbox queued_db @ [job_emit 1 [] started_job ''job.succeeded'' 4 []]\<rparr>"

lemmas done_defs = started_job_def started_db_def done_job_def done_db_def leased_defs

lemma sample_started: "start leased_db leased_db 0 ''j1'' ''w1'' = Inr (started_db, started_job)"
  by (simp add: start_def done_defs job_op_defs)

lemma sample_done: "complete started_db started_db 1 [] ''j1'' ''w1'' (Some ''ok'') = Inr (done_db, done_job)"
  by (simp add: complete_def done_defs job_op_defs)

lemma sample_idle: "lease done_db done_db 1 ''w1'' 30 None = (done_db, None)"
  by (simp add: lease_def lease_candidates_def leasable_def done_defs)

lemma sample_job_columns:
  "job_id leased_job = ''j1''" "job_kind leased_job = ''ingest''" "job_run_id leased_job = None"
  "cancel_seen started_db ''j1'' = False" "map job_state (jobs done_db) = [Succeeded]"
  by (simp_all add: cancel_seen_def get_job_def done_defs)

lemma sample_run:
  "\<exists>w'. run_one sample_service 0 sample_ids sample_registry sample_runner (sample_world\<lparr>w_db := leased_db\<rparr>)
     ''j1'' ''ingest'' p ''j1'' = Inr w' \<and> w_db w' = done_db \<and> w_now w' = 1"
  by (simp add: sample_runner_def sample_world_def run_one_def registry_get_def
      sample_registry_def registry_register_def run_handler_def publish_lifecycle_def Let_def sample_ids_def
      sample_started sample_done sample_job_columns)

lemma sample_drain:
  "\<exists>w'. drain_once sample_service 0 sample_ids sample_registry sample_runner sample_world = Inr (1, w') \<and>
     map job_state (jobs (w_db w')) = [Succeeded]"
proof -
  obtain w1 where w1: "run_one sample_service 0 sample_ids sample_registry sample_runner (sample_world\<lparr>w_db := leased_db\<rparr>)
     ''j1'' ''ingest'' (job_payload leased_job) ''j1'' = Inr w1" "w_db w1 = done_db" "w_now w1 = 1"
    using sample_run by blast
  have c: "rn_max_jobs sample_runner = Suc (Suc 0)" "rn_worker_id sample_runner = ''w1''"
    "rn_lease_seconds sample_runner = 30" "rn_lanes sample_runner = None" "w_db sample_world = queued_db"
    "w_now sample_world = 0" by (simp_all add: sample_runner_def sample_world_def)
  show ?thesis
    by (simp add: drain_once_def c sample_lease w1 sample_idle sample_job_columns)
qed

theorem drain_exhausts_queue_witness:
  "\<exists>w'. drain_once sample_service 0 sample_ids sample_registry sample_runner sample_world = Inr (1, w') \<and>
     job_spec_step\<^sup>*\<^sup>* queued_db (w_db w') \<and> map job_state (jobs (w_db w')) = [Succeeded] \<and>
     filter (leasable (w_now w') None) (jobs (w_db w')) = []"
proof -
  obtain w' where d: "drain_once sample_service 0 sample_ids sample_registry sample_runner sample_world = Inr (1, w')"
    and s: "map job_state (jobs (w_db w')) = [Succeeded]" using sample_drain by (elim exE conjE)
  have "jobs_inv (w_db sample_world)" by (simp add: sample_world_def sample_inv)
  note t = drain_exhausts_queue [OF this sample_service_only d]
  have p: "job_spec_step\<^sup>*\<^sup>* queued_db (w_db w')" using t [THEN conjunct1] by (simp add: sample_world_def)
  have f: "filter (leasable (w_now w') None) (jobs (w_db w')) = []"
    using t [THEN conjunct2, THEN conjunct2] by (simp add: sample_runner_def)
  show ?thesis by (intro exI [of _ w'] conjI d p s f)
qed

text \<open>
  What becomes of one leased job whose handler runs undisturbed: with no handler for its
  kind it is given up; a handler that returns makes it succeeded; one that raises returns
  it for retry while attempts are left and gives it up otherwise.
\<close>

theorem run_one_outcome:
  assumes inv: "jobs_inv (w_db w)" and j: "get_job (w_db w) i = Some j"
    and own: "job_lease_owner j = Some (rn_worker_id rn)" "job_state j = Leased"
    and ids: "mk (w_ids w) \<notin> ob_id ` set (outbox (w_db w))"
    and quiet: "case reg kind of None \<Rightarrow> True | Some h \<Rightarrow> hr_ticks (h payload) = []"
  shows "\<exists>w' j'. run_one svc draw mk reg rn w i kind payload rid = Inr w' \<and> get_job (w_db w') i = Some j' \<and>
    job_state j' =
      (case reg kind of
         None \<Rightarrow> Terminal_failed
       | Some h \<Rightarrow> (case hr_outcome (h payload) of
            Inr _ \<Rightarrow> Succeeded
          | Inl _ \<Rightarrow> if job_attempts j < job_max_attempts j then Recoverable_failed else Terminal_failed))"
proof -
  note g = j [unfolded get_job_def]
  have sf: "\<exists>w' j'. safe_fail svc draw mk rn v i code recov rid = Inr w' \<and> get_job (w_db w') i = Some j' \<and>
      job_state j' = (if recov \<and> job_attempts k < job_max_attempts k then Recoverable_failed else Terminal_failed)"
    if "jobs_inv (w_db v)" "get_row job_id (jobs (w_db v)) i = Some k" "job_lease_owner k = Some (rn_worker_id rn)"
      "job_state k \<in> ACTIVE_STATES" "mk (w_ids v) \<notin> ob_id ` set (outbox (w_db v))" for v k code recov
    using fail_owned [OF that(1,2,3,4,5), of svc draw "w_now v" code recov]
    by (auto simp: safe_fail_def get_job_def Let_def)
  show ?thesis
  proof (cases "reg kind")
    case None
    then show ?thesis using sf [OF inv g own(1) _ ids, of "''NO_HANDLER''" False] own(2)
      by (simp add: run_one_def registry_get_def)
  next
    case (Some h)
    let ?j1 = "j\<lparr>job_state := Running, job_updated_at := w_now w, job_version := job_version j + 1\<rparr>"
    let ?db = "(w_db w)\<lparr>jobs := put_row job_id (jobs (w_db w)) i (\<lambda>_. ?j1)\<rparr>"
    let ?w1 = "publish_lifecycle rn (w\<lparr>w_db := ?db\<rparr>) rid RUN_STARTED (JObj [(''job_id'', JStr i)])"
    note wf = jobs_inv_wf [OF inv]
    have st: "start (w_db w) (w_db w) (w_now w) i (rn_worker_id rn) = Inr (?db, ?j1)"
      using start_owned [OF wf g own, of "w_now w"] by (simp add: Let_def)
    have inv1: "jobs_inv ?db"
      by (rule jobs_inv_step [OF inv start_refines [OF wf job_snapshot_refl [OF wf] st]])
    have k: "job_id ?j1 = i" using get_row_SomeD [OF g] by simp
    have g1: "get_row job_id (jobs ?db) i = Some ?j1"
      by (simp add: get_put_row_const [where key = job_id, OF k] g)
    have nc: "\<not> cancel_seen ?db i" by (simp add: cancel_seen_def get_job_def g1 [simplified])
    have ids1: "mk (w_ids w) \<notin> ob_id ` set (outbox ?db)" using ids by simp
    have own1: "job_lease_owner ?j1 = Some (rn_worker_id rn)" using own(1) by simp
    have t: "hr_ticks (h payload) = []" using quiet Some by simp
    show ?thesis
    proof (cases "hr_outcome (h payload)")
      case (Inl exc)
      have "run_handler rn (h payload) ?w1 i = (Inl exc, ?w1)"
        using Inl t by (simp add: run_handler_def split: option.splits)
      then have "run_one svc draw mk reg rn w i kind payload rid = safe_fail svc draw mk rn ?w1 i exc True rid"
        by (simp add: run_one_def registry_get_def Some st)
      then show ?thesis using sf [of ?w1 ?j1 exc True] inv1 g1 own1 ids1 Some Inl by simp
    next
      case (Inr res)
      have rh: "run_handler rn (h payload) ?w1 i = (Inr (res, False), ?w1)"
        using Inr t nc by (simp add: run_handler_def split: option.splits)
      note c = complete_owned [OF inv1 g1 own1 _ ids1, of "w_now w" res]
      show ?thesis
        using rh c g by (simp add: run_one_def registry_get_def Some Inr st Let_def get_job_def
            get_put_row_const [where key = job_id] k [simplified])
    qed
  qed
qed

theorem run_one_outcome_witness:
  "\<exists>w' j'. run_one sample_service 0 sample_ids Map.empty sample_runner (sample_world\<lparr>w_db := leased_db\<rparr>)
     ''j1'' ''ingest'' JNull ''j1'' = Inr w' \<and> get_job (w_db w') ''j1'' = Some j' \<and> job_state j' = Terminal_failed"
proof -
  have "jobs_inv leased_db" using job_system.reach_inv [OF sample_reach_leased] by (simp add: hist_inv_def)
  moreover have "get_job leased_db ''j1'' = Some leased_job" "job_lease_owner leased_job = Some ''w1''"
    "job_state leased_job = Leased" "[] \<notin> ob_id ` set (outbox leased_db)"
    by (simp_all add: get_job_def leased_defs)
  ultimately show ?thesis
    using run_one_outcome [where w = "sample_world\<lparr>w_db := leased_db\<rparr>" and i = "''j1''" and j = leased_job
        and rn = sample_runner and mk = sample_ids and reg = Map.empty and kind = "''ingest''" and payload = JNull
        and svc = sample_service and draw = 0 and rid = "''j1''"]
    by (simp add: sample_runner_def sample_world_def sample_ids_def)
qed

end
