(* ===== verification/Py_Text.thy ===== *)
theory Py_Text
  imports Prelude "HOL-Library.Sublist"
begin

text \<open>
  The string methods of Python's \<open>str\<close> the program uses, on strings of characters with code
  points up to 255: \<open>split\<close>, \<open>join\<close>, \<open>strip\<close>, \<open>replace\<close> of one character, \<open>lower\<close>, \<open>startswith\<close>
  and substring search, with the laws the path checks rest on.
\<close>

definition is_space :: "char \<Rightarrow> bool" where
  "is_space c = (let n = (of_char c :: nat) in (9 \<le> n \<and> n \<le> 13) \<or> (28 \<le> n \<and> n \<le> 32) \<or> n = 133 \<or> n = 160)"

definition py_strip :: "string \<Rightarrow> string" where
  "py_strip s = rev (dropWhile is_space (rev (dropWhile is_space s)))"

definition replace_char :: "char \<Rightarrow> char \<Rightarrow> string \<Rightarrow> string" where
  "replace_char a b s = map (\<lambda>c. if c = a then b else c) s"

text \<open>\<open>s.split(c)\<close> for a one-character separator: never the empty list.\<close>

fun split_on :: "char \<Rightarrow> string \<Rightarrow> string list" where
  "split_on d [] = [[]]"
| "split_on d (c # s) =
     (if c = d then [] # split_on d s
      else (case split_on d s of [] \<Rightarrow> [[c]] | w # ws \<Rightarrow> (c # w) # ws))"

fun join_with :: "char \<Rightarrow> string list \<Rightarrow> string" where
  "join_with d [] = []"
| "join_with d [w] = w"
| "join_with d (w # v # ws) = w @ d # join_with d (v # ws)"

text \<open>\<open>lower()\<close> on ASCII letters; the Latin-1 capitals (192 to 222 except 215) go 32 up too.\<close>

definition lower_char :: "char \<Rightarrow> char" where
  "lower_char c = (let n = (of_char c :: nat) in
     if (65 \<le> n \<and> n \<le> 90) \<or> (192 \<le> n \<and> n \<le> 222 \<and> n \<noteq> 215) then char_of (n + 32) else c)"

definition py_lower :: "string \<Rightarrow> string" where
  "py_lower s = map lower_char s"

definition is_ascii :: "string \<Rightarrow> bool" where
  "is_ascii s \<longleftrightarrow> list_all (\<lambda>c. (of_char c :: nat) < 128) s"

abbreviation starts_with :: "string \<Rightarrow> string \<Rightarrow> bool" where
  "starts_with s p \<equiv> prefix p s"

definition contains_str :: "string \<Rightarrow> string \<Rightarrow> bool" where
  "contains_str s p \<longleftrightarrow> sublist p s"

lemma split_on_nonempty [simp]: "split_on d s \<noteq> []"
  by (induction s) (auto split: list.splits)

lemma split_on_no_sep: "w \<in> set (split_on d s) \<Longrightarrow> d \<notin> set w"
  by (induction s arbitrary: w) (auto split: list.splits if_splits)

lemma join_split: "join_with d (split_on d s) = s"
proof (induction s)
  case (Cons c s)
  obtain w ws where s: "split_on d s = w # ws" by (cases "split_on d s") auto
  with Cons show ?case by (cases ws) auto
qed simp

lemma split_on_append:
  "d \<notin> set w \<Longrightarrow> split_on d (w @ d # s) = w # split_on d s"
  by (induction w) (auto split: list.splits)

lemma split_on_word: "d \<notin> set w \<Longrightarrow> split_on d w = [w]"
  by (induction w) auto

lemma split_join:
  "ws \<noteq> [] \<Longrightarrow> \<forall>w\<in>set ws. d \<notin> set w \<Longrightarrow> split_on d (join_with d ws) = ws"
  by (induction d ws rule: join_with.induct) (auto simp: split_on_word split_on_append)

lemma join_with_eq_Nil: "join_with d ws = [] \<longleftrightarrow> ws = [] \<or> ws = [[]]"
  by (induction d ws rule: join_with.induct) auto

text \<open>A word of the split stands at the start of the string or right after a separator.\<close>

lemma join_word_position:
  "w \<in> set ws \<Longrightarrow> prefix w (join_with d ws) \<or> sublist (d # w) (join_with d ws)"
proof (induction d ws rule: join_with.induct)
  case (3 d u v ws)
  have le: "sublist x (u @ d # join_with d (v # ws))" if "sublist x (d # join_with d (v # ws))" for x
    using that by (simp add: sublist_append)
  show ?case
  proof (cases "w = u")
    case False
    with 3 have "prefix w (join_with d (v # ws)) \<or> sublist (d # w) (join_with d (v # ws))" by simp
    then have "sublist (d # w) (d # join_with d (v # ws))" by (auto simp: sublist_Cons_right)
    then show ?thesis using le by simp
  qed simp
qed simp_all

lemma split_word_position: "w \<in> set (split_on d s) \<Longrightarrow> prefix w s \<or> sublist (d # w) s"
  using join_word_position [of w "split_on d s" d] by (simp add: join_split)

lemma py_strip_edges: "py_strip s \<noteq> [] \<Longrightarrow> \<not> is_space (hd (py_strip s)) \<and> \<not> is_space (last (py_strip s))"
proof -
  assume ne: "py_strip s \<noteq> []"
  let ?u = "dropWhile is_space s"
  obtain v where v: "?u = py_strip s @ v"
    using takeWhile_dropWhile_id [of is_space "rev ?u"] unfolding py_strip_def by (metis rev_append rev_rev_ident)
  have "hd ?u = hd (py_strip s)" using ne by (simp add: v)
  moreover have "?u \<noteq> []" using ne v by auto
  ultimately have "\<not> is_space (hd (py_strip s))" by (metis hd_dropWhile)
  moreover have "\<not> is_space (last (py_strip s))"
    using ne hd_dropWhile [of is_space "rev ?u"] unfolding py_strip_def by (simp add: last_rev)
  ultimately show ?thesis by simp
qed

lemma py_strip_idem [simp]: "py_strip (py_strip s) = py_strip s"
proof (cases "py_strip s = []")
  case True
  moreover have "py_strip [] = []" by (simp add: py_strip_def)
  ultimately show ?thesis by simp
next
  case False
  have d: "dropWhile is_space u = u" if "u \<noteq> []" "\<not> is_space (hd u)" for u using that by (cases u) simp_all
  from py_strip_edges [OF False] False show ?thesis
    by (subst (1) py_strip_def) (simp add: d hd_rev)
qed

end
