(* ===== verification/Action_Digest.thy ===== *)
theory Action_Digest
  imports Canonical_Json Py_Text
begin

text \<open>
  The action digest an approval is bound to (\<open>approvals/digest.py\<close>). The hash function is a
  parameter; the binding theorem assumes that it is injective. Mappings are association
  lists with distinct keys, in the order the dictionary was filled.
\<close>

definition DIGEST_SCHEMA_VERSION :: string where
  "DIGEST_SCHEMA_VERSION = ''action-digest/v1''"

definition APPROVAL_DIGEST_INPUTS :: "string list" where
  "APPROVAL_DIGEST_INPUTS =
     [''action'', ''destination'', ''source_versions'', ''output_versions'', ''file_hashes'', ''diff'',
      ''evidence_set'', ''permission_snapshot'', ''side_effects'']"

record action_digest_input =
  di_action :: string
  di_destination :: string
  di_source_versions :: "string list"
  di_output_versions :: "string list"
  di_file_hashes :: "(string \<times> string) list"
  di_diff :: string
  di_evidence_set :: "string list"
  di_permission_snapshot :: json
  di_side_effects :: "string list"

record permission_snapshot =
  ps_tenant_id :: ident
  ps_user_id :: ident
  ps_roles :: "string list"
  ps_scopes :: "string list"
  ps_authorization_version :: int

definition strings_json :: "string list \<Rightarrow> json" where
  "strings_json xs = JArr (map JStr xs)"

definition ps_as_dict :: "permission_snapshot \<Rightarrow> json" where
  "ps_as_dict p = JObj
     [(''tenant_id'', JStr (ps_tenant_id p)), (''user_id'', JStr (ps_user_id p)),
      (''roles'', strings_json (sort (ps_roles p))), (''scopes'', strings_json (sort (ps_scopes p))),
      (''authorization_version'', JInt (ps_authorization_version p))]"

text \<open>\<open>_canonical\<close>: mappings sorted by key at every depth, lists kept in order.\<close>

definition canonical_value :: "json \<Rightarrow> json" where
  "canonical_value v = canon v"

definition hash_text :: "(string \<Rightarrow> string) \<Rightarrow> string \<Rightarrow> string" where
  "hash_text sha256 t = sha256 (utf8 t)"

definition digest_canonical :: "(string \<Rightarrow> string) \<Rightarrow> action_digest_input \<Rightarrow> (string \<times> json) list" where
  "digest_canonical sha256 d =
     [(''action'', JStr (di_action d)),
      (''destination'', JStr (di_destination d)),
      (''source_versions'', strings_json (sort (di_source_versions d))),
      (''output_versions'', strings_json (sort (di_output_versions d))),
      (''file_hashes'', JObj (map (\<lambda>(k, v). (k, JStr v)) (sort_key fst (di_file_hashes d)))),
      (''diff'', JStr (hash_text sha256 (di_diff d))),
      (''evidence_set'', strings_json (sort (di_evidence_set d))),
      (''permission_snapshot'', canonical_value (di_permission_snapshot d)),
      (''side_effects'', strings_json (sort (di_side_effects d)))]"

text \<open>\<open>None\<close>: the check that every declared input is covered, and nothing else, raised.\<close>

definition compute_action_digest :: "(string \<Rightarrow> string) \<Rightarrow> action_digest_input \<Rightarrow> string option" where
  "compute_action_digest sha256 d =
     (let canonical = digest_canonical sha256 d;
          missing = filter (\<lambda>k. k \<notin> set (map fst canonical)) APPROVAL_DIGEST_INPUTS;
          extra = filter (\<lambda>k. k \<notin> set APPROVAL_DIGEST_INPUTS) (map fst canonical)
      in if missing \<noteq> [] then None
         else if extra \<noteq> [] then None
         else Some (sha256 (utf8 (json_dumps False
                (JObj [(''schema'', JStr DIGEST_SCHEMA_VERSION), (''inputs'', JObj canonical)])))))"

text \<open>\<open>hmac.compare_digest\<close> on strings raises \<open>TypeError\<close> (\<open>None\<close>) unless both are ASCII.\<close>

definition digests_match :: "string \<Rightarrow> string \<Rightarrow> bool option" where
  "digests_match expected actual =
     (if is_ascii (py_lower expected) \<and> is_ascii (py_lower actual)
      then Some (py_lower expected = py_lower actual) else None)"

section \<open>What the digest covers\<close>

lemma sort_eq_iff_mset: "sort (xs :: 'a::linorder list) = sort ys \<longleftrightarrow> mset xs = mset ys"
  by (metis mset_sort properties_for_sort sorted_sort)

lemma strings_json_inj [simp]: "strings_json xs = strings_json ys \<longleftrightarrow> xs = ys"
  by (auto simp: strings_json_def inj_map_eq_map inj_def)

lemma canon_strings [simp]: "canon (strings_json xs) = strings_json xs"
  by (simp add: strings_json_def)

lemma canon_idem: "canon (canon v) = canon v"
proof (induction v rule: canon.induct)
  case (2 kvs)
  have m: "map (\<lambda>(k, v). (k, canon v)) (sort_key fst (map (\<lambda>(k, v). (k, canon v)) kvs)) =
      sort_key fst (map (\<lambda>(k, v). (k, canon v)) kvs)"
    using 2 by (intro map_idI) (auto simp: case_prod_beta)
  show ?case by (simp only: canon.simps m sort_key_id_if_sorted [OF sorted_sort_key])
qed auto

lemma file_hashes_iff:
  assumes "distinct (map fst xs)" and "distinct (map fst ys)"
  shows "map (\<lambda>(k, v). (k, JStr v)) (sort_key fst xs) = map (\<lambda>(k, v). (k, JStr v)) (sort_key fst ys) \<longleftrightarrow>
    map_of xs = map_of (ys :: (string \<times> string) list)"
proof -
  have "inj (\<lambda>(k, v). (k :: string, JStr v))" by (auto simp: inj_def)
  then have "map (\<lambda>(k, v). (k, JStr v)) (sort_key fst xs) = map (\<lambda>(k, v). (k, JStr v)) (sort_key fst ys) \<longleftrightarrow>
    sort_key fst xs = sort_key fst ys" by (simp add: inj_map_eq_map)
  also have "\<dots> \<longleftrightarrow> map_of xs = map_of ys"
  proof
    assume e: "sort_key fst xs = sort_key fst ys"
    then have "set xs = set ys" by (metis set_sort)
    with assms show "map_of xs = map_of ys" by (simp add: map_of_inject_set)
  next
    assume "map_of xs = map_of ys"
    then have s: "set xs = set ys" using assms by (simp add: map_of_inject_set)
    have "mset xs = mset ys" using s assms by (metis distinct_map set_eq_iff_mset_eq_distinct)
    moreover have "inj_on fst (set xs)" using assms(1) by (simp add: distinct_map)
    ultimately show "sort_key fst xs = sort_key fst ys"
      by (intro sort_key_inj_key_eq) (simp_all only: mset_sort sorted_sort_key)
  qed
  finally show ?thesis .
qed

lemma assoc_eqI:
  "distinct (map fst xs) \<Longrightarrow> map fst xs = map fst ys \<Longrightarrow> set xs = set ys \<Longrightarrow> xs = ys"
proof (induction xs arbitrary: ys)
  case (Cons x xs)
  then obtain y zs where ys: "ys = y # zs" "fst x = fst y" "map fst xs = map fst zs" by (cases ys) auto
  have "fst ` set xs = fst ` set zs" using ys(3) by (metis list.set_map)
  then have n: "fst x \<notin> fst ` set xs" "fst x \<notin> fst ` set zs" using Cons.prems(1) by simp_all
  have "x \<in> set ys" using Cons.prems(3) by auto
  then have xy: "x = y" using n(2) ys(1) by auto
  have "x \<notin> set xs" "x \<notin> set zs" using n by auto
  with Cons.prems(3) ys(1) xy have "set xs = set zs" by auto
  with Cons.IH Cons.prems(1) ys xy show ?case by simp
qed simp

lemma canon_JObj_inj:
  assumes "distinct (map fst xs)" and "map fst xs = map fst ys" and "canon (JObj xs) = canon (JObj ys)"
  shows "map (\<lambda>(k, v). (k, canon v)) xs = map (\<lambda>(k, v). (k, canon v)) ys"
proof (rule assoc_eqI)
  have f: "map fst (map (\<lambda>(k, v). (k, canon v)) zs) = map fst zs" for zs by (induction zs) auto
  show "distinct (map fst (map (\<lambda>(k, v). (k, canon v)) xs))" using assms(1) by (simp only: f)
  show "map fst (map (\<lambda>(k, v). (k, canon v)) xs) = map fst (map (\<lambda>(k, v). (k, canon v)) ys)"
    using assms(2) by (simp only: f)
  from assms(3) show "set (map (\<lambda>(k, v). (k, canon v)) xs) = set (map (\<lambda>(k, v). (k, canon v)) ys)"
    by (simp only: canon.simps json.inject) (drule arg_cong [where f = set], simp only: set_sort)
qed

text \<open>The check of the covered inputs never raises.\<close>

lemma compute_action_digest_total:
  "compute_action_digest sha256 d = Some (sha256 (utf8 (json_dumps False
     (JObj [(''schema'', JStr DIGEST_SCHEMA_VERSION), (''inputs'', JObj (digest_canonical sha256 d))]))))"
proof -
  have k: "map fst (digest_canonical sha256 d) = APPROVAL_DIGEST_INPUTS"
    by (simp add: digest_canonical_def APPROVAL_DIGEST_INPUTS_def)
  show ?thesis by (simp add: compute_action_digest_def Let_def k del: set_map)
qed

lemma digest_eq_canon:
  assumes "inj sha256"
  shows "compute_action_digest sha256 a = compute_action_digest sha256 b \<longleftrightarrow>
    canon (JObj (digest_canonical sha256 a)) = canon (JObj (digest_canonical sha256 b))"
proof -
  let ?body = "\<lambda>c. [(''schema'', JStr DIGEST_SCHEMA_VERSION), (''inputs'', JObj c)]"
  let ?a = "digest_canonical sha256 a" and ?b = "digest_canonical sha256 b"
  have "compute_action_digest sha256 a = compute_action_digest sha256 b \<longleftrightarrow>
      utf8 (json_dumps False (JObj (?body ?a))) = utf8 (json_dumps False (JObj (?body ?b)))"
    using assms by (simp add: compute_action_digest_total inj_eq)
  also have "\<dots> \<longleftrightarrow> canon (JObj (?body ?a)) = canon (JObj (?body ?b))"
    using json_dumps_inj [of False "JObj (?body ?a)" "JObj (?body ?b)"] unfolding json_dumps_def by metis
  also have "\<dots> \<longleftrightarrow> canon (JObj ?a) = canon (JObj ?b)"
  proof
    assume "canon (JObj (?body ?a)) = canon (JObj (?body ?b))"
    then have "map (\<lambda>(k, v). (k, canon v)) (?body ?a) = map (\<lambda>(k, v). (k, canon v)) (?body ?b)"
      by (intro canon_JObj_inj) simp_all
    then show "canon (JObj ?a) = canon (JObj ?b)" by simp
  next
    assume e: "canon (JObj ?a) = canon (JObj ?b)"
    have "map (\<lambda>(k, v). (k, canon v)) (?body c) = [(''schema'', JStr DIGEST_SCHEMA_VERSION), (''inputs'', canon (JObj c))]" for c
      by (simp del: canon.simps(2))
    then show "canon (JObj (?body ?a)) = canon (JObj (?body ?b))"
      using e by (simp only: canon.simps(2) [of "?body ?a"] canon.simps(2) [of "?body ?b"])
  qed
  finally show ?thesis .
qed

lemma canon_file_hashes:
  "canon (JObj (map (\<lambda>(k, v). (k, JStr v)) (sort_key fst xs))) = JObj (map (\<lambda>(k, v). (k, JStr v)) (sort_key fst xs))"
proof -
  have m: "map (\<lambda>(k, v). (k, canon v)) (map (\<lambda>(k, v). (k, JStr v)) zs) = map (\<lambda>(k, v). (k, JStr v)) zs" for zs
    by (induction zs) auto
  have f: "map fst (map (\<lambda>(k, v). (k, JStr v)) zs) = map fst zs" for zs by (induction zs) auto
  have "sorted (map fst (map (\<lambda>(k, v). (k, JStr v)) (sort_key fst xs)))" unfolding f by (rule sorted_sort_key)
  then show ?thesis by (simp only: canon.simps m sort_key_id_if_sorted)
qed

section \<open>Properties\<close>

text \<open>
  C7. With a collision-free hash, two actions have the same digest exactly when they are the
  same action: equal action, destination and diff, the same versions, evidence and side
  effects up to order, the same hash for every file, and permission snapshots equal up to
  the order of their keys. The computation never raises.
\<close>

theorem digest_binds_action:
  assumes sha: "inj sha256" and da: "distinct (map fst (di_file_hashes a))" and db: "distinct (map fst (di_file_hashes b))"
  shows "compute_action_digest sha256 a \<noteq> None \<and>
    (compute_action_digest sha256 a = compute_action_digest sha256 b \<longleftrightarrow>
       di_action a = di_action b \<and> di_destination a = di_destination b \<and>
       mset (di_source_versions a) = mset (di_source_versions b) \<and>
       mset (di_output_versions a) = mset (di_output_versions b) \<and>
       map_of (di_file_hashes a) = map_of (di_file_hashes b) \<and> di_diff a = di_diff b \<and>
       mset (di_evidence_set a) = mset (di_evidence_set b) \<and>
       canon (di_permission_snapshot a) = canon (di_permission_snapshot b) \<and>
       mset (di_side_effects a) = mset (di_side_effects b))"
proof -
  have h: "hash_text sha256 s = hash_text sha256 t \<longleftrightarrow> s = t" for s t
    using sha utf8_inj by (auto simp: hash_text_def inj_eq)
  have "compute_action_digest sha256 a = compute_action_digest sha256 b \<longleftrightarrow>
      map (\<lambda>(k, v). (k, canon v)) (digest_canonical sha256 a) = map (\<lambda>(k, v). (k, canon v)) (digest_canonical sha256 b)"
    (is "_ \<longleftrightarrow> ?l = ?r")
  proof -
    have "distinct (map fst (digest_canonical sha256 a))"
      "map fst (digest_canonical sha256 a) = map fst (digest_canonical sha256 b)"
      by (simp_all add: digest_canonical_def)
    then have "canon (JObj (digest_canonical sha256 a)) = canon (JObj (digest_canonical sha256 b)) \<longleftrightarrow> ?l = ?r"
      using canon_JObj_inj [of "digest_canonical sha256 a" "digest_canonical sha256 b"] by (auto simp: canon.simps(2))
    then show ?thesis using digest_eq_canon [OF sha] by simp
  qed
  also have "\<dots> \<longleftrightarrow> di_action a = di_action b \<and> di_destination a = di_destination b \<and>
       mset (di_source_versions a) = mset (di_source_versions b) \<and>
       mset (di_output_versions a) = mset (di_output_versions b) \<and>
       map_of (di_file_hashes a) = map_of (di_file_hashes b) \<and> di_diff a = di_diff b \<and>
       mset (di_evidence_set a) = mset (di_evidence_set b) \<and>
       canon (di_permission_snapshot a) = canon (di_permission_snapshot b) \<and>
       mset (di_side_effects a) = mset (di_side_effects b)"
    by (simp add: digest_canonical_def canonical_value_def canon_idem canon_file_hashes sort_eq_iff_mset
        file_hashes_iff [OF da db] h del: canon.simps(2))
  finally show ?thesis by (simp add: compute_action_digest_total)
qed

definition sample_digest_input :: action_digest_input where
  "sample_digest_input = \<lparr>di_action = ''submit'', di_destination = ''registry'', di_source_versions = [''v1'', ''v2''],
     di_output_versions = [''v3''], di_file_hashes = [(''a.txt'', ''h1'')], di_diff = ''+x'', di_evidence_set = [''ev''],
     di_permission_snapshot = JObj [(''user_id'', JStr ''u1'')], di_side_effects = []\<rparr>"

theorem digest_binds_action_witness:
  "compute_action_digest id sample_digest_input =
     compute_action_digest id (sample_digest_input\<lparr>di_source_versions := [''v2'', ''v1'']\<rparr>) \<and>
   compute_action_digest id sample_digest_input \<noteq> compute_action_digest id (sample_digest_input\<lparr>di_diff := ''+y''\<rparr>)"
  using digest_binds_action [of id sample_digest_input "sample_digest_input\<lparr>di_source_versions := [''v2'', ''v1'']\<rparr>"]
    digest_binds_action [of id sample_digest_input "sample_digest_input\<lparr>di_diff := ''+y''\<rparr>"]
  by (simp add: sample_digest_input_def)

end
