(* ===== verification/Approvals.thy ===== *)
theory Approvals
  imports Action_Digest
begin

text \<open>
  Change sets and approval requests (\<open>approvals/service.py\<close>) over the rows \<open>ChangeSet\<close>,
  \<open>ChangeSetItem\<close>, \<open>ApprovalRequest\<close> and the status column of \<open>MaterialVersion\<close>.

  As in the job service each method reads (\<open>snap\<close>) and then writes with compare-and-set
  (\<open>cur\<close>); the result pairs the committed database with the returned value or the raised
  error, because an expired approval is committed before the error is raised. The injected
  authority check, the hash function, the clock and the identifiers drawn are arguments.
\<close>

section \<open>Rows and states\<close>

datatype approval_status = Ap_pending | Ap_approved | Ap_rejected | Ap_expired | Ap_invalidated | Ap_consumed

fun APPROVAL_TRANSITIONS :: "approval_status \<Rightarrow> approval_status set" where
  "APPROVAL_TRANSITIONS Ap_pending = {Ap_approved, Ap_rejected, Ap_expired, Ap_invalidated}"
| "APPROVAL_TRANSITIONS Ap_approved = {Ap_consumed, Ap_invalidated, Ap_expired}"
| "APPROVAL_TRANSITIONS Ap_rejected = {}"
| "APPROVAL_TRANSITIONS Ap_expired = {}"
| "APPROVAL_TRANSITIONS Ap_invalidated = {}"
| "APPROVAL_TRANSITIONS Ap_consumed = {}"

datatype change_set_state =
  Cs_draft | Cs_ready | Cs_awaiting_approval | Cs_approved | Cs_rejected | Cs_invalidated | Cs_applied

record approval_request =
  ap_id :: ident
  ap_tenant_id :: ident
  ap_run_id :: ident
  ap_change_set_id :: ident
  ap_action :: string
  ap_destination :: string
  ap_action_digest :: string
  ap_requested_by :: ident
  ap_decided_by :: "ident option"
  ap_authorization_version :: int
  ap_status :: approval_status
  ap_expires_at :: "instant option"
  ap_decided_at :: "instant option"
  ap_reason :: "string option"
  ap_created_at :: instant
  ap_updated_at :: instant
  ap_version :: int

record change_set =
  cs_id :: ident
  cs_tenant_id :: ident
  cs_workspace_id :: ident
  cs_run_id :: ident
  cs_source_manifest_digest :: string
  cs_evidence_set_digest :: string
  cs_summary :: string
  cs_side_effect_class :: string
  cs_state :: change_set_state
  cs_created_at :: instant
  cs_updated_at :: instant
  cs_version :: int

record change_set_item =
  ci_id :: ident
  ci_tenant_id :: ident
  ci_change_set_id :: ident
  ci_workspace_id :: ident
  ci_source_version_id :: "ident option"
  ci_proposed_version_id :: "ident option"
  ci_operation :: string
  ci_normalized_path :: string
  ci_before_hash :: "string option"
  ci_after_hash :: "string option"
  ci_diff_artifact_ref :: "string option"

record source_version =
  sv_id :: ident
  sv_tenant_id :: ident
  sv_status :: string

record approvals_db =
  approvals :: "approval_request list"
  change_sets :: "change_set list"
  change_items :: "change_set_item list"
  source_versions :: "source_version list"

abbreviation set_ap_version :: "int \<Rightarrow> approval_request \<Rightarrow> approval_request" where
  "set_ap_version v a \<equiv> a\<lparr>ap_version := v\<rparr>"

abbreviation set_cs_version :: "int \<Rightarrow> change_set \<Rightarrow> change_set" where
  "set_cs_version v c \<equiv> c\<lparr>cs_version := v\<rparr>"

interpretation approval_table: versioned_table ap_id ap_version set_ap_version
  by unfold_locales simp_all

interpretation change_set_table: versioned_table cs_id cs_version set_cs_version
  by unfold_locales simp_all

text \<open>The three exception classes with their stable code; a \<open>TypeError\<close> of the digest
  comparison and an integrity error of the database propagate as such.\<close>

datatype approval_error =
    Approval_error string
  | Approval_state_error string
  | Approval_conflict string
  | Value_error
  | Compare_type_error
  | Approval_integrity_error

section \<open>Change sets\<close>

record change_item_spec =
  is_operation :: string
  is_path :: string
  is_source_version_id :: "ident option"
  is_proposed_version_id :: "ident option"
  is_before_hash :: "string option"
  is_after_hash :: "string option"
  is_diff_artifact_ref :: "string option"

definition change_item_source_error :: "string \<Rightarrow> ident option \<Rightarrow> string option" where
  "change_item_source_error operation source =
     (if operation = ''create'' \<and> source \<noteq> None
      then Some ''a create operation cannot declare a source_version_id''
      else if operation \<in> {''update'', ''delete''} \<and> source = None
      then Some (''a '' @ operation @ '' operation requires a source_version_id'')
      else None)"

definition normalize_path :: "string \<Rightarrow> string" where
  "normalize_path path =
     (let cleaned = py_strip (replace_char (CHR 0x5C) (CHR ''/'') path)
      in join_with (CHR ''/'') (filter (\<lambda>s. s \<notin> {[], ''.''}) (split_on (CHR ''/'') cleaned)))"

definition escaping_path :: "string \<Rightarrow> bool" where
  "escaping_path p \<longleftrightarrow> p = [] \<or> starts_with p ''..'' \<or> contains_str p ''/..''"

fun assert_source_versions_current :: "approvals_db \<Rightarrow> ident \<Rightarrow> change_item_spec list \<Rightarrow> approval_error + unit" where
  "assert_source_versions_current db tenant [] = Inr ()"
| "assert_source_versions_current db tenant (spec # items) =
     (case is_source_version_id spec of
        None \<Rightarrow> assert_source_versions_current db tenant items
      | Some v \<Rightarrow>
          (case get_row sv_id (source_versions db) v of
             None \<Rightarrow> Inl (Approval_conflict ''SOURCE_VERSION_UNKNOWN'')
           | Some row \<Rightarrow>
               if sv_tenant_id row \<noteq> tenant then Inl (Approval_conflict ''SOURCE_VERSION_UNKNOWN'')
               else if sv_status row = ''superseded'' then Inl (Approval_conflict ''SOURCE_VERSION_STALE'')
               else assert_source_versions_current db tenant items))"

definition new_item :: "ident \<Rightarrow> ident \<Rightarrow> ident \<Rightarrow> ident \<Rightarrow> change_item_spec \<Rightarrow> string \<Rightarrow> change_set_item" where
  "new_item iid tenant csid workspace spec path =
     \<lparr>ci_id = iid, ci_tenant_id = tenant, ci_change_set_id = csid, ci_workspace_id = workspace,
      ci_source_version_id = is_source_version_id spec, ci_proposed_version_id = is_proposed_version_id spec,
      ci_operation = is_operation spec, ci_normalized_path = path, ci_before_hash = is_before_hash spec,
      ci_after_hash = is_after_hash spec, ci_diff_artifact_ref = is_diff_artifact_ref spec\<rparr>"

text \<open>\<open>iids\<close> gives the identifiers of the new items in order.\<close>

definition create_change_set :: "approvals_db \<Rightarrow> approvals_db \<Rightarrow> instant \<Rightarrow> ident \<Rightarrow> (nat \<Rightarrow> ident) \<Rightarrow> ident \<Rightarrow> ident
    \<Rightarrow> ident \<Rightarrow> change_item_spec list \<Rightarrow> string \<Rightarrow> string \<Rightarrow> string \<Rightarrow> string \<Rightarrow> approvals_db \<times> (approval_error + ident)" where
  "create_change_set snap cur now csid iids tenant workspace run items summary side_effect manifest evidence =
     (if list_ex (\<lambda>s. change_item_source_error (is_operation s) (is_source_version_id s) \<noteq> None) items
      then (cur, Inl (Approval_error ''CHANGE_ITEM_INVALID''))
      else let normalized = map (\<lambda>s. normalize_path (is_path s)) items in
      if list_ex escaping_path normalized then (cur, Inl (Approval_error ''CHANGE_PATH_INVALID''))
      else if \<not> distinct normalized then (cur, Inl (Approval_conflict ''CHANGE_PATH_DUPLICATE''))
      else (case assert_source_versions_current snap tenant items of
          Inl e \<Rightarrow> (cur, Inl e)
        | Inr _ \<Rightarrow>
            if csid \<in> cs_id ` set (change_sets cur) \<or> \<not> distinct (map iids [0..<length items]) \<or>
               iids ` {0..<length items} \<inter> ci_id ` set (change_items cur) \<noteq> {}
            then (cur, Inl Approval_integrity_error)
            else (cur\<lparr>change_sets := change_sets cur @
                     [\<lparr>cs_id = csid, cs_tenant_id = tenant, cs_workspace_id = workspace, cs_run_id = run,
                       cs_source_manifest_digest = manifest, cs_evidence_set_digest = evidence,
                       cs_summary = summary, cs_side_effect_class = side_effect, cs_state = Cs_ready,
                       cs_created_at = now, cs_updated_at = now, cs_version = 1\<rparr>],
                   change_items := change_items cur @
                     map (\<lambda>(n, spec, path). new_item (iids n) tenant csid workspace spec path)
                       (zip [0..<length items] (zip items normalized))\<rparr>, Inr csid)))"

section \<open>Approvals\<close>

definition cas_approval :: "approvals_db \<Rightarrow> approval_request \<Rightarrow> instant \<Rightarrow> (approval_request \<Rightarrow> approval_request)
    \<Rightarrow> approval_error + approvals_db" where
  "cas_approval cur a now upd =
     (case cas_row ap_id ap_version set_ap_version (approvals cur) (ap_id a) (ap_version a)
             (\<lambda>r. upd (r\<lparr>ap_updated_at := now\<rparr>)) of
        None \<Rightarrow> Inl (Approval_conflict ''APPROVAL_VERSION_CONFLICT'')
      | Some t \<Rightarrow> Inr (cur\<lparr>approvals := t\<rparr>))"

definition cas_change_set :: "approvals_db \<Rightarrow> change_set \<Rightarrow> instant \<Rightarrow> change_set_state \<Rightarrow> approval_error + approvals_db" where
  "cas_change_set cur c now state =
     (case cas_row cs_id cs_version set_cs_version (change_sets cur) (cs_id c) (cs_version c)
             (\<lambda>r. r\<lparr>cs_updated_at := now, cs_state := state\<rparr>) of
        None \<Rightarrow> Inl (Approval_conflict ''CHANGE_SET_VERSION_CONFLICT'')
      | Some t \<Rightarrow> Inr (cur\<lparr>change_sets := t\<rparr>))"

definition assert_transition :: "approval_status \<Rightarrow> approval_status \<Rightarrow> approval_error + unit" where
  "assert_transition a b = res_guard (b \<in> APPROVAL_TRANSITIONS a) (Approval_state_error ''APPROVAL_TRANSITION_INVALID'')"

text \<open>A call that raises before its commit leaves the database as it was.\<close>

definition commit_or :: "approvals_db \<Rightarrow> approval_error + approvals_db \<times> 'a \<Rightarrow> approvals_db \<times> (approval_error + 'a)" where
  "commit_or cur r = (case r of Inl e \<Rightarrow> (cur, Inl e) | Inr (db, x) \<Rightarrow> (db, Inr x))"

definition digest_or_raise :: "(string \<Rightarrow> string) \<Rightarrow> action_digest_input \<Rightarrow> approval_error + string" where
  "digest_or_raise sha256 d = res_of_option Value_error (compute_action_digest sha256 d)"

definition request_approval :: "(string \<Rightarrow> string) \<Rightarrow> approvals_db \<Rightarrow> approvals_db \<Rightarrow> instant \<Rightarrow> ident \<Rightarrow> ident \<Rightarrow> ident
    \<Rightarrow> ident \<Rightarrow> string \<Rightarrow> string \<Rightarrow> ident \<Rightarrow> action_digest_input \<Rightarrow> instant option \<Rightarrow> int
    \<Rightarrow> approvals_db \<times> (approval_error + ident \<times> string)" where
  "request_approval sha256 snap cur now aid tenant run csid action destination requested_by di expires_at auth_version =
     commit_or cur
     (res_bind (digest_or_raise sha256 di) (\<lambda>digest.
      case get_row cs_id (change_sets snap) csid of
        None \<Rightarrow> Inl (Approval_error ''CHANGE_SET_UNKNOWN'')
      | Some cs \<Rightarrow>
          if cs_tenant_id cs \<noteq> tenant then Inl (Approval_error ''CHANGE_SET_UNKNOWN'')
          else if cs_state cs \<notin> {Cs_ready, Cs_draft} then Inl (Approval_state_error ''CHANGE_SET_NOT_READY'')
          else if aid \<in> ap_id ` set (approvals cur) then Inl Approval_integrity_error
          else
           (let a = \<lparr>ap_id = aid, ap_tenant_id = tenant, ap_run_id = run, ap_change_set_id = csid,
                     ap_action = action, ap_destination = destination, ap_action_digest = digest,
                     ap_requested_by = requested_by, ap_decided_by = None, ap_authorization_version = auth_version,
                     ap_status = Ap_pending, ap_expires_at = expires_at, ap_decided_at = None, ap_reason = None,
                     ap_created_at = now, ap_updated_at = now, ap_version = 1\<rparr>
            in res_bind (cas_change_set (cur\<lparr>approvals := approvals cur @ [a]\<rparr>) cs now Cs_awaiting_approval)
                 (\<lambda>db. Inr (db, (aid, digest))))))"

type_synonym authority_check = "ident \<Rightarrow> ident \<Rightarrow> string \<Rightarrow> string option"

definition require_authority :: "authority_check option \<Rightarrow> ident \<Rightarrow> ident \<Rightarrow> string \<Rightarrow> approval_error + unit" where
  "require_authority check tenant user action =
     (case check of
        None \<Rightarrow> Inr ()
      | Some f \<Rightarrow> (case f tenant user action of None \<Rightarrow> Inr () | Some _ \<Rightarrow> Inl (Approval_error ''AUTH_FORBIDDEN'')))"

definition is_expired :: "instant \<Rightarrow> approval_request \<Rightarrow> bool" where
  "is_expired now a = (case ap_expires_at a of None \<Rightarrow> False | Some x \<Rightarrow> x < now)"

definition load_approval :: "approvals_db \<Rightarrow> ident \<Rightarrow> ident \<Rightarrow> approval_error + approval_request" where
  "load_approval db tenant i =
     (case get_row ap_id (approvals db) i of
        None \<Rightarrow> Inl (Approval_error ''APPROVAL_UNKNOWN'')
      | Some a \<Rightarrow> if ap_tenant_id a \<noteq> tenant then Inl (Approval_error ''APPROVAL_UNKNOWN'') else Inr a)"

definition move_change_set :: "approvals_db \<Rightarrow> approvals_db \<Rightarrow> instant \<Rightarrow> ident \<Rightarrow> change_set_state
    \<Rightarrow> approval_error + approvals_db" where
  "move_change_set snap db now csid state =
     (case get_row cs_id (change_sets snap) csid of
        None \<Rightarrow> Inr db
      | Some cs \<Rightarrow> cas_change_set db cs now state)"

definition decide :: "authority_check option \<Rightarrow> approvals_db \<Rightarrow> approvals_db \<Rightarrow> instant \<Rightarrow> ident \<Rightarrow> ident \<Rightarrow> string
    \<Rightarrow> ident \<Rightarrow> string \<Rightarrow> int \<Rightarrow> string option \<Rightarrow> string \<Rightarrow> approvals_db \<times> (approval_error + approval_request)" where
  "decide check snap cur now tenant i decision decided_by expected_digest expected_version reason required =
     (if decision \<notin> {''approve'', ''reject''} then (cur, Inl (Approval_error ''DECISION_INVALID''))
      else let target = (if decision = ''approve'' then Ap_approved else Ap_rejected) in
      case require_authority check tenant decided_by required of Inl e \<Rightarrow> (cur, Inl e) | Inr _ \<Rightarrow>
      case load_approval snap tenant i of Inl e \<Rightarrow> (cur, Inl e) | Inr a \<Rightarrow>
      if ap_version a \<noteq> expected_version then (cur, Inl (Approval_conflict ''APPROVAL_VERSION_CONFLICT''))
      else if ap_status a \<noteq> Ap_pending then (cur, Inl (Approval_state_error ''APPROVAL_NOT_PENDING''))
      else if is_expired now a then
        (case cas_approval cur a now (\<lambda>r. r\<lparr>ap_status := Ap_expired\<rparr>) of
           Inl e \<Rightarrow> (cur, Inl e)
         | Inr db \<Rightarrow> (db, Inl (Approval_state_error ''APPROVAL_EXPIRED'')))
      else (case digests_match (ap_action_digest a) expected_digest of
          None \<Rightarrow> (cur, Inl Compare_type_error)
        | Some False \<Rightarrow> (cur, Inl (Approval_conflict ''APPROVAL_DIGEST_MISMATCH''))
        | Some True \<Rightarrow> commit_or cur
            (res_bind (assert_transition (ap_status a) target) (\<lambda>_.
             res_bind (cas_approval cur a now (\<lambda>r. r\<lparr>ap_status := target, ap_decided_by := Some decided_by,
                 ap_decided_at := Some now, ap_reason := reason\<rparr>)) (\<lambda>db.
             res_bind (move_change_set snap db now (ap_change_set_id a)
                 (if target = Ap_rejected then Cs_rejected else Cs_approved)) (\<lambda>db'.
             res_bind (load_approval db' tenant i) (\<lambda>a'. Inr (db', a'))))))))"

definition invalidate_if_changed :: "(string \<Rightarrow> string) \<Rightarrow> approvals_db \<Rightarrow> approvals_db \<Rightarrow> instant \<Rightarrow> ident \<Rightarrow> ident
    \<Rightarrow> action_digest_input \<Rightarrow> approvals_db \<times> (approval_error + bool)" where
  "invalidate_if_changed sha256 snap cur now tenant i di =
     commit_or cur
     (res_bind (digest_or_raise sha256 di) (\<lambda>digest.
      res_bind (load_approval snap tenant i) (\<lambda>a.
      if ap_status a \<notin> {Ap_pending, Ap_approved} then Inr (cur, False)
      else (case digests_match (ap_action_digest a) digest of
          None \<Rightarrow> Inl Compare_type_error
        | Some True \<Rightarrow> Inr (cur, False)
        | Some False \<Rightarrow>
            res_bind (assert_transition (ap_status a) Ap_invalidated) (\<lambda>_.
            res_bind (cas_approval cur a now (\<lambda>r. r\<lparr>ap_status := Ap_invalidated\<rparr>)) (\<lambda>db.
            (case get_row cs_id (change_sets snap) (ap_change_set_id a) of
               None \<Rightarrow> Inr (db, True)
             | Some cs \<Rightarrow>
                 if cs_state cs \<in> {Cs_awaiting_approval, Cs_approved}
                 then res_bind (cas_change_set db cs now Cs_invalidated) (\<lambda>db'. Inr (db', True))
                 else Inr (db, True))))))))"

definition expire_candidate :: "ident \<Rightarrow> instant \<Rightarrow> approval_request \<Rightarrow> bool" where
  "expire_candidate tenant moment a \<longleftrightarrow>
     ap_tenant_id a = tenant \<and> ap_status a \<in> {Ap_pending, Ap_approved} \<and>
     (case ap_expires_at a of None \<Rightarrow> False | Some x \<Rightarrow> x < moment)"

fun expire_rows :: "instant \<Rightarrow> approval_request list \<Rightarrow> nat \<Rightarrow> approvals_db \<Rightarrow> approval_error + approvals_db \<times> nat" where
  "expire_rows now [] n cur = Inr (cur, n)"
| "expire_rows now (a # as) n cur =
     res_bind (cas_approval cur a now (\<lambda>r. r\<lparr>ap_status := Ap_expired\<rparr>)) (\<lambda>db. expire_rows now as (n + 1) db)"

definition expire_due :: "approvals_db \<Rightarrow> approvals_db \<Rightarrow> instant \<Rightarrow> ident \<Rightarrow> instant \<Rightarrow> approvals_db \<times> (approval_error + nat)" where
  "expire_due snap cur now tenant moment =
     commit_or cur (expire_rows now (filter (expire_candidate tenant moment) (approvals snap)) 0 cur)"

section \<open>Specification: approvals move along the declared transitions\<close>

definition ap_frame :: "approval_request \<Rightarrow> ident \<times> ident \<times> ident \<times> ident \<times> string \<times> string \<times> string \<times> ident \<times> int \<times> instant option" where
  "ap_frame a = (ap_id a, ap_tenant_id a, ap_run_id a, ap_change_set_id a, ap_action a, ap_destination a,
     ap_action_digest a, ap_requested_by a, ap_authorization_version a, ap_expires_at a)"

definition approval_row_step :: "approval_request \<Rightarrow> approval_request \<Rightarrow> bool" where
  "approval_row_step a a' \<longleftrightarrow>
     ap_frame a' = ap_frame a \<and> ap_version a' = ap_version a + 1 \<and>
     ap_status a' \<in> APPROVAL_TRANSITIONS (ap_status a) \<and>
     (ap_status a' \<in> {Ap_approved, Ap_rejected} \<longrightarrow> ap_decided_by a' \<noteq> None)"

inductive approvals_spec :: "approval_request list \<Rightarrow> approval_request list \<Rightarrow> bool" where
  spec_new: "ap_id a \<notin> ap_id ` set t \<Longrightarrow> ap_status a = Ap_pending \<Longrightarrow> ap_version a = 1 \<Longrightarrow>
    approvals_spec t (t @ [a])"
| spec_move: "get_row ap_id t i = Some a \<Longrightarrow> approval_row_step a a' \<Longrightarrow>
    approvals_spec t (put_row ap_id t i (\<lambda>_. a'))"

definition approvals_wf :: "approvals_db \<Rightarrow> bool" where
  "approvals_wf db \<longleftrightarrow> keys_distinct ap_id (approvals db) \<and> keys_distinct cs_id (change_sets db)"

definition approvals_snapshot :: "approvals_db \<Rightarrow> approvals_db \<Rightarrow> bool" where
  "approvals_snapshot snap cur \<longleftrightarrow>
     keys_distinct ap_id (approvals snap) \<and> keys_distinct cs_id (change_sets snap) \<and>
     (\<forall>a\<in>set (approvals snap). snapshot_of ap_id ap_version (approvals cur) a) \<and>
     (\<forall>c\<in>set (change_sets snap). snapshot_of cs_id cs_version (change_sets cur) c)"

lemma approvals_snapshot_refl: "approvals_wf db \<Longrightarrow> approvals_snapshot db db"
  by (simp add: approvals_snapshot_def approvals_wf_def snapshot_of_refl)

lemma row_step_id: "approval_row_step a a' \<Longrightarrow> ap_id a' = ap_id a"
  by (simp add: approval_row_step_def ap_frame_def)

lemma spec_distinct: "approvals_spec t t' \<Longrightarrow> keys_distinct ap_id t \<Longrightarrow> keys_distinct ap_id t'"
proof (induction rule: approvals_spec.induct)
  case (spec_move t i a a')
  then have "ap_id a' = i" using row_step_id get_row_SomeD by metis
  with spec_move show ?case by (simp add: map_key_put_row_const)
qed auto

lemma specs_distinct: "approvals_spec\<^sup>*\<^sup>* t t' \<Longrightarrow> keys_distinct ap_id t \<Longrightarrow> keys_distinct ap_id t'"
  by (induction rule: rtranclp_induct) (auto intro: spec_distinct)

lemma spec_snapshot:
  "approvals_spec t t' \<Longrightarrow> snapshot_of ap_id ap_version t r \<Longrightarrow> snapshot_of ap_id ap_version t' r"
proof (induction rule: approvals_spec.induct)
  case (spec_new a t)
  then show ?case by (auto simp: snapshot_of_def get_row_append)
next
  case (spec_move t i a a')
  then have "ap_id a' = i" using row_step_id get_row_SomeD by metis
  with spec_move show ?case
    by (intro approval_table.snapshot_of_put_row_const) (auto simp: approval_row_step_def)
qed

text \<open>What a transition leaves of a row: once neither pending nor approved, everything.\<close>

lemma spec_final:
  assumes "approvals_spec t t'" and "get_row ap_id t k = Some a" and "ap_status a \<notin> {Ap_pending, Ap_approved}"
  shows "get_row ap_id t' k = Some a"
  using assms
proof (induction rule: approvals_spec.induct)
  case (spec_new b t)
  then show ?case by (simp add: get_row_append)
next
  case (spec_move t i b b')
  have i: "ap_id b' = i" using row_step_id [OF spec_move(2)] get_row_SomeD [OF spec_move(1)] by simp
  have "k \<noteq> i" using spec_move by (cases "ap_status a") (auto simp: approval_row_step_def)
  then show ?case using spec_move by (simp add: get_put_row_const [where key = ap_id, OF i])
qed

lemma spec_frame:
  assumes "approvals_spec t t'" and "get_row ap_id t k = Some a"
  shows "\<exists>a'. get_row ap_id t' k = Some a' \<and> ap_frame a' = ap_frame a \<and> ap_version a \<le> ap_version a'"
  using assms
proof (induction rule: approvals_spec.induct)
  case (spec_new b t)
  then show ?case by (simp add: get_row_append)
next
  case (spec_move t i b b')
  have i: "ap_id b' = i" using row_step_id [OF spec_move(2)] get_row_SomeD [OF spec_move(1)] by simp
  show ?case using spec_move by (auto simp: get_put_row_const [where key = ap_id, OF i] approval_row_step_def)
qed

lemma specs_final:
  "approvals_spec\<^sup>*\<^sup>* t t' \<Longrightarrow> get_row ap_id t k = Some a \<Longrightarrow> ap_status a \<notin> {Ap_pending, Ap_approved} \<Longrightarrow>
   get_row ap_id t' k = Some a"
  by (induction rule: rtranclp_induct) (auto intro: spec_final)

lemma specs_frame:
  "approvals_spec\<^sup>*\<^sup>* t t' \<Longrightarrow> get_row ap_id t k = Some a \<Longrightarrow>
   \<exists>a'. get_row ap_id t' k = Some a' \<and> ap_frame a' = ap_frame a \<and> ap_version a \<le> ap_version a'"
proof (induction rule: rtranclp_induct)
  case (step y z)
  then obtain b where "get_row ap_id y k = Some b" "ap_frame b = ap_frame a" "ap_version a \<le> ap_version b" by blast
  with spec_frame [OF step.hyps(2)] show ?case by fastforce
qed simp

section \<open>The operations implement the specification\<close>

lemma cas_approvalD:
  assumes "keys_distinct ap_id (approvals cur)" and "snapshot_of ap_id ap_version (approvals cur) a"
    and "cas_approval cur a now upd = Inr db"
  shows "get_row ap_id (approvals cur) (ap_id a) = Some a"
    "db = cur\<lparr>approvals := put_row ap_id (approvals cur) (ap_id a)
        (\<lambda>_. set_ap_version (ap_version a + 1) (upd (a\<lparr>ap_updated_at := now\<rparr>)))\<rparr>"
proof -
  from assms(3) obtain t where c: "cas_row ap_id ap_version set_ap_version (approvals cur) (ap_id a) (ap_version a)
      (\<lambda>r. upd (r\<lparr>ap_updated_at := now\<rparr>)) = Some t" and db: "db = cur\<lparr>approvals := t\<rparr>"
    by (auto simp: cas_approval_def split: option.splits)
  from c assms(1,2) have "get_row ap_id (approvals cur) (ap_id a) = Some a \<and>
      t = put_row ap_id (approvals cur) (ap_id a) (\<lambda>_. set_ap_version (ap_version a + 1) (upd (a\<lparr>ap_updated_at := now\<rparr>)))"
    by (rule approval_table.cas_row_snapshotE) simp
  with db show "get_row ap_id (approvals cur) (ap_id a) = Some a"
    "db = cur\<lparr>approvals := put_row ap_id (approvals cur) (ap_id a)
        (\<lambda>_. set_ap_version (ap_version a + 1) (upd (a\<lparr>ap_updated_at := now\<rparr>)))\<rparr>" by simp_all
qed

lemma cas_approval_spec:
  assumes "keys_distinct ap_id (approvals cur)" and "snapshot_of ap_id ap_version (approvals cur) a"
    and "cas_approval cur a now upd = Inr db"
    and "approval_row_step a (set_ap_version (ap_version a + 1) (upd (a\<lparr>ap_updated_at := now\<rparr>)))"
  shows "approvals_spec (approvals cur) (approvals db)"
  using spec_move [OF cas_approvalD(1) [OF assms(1-3)] assms(4)] cas_approvalD(2) [OF assms(1-3)] by simp

lemma cas_change_set_approvals: "cas_change_set db c now st = Inr db' \<Longrightarrow> approvals db' = approvals db"
  by (auto simp: cas_change_set_def split: option.splits)

lemma move_change_set_approvals: "move_change_set snap db now c st = Inr db' \<Longrightarrow> approvals db' = approvals db"
  by (auto simp: move_change_set_def cas_change_set_approvals split: option.splits)



lemma load_approvalD:
  "load_approval db tenant i = Inr a \<Longrightarrow> get_row ap_id (approvals db) i = Some a \<and> ap_tenant_id a = tenant"
  by (auto simp: load_approval_def split: option.splits if_splits)

lemma load_snapshot:
  assumes "approvals_snapshot snap cur" and "load_approval snap tenant i = Inr a"
  shows "snapshot_of ap_id ap_version (approvals cur) a" "ap_id a = i" "ap_tenant_id a = tenant"
proof -
  have g: "get_row ap_id (approvals snap) i = Some a" and t: "ap_tenant_id a = tenant"
    using load_approvalD [OF assms(2)] by simp_all
  show "ap_id a = i" "ap_tenant_id a = tenant" using get_row_SomeD [OF g] t by simp_all
  show "snapshot_of ap_id ap_version (approvals cur) a"
    using assms(1) get_row_SomeD [OF g] by (simp add: approvals_snapshot_def)
qed

lemma commit_or_cases:
  assumes "commit_or cur r = (cur', x)"
  obtains e where "r = Inl e" "cur' = cur" "x = Inl e" | y where "r = Inr (cur', y)" "x = Inr y"
  using assms by (cases r) (auto simp: commit_or_def)

definition decision_target :: "string \<Rightarrow> approval_status" where
  "decision_target decision = (if decision = ''approve'' then Ap_approved else Ap_rejected)"

definition decided_row :: "instant \<Rightarrow> string \<Rightarrow> ident \<Rightarrow> string option \<Rightarrow> approval_request \<Rightarrow> approval_request" where
  "decided_row now decision decided_by reason a =
     a\<lparr>ap_updated_at := now, ap_status := decision_target decision, ap_decided_by := Some decided_by,
       ap_decided_at := Some now, ap_reason := reason, ap_version := ap_version a + 1\<rparr>"

lemma decided_row_step: "ap_status a = Ap_pending \<Longrightarrow> approval_row_step a (decided_row now d who reason a)"
  by (simp add: approval_row_step_def ap_frame_def decided_row_def decision_target_def)

lemma decide_success:
  assumes wf: "keys_distinct ap_id (approvals cur)" and sn: "approvals_snapshot snap cur"
    and dec: "decide check snap cur now tenant i decision who digest version reason required = (cur', Inr a')"
  obtains a where "get_row ap_id (approvals cur) i = Some a" "ap_tenant_id a = tenant"
    "decision \<in> {''approve'', ''reject''}" "require_authority check tenant who required = Inr ()"
    "ap_version a = version" "ap_status a = Ap_pending" "\<not> is_expired now a"
    "digests_match (ap_action_digest a) digest = Some True"
    "a' = decided_row now decision who reason a"
    "approvals cur' = put_row ap_id (approvals cur) i (\<lambda>_. a')"
    "\<exists>db. change_sets db = change_sets cur \<and> move_change_set snap db now (ap_change_set_id a)
       (if decision = ''approve'' then Cs_approved else Cs_rejected) = Inr cur'"
proof -
  let ?upd = "\<lambda>r. r\<lparr>ap_status := decision_target decision, ap_decided_by := Some who, ap_decided_at := Some now, ap_reason := reason\<rparr>"
  from dec obtain a db where g: "decision \<in> {''approve'', ''reject''}" "require_authority check tenant who required = Inr ()"
    "load_approval snap tenant i = Inr a" "ap_version a = version" "ap_status a = Ap_pending" "\<not> is_expired now a"
    "digests_match (ap_action_digest a) digest = Some True"
    and c: "cas_approval cur a now ?upd = Inr db"
    and m: "move_change_set snap db now (ap_change_set_id a) (if decision_target decision = Ap_rejected then Cs_rejected else Cs_approved) = Inr cur'"
    and l: "load_approval cur' tenant i = Inr a'"
    by (auto simp: decide_def decision_target_def commit_or_def res_simps Let_def
        split: if_splits sum.splits option.splits bool.splits)
  note s = load_snapshot [OF sn g(3)]
  note d = cas_approvalD [OF wf s(1) c]
  let ?a = "decided_row now decision who reason a"
  have db: "db = cur\<lparr>approvals := put_row ap_id (approvals cur) i (\<lambda>_. ?a)\<rparr>"
    using d(2) s(2) by (simp add: decided_row_def)
  have k: "ap_id ?a = i" using s(2) by (simp add: decided_row_def)
  have t: "approvals cur' = put_row ap_id (approvals cur) i (\<lambda>_. ?a)"
    using move_change_set_approvals [OF m] db by simp
  have "get_row ap_id (approvals cur') i = Some ?a"
    using d(1) s(2) by (simp add: t get_put_row_const [where key = ap_id, OF k])
  then have a': "a' = ?a" using load_approvalD [OF l] by simp
  have "\<exists>db. change_sets db = change_sets cur \<and> move_change_set snap db now (ap_change_set_id a)
       (if decision = ''approve'' then Cs_approved else Cs_rejected) = Inr cur'"
    using m db by (intro exI [of _ db]) (simp add: decision_target_def split: if_splits)
  with that d(1) s g t a' show ?thesis by simp
qed

lemma decide_error:
  assumes wf: "keys_distinct ap_id (approvals cur)" and sn: "approvals_snapshot snap cur"
    and dec: "decide check snap cur now tenant i decision who digest version reason required = (cur', Inl e)"
  shows "cur' = cur \<or> (\<exists>a. get_row ap_id (approvals cur) i = Some a \<and> ap_status a = Ap_pending \<and> is_expired now a \<and>
      e = Approval_state_error ''APPROVAL_EXPIRED'' \<and>
      cur' = cur\<lparr>approvals := put_row ap_id (approvals cur) i
        (\<lambda>_. a\<lparr>ap_updated_at := now, ap_status := Ap_expired, ap_version := ap_version a + 1\<rparr>)\<rparr>)"
proof (cases "cur' = cur")
  case False
  with dec obtain a where l: "load_approval snap tenant i = Inr a" and st: "ap_status a = Ap_pending" "is_expired now a"
    and c: "cas_approval cur a now (\<lambda>r. r\<lparr>ap_status := Ap_expired\<rparr>) = Inr cur'"
    and e: "e = Approval_state_error ''APPROVAL_EXPIRED''"
    by (auto simp: decide_def commit_or_def Let_def split: if_splits sum.splits option.splits bool.splits)
  note s = load_snapshot [OF sn l]
  from cas_approvalD [OF wf s(1) c] s(2) st e show ?thesis by simp
qed simp

lemma expired_row_step: "ap_status a \<in> {Ap_pending, Ap_approved} \<Longrightarrow>
    approval_row_step a (a\<lparr>ap_updated_at := now, ap_status := Ap_expired, ap_version := ap_version a + 1\<rparr>)"
  by (auto simp: approval_row_step_def ap_frame_def)

lemma decide_spec:
  assumes "keys_distinct ap_id (approvals cur)" and "approvals_snapshot snap cur"
    and "decide check snap cur now tenant i decision who digest version reason required = (cur', r)"
  shows "approvals_spec\<^sup>*\<^sup>* (approvals cur) (approvals cur')"
proof (cases r)
  case (Inl e)
  from decide_error [OF assms(1,2) assms(3) [unfolded Inl]] show ?thesis
  proof
    assume "\<exists>a. get_row ap_id (approvals cur) i = Some a \<and> ap_status a = Ap_pending \<and> is_expired now a \<and>
      e = Approval_state_error ''APPROVAL_EXPIRED'' \<and>
      cur' = cur\<lparr>approvals := put_row ap_id (approvals cur) i
        (\<lambda>_. a\<lparr>ap_updated_at := now, ap_status := Ap_expired, ap_version := ap_version a + 1\<rparr>)\<rparr>"
    then obtain a where g: "get_row ap_id (approvals cur) i = Some a" "ap_status a = Ap_pending"
      and c: "approvals cur' = put_row ap_id (approvals cur) i
        (\<lambda>_. a\<lparr>ap_updated_at := now, ap_status := Ap_expired, ap_version := ap_version a + 1\<rparr>)" by auto
    have "approvals_spec (approvals cur) (approvals cur')"
      unfolding c by (rule spec_move [OF g(1) expired_row_step]) (simp add: g(2))
    then show ?thesis by simp
  qed simp
next
  case (Inr a')
  from assms(1,2) assms(3) [unfolded Inr] obtain a where g: "get_row ap_id (approvals cur) i = Some a"
    "ap_status a = Ap_pending" "a' = decided_row now decision who reason a"
    "approvals cur' = put_row ap_id (approvals cur) i (\<lambda>_. a')" by (rule decide_success)
  have "approvals_spec (approvals cur) (approvals cur')"
    unfolding g(3,4) by (rule spec_move [OF g(1) decided_row_step [OF g(2)]])
  then show ?thesis by simp
qed

lemma create_change_set_approvals:
  "create_change_set snap cur now csid iids tenant ws run items sm se mf ev = (cur', r) \<Longrightarrow> approvals cur' = approvals cur"
  by (auto simp: create_change_set_def Let_def split: if_splits sum.splits)

lemma request_approval_spec:
  assumes "request_approval sha256 snap cur now aid tenant run csid action dest who di ex av = (cur', r)"
  shows "approvals_spec\<^sup>*\<^sup>* (approvals cur) (approvals cur')"
  using assms unfolding request_approval_def
proof (cases rule: commit_or_cases)
  case (2 y)
  then obtain digest cs where f: "aid \<notin> ap_id ` set (approvals cur)"
    and c: "cas_change_set (cur\<lparr>approvals := approvals cur @
       [\<lparr>ap_id = aid, ap_tenant_id = tenant, ap_run_id = run, ap_change_set_id = csid,
                     ap_action = action, ap_destination = dest, ap_action_digest = digest,
                     ap_requested_by = who, ap_decided_by = None, ap_authorization_version = av,
                     ap_status = Ap_pending, ap_expires_at = ex, ap_decided_at = None, ap_reason = None,
                     ap_created_at = now, ap_updated_at = now, ap_version = 1\<rparr>]\<rparr>) cs now Cs_awaiting_approval = Inr cur'"
    by (auto simp: res_simps Let_def split: option.splits if_splits)
  from cas_change_set_approvals [OF c] have "approvals_spec (approvals cur) (approvals cur')"
    using f by (auto intro: spec_new)
  then show ?thesis by simp
qed simp

lemma invalidate_spec:
  assumes wf: "keys_distinct ap_id (approvals cur)" and sn: "approvals_snapshot snap cur"
    and inv: "invalidate_if_changed sha256 snap cur now tenant i di = (cur', r)"
  shows "approvals_spec\<^sup>*\<^sup>* (approvals cur) (approvals cur')"
proof (cases "approvals cur' = approvals cur")
  case False
  with inv obtain a db where l: "load_approval snap tenant i = Inr a" and st: "ap_status a \<in> {Ap_pending, Ap_approved}"
    and c: "cas_approval cur a now (\<lambda>r. r\<lparr>ap_status := Ap_invalidated\<rparr>) = Inr db" and e: "approvals cur' = approvals db"
    by (auto simp: invalidate_if_changed_def commit_or_def res_simps dest!: cas_change_set_approvals
        split: if_splits sum.splits option.splits bool.splits)
  have "approvals_spec (approvals cur) (approvals db)"
    by (rule cas_approval_spec [OF wf load_snapshot(1) [OF sn l] c])
      (use st in \<open>auto simp: approval_row_step_def ap_frame_def\<close>)
  with e show ?thesis by simp
qed simp

lemma expire_rows_spec:
  "keys_distinct ap_id (approvals cur) \<Longrightarrow>
   \<forall>a\<in>set as. snapshot_of ap_id ap_version (approvals cur) a \<and> ap_status a \<in> {Ap_pending, Ap_approved} \<Longrightarrow>
   expire_rows now as n cur = Inr (cur', m) \<Longrightarrow> approvals_spec\<^sup>*\<^sup>* (approvals cur) (approvals cur')"
proof (induction as arbitrary: cur n)
  case (Cons a as)
  from Cons.prems(3) obtain db where c: "cas_approval cur a now (\<lambda>r. r\<lparr>ap_status := Ap_expired\<rparr>) = Inr db"
    and r: "expire_rows now as (n + 1) db = Inr (cur', m)" by (auto simp: res_simps)
  have s: "approvals_spec (approvals cur) (approvals db)"
    by (rule cas_approval_spec [OF Cons.prems(1) _ c]) (use Cons.prems(2) in \<open>auto simp: approval_row_step_def ap_frame_def\<close>)
  have "approvals_spec\<^sup>*\<^sup>* (approvals db) (approvals cur')"
    using Cons.prems(2) by (intro Cons.IH [OF spec_distinct [OF s Cons.prems(1)] _ r]) (auto intro: spec_snapshot [OF s])
  with s show ?case by (rule converse_rtranclp_into_rtranclp)
qed simp

lemma expire_due_spec:
  assumes "keys_distinct ap_id (approvals cur)" and "approvals_snapshot snap cur"
    and "expire_due snap cur now tenant moment = (cur', r)"
  shows "approvals_spec\<^sup>*\<^sup>* (approvals cur) (approvals cur')"
  using assms(3) unfolding expire_due_def
proof (cases rule: commit_or_cases)
  case (2 y)
  then show ?thesis
    using assms(2) by (intro expire_rows_spec [OF assms(1) _ 2(1)]) (auto simp: approvals_snapshot_def expire_candidate_def)
qed simp

text \<open>One call of the service: it reads \<open>snap\<close> and takes \<open>cur\<close> to \<open>cur'\<close>, whatever it returns or raises.\<close>

inductive approval_call :: "(string \<Rightarrow> string) \<Rightarrow> authority_check option \<Rightarrow> approvals_db \<Rightarrow> approvals_db \<Rightarrow> approvals_db \<Rightarrow> bool"
  for sha256 check where
  call_create: "create_change_set snap cur now csid iids tenant ws run items sm se mf ev = (cur', r1) \<Longrightarrow>
    approval_call sha256 check snap cur cur'"
| call_request: "request_approval sha256 snap cur now aid tenant run csid action dest who di ex av = (cur', r2) \<Longrightarrow>
    approval_call sha256 check snap cur cur'"
| call_decide: "decide check snap cur now tenant i decision who digest version reason required = (cur', r3) \<Longrightarrow>
    approval_call sha256 check snap cur cur'"
| call_invalidate: "invalidate_if_changed sha256 snap cur now tenant i di = (cur', r4) \<Longrightarrow>
    approval_call sha256 check snap cur cur'"
| call_expire: "expire_due snap cur now tenant moment = (cur', r5) \<Longrightarrow>
    approval_call sha256 check snap cur cur'"

lemma approval_call_spec:
  assumes "approval_call sha256 check snap cur cur'" and "keys_distinct ap_id (approvals cur)" and "approvals_snapshot snap cur"
  shows "approvals_spec\<^sup>*\<^sup>* (approvals cur) (approvals cur')"
  using assms(1)
proof (cases rule: approval_call.cases)
  case call_create
  then show ?thesis using create_change_set_approvals by fastforce
qed (use assms(2,3) in \<open>auto intro: request_approval_spec decide_spec invalidate_spec expire_due_spec\<close>)

section \<open>Paths\<close>

lemma normalized_segments:
  assumes "normalize_path path \<noteq> []"
  shows "set (split_on (CHR ''/'') (normalize_path path)) \<inter> {[], ''.''} = {}"
proof -
  let ?segs = "filter (\<lambda>s. s \<notin> {[], ''.''}) (split_on (CHR ''/'') (py_strip (replace_char (CHR 0x5C) (CHR ''/'') path)))"
  have n: "normalize_path path = join_with (CHR ''/'') ?segs" by (simp add: normalize_path_def Let_def)
  have "?segs \<noteq> []" using assms unfolding n by (metis join_with.simps(1))
  moreover have "\<forall>w\<in>set ?segs. CHR ''/'' \<notin> set w" by (auto dest: split_on_no_sep)
  ultimately have "split_on (CHR ''/'') (normalize_path path) = ?segs" unfolding n by (rule split_join)
  then show ?thesis by auto
qed

lemma safe_segments:
  assumes "\<not> escaping_path (normalize_path path)"
  shows "set (split_on (CHR ''/'') (normalize_path path)) \<inter> {[], ''.'', ''..''} = {}"
proof -
  have "''..'' \<notin> set (split_on (CHR ''/'') (normalize_path path))"
    using split_word_position [of "''..''" "CHR ''/''" "normalize_path path"] assms
    by (auto simp: escaping_path_def contains_str_def)
  then show ?thesis using normalized_segments [of path] assms by (auto simp: escaping_path_def)
qed

lemma sources_current:
  "assert_source_versions_current db tenant items = Inr u \<Longrightarrow> spec \<in> set items \<Longrightarrow> is_source_version_id spec = Some v \<Longrightarrow>
   \<exists>row. get_row sv_id (source_versions db) v = Some row \<and> sv_tenant_id row = tenant \<and> sv_status row \<noteq> ''superseded''"
  by (induction db tenant items rule: assert_source_versions_current.induct)
    (auto split: option.splits if_splits)

section \<open>Properties\<close>

definition sample_change_set :: change_set where
  "sample_change_set = \<lparr>cs_id = ''c1'', cs_tenant_id = ''t1'', cs_workspace_id = ''ws'', cs_run_id = ''r1'',
     cs_source_manifest_digest = [], cs_evidence_set_digest = [], cs_summary = [],
     cs_side_effect_class = ''external_submission'', cs_state = Cs_awaiting_approval,
     cs_created_at = 0, cs_updated_at = 0, cs_version = 2\<rparr>"

definition sample_approval :: approval_request where
  "sample_approval = \<lparr>ap_id = ''a1'', ap_tenant_id = ''t1'', ap_run_id = ''r1'', ap_change_set_id = ''c1'',
     ap_action = ''submit'', ap_destination = ''registry'', ap_action_digest = ''ab'', ap_requested_by = ''u1'',
     ap_decided_by = None, ap_authorization_version = 1, ap_status = Ap_pending, ap_expires_at = Some 100,
     ap_decided_at = None, ap_reason = None, ap_created_at = 0, ap_updated_at = 0, ap_version = 1\<rparr>"

definition sample_approvals_db :: approvals_db where
  "sample_approvals_db = \<lparr>approvals = [sample_approval], change_sets = [sample_change_set], change_items = [],
     source_versions = [\<lparr>sv_id = ''v1'', sv_tenant_id = ''t1'', sv_status = ''available''\<rparr>]\<rparr>"

lemmas approval_samples = sample_approvals_db_def sample_approval_def sample_change_set_def

lemma sample_match: "digests_match ''ab'' ''AB'' = Some True" "digests_match ''ab'' ''ab'' = Some True"
  by code_simp+

lemma sample_approvals_wf: "approvals_wf sample_approvals_db"
  by (simp add: approvals_wf_def approval_samples)



text \<open>
  Two decisions on one approval made from the same read cannot both win: after the first
  is recorded, the second raises, whatever it decides.
\<close>

theorem decide_once:
  assumes wf: "approvals_wf cur" and sn: "approvals_snapshot snap cur" "approvals_snapshot snap cur1"
    and d1: "decide check snap cur now tenant i dec1 who1 dig1 v1 rs1 req1 = (cur1, Inr a1)"
    and d2: "decide check snap cur1 now' tenant i dec2 who2 dig2 v2 rs2 req2 = (cur2, r)"
  shows "isl r"
proof (rule ccontr)
  assume "\<not> isl r"
  then obtain a2 where r: "r = Inr a2" by (cases r) auto
  have d: "keys_distinct ap_id (approvals cur)" using wf by (simp add: approvals_wf_def)
  from d sn(1) d1 obtain a where a: "get_row ap_id (approvals cur) i = Some a"
    "a1 = decided_row now dec1 who1 rs1 a" "approvals cur1 = put_row ap_id (approvals cur) i (\<lambda>_. a1)" by (rule decide_success)
  have k: "ap_id a1 = i" using get_row_SomeD [OF a(1)] by (simp add: a(2) decided_row_def)
  have "keys_distinct ap_id (approvals cur1)" using d k by (simp add: a(3) map_key_put_row_const)
  from this sn(2) d2 [unfolded r] obtain b where "get_row ap_id (approvals cur1) i = Some b" "ap_status b = Ap_pending"
    by (rule decide_success)
  moreover have "get_row ap_id (approvals cur1) i = Some a1"
    using a(1) by (simp add: a(3) get_put_row_const [where key = ap_id, OF k])
  ultimately have "ap_status a1 = Ap_pending" by simp
  then show False by (simp add: a(2) decided_row_def decision_target_def split: if_splits)
qed

theorem decide_once_witness:
  "let (db1, r1) = decide None sample_approvals_db sample_approvals_db 5 ''t1'' ''a1'' ''approve'' ''u2'' ''ab'' 1 None ''approve'';
       (db2, r2) = decide None sample_approvals_db db1 6 ''t1'' ''a1'' ''reject'' ''u3'' ''ab'' 1 None ''approve''
   in \<not> isl r1 \<and> isl r2"
proof -
  obtain db1 a1 where d: "decide None sample_approvals_db sample_approvals_db 5 ''t1'' ''a1'' ''approve'' ''u2'' ''ab'' 1 None ''approve'' = (db1, Inr a1)"
    and s: "approvals_snapshot sample_approvals_db db1"
    by (simp add: decide_def require_authority_def load_approval_def approval_samples is_expired_def
        sample_match assert_transition_def cas_approval_def cas_row_def move_change_set_def
        cas_change_set_def commit_or_def approvals_snapshot_def snapshot_of_def)
  obtain db2 r2 where d2: "decide None sample_approvals_db db1 6 ''t1'' ''a1'' ''reject'' ''u3'' ''ab'' 1 None ''approve'' = (db2, r2)"
    by fastforce
  from decide_once [OF sample_approvals_wf approvals_snapshot_refl [OF sample_approvals_wf] s d d2] d d2 show ?thesis by simp
qed

text \<open>
  C22. Every call of the service, on any earlier read, moves approvals only along the declared
  transitions: no approval disappears, what it binds (tenant, change set, action,
  destination, digest) never changes, and one that is rejected, expired, invalidated or
  consumed is never touched again.
\<close>

theorem approvals_follow_transitions:
  assumes "approval_call sha256 check snap cur cur'" and "approvals_wf cur" and "approvals_snapshot snap cur"
    and "get_row ap_id (approvals cur) i = Some a"
  shows "approvals_spec\<^sup>*\<^sup>* (approvals cur) (approvals cur') \<and>
    (\<exists>a'. get_row ap_id (approvals cur') i = Some a' \<and> ap_frame a' = ap_frame a \<and> ap_version a \<le> ap_version a' \<and>
       (ap_status a \<notin> {Ap_pending, Ap_approved} \<longrightarrow> a' = a))"
proof -
  have s: "approvals_spec\<^sup>*\<^sup>* (approvals cur) (approvals cur')"
    using assms(1-3) by (intro approval_call_spec) (simp_all add: approvals_wf_def)
  show ?thesis
    using s specs_frame [OF s assms(4)] specs_final [OF s assms(4)] by fastforce
qed

theorem approvals_follow_transitions_witness:
  "\<exists>db a. expire_due sample_approvals_db sample_approvals_db 200 ''t1'' 200 = (db, Inr 1) \<and>
     get_row ap_id (approvals db) ''a1'' = Some a \<and> ap_action_digest a = ''ab'' \<and> ap_status a = Ap_expired"
proof -
  obtain db where e: "expire_due sample_approvals_db sample_approvals_db 200 ''t1'' 200 = (db, Inr 1)"
    and st: "map ap_status (approvals db) = [Ap_expired]" "map ap_id (approvals db) = [''a1'']"
    by (simp add: expire_due_def expire_candidate_def approval_samples commit_or_def cas_approval_def cas_row_def)
  have "get_row ap_id (approvals sample_approvals_db) ''a1'' = Some sample_approval" by (simp add: approval_samples)
  from approvals_follow_transitions [OF call_expire [OF e] sample_approvals_wf approvals_snapshot_refl [OF sample_approvals_wf] this]
  obtain a where a: "get_row ap_id (approvals db) ''a1'' = Some a" "ap_frame a = ap_frame sample_approval" by blast
  from a(1) st have "ap_status a = Ap_expired" by (auto dest: get_row_SomeD)
  with a e show ?thesis by (auto simp: ap_frame_def approval_samples)
qed

text \<open>
  A change set that is created stores exactly one item per requested edit, at pairwise
  different paths, none absolute and none with an empty, \<open>.\<close> or \<open>..\<close> segment; a create names no
  source version, an update or delete names one that exists for the tenant and is not
  superseded. The approvals are untouched.
\<close>

theorem change_set_paths_safe:
  assumes "create_change_set snap cur now csid iids tenant ws run items sm se mf ev = (cur', Inr r)"
  shows "\<exists>new. r = csid \<and> change_items cur' = change_items cur @ new \<and> length new = length items \<and>
    distinct (map ci_normalized_path new) \<and> approvals cur' = approvals cur \<and>
    (\<forall>c\<in>set new. ci_change_set_id c = csid \<and> ci_tenant_id c = tenant \<and>
       set (split_on (CHR ''/'') (ci_normalized_path c)) \<inter> {[], ''.'', ''..''} = {} \<and>
       (ci_operation c = ''create'' \<longrightarrow> ci_source_version_id c = None) \<and>
       (ci_operation c \<in> {''update'', ''delete''} \<longrightarrow>
          (\<exists>v row. ci_source_version_id c = Some v \<and> get_row sv_id (source_versions snap) v = Some row \<and>
             sv_tenant_id row = tenant \<and> sv_status row \<noteq> ''superseded'')))"
proof -
  let ?norm = "map (\<lambda>s. normalize_path (is_path s)) items"
  let ?new = "map (\<lambda>(n, spec, path). new_item (iids n) tenant csid ws spec path) (zip [0..<length items] (zip items ?norm))"
  from assms have ok: "\<not> list_ex (\<lambda>s. change_item_source_error (is_operation s) (is_source_version_id s) \<noteq> None) items"
    "\<not> list_ex escaping_path ?norm" "distinct ?norm" "assert_source_versions_current snap tenant items = Inr ()"
    and new: "change_items cur' = change_items cur @ ?new" "r = csid" "approvals cur' = approvals cur"
    by (auto simp: create_change_set_def Let_def split: if_splits sum.splits)
  have "map ci_normalized_path ?new = ?norm"
    by (rule nth_equalityI) (simp_all add: new_item_def)
  then have d: "distinct (map ci_normalized_path ?new)" using ok(3) by simp
  have each: "ci_change_set_id c = csid \<and> ci_tenant_id c = tenant \<and>
       set (split_on (CHR ''/'') (ci_normalized_path c)) \<inter> {[], ''.'', ''..''} = {} \<and>
       (ci_operation c = ''create'' \<longrightarrow> ci_source_version_id c = None) \<and>
       (ci_operation c \<in> {''update'', ''delete''} \<longrightarrow>
          (\<exists>v row. ci_source_version_id c = Some v \<and> get_row sv_id (source_versions snap) v = Some row \<and>
             sv_tenant_id row = tenant \<and> sv_status row \<noteq> ''superseded''))" if "c \<in> set ?new" for c
  proof -
    from that obtain n spec where sp: "spec \<in> set items" and c: "c = new_item (iids n) tenant csid ws spec (normalize_path (is_path spec))"
      by (auto simp: in_set_zip) (metis nth_mem)
    have "set (split_on (CHR ''/'') (normalize_path (is_path spec))) \<inter> {[], ''.'', ''..''} = {}"
      using ok(2) sp by (intro safe_segments) (auto simp: list_ex_iff)
    moreover have "change_item_source_error (is_operation spec) (is_source_version_id spec) = None"
      using ok(1) sp by (auto simp: list_ex_iff)
    ultimately show ?thesis
      using sources_current [OF ok(4) sp]
      by (auto simp: c new_item_def change_item_source_error_def split: if_splits)
  qed
  from new d each show ?thesis by (intro exI [of _ ?new]) simp
qed

definition sample_spec :: change_item_spec where
  "sample_spec = \<lparr>is_operation = ''update'', is_path = ''docs/./a.txt'', is_source_version_id = Some ''v1'',
     is_proposed_version_id = None, is_before_hash = None, is_after_hash = None, is_diff_artifact_ref = None\<rparr>"

theorem change_set_paths_safe_witness:
  "\<exists>db. create_change_set sample_approvals_db sample_approvals_db 5 ''c2'' (\<lambda>_. ''i1'') ''t1'' ''ws'' ''r1'' [sample_spec]
     [] ''none'' [] [] = (db, Inr ''c2'') \<and> map ci_normalized_path (change_items db) = [''docs/a.txt''] \<and>
     distinct (map ci_normalized_path (change_items db))"
proof -
  have n: "normalize_path ''docs/./a.txt'' = ''docs/a.txt''" by code_simp
  have e: "\<not> escaping_path ''docs/a.txt''"
    by (simp add: escaping_path_def contains_str_def sublist_Cons_right)
  obtain db where c: "create_change_set sample_approvals_db sample_approvals_db 5 ''c2'' (\<lambda>_. ''i1'') ''t1'' ''ws'' ''r1'' [sample_spec]
     [] ''none'' [] [] = (db, Inr ''c2'')" and i: "map ci_normalized_path (change_items db) = [''docs/a.txt'']"
    using n e by (simp add: create_change_set_def change_item_source_error_def sample_spec_def approval_samples new_item_def)
  from change_set_paths_safe [OF c] c i show ?thesis by (auto simp: approval_samples)
qed

text \<open>
  \<open>invalidate_if_changed\<close> on the current row of a pending or approved request, with a hash
  that prints lower-case ASCII: when the recomputed digest is the stored one it changes
  nothing and returns false; otherwise the approval becomes invalidated (so that it can
  never be consumed) and true is returned.
\<close>

theorem invalidation_is_exact:
  assumes wf: "approvals_wf cur" and a: "get_row ap_id (approvals cur) i = Some a" "ap_tenant_id a = tenant"
    and st: "ap_status a \<in> {Ap_pending, Ap_approved}"
    and hex: "\<And>s. is_ascii (sha256 s) \<and> py_lower (sha256 s) = sha256 s"
    and dig: "ap_action_digest a = sha256 s0"
    and r: "invalidate_if_changed sha256 cur cur now tenant i di = (cur', r)"
  shows "(compute_action_digest sha256 di = Some (ap_action_digest a) \<longrightarrow> cur' = cur \<and> r = Inr False) \<and>
    (compute_action_digest sha256 di \<noteq> Some (ap_action_digest a) \<longrightarrow>
       r = Inr True \<and> map_option ap_status (get_row ap_id (approvals cur') i) = Some Ap_invalidated)"
proof -
  have d: "keys_distinct ap_id (approvals cur)" "keys_distinct cs_id (change_sets cur)"
    using wf by (simp_all add: approvals_wf_def)
  have ai: "ap_id a = i" using get_row_SomeD [OF a(1)] by simp
  obtain s1 where di: "compute_action_digest sha256 di = Some (sha256 s1)" by (simp add: compute_action_digest_total)
  have m: "digests_match (ap_action_digest a) (sha256 s1) = Some (sha256 s0 = sha256 s1)"
    using hex by (simp add: digests_match_def dig)
  let ?a = "a\<lparr>ap_updated_at := now, ap_status := Ap_invalidated, ap_version := ap_version a + 1\<rparr>"
  have k: "ap_id ?a = i" by (simp add: ai)
  have c: "cas_approval cur a now (\<lambda>r. r\<lparr>ap_status := Ap_invalidated\<rparr>) =
      Inr (cur\<lparr>approvals := put_row ap_id (approvals cur) i (\<lambda>_. ?a)\<rparr>)"
    using approval_table.cas_row_current_Some [OF d(1), of a] a(1) ai by (simp add: cas_approval_def)
  have g: "get_row ap_id (put_row ap_id (approvals cur) i (\<lambda>_. ?a)) i = Some ?a"
    by (simp add: get_put_row_const [where key = ap_id, OF k] a(1))
  have cs: "\<exists>db'. cas_change_set db cs now Cs_invalidated = Inr db' \<and> approvals db' = approvals db"
    if "get_row cs_id (change_sets cur) (ap_change_set_id a) = Some cs" "change_sets db = change_sets cur" for cs db
    using change_set_table.cas_row_current_Some [OF d(2), of cs] that get_row_SomeD [OF that(1)]
    by (simp add: cas_change_set_def)
  show ?thesis
  proof (cases "sha256 s0 = sha256 s1")
    case True
    then have "digests_match (ap_action_digest a) (sha256 s1) = Some True" using m by simp
    with r a st have "cur' = cur \<and> r = Inr False"
      by (auto simp: invalidate_if_changed_def digest_or_raise_def di load_approval_def commit_or_def)
    with True dig di show ?thesis by simp
  next
    case False
    have t: "assert_transition (ap_status a) Ap_invalidated = Inr ()" using st by (auto simp: assert_transition_def)
    have m: "digests_match (ap_action_digest a) (sha256 s1) = Some False" using m False by simp
    have "r = Inr True \<and> map_option ap_status (get_row ap_id (approvals cur') i) = Some Ap_invalidated"
    proof (cases "get_row cs_id (change_sets cur) (ap_change_set_id a)")
      case None
      with r False a st m t c g show ?thesis
        by (auto simp: invalidate_if_changed_def digest_or_raise_def di load_approval_def commit_or_def)
    next
      case (Some cs)
      from cs [OF Some, of "cur\<lparr>approvals := put_row ap_id (approvals cur) i (\<lambda>_. ?a)\<rparr>"] obtain db' where
        "cas_change_set (cur\<lparr>approvals := put_row ap_id (approvals cur) i (\<lambda>_. ?a)\<rparr>) cs now Cs_invalidated = Inr db'"
        "approvals db' = put_row ap_id (approvals cur) i (\<lambda>_. ?a)" by auto
      with Some r False a st m t c g show ?thesis
        by (auto simp: invalidate_if_changed_def digest_or_raise_def di load_approval_def commit_or_def split: if_splits)
    qed
    with False dig di show ?thesis by simp
  qed
qed

theorem invalidation_is_exact_witness:
  "\<exists>db r. invalidate_if_changed (\<lambda>_. ''ab'') sample_approvals_db sample_approvals_db 5 ''t1'' ''a1'' sample_digest_input = (db, r) \<and>
     r = Inr False \<and> db = sample_approvals_db"
proof -
  obtain db r where i: "invalidate_if_changed (\<lambda>_. ''ab'') sample_approvals_db sample_approvals_db 5 ''t1'' ''a1'' sample_digest_input = (db, r)"
    by fastforce
  have "get_row ap_id (approvals sample_approvals_db) ''a1'' = Some sample_approval" "ap_tenant_id sample_approval = ''t1''"
    "ap_status sample_approval \<in> {Ap_pending, Ap_approved}" "ap_action_digest sample_approval = ''ab''"
    by (simp_all add: approval_samples)
  moreover have "is_ascii ''ab'' \<and> py_lower ''ab'' = ''ab''" by code_simp
  ultimately have "compute_action_digest (\<lambda>_. ''ab'') sample_digest_input = Some (ap_action_digest sample_approval) \<longrightarrow>
      db = sample_approvals_db \<and> r = Inr False"
    using invalidation_is_exact [OF sample_approvals_wf, of "''a1''" sample_approval "''t1''" "\<lambda>_. ''ab''" "[]" 5
        sample_digest_input db r] i by simp
  then show ?thesis using i by (simp add: compute_action_digest_total \<open>ap_action_digest sample_approval = ''ab''\<close>)
qed

end
