(* ===== verification/Submission.thy ===== *)
theory Submission
  imports Approvals
begin

text \<open>
  Consumption of an approval and its external submission (\<open>approvals/submission.py\<close>) over
  the \<open>SubmissionJob\<close> rows, and the mock provider (\<open>integrations/mock_submission.py\<close>).

  The provider is a parameter: \<open>submit\<close> acts on its state and returns a receipt or raises
  (the class name of the exception), \<open>reconcile\<close> reports what it knows of a key. What the
  service relies on is the locale \<open>submission_provider\<close>, interpreted by the mock. Every
  method is a sequence of transactions, each of which commits or raises; the world after a
  call is the one its last committed transaction left.
\<close>

section \<open>Rows, states, results\<close>

datatype submission_state =
    Sub_ready | Sub_executing | Sub_succeeded | Sub_recoverable_failed | Sub_cancelled
  | Sub_terminal_failed | Sub_unknown_outcome | Sub_reconciling

fun SUBMISSION_TRANSITIONS :: "submission_state \<Rightarrow> submission_state set" where
  "SUBMISSION_TRANSITIONS Sub_ready = {Sub_executing, Sub_cancelled, Sub_terminal_failed}"
| "SUBMISSION_TRANSITIONS Sub_executing =
     {Sub_succeeded, Sub_recoverable_failed, Sub_cancelled, Sub_terminal_failed, Sub_unknown_outcome}"
| "SUBMISSION_TRANSITIONS Sub_recoverable_failed = {Sub_ready}"
| "SUBMISSION_TRANSITIONS Sub_unknown_outcome = {Sub_reconciling}"
| "SUBMISSION_TRANSITIONS Sub_reconciling = {Sub_succeeded, Sub_ready, Sub_terminal_failed}"
| "SUBMISSION_TRANSITIONS Sub_succeeded = {}"
| "SUBMISSION_TRANSITIONS Sub_cancelled = {}"
| "SUBMISSION_TRANSITIONS Sub_terminal_failed = {}"

record submission_job =
  sj_id :: ident
  sj_tenant_id :: ident
  sj_run_id :: ident
  sj_approval_id :: ident
  sj_connector_id :: string
  sj_destination :: string
  sj_idempotency_key :: string
  sj_expected_target_version :: "string option"
  sj_state :: submission_state
  sj_attempts :: int
  sj_max_attempts :: int
  sj_provider_receipt :: "string option"
  sj_sanitized_result :: "(string \<times> json) list"
  sj_next_attempt_at :: "instant option"
  sj_last_error_code :: "string option"
  sj_created_at :: instant
  sj_updated_at :: instant
  sj_version :: int

abbreviation set_sj_version :: "int \<Rightarrow> submission_job \<Rightarrow> submission_job" where
  "set_sj_version v j \<equiv> j\<lparr>sj_version := v\<rparr>"

interpretation submission_table: versioned_table sj_id sj_version set_sj_version
  by unfold_locales simp_all

record sub_db =
  sub_approvals :: "approval_request list"
  sub_jobs :: "submission_job list"

datatype sub_error =
    Sub_error string
  | Sub_blocked string
  | Sub_value_error
  | Sub_compare_type_error
  | Sub_assertion_error
  | Sub_connector_error string

record receipt =
  rc_status :: string
  rc_receipt_id :: string
  rc_connector_id :: string
  rc_idempotency_key :: string
  rc_destination :: string
  rc_deduplicated :: bool
  rc_detail :: "(string \<times> json) list"

record reconcile_result =
  rr_status :: string
  rr_outcome :: string
  rr_receipt_id :: "string option"
  rr_idempotency_key :: string

definition already_accepted :: "reconcile_result \<Rightarrow> bool" where
  "already_accepted r \<longleftrightarrow> rr_outcome r = ''accepted''"

record submission_outcome =
  so_job_id :: ident
  so_state :: submission_state
  so_receipt_id :: "string option"
  so_deduplicated :: bool
  so_status :: string

type_synonym 'p submit_fn = "ident \<Rightarrow> string \<Rightarrow> string \<Rightarrow> json \<Rightarrow> 'p \<Rightarrow> (string + receipt) \<times> 'p"
type_synonym 'p reconcile_fn = "ident \<Rightarrow> string \<Rightarrow> 'p \<Rightarrow> string + reconcile_result"

record submission_service =
  ss_connector_id :: string
  ss_authority_check :: "authority_check option"
  ss_max_attempts :: int
  ss_retry_backoff :: duration

record 'p sub_world =
  sw_db :: sub_db
  sw_provider :: 'p

type_synonym 'p sub_result = "'p sub_world \<times> (sub_error + submission_outcome)"

definition idempotency_key_for_approval :: "(string \<Rightarrow> string) \<Rightarrow> ident \<Rightarrow> string" where
  "idempotency_key_for_approval sha256 approval_id = take 40 (sha256 (utf8 (''approval:'' @ approval_id)))"

section \<open>Transactions\<close>

definition sub_find_job :: "submission_service \<Rightarrow> sub_db \<Rightarrow> ident \<Rightarrow> string \<Rightarrow> submission_job option" where
  "sub_find_job svc db tenant key =
     find (\<lambda>j. sj_tenant_id j = tenant \<and> sj_connector_id j = ss_connector_id svc \<and> sj_idempotency_key j = key) (sub_jobs db)"

definition sub_load :: "sub_db \<Rightarrow> ident \<Rightarrow> sub_error + submission_job" where
  "sub_load db i = res_of_option (Sub_error ''JOB_UNKNOWN'') (get_row sj_id (sub_jobs db) i)"

definition sub_transition :: "instant \<Rightarrow> sub_db \<Rightarrow> submission_job \<Rightarrow> submission_state
    \<Rightarrow> (submission_job \<Rightarrow> submission_job) \<Rightarrow> sub_error + sub_db \<times> submission_job" where
  "sub_transition now cur job target upd =
     (if target \<noteq> sj_state job \<and> target \<notin> SUBMISSION_TRANSITIONS (sj_state job)
      then Inl (Sub_error ''SUBMISSION_TRANSITION_INVALID'')
      else (case cas_row sj_id sj_version set_sj_version (sub_jobs cur) (sj_id job) (sj_version job)
                   (\<lambda>r. upd (r\<lparr>sj_state := target, sj_updated_at := now\<rparr>)) of
          None \<Rightarrow> Inl (Sub_error ''SUBMISSION_VERSION_CONFLICT'')
        | Some t \<Rightarrow> Inr (cur\<lparr>sub_jobs := t\<rparr>,
            set_sj_version (sj_version job + 1) (upd (job\<lparr>sj_state := target\<rparr>)))))"

definition reauthorize :: "(string \<Rightarrow> string) \<Rightarrow> submission_service \<Rightarrow> sub_db \<Rightarrow> instant \<Rightarrow> ident \<Rightarrow> ident
    \<Rightarrow> action_digest_input \<Rightarrow> string option \<Rightarrow> string \<Rightarrow> sub_error + unit" where
  "reauthorize sha256 svc db now tenant i di expected_target_version required =
     (case get_row ap_id (sub_approvals db) i of
        None \<Rightarrow> Inl (Sub_error ''APPROVAL_UNKNOWN'')
      | Some a \<Rightarrow>
          if ap_tenant_id a \<noteq> tenant then Inl (Sub_error ''APPROVAL_UNKNOWN'')
          else if ap_status a \<noteq> Ap_approved then Inl (Sub_blocked ''APPROVAL_NOT_APPROVED'')
          else if is_expired now a then Inl (Sub_blocked ''APPROVAL_EXPIRED'')
          else (case compute_action_digest sha256 di of
              None \<Rightarrow> Inl Sub_value_error
            | Some digest \<Rightarrow>
                (case digests_match (ap_action_digest a) digest of
                   None \<Rightarrow> Inl Sub_compare_type_error
                 | Some False \<Rightarrow> Inl (Sub_blocked ''APPROVAL_STALE'')
                 | Some True \<Rightarrow>
                     (let decided_by = (case ap_decided_by a of None \<Rightarrow> ap_requested_by a
                                        | Some u \<Rightarrow> if u = [] then ap_requested_by a else u)
                      in case ss_authority_check svc of
                           None \<Rightarrow> Inr ()
                         | Some check \<Rightarrow>
                             (case check tenant decided_by required of
                                None \<Rightarrow> Inr () | Some _ \<Rightarrow> Inl (Sub_blocked ''AUTH_FORBIDDEN''))))))"

text \<open>\<open>None\<close>: the claim was lost. The consumed approval and the new job are committed together.\<close>

definition consume_and_claim :: "submission_service \<Rightarrow> sub_db \<Rightarrow> instant \<Rightarrow> ident \<Rightarrow> ident \<Rightarrow> ident \<Rightarrow> string \<Rightarrow> string
    \<Rightarrow> string option \<Rightarrow> sub_db \<times> (sub_error + ident option)" where
  "consume_and_claim svc cur now jid tenant i key destination expected_target_version =
     (case get_row ap_id (sub_approvals cur) i of
        None \<Rightarrow> (cur, Inl (Sub_error ''APPROVAL_UNKNOWN''))
      | Some a \<Rightarrow>
          if ap_tenant_id a \<noteq> tenant then (cur, Inl (Sub_error ''APPROVAL_UNKNOWN''))
          else if ap_status a \<noteq> Ap_approved then (cur, Inr None)
          else (case cas_row ap_id ap_version set_ap_version (sub_approvals cur) i (ap_version a)
                       (\<lambda>r. r\<lparr>ap_status := Ap_consumed, ap_updated_at := now\<rparr>) of
              None \<Rightarrow> (cur, Inr None)
            | Some t \<Rightarrow>
                if jid \<in> sj_id ` set (sub_jobs cur) \<or> sub_find_job svc cur tenant key \<noteq> None
                then (cur, Inr None)
                else (\<lparr>sub_approvals = t,
                       sub_jobs = sub_jobs cur @
                         [\<lparr>sj_id = jid, sj_tenant_id = tenant, sj_run_id = ap_run_id a, sj_approval_id = i,
                           sj_connector_id = ss_connector_id svc, sj_destination = destination,
                           sj_idempotency_key = key, sj_expected_target_version = expected_target_version,
                           sj_state = Sub_ready, sj_attempts = 0, sj_max_attempts = ss_max_attempts svc,
                           sj_provider_receipt = None, sj_sanitized_result = [], sj_next_attempt_at = None,
                           sj_last_error_code = None, sj_created_at = now, sj_updated_at = now, sj_version = 1\<rparr>]\<rparr>,
                      Inr (Some jid))))"

section \<open>Execution and reconciliation\<close>

text \<open>One transaction: load the job and move it; the world afterwards or the error.\<close>

definition sub_move :: "instant \<Rightarrow> 'p sub_world \<Rightarrow> ident \<Rightarrow> submission_state \<Rightarrow> (submission_job \<Rightarrow> submission_job)
    \<Rightarrow> sub_error + 'p sub_world \<times> submission_job" where
  "sub_move now w i target upd =
     res_bind (sub_load (sw_db w) i) (\<lambda>job.
     res_bind (sub_transition now (sw_db w) job target upd) (\<lambda>(db, job'). Inr (w\<lparr>sw_db := db\<rparr>, job')))"

definition execute :: "'p submit_fn \<Rightarrow> instant \<Rightarrow> 'p sub_world \<Rightarrow> ident \<Rightarrow> string \<Rightarrow> json \<Rightarrow> 'p sub_result" where
  "execute submit now w i destination payload =
     (case sub_move now w i Sub_executing (\<lambda>j. j\<lparr>sj_attempts := sj_attempts j + 1\<rparr>) of
        Inl e \<Rightarrow> (w, Inl e)
      | Inr (w1, job) \<Rightarrow>
          (case submit (sj_tenant_id job) (sj_idempotency_key job) destination payload (sw_provider w1) of
             (Inl exc, p) \<Rightarrow>
               (let w2 = w1\<lparr>sw_provider := p\<rparr> in
                case sub_move now w2 i Sub_unknown_outcome (\<lambda>j. j\<lparr>sj_last_error_code := Some exc\<rparr>) of
                  Inl e \<Rightarrow> (w2, Inl e)
                | Inr (w3, _) \<Rightarrow> (w3, Inr \<lparr>so_job_id = i, so_state = Sub_unknown_outcome, so_receipt_id = None,
                                          so_deduplicated = False, so_status = ''unknown''\<rparr>))
           | (Inr rc, p) \<Rightarrow>
               (let w2 = w1\<lparr>sw_provider := p\<rparr> in
                case sub_move now w2 i Sub_succeeded
                       (\<lambda>j. j\<lparr>sj_provider_receipt := Some (rc_receipt_id rc),
                              sj_sanitized_result := [(''status'', JStr (rc_status rc)),
                                (''deduplicated'', JBool (rc_deduplicated rc))]\<rparr>) of
                  Inl e \<Rightarrow> (w2, Inl e)
                | Inr (w3, _) \<Rightarrow> (w3, Inr \<lparr>so_job_id = i, so_state = Sub_succeeded,
                     so_receipt_id = Some (rc_receipt_id rc), so_deduplicated = rc_deduplicated rc,
                     so_status = rc_status rc\<rparr>))))"

definition next_attempt :: "submission_service \<Rightarrow> instant \<Rightarrow> int \<Rightarrow> instant" where
  "next_attempt svc now attempts = now + ss_retry_backoff svc * of_int (max attempts 1)"

text \<open>The transactions before the provider is asked: the job is left unknown, then reconciling.\<close>

definition prepare_reconcile :: "instant \<Rightarrow> 'p sub_world \<Rightarrow> submission_job \<Rightarrow> 'p sub_world \<times> (sub_error + submission_job)" where
  "prepare_reconcile now w job =
     (case (if sj_state job \<in> {Sub_ready, Sub_executing}
            then sub_move now w (sj_id job) Sub_unknown_outcome id else Inr (w, job)) of
        Inl e \<Rightarrow> (w, Inl e)
      | Inr (w1, _) \<Rightarrow>
          (case sub_load (sw_db w1) (sj_id job) of
             Inl e \<Rightarrow> (w1, Inl e)
           | Inr job1 \<Rightarrow>
               if sj_state job1 = Sub_unknown_outcome
               then (case sub_move now w1 (sj_id job) Sub_reconciling id of
                       Inl e \<Rightarrow> (w1, Inl e) | Inr (w2, job2) \<Rightarrow> (w2, Inr job2))
               else (w1, Inr job1)))"

definition settle_reconciled :: "submission_service \<Rightarrow> 'p submit_fn \<Rightarrow> instant \<Rightarrow> 'p sub_world \<Rightarrow> ident
    \<Rightarrow> reconcile_result \<Rightarrow> 'p sub_result" where
  "settle_reconciled svc submit now w i result =
     (case sub_load (sw_db w) i of
        Inl e \<Rightarrow> (w, Inl e)
      | Inr job \<Rightarrow>
          if already_accepted result then
            (case sub_move now w i Sub_succeeded
                    (\<lambda>j. j\<lparr>sj_provider_receipt := rr_receipt_id result,
                           sj_sanitized_result := [(''status'', JStr (rr_status result)), (''reconciled'', JBool True)]\<rparr>) of
               Inl e \<Rightarrow> (w, Inl e)
             | Inr (w', _) \<Rightarrow> (w', Inr \<lparr>so_job_id = i, so_state = Sub_succeeded, so_receipt_id = rr_receipt_id result,
                                       so_deduplicated = True, so_status = rr_status result\<rparr>))
          else if sj_attempts job \<ge> sj_max_attempts job then
            (case sub_move now w i Sub_terminal_failed (\<lambda>j. j\<lparr>sj_last_error_code := Some ''RETRY_BUDGET_EXHAUSTED''\<rparr>) of
               Inl e \<Rightarrow> (w, Inl e)
             | Inr (w', _) \<Rightarrow> (w', Inr \<lparr>so_job_id = i, so_state = Sub_terminal_failed, so_receipt_id = None,
                                       so_deduplicated = False, so_status = ''none''\<rparr>))
          else
            (case sub_move now w i Sub_ready (\<lambda>j. j\<lparr>sj_next_attempt_at := Some (next_attempt svc now (sj_attempts job))\<rparr>) of
               Inl e \<Rightarrow> (w, Inl e)
             | Inr (w', job') \<Rightarrow> execute submit now w' i (sj_destination job') (JObj [])))"

definition reconcile_and_resume :: "submission_service \<Rightarrow> 'p submit_fn \<Rightarrow> 'p reconcile_fn \<Rightarrow> instant \<Rightarrow> 'p sub_world
    \<Rightarrow> ident \<Rightarrow> 'p sub_result" where
  "reconcile_and_resume svc submit reconcile now w i =
     (case sub_load (sw_db w) i of
        Inl e \<Rightarrow> (w, Inl e)
      | Inr job \<Rightarrow>
          if sj_state job = Sub_succeeded then
            (w, Inr \<lparr>so_job_id = i, so_state = Sub_succeeded, so_receipt_id = sj_provider_receipt job,
                     so_deduplicated = True, so_status = ''mock''\<rparr>)
          else if sj_state job = Sub_recoverable_failed then
            (case sub_move now w i Sub_ready id of
               Inl e \<Rightarrow> (w, Inl e)
             | Inr (w1, job1) \<Rightarrow> execute submit now w1 i (sj_destination job1) (JObj []))
          else
            (case prepare_reconcile now w job of
               (w1, Inl e) \<Rightarrow> (w1, Inl e)
             | (w1, Inr job1) \<Rightarrow>
                 (case reconcile (sj_tenant_id job1) (sj_idempotency_key job1) (sw_provider w1) of
                    Inl exc \<Rightarrow> (w1, Inl (Sub_connector_error exc))
                  | Inr result \<Rightarrow> settle_reconciled svc submit now w1 i result)))"

definition resolve_existing :: "submission_service \<Rightarrow> 'p submit_fn \<Rightarrow> 'p reconcile_fn \<Rightarrow> instant \<Rightarrow> 'p sub_world
    \<Rightarrow> submission_job \<Rightarrow> 'p sub_result" where
  "resolve_existing svc submit reconcile now w job =
     (if sj_state job = Sub_succeeded then
        (w, Inr \<lparr>so_job_id = sj_id job, so_state = Sub_succeeded, so_receipt_id = sj_provider_receipt job,
                 so_deduplicated = True,
                 so_status = (case map_of (sj_sanitized_result job) ''status'' of Some (JStr s) \<Rightarrow> s | _ \<Rightarrow> ''mock'')\<rparr>)
      else if sj_state job \<in> {Sub_terminal_failed, Sub_cancelled} then
        (w, Inr \<lparr>so_job_id = sj_id job, so_state = sj_state job, so_receipt_id = sj_provider_receipt job,
                 so_deduplicated = False, so_status = ''none''\<rparr>)
      else reconcile_and_resume svc submit reconcile now w (sj_id job))"

definition sub_reconcile :: "submission_service \<Rightarrow> 'p submit_fn \<Rightarrow> 'p reconcile_fn \<Rightarrow> instant \<Rightarrow> 'p sub_world
    \<Rightarrow> ident \<Rightarrow> ident \<Rightarrow> 'p sub_result" where
  "sub_reconcile svc submit reconcile now w tenant i =
     (case sub_load (sw_db w) i of
        Inl e \<Rightarrow> (w, Inl e)
      | Inr job \<Rightarrow> if sj_tenant_id job \<noteq> tenant then (w, Inl (Sub_error ''JOB_UNKNOWN''))
                   else reconcile_and_resume svc submit reconcile now w i)"

definition submit_for_approval :: "(string \<Rightarrow> string) \<Rightarrow> submission_service \<Rightarrow> 'p submit_fn \<Rightarrow> 'p reconcile_fn
    \<Rightarrow> instant \<Rightarrow> ident \<Rightarrow> 'p sub_world \<Rightarrow> ident \<Rightarrow> ident \<Rightarrow> string \<Rightarrow> action_digest_input \<Rightarrow> string option \<Rightarrow> json
    \<Rightarrow> string \<Rightarrow> 'p sub_result" where
  "submit_for_approval sha256 svc submit reconcile now jid w tenant i destination di expected_target_version payload required =
     (let key = idempotency_key_for_approval sha256 i in
      case sub_find_job svc (sw_db w) tenant key of
        Some existing \<Rightarrow> resolve_existing svc submit reconcile now w existing
      | None \<Rightarrow>
         (case reauthorize sha256 svc (sw_db w) now tenant i di expected_target_version required of
            Inl e \<Rightarrow> (w, Inl e)
          | Inr _ \<Rightarrow>
             (case consume_and_claim svc (sw_db w) now jid tenant i key destination expected_target_version of
                (db, Inl e) \<Rightarrow> (w\<lparr>sw_db := db\<rparr>, Inl e)
              | (db, Inr None) \<Rightarrow>
                  (case sub_find_job svc db tenant key of
                     None \<Rightarrow> (w\<lparr>sw_db := db\<rparr>, Inl Sub_assertion_error)
                   | Some existing \<Rightarrow> resolve_existing svc submit reconcile now (w\<lparr>sw_db := db\<rparr>) existing)
              | (db, Inr (Some job_id)) \<Rightarrow> execute submit now (w\<lparr>sw_db := db\<rparr>) job_id destination payload)))"

section \<open>The mock provider\<close>

definition CONNECTOR_ID :: string where "CONNECTOR_ID = ''mock-reimbursement''"
definition MOCK_STATUS :: string where "MOCK_STATUS = ''mock''"

text \<open>The provider's memory: one receipt per (tenant, key), in the order of acceptance.\<close>

type_synonym mock_connector = "((ident \<times> string) \<times> receipt) list"

definition mock_receipt_id :: "(string \<Rightarrow> string) \<Rightarrow> ident \<Rightarrow> string \<Rightarrow> string" where
  "mock_receipt_id sha256 tenant key =
     ''mock-'' @ take 20 (sha256 (utf8 (CONNECTOR_ID @ [CHR 0x1F] @ tenant @ [CHR 0x1F] @ key)))"

definition mock_submit :: "(string \<Rightarrow> string) \<Rightarrow> mock_connector submit_fn" where
  "mock_submit sha256 tenant key destination payload m =
     (case map_of m (tenant, key) of
        Some existing \<Rightarrow>
          (Inr \<lparr>rc_status = MOCK_STATUS, rc_receipt_id = rc_receipt_id existing, rc_connector_id = CONNECTOR_ID,
                rc_idempotency_key = key, rc_destination = rc_destination existing, rc_deduplicated = True,
                rc_detail = [(''note'', JStr ''returned the original receipt; not re-submitted'')]\<rparr>, m)
      | None \<Rightarrow>
          (let rc = \<lparr>rc_status = MOCK_STATUS, rc_receipt_id = mock_receipt_id sha256 tenant key,
                     rc_connector_id = CONNECTOR_ID, rc_idempotency_key = key, rc_destination = destination,
                     rc_deduplicated = False,
                     rc_detail = [(''note'', JStr ''mock submission accepted; no external system was contacted'')]\<rparr>
           in (Inr rc, m @ [((tenant, key), rc)])))"

definition mock_reconcile :: "mock_connector reconcile_fn" where
  "mock_reconcile tenant key m =
     (case map_of m (tenant, key) of
        Some existing \<Rightarrow> Inr \<lparr>rr_status = MOCK_STATUS, rr_outcome = ''accepted'',
                              rr_receipt_id = Some (rc_receipt_id existing), rr_idempotency_key = key\<rparr>
      | None \<Rightarrow> Inr \<lparr>rr_status = MOCK_STATUS, rr_outcome = ''unknown'', rr_receipt_id = None, rr_idempotency_key = key\<rparr>)"

end
