(* ===== verification/Submission_Safety.thy ===== *)
theory Submission_Safety
  imports Submission
begin

text \<open>
  At most one external effect per approval. The contract of a provider is the locale
  \<open>submission_provider\<close>: one call acts at most once and a reconciliation reports truthfully
  whether it has acted. Deduplication by the provider is not assumed: one caller at a time,
  which may crash between any two of its transactions, never makes the provider act twice
  on one key, because a job whose outcome is unknown is retried only after the provider has
  denied having acted. The mock connector satisfies the contract.
\<close>

section \<open>The invariant\<close>

definition sj_key :: "submission_job \<Rightarrow> ident \<times> string" where
  "sj_key j = (sj_tenant_id j, sj_idempotency_key j)"

definition sj_frame :: "submission_job \<Rightarrow> ident \<times> ident \<times> string \<times> ident \<times> string \<times> int \<times> string" where
  "sj_frame j = (sj_id j, sj_tenant_id j, sj_idempotency_key j, sj_approval_id j, sj_connector_id j, sj_max_attempts j,
     sj_destination j)"

definition sub_job_ok :: "nat \<Rightarrow> submission_job \<Rightarrow> bool" where
  "sub_job_ok n j \<longleftrightarrow>
     (case sj_state j of
        Sub_ready \<Rightarrow> n = 0 \<and> 0 \<le> sj_attempts j \<and> sj_attempts j < max 1 (sj_max_attempts j)
      | Sub_terminal_failed \<Rightarrow> n = 0 \<and> 1 \<le> sj_attempts j \<and> sj_attempts j \<le> max 1 (sj_max_attempts j)
      | Sub_succeeded \<Rightarrow> n = 1 \<and> 1 \<le> sj_attempts j \<and> sj_attempts j \<le> max 1 (sj_max_attempts j)
      | Sub_recoverable_failed \<Rightarrow> False
      | Sub_cancelled \<Rightarrow> False
      | _ \<Rightarrow> n \<le> 1 \<and> 1 \<le> sj_attempts j \<and> sj_attempts j \<le> max 1 (sj_max_attempts j))"

definition sub_inv :: "('p \<Rightarrow> ident \<times> string \<Rightarrow> nat) \<Rightarrow> submission_service \<Rightarrow> 'p sub_world \<Rightarrow> bool" where
  "sub_inv effects svc w \<longleftrightarrow>
     keys_distinct sj_id (sub_jobs (sw_db w)) \<and> keys_distinct ap_id (sub_approvals (sw_db w)) \<and>
     distinct (map sj_key (sub_jobs (sw_db w))) \<and> distinct (map sj_approval_id (sub_jobs (sw_db w))) \<and>
     (\<forall>j\<in>set (sub_jobs (sw_db w)). sj_connector_id j = ss_connector_id svc \<and>
        sub_job_ok (effects (sw_provider w) (sj_key j)) j \<and>
        map_option ap_status (get_row ap_id (sub_approvals (sw_db w)) (sj_approval_id j)) = Some Ap_consumed) \<and>
     (\<forall>k. k \<notin> sj_key ` set (sub_jobs (sw_db w)) \<longrightarrow> effects (sw_provider w) k = 0)"

lemma sub_moveD:
  assumes m: "sub_move now w i target upd = Inr (w', job')" and d: "keys_distinct sj_id (sub_jobs (sw_db w))"
  obtains job where "get_row sj_id (sub_jobs (sw_db w)) i = Some job" "sj_id job = i"
    "target = sj_state job \<or> target \<in> SUBMISSION_TRANSITIONS (sj_state job)"
    "w' = w\<lparr>sw_db := (sw_db w)\<lparr>sub_jobs := put_row sj_id (sub_jobs (sw_db w)) i
       (\<lambda>_. set_sj_version (sj_version job + 1) (upd (job\<lparr>sj_state := target, sj_updated_at := now\<rparr>)))\<rparr>\<rparr>"
    "job' = set_sj_version (sj_version job + 1) (upd (job\<lparr>sj_state := target\<rparr>))"
proof -
  from m obtain job t where l: "get_row sj_id (sub_jobs (sw_db w)) i = Some job"
    and leg: "target = sj_state job \<or> target \<in> SUBMISSION_TRANSITIONS (sj_state job)"
    and c: "cas_row sj_id sj_version set_sj_version (sub_jobs (sw_db w)) (sj_id job) (sj_version job)
       (\<lambda>r. upd (r\<lparr>sj_state := target, sj_updated_at := now\<rparr>)) = Some t"
    and w': "w' = w\<lparr>sw_db := (sw_db w)\<lparr>sub_jobs := t\<rparr>\<rparr>"
    and j': "job' = set_sj_version (sj_version job + 1) (upd (job\<lparr>sj_state := target\<rparr>))"
    by (auto simp: sub_move_def sub_load_def sub_transition_def res_simps split: if_splits option.splits)
  have i: "sj_id job = i" using get_row_SomeD [OF l] by simp
  have s: "snapshot_of sj_id sj_version (sub_jobs (sw_db w)) job" using l i by (simp add: snapshot_of_def)
  from c d s have "t = put_row sj_id (sub_jobs (sw_db w)) (sj_id job)
      (\<lambda>_. set_sj_version (sj_version job + 1) (upd (job\<lparr>sj_state := target, sj_updated_at := now\<rparr>)))"
    by (rule submission_table.cas_row_snapshotE) simp
  with that l i leg w' j' show ?thesis by simp
qed

text \<open>The invariant after one row changed, the provider having acted on its key at most.\<close>

lemma sub_inv_put:
  assumes inv: "sub_inv effects svc w" and g: "get_row sj_id (sub_jobs (sw_db w)) i = Some job"
    and fr: "sj_frame job' = sj_frame job" and ok: "sub_job_ok (effects p (sj_key job)) job'"
    and oth: "\<And>k. k \<noteq> sj_key job \<Longrightarrow> effects p k = effects (sw_provider w) k"
    and w': "sub_jobs (sw_db w') = put_row sj_id (sub_jobs (sw_db w)) i (\<lambda>_. job')"
      "sub_approvals (sw_db w') = sub_approvals (sw_db w)" "sw_provider w' = p"
  shows "sub_inv effects svc w'"
proof -
  let ?t = "sub_jobs (sw_db w)"
  have d: "keys_distinct sj_id ?t" "distinct (map sj_key ?t)" using inv by (simp_all add: sub_inv_def)
  have j: "job \<in> set ?t" "sj_id job = i" using get_row_SomeD [OF g] by simp_all
  have i: "sj_id job' = i" "sj_key job' = sj_key job" "sj_approval_id job' = sj_approval_id job"
    "sj_connector_id job' = sj_connector_id job"
    using fr j(2) by (simp_all add: sj_frame_def sj_key_def)
  have set: "set (sub_jobs (sw_db w')) = insert job' (set ?t - {job})"
    unfolding w' by (rule set_put_row_const [OF d(1) g])
  have m: "map f (sub_jobs (sw_db w')) = map f ?t" if "f job' = f job" for f :: "_ \<Rightarrow> 'z"
    unfolding w' by (rule map_put_row_const [where f = f, OF d(1) g that])
  have other: "effects p (sj_key x) = effects (sw_provider w) (sj_key x)" if "x \<in> set ?t" "x \<noteq> job" for x
    using d(2) j(1) that by (intro oth) (auto simp: distinct_map inj_on_def)
  have keys: "sj_key ` set (sub_jobs (sw_db w')) = sj_key ` set ?t"
    using m [of sj_key] i(2) by (metis list.set_map)
  have notin: "effects p k = 0" if "k \<notin> sj_key ` set ?t" for k
  proof -
    have "k \<noteq> sj_key job" using that j(1) by (metis imageI)
    with oth have "effects p k = effects (sw_provider w) k" by blast
    also have "\<dots> = 0" using inv that unfolding sub_inv_def by blast
    finally show ?thesis .
  qed
  show ?thesis
    unfolding sub_inv_def w'(2,3) keys m [of sj_id, unfolded i(1), OF j(2) [symmetric]] m [of sj_key, OF i(2)]
      m [of sj_approval_id, OF i(3)]
    using inv ok i j other notin unfolding set sub_inv_def by auto
qed

lemma sub_inv_distinct: "sub_inv effects svc w \<Longrightarrow> keys_distinct sj_id (sub_jobs (sw_db w))"
  by (simp add: sub_inv_def)

lemma sub_inv_job: "sub_inv effects svc w \<Longrightarrow> get_row sj_id (sub_jobs (sw_db w)) i = Some j \<Longrightarrow>
   sub_job_ok (effects (sw_provider w) (sj_key j)) j"
  by (auto simp: sub_inv_def dest: get_row_SomeD)

lemma sub_inv_no_key: "sub_inv effects svc w \<Longrightarrow> k \<notin> sj_key ` set (sub_jobs (sw_db w)) \<Longrightarrow> effects (sw_provider w) k = 0"
  unfolding sub_inv_def by blast

lemma sub_job_ok_same: "sj_state j' = sj_state j \<Longrightarrow> sj_attempts j' = sj_attempts j \<Longrightarrow>
   sj_max_attempts j' = sj_max_attempts j \<Longrightarrow> sub_job_ok n j' = sub_job_ok n j"
  by (cases "sj_state j") (simp_all add: sub_job_ok_def)

text \<open>A transition that does not involve the provider.\<close>

lemma sub_inv_move:
  assumes inv: "sub_inv effects svc w" and m: "sub_move now w i target upd = Inr (w', job')"
    and fr: "\<And>j. sj_frame (upd j) = sj_frame j"
    and ok: "\<And>j. get_row sj_id (sub_jobs (sw_db w)) i = Some j \<Longrightarrow>
        target = sj_state j \<or> target \<in> SUBMISSION_TRANSITIONS (sj_state j) \<Longrightarrow>
        sub_job_ok (effects (sw_provider w) (sj_key j)) j \<Longrightarrow>
        sub_job_ok (effects (sw_provider w) (sj_key j)) (upd (j\<lparr>sj_state := target\<rparr>))"
    and keep: "\<And>j n. sj_state (upd (j\<lparr>sj_updated_at := n\<rparr>)) = sj_state (upd j) \<and>
        sj_attempts (upd (j\<lparr>sj_updated_at := n\<rparr>)) = sj_attempts (upd j)"
  shows "sub_inv effects svc w' \<and> sw_provider w' = sw_provider w"
proof -
  from m sub_inv_distinct [OF inv] obtain job where g: "get_row sj_id (sub_jobs (sw_db w)) i = Some job" "sj_id job = i"
    "target = sj_state job \<or> target \<in> SUBMISSION_TRANSITIONS (sj_state job)"
    and w': "w' = w\<lparr>sw_db := (sw_db w)\<lparr>sub_jobs := put_row sj_id (sub_jobs (sw_db w)) i
       (\<lambda>_. set_sj_version (sj_version job + 1) (upd (job\<lparr>sj_state := target, sj_updated_at := now\<rparr>)))\<rparr>\<rparr>"
    by (rule sub_moveD)
  let ?j = "set_sj_version (sj_version job + 1) (upd (job\<lparr>sj_state := target, sj_updated_at := now\<rparr>))"
  have f: "sj_frame ?j = sj_frame job"
    using fr [of "job\<lparr>sj_state := target, sj_updated_at := now\<rparr>"] by (simp add: sj_frame_def)
  have "sub_job_ok (effects (sw_provider w) (sj_key job)) (upd (job\<lparr>sj_state := target\<rparr>))"
    by (rule ok [OF g(1,3) sub_inv_job [OF inv g(1)]])
  then have o: "sub_job_ok (effects (sw_provider w) (sj_key job)) ?j"
    using keep [of now "job\<lparr>sj_state := target\<rparr>"] fr [of "job\<lparr>sj_state := target\<rparr>"]
      fr [of "job\<lparr>sj_state := target, sj_updated_at := now\<rparr>"]
    by (subst sub_job_ok_same) (simp_all add: sj_frame_def)
  from sub_inv_put [OF inv g(1) f o] show ?thesis by (simp add: w')
qed

text \<open>The claim: the approval is consumed and the job inserted, or nothing changes.\<close>

lemma find_None_iff_key:
  "sub_find_job svc db tenant key = None \<longleftrightarrow>
     (\<forall>j\<in>set (sub_jobs db). sj_connector_id j = ss_connector_id svc \<longrightarrow> sj_key j \<noteq> (tenant, key))"
  by (auto simp: sub_find_job_def find_None_iff sj_key_def)

lemma find_SomeD:
  "sub_find_job svc db tenant key = Some j \<Longrightarrow> j \<in> set (sub_jobs db) \<and> sj_key j = (tenant, key) \<and> sj_connector_id j = ss_connector_id svc"
  unfolding sub_find_job_def sj_key_def by (auto simp: find_Some_iff)

lemma claim_cases:
  assumes "consume_and_claim svc cur now jid tenant i key d etv = (db, r)"
  obtains "db = cur" "\<And>k. r \<noteq> Inr (Some k)"
  | a t where "get_row ap_id (sub_approvals cur) i = Some a" "ap_tenant_id a = tenant" "ap_status a = Ap_approved"
      "cas_row ap_id ap_version set_ap_version (sub_approvals cur) i (ap_version a)
         (\<lambda>r. r\<lparr>ap_status := Ap_consumed, ap_updated_at := now\<rparr>) = Some t"
      "jid \<notin> sj_id ` set (sub_jobs cur)" "sub_find_job svc cur tenant key = None" "r = Inr (Some jid)"
      "db = \<lparr>sub_approvals = t, sub_jobs = sub_jobs cur @
         [\<lparr>sj_id = jid, sj_tenant_id = tenant, sj_run_id = ap_run_id a, sj_approval_id = i,
           sj_connector_id = ss_connector_id svc, sj_destination = d, sj_idempotency_key = key,
           sj_expected_target_version = etv, sj_state = Sub_ready, sj_attempts = 0, sj_max_attempts = ss_max_attempts svc,
           sj_provider_receipt = None, sj_sanitized_result = [], sj_next_attempt_at = None, sj_last_error_code = None,
           sj_created_at = now, sj_updated_at = now, sj_version = 1\<rparr>]\<rparr>"
proof (cases "get_row ap_id (sub_approvals cur) i")
  case None
  with assms have "db = cur" "r = Inl (Sub_error ''APPROVAL_UNKNOWN'')" by (simp_all add: consume_and_claim_def)
  with that(1) show ?thesis by simp
next
  case (Some a)
  show ?thesis
  proof (cases "ap_tenant_id a = tenant \<and> ap_status a = Ap_approved")
    case False
    with assms Some have "db = cur" "\<And>k. r \<noteq> Inr (Some k)"
      by (cases "ap_tenant_id a = tenant"; auto simp: consume_and_claim_def)+
    with that(1) show ?thesis by blast
  next
    case True
    let ?c = "cas_row ap_id ap_version set_ap_version (sub_approvals cur) i (ap_version a)
         (\<lambda>r. r\<lparr>ap_status := Ap_consumed, ap_updated_at := now\<rparr>)"
    show ?thesis
    proof (cases ?c)
      case None
      with assms Some True have "db = cur" "r = Inr None" by (simp_all add: consume_and_claim_def)
      with that(1) show ?thesis by simp
    next
      case c: (Some t)
      show ?thesis
      proof (cases "jid \<in> sj_id ` set (sub_jobs cur) \<or> sub_find_job svc cur tenant key \<noteq> None")
        case True': True
        have "(db, r) = (cur, Inr None)"
          unfolding assms [symmetric] consume_and_claim_def using Some True c True' by simp
        with that(1) show ?thesis by simp
      next
        case False
        with assms Some True c show ?thesis by (intro that(2) [of a t]) (simp_all add: consume_and_claim_def)
      qed
    qed
  qed
qed

lemma claim_inv:
  assumes inv: "sub_inv effects svc w"
    and c: "consume_and_claim svc (sw_db w) now jid tenant i key d etv = (db, r)"
  shows "sub_inv effects svc (w\<lparr>sw_db := db\<rparr>) \<and>
    (r = Inr (Some k) \<longrightarrow> map_option sj_state (get_row sj_id (sub_jobs db) k) = Some Sub_ready \<and>
       map_option sj_key (get_row sj_id (sub_jobs db) k) = Some (tenant, key))"
  using c
proof (cases rule: claim_cases)
  case 1
  with inv show ?thesis by simp
next
  case (2 a t)
  note a = 2(1,3) and t = 2(4) and fresh = 2(5,6) and r = 2(7) and db = 2(8)
  have da: "keys_distinct ap_id (sub_approvals (sw_db w))" using inv by (simp add: sub_inv_def)
  have ai: "ap_id a = i" using get_row_SomeD [OF a(1)] by simp
  let ?a = "a\<lparr>ap_status := Ap_consumed, ap_updated_at := now, ap_version := ap_version a + 1\<rparr>"
  have tt: "t = put_row ap_id (sub_approvals (sw_db w)) i (\<lambda>_. ?a)"
    using approval_table.cas_row_current_Some [OF da, of a, unfolded ai, OF a(1)] t by (metis option.inject)
  have k: "ap_id ?a = i" by (simp add: ai)
  note g = get_put_row_const [where key = ap_id, OF k]
  have gt: "get_row ap_id t x = (if x = i then Some ?a else get_row ap_id (sub_approvals (sw_db w)) x)" for x
    by (simp add: tt g a(1))
  have app: "map_option ap_status (get_row ap_id t (sj_approval_id j)) = Some Ap_consumed" "sj_approval_id j \<noteq> i"
    if "j \<in> set (sub_jobs (sw_db w))" for j
  proof -
    have "map_option ap_status (get_row ap_id (sub_approvals (sw_db w)) (sj_approval_id j)) = Some Ap_consumed"
      using inv that by (simp add: sub_inv_def)
    then show "sj_approval_id j \<noteq> i" "map_option ap_status (get_row ap_id t (sj_approval_id j)) = Some Ap_consumed"
      using a by (auto simp: gt)
  qed
  have old: "sj_connector_id j = ss_connector_id svc" "sub_job_ok (effects (sw_provider w) (sj_key j)) j"
    if "j \<in> set (sub_jobs (sw_db w))" for j using inv that by (simp_all add: sub_inv_def)
  have kn: "(tenant, key) \<notin> sj_key ` set (sub_jobs (sw_db w))"
  proof
    assume "(tenant, key) \<in> sj_key ` set (sub_jobs (sw_db w))"
    then obtain j where j: "j \<in> set (sub_jobs (sw_db w))" "sj_key j = (tenant, key)" by (metis imageE)
    show False using fresh(2) [unfolded find_None_iff_key, rule_format, OF j(1) old(1) [OF j(1)]] j(2) by simp
  qed
  have z: "effects (sw_provider w) (tenant, key) = 0" by (rule sub_inv_no_key [OF inv kn])
  have dt: "keys_distinct ap_id t" using da by (simp add: tt map_key_put_row_const k)
  define new where "new = last (sub_jobs db)"
  have new: "sub_jobs db = sub_jobs (sw_db w) @ [new]" "sj_id new = jid" "sj_key new = (tenant, key)" "sj_approval_id new = i"
    "sj_connector_id new = ss_connector_id svc" "sub_job_ok 0 new" "sj_state new = Sub_ready" "sub_approvals db = t"
    by (simp_all add: new_def db sj_key_def sub_job_ok_def)
  have w': "sw_db (w\<lparr>sw_db := db\<rparr>) = db" "sw_provider (w\<lparr>sw_db := db\<rparr>) = sw_provider w" by simp_all
  have "sub_inv effects svc (w\<lparr>sw_db := db\<rparr>)"
    unfolding sub_inv_def w' new(1,8)
  proof (intro conjI ballI allI impI)
    show "keys_distinct sj_id (sub_jobs (sw_db w) @ [new])" "distinct (map sj_key (sub_jobs (sw_db w) @ [new]))"
      using inv fresh(1) kn by (simp_all add: sub_inv_def new(2,3))
    show "distinct (map sj_approval_id (sub_jobs (sw_db w) @ [new]))"
      using inv app(2) by (auto simp: sub_inv_def new(4))
    show "keys_distinct ap_id t" by (rule dt)
    fix j assume "j \<in> set (sub_jobs (sw_db w) @ [new])"
    then have "sj_connector_id j = ss_connector_id svc \<and> sub_job_ok (effects (sw_provider w) (sj_key j)) j \<and>
      map_option ap_status (get_row ap_id t (sj_approval_id j)) = Some Ap_consumed"
    proof (cases "j = new")
      case True
      show ?thesis unfolding True new(3,4,5) z using new(6) by (simp add: gt)
    next
      case False
      assume "j \<in> set (sub_jobs (sw_db w) @ [new])"
      with False have "j \<in> set (sub_jobs (sw_db w))" by simp
      from old [OF this] app(1) [OF this] show ?thesis by (intro conjI)
    qed
    then show "sj_connector_id j = ss_connector_id svc" "sub_job_ok (effects (sw_provider w) (sj_key j)) j"
      "map_option ap_status (get_row ap_id t (sj_approval_id j)) = Some Ap_consumed" by simp_all
  next
    fix k assume "k \<notin> sj_key ` set (sub_jobs (sw_db w) @ [new])"
    then have "k \<notin> sj_key ` set (sub_jobs (sw_db w))" by simp
    then show "effects (sw_provider w) k = 0" by (rule sub_inv_no_key [OF inv])
  qed
  moreover have "get_row sj_id (sub_jobs (sw_db w)) jid = None" using fresh(1) by (simp add: get_row_None_iff)
  then have "get_row sj_id (sub_jobs db) jid = Some new" by (simp add: new(1,2) get_row_append)
  ultimately show ?thesis using r new(3,7) by auto
qed

section \<open>Steps of the system\<close>

text \<open>
  Whole calls of the service, the prefixes of them that a crash leaves behind, and the other
  transitions of the approvals table.
\<close>

inductive sub_step :: "(string \<Rightarrow> string) \<Rightarrow> submission_service \<Rightarrow> 'p submit_fn \<Rightarrow> 'p reconcile_fn \<Rightarrow>
    'p sub_world \<Rightarrow> 'p sub_world \<Rightarrow> bool"
  for sha256 svc submit reconcile where
  step_submit: "submit_for_approval sha256 svc submit reconcile now jid w tenant i d di etv pl req = (w', res) \<Longrightarrow>
    sub_step sha256 svc submit reconcile w w'"
| step_reconcile: "sub_reconcile svc submit reconcile now w tenant i = (w', res) \<Longrightarrow>
    sub_step sha256 svc submit reconcile w w'"
| crash_claimed: "consume_and_claim svc (sw_db w) now jid tenant i (idempotency_key_for_approval sha256 i) d etv = (db, r) \<Longrightarrow>
    sub_step sha256 svc submit reconcile w (w\<lparr>sw_db := db\<rparr>)"
| crash_before_send: "map_option sj_state (get_row sj_id (sub_jobs (sw_db w)) i) = Some Sub_ready \<Longrightarrow>
    sub_move now w i Sub_executing (\<lambda>j. j\<lparr>sj_attempts := sj_attempts j + 1\<rparr>) = Inr (w', job) \<Longrightarrow>
    sub_step sha256 svc submit reconcile w w'"
| crash_after_send: "map_option sj_state (get_row sj_id (sub_jobs (sw_db w)) i) = Some Sub_ready \<Longrightarrow>
    sub_move now w i Sub_executing (\<lambda>j. j\<lparr>sj_attempts := sj_attempts j + 1\<rparr>) = Inr (w1, job) \<Longrightarrow>
    submit (sj_tenant_id job) (sj_idempotency_key job) d pl (sw_provider w1) = (x, p) \<Longrightarrow>
    sub_step sha256 svc submit reconcile w (w1\<lparr>sw_provider := p\<rparr>)"
| crash_unknown: "map_option sj_state (get_row sj_id (sub_jobs (sw_db w)) i) \<noteq> Some Sub_ready \<Longrightarrow>
    sub_move now w i Sub_unknown_outcome id = Inr (w', job) \<Longrightarrow> sub_step sha256 svc submit reconcile w w'"
| crash_reconciling: "get_row sj_id (sub_jobs (sw_db w)) i = Some job \<Longrightarrow> sj_state job \<noteq> Sub_succeeded \<Longrightarrow>
    prepare_reconcile now w job = (w', r) \<Longrightarrow> sub_step sha256 svc submit reconcile w w'"
| crash_ready_again: "get_row sj_id (sub_jobs (sw_db w)) i = Some job \<Longrightarrow> sj_state job = Sub_reconciling \<Longrightarrow>
    reconcile (sj_tenant_id job) (sj_idempotency_key job) (sw_provider w) = Inr rr \<Longrightarrow> \<not> already_accepted rr \<Longrightarrow>
    sj_attempts job < sj_max_attempts job \<Longrightarrow>
    sub_move now w i Sub_ready (\<lambda>j. j\<lparr>sj_next_attempt_at := Some (next_attempt svc now (sj_attempts job))\<rparr>) = Inr (w', job') \<Longrightarrow>
    sub_step sha256 svc submit reconcile w w'"
| step_approvals: "approvals_spec (sub_approvals (sw_db w)) t \<Longrightarrow>
    sub_step sha256 svc submit reconcile w (w\<lparr>sw_db := (sw_db w)\<lparr>sub_approvals := t\<rparr>\<rparr>)"

definition sub_init :: "('p \<Rightarrow> ident \<times> string \<Rightarrow> nat) \<Rightarrow> 'p sub_world \<Rightarrow> bool" where
  "sub_init effects w \<longleftrightarrow> sub_jobs (sw_db w) = [] \<and> keys_distinct ap_id (sub_approvals (sw_db w)) \<and>
     (\<forall>k. effects (sw_provider w) k = 0)"

lemma approvals_step_inv:
  assumes inv: "sub_inv effects svc w" and s: "approvals_spec (sub_approvals (sw_db w)) t"
  shows "sub_inv effects svc (w\<lparr>sw_db := (sw_db w)\<lparr>sub_approvals := t\<rparr>\<rparr>)"
proof -
  have d: "keys_distinct ap_id t" using spec_distinct [OF s] inv by (simp add: sub_inv_def)
  have "map_option ap_status (get_row ap_id t (sj_approval_id j)) = Some Ap_consumed"
    if j: "j \<in> set (sub_jobs (sw_db w))" for j
  proof -
    obtain a where a: "get_row ap_id (sub_approvals (sw_db w)) (sj_approval_id j) = Some a" "ap_status a = Ap_consumed"
      using inv j by (auto simp: sub_inv_def)
    with spec_final [OF s a(1)] show ?thesis by simp
  qed
  with inv d show ?thesis by (simp add: sub_inv_def)
qed

section \<open>The contract of a provider\<close>

locale submission_provider =
  fixes submit :: "'p submit_fn"
    and reconcile :: "'p reconcile_fn"
    and effects :: "'p \<Rightarrow> ident \<times> string \<Rightarrow> nat"
  assumes submit_at_most_once: "submit t k d pl p = (x, p') \<Longrightarrow> effects p' (t, k) \<le> effects p (t, k) + 1"
    and submit_other_keys: "submit t k d pl p = (x, p') \<Longrightarrow> k' \<noteq> (t, k) \<Longrightarrow> effects p' k' = effects p k'"
    and submit_accepted: "submit t k d pl p = (Inr rc, p') \<Longrightarrow> 0 < effects p' (t, k)"
    and reconcile_truthful: "reconcile t k p = Inr rr \<Longrightarrow> already_accepted rr \<longleftrightarrow> 0 < effects p (t, k)"
begin

text \<open>Asking the provider: the job is executing and has had no effect so far.\<close>

lemma begin_execute:
  assumes inv: "sub_inv effects svc w" and m: "sub_move now w i Sub_executing (\<lambda>j. j\<lparr>sj_attempts := sj_attempts j + 1\<rparr>) = Inr (w1, job)"
    and r: "map_option sj_state (get_row sj_id (sub_jobs (sw_db w)) i) = Some Sub_ready"
  shows "sub_inv effects svc w1" and "sw_provider w1 = sw_provider w"
    and "get_row sj_id (sub_jobs (sw_db w1)) i \<noteq> None"
    and "map_option sj_state (get_row sj_id (sub_jobs (sw_db w1)) i) = Some Sub_executing"
    and "map_option sj_key (get_row sj_id (sub_jobs (sw_db w1)) i) = Some (sj_tenant_id job, sj_idempotency_key job)"
    and "effects (sw_provider w1) (sj_tenant_id job, sj_idempotency_key job) = 0"
proof -
  have "sub_inv effects svc w1 \<and> sw_provider w1 = sw_provider w"
    by (rule sub_inv_move [OF inv m]) (use r in \<open>auto simp: sub_job_ok_def sj_frame_def\<close>)
  then show "sub_inv effects svc w1" "sw_provider w1 = sw_provider w" by simp_all
  from m sub_inv_distinct [OF inv] obtain j where g: "get_row sj_id (sub_jobs (sw_db w)) i = Some j" "sj_id j = i"
    and w1: "w1 = w\<lparr>sw_db := (sw_db w)\<lparr>sub_jobs := put_row sj_id (sub_jobs (sw_db w)) i
       (\<lambda>_. set_sj_version (sj_version j + 1) ((\<lambda>j. j\<lparr>sj_attempts := sj_attempts j + 1\<rparr>) (j\<lparr>sj_state := Sub_executing, sj_updated_at := now\<rparr>)))\<rparr>\<rparr>"
    and job: "job = set_sj_version (sj_version j + 1) ((\<lambda>j. j\<lparr>sj_attempts := sj_attempts j + 1\<rparr>) (j\<lparr>sj_state := Sub_executing\<rparr>))"
    by (rule sub_moveD)
  show "get_row sj_id (sub_jobs (sw_db w1)) i \<noteq> None"
    and "map_option sj_state (get_row sj_id (sub_jobs (sw_db w1)) i) = Some Sub_executing"
    and "map_option sj_key (get_row sj_id (sub_jobs (sw_db w1)) i) = Some (sj_tenant_id job, sj_idempotency_key job)"
    using g by (simp_all add: w1 job get_put_row_const [where key = sj_id] sj_key_def)
  have "sub_job_ok (effects (sw_provider w) (sj_key j)) j" by (rule sub_inv_job [OF inv g(1)])
  then show "effects (sw_provider w1) (sj_tenant_id job, sj_idempotency_key job) = 0"
    using r g by (simp add: w1 job sub_job_ok_def sj_key_def)
qed

lemma submit_keeps_inv:
  assumes inv: "sub_inv effects svc w" and g: "get_row sj_id (sub_jobs (sw_db w)) i = Some j"
    and st: "sj_state j = Sub_executing" and k: "sj_key j = (t, key)" and z: "effects (sw_provider w) (t, key) = 0"
    and s: "submit t key d pl (sw_provider w) = (x, p)"
  shows "sub_inv effects svc (w\<lparr>sw_provider := p\<rparr>)"
proof (rule sub_inv_put [OF inv g refl])
  have "effects p (sj_key j) \<le> 1" using submit_at_most_once [OF s] z k by simp
  then show "sub_job_ok (effects p (sj_key j)) j"
    using sub_inv_job [OF inv g] st by (simp add: sub_job_ok_def)
  show "effects p k' = effects (sw_provider w) k'" if "k' \<noteq> sj_key j" for k'
    using submit_other_keys [OF s] that k by simp
  have d: "keys_distinct sj_id (sub_jobs (sw_db w))" by (rule sub_inv_distinct [OF inv])
  have "map (\<lambda>x. x) (put_row sj_id (sub_jobs (sw_db w)) i (\<lambda>_. j)) = map (\<lambda>x. x) (sub_jobs (sw_db w))"
    by (rule map_put_row_const [OF d g]) simp
  then show "sub_jobs (sw_db (w\<lparr>sw_provider := p\<rparr>)) = put_row sj_id (sub_jobs (sw_db w)) i (\<lambda>_. j)" by simp
qed simp_all

lemma execute_inv:
  assumes inv: "sub_inv effects svc w" and r: "map_option sj_state (get_row sj_id (sub_jobs (sw_db w)) i) = Some Sub_ready"
    and e: "execute submit now w i d pl = (w', res)"
  shows "sub_inv effects svc w'"
proof (cases "sub_move now w i Sub_executing (\<lambda>j. j\<lparr>sj_attempts := sj_attempts j + 1\<rparr>)")
  case (Inl err)
  with e inv show ?thesis by (simp add: execute_def)
next
  case (Inr q)
  obtain w1 job where q: "q = (w1, job)" by (cases q)
  note b = begin_execute [OF inv Inr [unfolded q] r]
  obtain x p where s: "submit (sj_tenant_id job) (sj_idempotency_key job) d pl (sw_provider w1) = (x, p)" by fastforce
  let ?w2 = "w1\<lparr>sw_provider := p\<rparr>"
  obtain j where j: "get_row sj_id (sub_jobs (sw_db w1)) i = Some j" "sj_state j = Sub_executing"
    "sj_key j = (sj_tenant_id job, sj_idempotency_key job)" using b(4,5) by auto
  have inv2: "sub_inv effects svc ?w2" by (rule submit_keeps_inv [OF b(1) j b(6) s])
  have j2: "get_row sj_id (sub_jobs (sw_db ?w2)) i = Some j" using j(1) by simp
  show ?thesis
  proof (cases x)
    case (Inl exc)
    note u = sub_inv_move [OF inv2, of now i Sub_unknown_outcome "\<lambda>j. j\<lparr>sj_last_error_code := Some exc\<rparr>"]
    have "sub_inv effects svc w3" if "sub_move now ?w2 i Sub_unknown_outcome (\<lambda>j. j\<lparr>sj_last_error_code := Some exc\<rparr>) = Inr (w3, y)" for w3 y
      using u [OF that] j2 j(2) by (auto simp: sub_job_ok_def sj_frame_def)
    then show ?thesis
      using e inv2 Inr q s Inl by (auto simp: execute_def Let_def split: sum.splits)
  next
    case x: (Inr rc)
    let ?upd = "\<lambda>j. j\<lparr>sj_provider_receipt := Some (rc_receipt_id rc),
       sj_sanitized_result := [(''status'', JStr (rc_status rc)), (''deduplicated'', JBool (rc_deduplicated rc))]\<rparr>"
    have pos: "0 < effects p (sj_key j)" using submit_accepted [OF s [unfolded x]] j(3) by simp
    note u = sub_inv_move [OF inv2, of now i Sub_succeeded ?upd]
    have "sub_inv effects svc w3" if "sub_move now ?w2 i Sub_succeeded ?upd = Inr (w3, y)" for w3 y
      using u [OF that] j2 j(2) pos by (auto simp: sub_job_ok_def sj_frame_def)
    then show ?thesis
      using e inv2 Inr q s x by (auto simp: execute_def Let_def split: sum.splits)
  qed
qed

lemma move_quiet:
  assumes inv: "sub_inv effects svc w" and m: "sub_move now w i target id = Inr (w', job')"
    and t: "target \<in> {Sub_unknown_outcome, Sub_reconciling}"
    and st: "map_option sj_state (get_row sj_id (sub_jobs (sw_db w)) i) \<noteq> Some Sub_ready"
  shows "sub_inv effects svc w' \<and> sw_provider w' = sw_provider w"
proof (rule sub_inv_move [OF inv m])
  show "sub_job_ok (effects (sw_provider w) (sj_key j)) (id (j\<lparr>sj_state := target\<rparr>))"
    if "get_row sj_id (sub_jobs (sw_db w)) i = Some j" "target = sj_state j \<or> target \<in> SUBMISSION_TRANSITIONS (sj_state j)"
      "sub_job_ok (effects (sw_provider w) (sj_key j)) j" for j
    using that t st by (cases "sj_state j") (auto simp: sub_job_ok_def)
qed (simp_all add: sj_frame_def)

text \<open>Settling after the provider answered: the answer is still true of the provider's state.\<close>

lemma settle_inv:
  assumes inv: "sub_inv effects svc w" and st: "map_option sj_state (get_row sj_id (sub_jobs (sw_db w)) i) \<in> {Some Sub_reconciling, Some Sub_terminal_failed}"
    and k: "map_option sj_key (get_row sj_id (sub_jobs (sw_db w)) i) = Some (t, key)"
    and rr: "reconcile t key (sw_provider w) = Inr rr"
    and e: "settle_reconciled svc submit now w i rr = (w', res)"
  shows "sub_inv effects svc w'"
proof -
  obtain j where j: "get_row sj_id (sub_jobs (sw_db w)) i = Some j" "sj_state j \<in> {Sub_reconciling, Sub_terminal_failed}" "sj_key j = (t, key)"
    using st k by auto
  have acc: "already_accepted rr \<longleftrightarrow> 0 < effects (sw_provider w) (sj_key j)"
    using reconcile_truthful [OF rr] j(3) by simp
  have ok: "sub_job_ok (effects (sw_provider w) (sj_key j)) j" by (rule sub_inv_job [OF inv j(1)])
  note mv = sub_inv_move [OF inv]
  consider "already_accepted rr" | "\<not> already_accepted rr" "sj_attempts j \<ge> sj_max_attempts j"
    | "\<not> already_accepted rr" "\<not> sj_attempts j \<ge> sj_max_attempts j" by blast
  then show ?thesis
  proof cases
    case 1
    let ?upd = "\<lambda>j. j\<lparr>sj_provider_receipt := rr_receipt_id rr,
       sj_sanitized_result := [(''status'', JStr (rr_status rr)), (''reconciled'', JBool True)]\<rparr>"
    have "sub_inv effects svc w1" if "sub_move now w i Sub_succeeded ?upd = Inr (w1, y)" for w1 y
      using mv [OF that] j 1 acc by (auto simp: sub_job_ok_def sj_frame_def)
    then show ?thesis using e inv 1 j(1) by (auto simp: settle_reconciled_def sub_load_def split: sum.splits)
  next
    case 2
    let ?upd = "\<lambda>j. j\<lparr>sj_last_error_code := Some ''RETRY_BUDGET_EXHAUSTED''\<rparr>"
    have "sub_inv effects svc w1" if "sub_move now w i Sub_terminal_failed ?upd = Inr (w1, y)" for w1 y
      using mv [OF that] j 2 acc by (auto simp: sub_job_ok_def sj_frame_def)
    then show ?thesis using e inv 2 j(1) by (auto simp: settle_reconciled_def sub_load_def split: sum.splits)
  next
    case 3
    let ?upd = "\<lambda>x. x\<lparr>sj_next_attempt_at := Some (next_attempt svc now (sj_attempts j))\<rparr>"
    show ?thesis
    proof (cases "sub_move now w i Sub_ready ?upd")
      case (Inl err)
      with e inv 3 j(1) show ?thesis by (simp add: settle_reconciled_def sub_load_def)
    next
      case (Inr q)
      obtain w1 y where q: "q = (w1, y)" by (cases q)
      have i1: "sub_inv effects svc w1" using mv [OF Inr [unfolded q]] j 3 acc by (auto simp: sub_job_ok_def sj_frame_def)
      from Inr [unfolded q] sub_inv_distinct [OF inv] obtain j0 where
        "get_row sj_id (sub_jobs (sw_db w)) i = Some j0" "sj_id j0 = i"
        "w1 = w\<lparr>sw_db := (sw_db w)\<lparr>sub_jobs := put_row sj_id (sub_jobs (sw_db w)) i
           (\<lambda>_. set_sj_version (sj_version j0 + 1) (?upd (j0\<lparr>sj_state := Sub_ready, sj_updated_at := now\<rparr>)))\<rparr>\<rparr>"
        by (rule sub_moveD)
      then have "map_option sj_state (get_row sj_id (sub_jobs (sw_db w1)) i) = Some Sub_ready"
        by (simp add: get_put_row_const [where key = sj_id])
      from execute_inv [OF i1 this] e Inr q 3 j(1) show ?thesis
        by (simp add: settle_reconciled_def sub_load_def)
    qed
  qed
qed

lemma moved_row:
  assumes "sub_inv effects svc w" and "sub_move now w i target id = Inr (w1, job1)"
  shows "map_option sj_state (get_row sj_id (sub_jobs (sw_db w1)) i) = Some target"
    and "map_option sj_key (get_row sj_id (sub_jobs (sw_db w1)) i) = Some (sj_tenant_id job1, sj_idempotency_key job1)"
proof -
  from assms(2) sub_inv_distinct [OF assms(1)] obtain j where g: "get_row sj_id (sub_jobs (sw_db w)) i = Some j" "sj_id j = i"
    and w1: "w1 = w\<lparr>sw_db := (sw_db w)\<lparr>sub_jobs := put_row sj_id (sub_jobs (sw_db w)) i
       (\<lambda>_. set_sj_version (sj_version j + 1) (id (j\<lparr>sj_state := target, sj_updated_at := now\<rparr>)))\<rparr>\<rparr>"
    and job: "job1 = set_sj_version (sj_version j + 1) (id (j\<lparr>sj_state := target\<rparr>))" by (rule sub_moveD)
  show "map_option sj_state (get_row sj_id (sub_jobs (sw_db w1)) i) = Some target"
    and "map_option sj_key (get_row sj_id (sub_jobs (sw_db w1)) i) = Some (sj_tenant_id job1, sj_idempotency_key job1)"
    using g by (simp_all add: w1 job get_put_row_const [where key = sj_id] sj_key_def)
qed

text \<open>Before the provider is asked the job is reconciling (or was terminal all along); a job that
  is still ready cannot be resumed.\<close>

lemma prepare_inv:
  assumes inv: "sub_inv effects svc w" and j: "get_row sj_id (sub_jobs (sw_db w)) i = Some job"
    and st: "sj_state job \<noteq> Sub_succeeded" and e: "prepare_reconcile now w job = (w1, r)"
  shows "sub_inv effects svc w1 \<and> sw_provider w1 = sw_provider w \<and>
    (\<forall>job1. r = Inr job1 \<longrightarrow>
       map_option sj_state (get_row sj_id (sub_jobs (sw_db w1)) i) \<in> {Some Sub_reconciling, Some Sub_terminal_failed} \<and>
       map_option sj_key (get_row sj_id (sub_jobs (sw_db w1)) i) = Some (sj_tenant_id job1, sj_idempotency_key job1))"
proof -
  have i: "sj_id job = i" using get_row_SomeD [OF j] by simp
  have ok: "sub_job_ok (effects (sw_provider w) (sj_key job)) job" by (rule sub_inv_job [OF inv j])
  have settle: "sub_inv effects svc w1 \<and> sw_provider w1 = sw_provider v \<and>
    (\<forall>job1. r = Inr job1 \<longrightarrow>
       map_option sj_state (get_row sj_id (sub_jobs (sw_db w1)) i) \<in> {Some Sub_reconciling, Some Sub_terminal_failed} \<and>
       map_option sj_key (get_row sj_id (sub_jobs (sw_db w1)) i) = Some (sj_tenant_id job1, sj_idempotency_key job1))"
    if v: "sub_inv effects svc v" "map_option sj_state (get_row sj_id (sub_jobs (sw_db v)) i) = Some Sub_unknown_outcome"
      and e': "(case sub_move now v i Sub_reconciling id of Inl e \<Rightarrow> (v, Inl e) | Inr (w2, job2) \<Rightarrow> (w2, Inr job2)) = (w1, r)" for v
  proof (cases "sub_move now v i Sub_reconciling id")
    case (Inl err)
    with e' v(1) show ?thesis by auto
  next
    case (Inr q)
    obtain w2 job2 where q: "q = (w2, job2)" by (cases q)
    with Inr e' have w1: "w1 = w2" "r = Inr job2" by simp_all
    have "sub_inv effects svc w2 \<and> sw_provider w2 = sw_provider v"
      by (rule move_quiet [OF v(1) Inr [unfolded q]]) (use v(2) in auto)
    with moved_row [OF v(1) Inr [unfolded q]] w1 show ?thesis by simp
  qed
  show ?thesis
  proof (cases "sj_state job")
    case Sub_ready
    have "sub_move now w i Sub_unknown_outcome id = Inl (Sub_error ''SUBMISSION_TRANSITION_INVALID'')"
      using j Sub_ready by (simp add: sub_move_def sub_load_def sub_transition_def)
    with e inv Sub_ready i show ?thesis by (auto simp: prepare_reconcile_def)
  next
    case Sub_executing
    show ?thesis
    proof (cases "sub_move now w i Sub_unknown_outcome id")
      case (Inl err)
      with e inv Sub_executing i show ?thesis by (auto simp: prepare_reconcile_def)
    next
      case (Inr q)
      obtain v y where q: "q = (v, y)" by (cases q)
      have v: "sub_inv effects svc v \<and> sw_provider v = sw_provider w"
        by (rule move_quiet [OF inv Inr [unfolded q]]) (use j Sub_executing in auto)
      note m = moved_row [OF inv Inr [unfolded q]]
      then obtain z where z: "get_row sj_id (sub_jobs (sw_db v)) i = Some z" "sj_state z = Sub_unknown_outcome" by auto
      have "(case sub_move now v i Sub_reconciling id of Inl e \<Rightarrow> (v, Inl e) | Inr (w2, job2) \<Rightarrow> (w2, Inr job2)) = (w1, r)"
        using e Sub_executing Inr q z i by (simp add: prepare_reconcile_def sub_load_def)
      from settle [OF _ m(1) this] v show ?thesis by simp
    qed
  next
    case Sub_unknown_outcome
    have "(case sub_move now w i Sub_reconciling id of Inl e \<Rightarrow> (w, Inl e) | Inr (w2, job2) \<Rightarrow> (w2, Inr job2)) = (w1, r)"
      using e Sub_unknown_outcome i j by (simp add: prepare_reconcile_def sub_load_def)
    from settle [OF inv _ this] j Sub_unknown_outcome show ?thesis by simp
  qed (use e inv st ok i j in \<open>auto simp: prepare_reconcile_def sub_load_def sub_job_ok_def sj_key_def\<close>)
qed

lemma resume_inv:
  assumes inv: "sub_inv effects svc w" and e: "reconcile_and_resume svc submit reconcile now w i = (w', res)"
  shows "sub_inv effects svc w'"
proof (cases "get_row sj_id (sub_jobs (sw_db w)) i")
  case None
  with e inv show ?thesis by (simp add: reconcile_and_resume_def sub_load_def)
next
  case (Some job)
  have nr: "sj_state job \<noteq> Sub_recoverable_failed"
    using sub_inv_job [OF inv Some] by (auto simp: sub_job_ok_def)
  show ?thesis
  proof (cases "sj_state job = Sub_succeeded")
    case True
    with e inv Some show ?thesis by (auto simp: reconcile_and_resume_def sub_load_def)
  next
    case False
    obtain w1 r where p: "prepare_reconcile now w job = (w1, r)" by fastforce
    note q = prepare_inv [OF inv Some False p]
    show ?thesis
    proof (cases r)
      case (Inl err)
      with e p q False nr Some show ?thesis by (auto simp: reconcile_and_resume_def sub_load_def)
    next
      case (Inr job1)
      show ?thesis
      proof (cases "reconcile (sj_tenant_id job1) (sj_idempotency_key job1) (sw_provider w1)")
        case (Inl exc)
        with e p q Inr False nr Some show ?thesis by (auto simp: reconcile_and_resume_def sub_load_def)
      next
        case rr: (Inr rr)
        have "settle_reconciled svc submit now w1 i rr = (w', res)"
          using e p Inr rr False nr Some by (simp add: reconcile_and_resume_def sub_load_def)
        with q Inr rr show ?thesis by (blast intro: settle_inv)
      qed
    qed
  qed
qed

lemma resolve_inv:
  assumes "sub_inv effects svc w" and "resolve_existing svc submit reconcile now w job = (w', res)"
  shows "sub_inv effects svc w'"
  using assms by (auto simp: resolve_existing_def intro: resume_inv split: if_splits)

lemma submit_for_approval_inv:
  assumes inv: "sub_inv effects svc w"
    and e: "submit_for_approval sha256 svc submit reconcile now jid w tenant i d di etv pl req = (w', res)"
  shows "sub_inv effects svc w'"
proof (cases "sub_find_job svc (sw_db w) tenant (idempotency_key_for_approval sha256 i)")
  case (Some j)
  with e show ?thesis by (auto simp: submit_for_approval_def Let_def intro: resolve_inv [OF inv])
next
  case None
  let ?key = "idempotency_key_for_approval sha256 i"
  show ?thesis
  proof (cases "reauthorize sha256 svc (sw_db w) now tenant i di etv req")
    case (Inl err)
    with None e inv show ?thesis by (simp add: submit_for_approval_def Let_def)
  next
    case (Inr u)
    obtain db r where c: "consume_and_claim svc (sw_db w) now jid tenant i ?key d etv = (db, r)" by fastforce
    note q = claim_inv [OF inv c]
    show ?thesis
    proof (cases r)
      case (Inl err)
      with None Inr c q e show ?thesis by (auto simp: submit_for_approval_def Let_def)
    next
      case rk: (Inr k)
      show ?thesis
      proof (cases k)
        case None: None
        with \<open>sub_find_job svc (sw_db w) tenant ?key = None\<close> Inr c q rk e show ?thesis
          by (auto simp: submit_for_approval_def Let_def intro: resolve_inv split: option.splits)
      next
        case (Some job_id)
        with \<open>sub_find_job svc (sw_db w) tenant ?key = None\<close> Inr c rk e
        have "execute submit now (w\<lparr>sw_db := db\<rparr>) job_id d pl = (w', res)"
          by (simp add: submit_for_approval_def Let_def)
        moreover have "map_option sj_state (get_row sj_id (sub_jobs (sw_db (w\<lparr>sw_db := db\<rparr>))) job_id) = Some Sub_ready"
          using q [of job_id] rk Some by simp
        ultimately show ?thesis using q [of job_id] execute_inv by blast
      qed
    qed
  qed
qed

lemma sub_step_inv:
  assumes inv: "sub_inv effects svc w" and s: "sub_step sha256 svc submit reconcile w w'"
  shows "sub_inv effects svc w'"
  using s
proof (cases rule: sub_step.cases)
  case (step_submit now jid tenant i d di etv pl req res)
  then show ?thesis by (rule submit_for_approval_inv [OF inv])
next
  case (step_reconcile now tenant i res)
  then show ?thesis
    using inv by (auto simp: sub_reconcile_def intro: resume_inv split: sum.splits if_splits)
next
  case (crash_claimed now jid tenant i d etv db r)
  then show ?thesis using claim_inv [OF inv] by blast
next
  case (crash_before_send i now job)
  then show ?thesis using begin_execute(1) [OF inv] by blast
next
  case (crash_after_send i now w1 job d pl x p)
  note b = begin_execute [OF inv crash_after_send(3,2)]
  obtain j where "get_row sj_id (sub_jobs (sw_db w1)) i = Some j" "sj_state j = Sub_executing"
    "sj_key j = (sj_tenant_id job, sj_idempotency_key job)" using b(4,5) by auto
  from submit_keeps_inv [OF b(1) this b(6) crash_after_send(4)] crash_after_send(1) show ?thesis by simp
next
  case (crash_unknown i now job)
  then show ?thesis using move_quiet [OF inv] by blast
next
  case (crash_reconciling i job now r)
  then show ?thesis using prepare_inv [OF inv] by blast
next
  case (crash_ready_again i job rr now job')
  have "effects (sw_provider w) (sj_key job) = 0"
    using reconcile_truthful [OF crash_ready_again(3)] crash_ready_again(4) by (simp add: sj_key_def)
  with sub_inv_move [OF inv crash_ready_again(6)] crash_ready_again(1,2,5) show ?thesis
    by (auto simp: sub_job_ok_def sj_frame_def)
next
  case (step_approvals t)
  then show ?thesis using approvals_step_inv [OF inv] by simp
qed

end

sublocale submission_provider \<subseteq> sub_system: invariant_system "sub_init effects" "sub_step sha256 svc submit reconcile" "sub_inv effects svc"
  for sha256 svc
  by unfold_locales (simp add: sub_init_def sub_inv_def, rule sub_step_inv)

context submission_provider
begin

lemma reachable_inv: "reach (sub_init effects) (sub_step sha256 svc submit reconcile) w \<Longrightarrow> sub_inv effects svc w"
  by (rule sub_system.reach_inv)

end

text \<open>The mock connector keeps the contract: it acts once per key and remembers what it accepted.\<close>

definition mock_effects :: "mock_connector \<Rightarrow> ident \<times> string \<Rightarrow> nat" where
  "mock_effects m k = length (filter (\<lambda>e. fst e = k) m)"

lemma mock_effects_None: "map_of m k = None \<longleftrightarrow> mock_effects m k = 0"
  by (induction m) (auto simp: mock_effects_def)

interpretation mock: submission_provider "mock_submit sha256" mock_reconcile mock_effects for sha256
proof
  fix t k d pl p x p'
  assume s: "mock_submit sha256 t k d pl p = (x, p')"
  show "mock_effects p' (t, k) \<le> mock_effects p (t, k) + 1"
    using s by (auto simp: mock_submit_def mock_effects_def Let_def split: option.splits)
  show "mock_effects p' k' = mock_effects p k'" if "k' \<noteq> (t, k)" for k'
    using s that by (auto simp: mock_submit_def mock_effects_def Let_def split: option.splits)
next
  fix t k d pl p rc p'
  assume s: "mock_submit sha256 t k d pl p = (Inr rc, p')"
  show "0 < mock_effects p' (t, k)"
  proof (cases "map_of p (t, k)")
    case None
    with s show ?thesis by (auto simp: mock_submit_def mock_effects_def Let_def)
  next
    case (Some e)
    then have "mock_effects p (t, k) \<noteq> 0" using mock_effects_None [of p "(t, k)"] by simp
    with s Some show ?thesis by (simp add: mock_submit_def)
  qed
next
  fix t k p rr
  assume "mock_reconcile t k p = Inr rr"
  then show "already_accepted rr \<longleftrightarrow> 0 < mock_effects p (t, k)"
    using mock_effects_None [of p "(t, k)"]
    by (auto simp: mock_reconcile_def already_accepted_def split: option.splits)
qed

section \<open>What a successful call leaves behind\<close>

text \<open>Moves keep the identity of every row, so a job is found again under its key.\<close>

lemma sub_move_frames:
  assumes m: "sub_move now w i target upd = Inr (w', job')" and d: "keys_distinct sj_id (sub_jobs (sw_db w))"
    and fr: "\<And>j. sj_frame (upd j) = sj_frame j"
  shows "map sj_frame (sub_jobs (sw_db w')) = map sj_frame (sub_jobs (sw_db w))"
    and "\<exists>j v. get_row sj_id (sub_jobs (sw_db w')) i = Some (set_sj_version v (upd (j\<lparr>sj_state := target, sj_updated_at := now\<rparr>)))"
proof -
  from m d obtain j where g: "get_row sj_id (sub_jobs (sw_db w)) i = Some j" "sj_id j = i"
    and w': "w' = w\<lparr>sw_db := (sw_db w)\<lparr>sub_jobs := put_row sj_id (sub_jobs (sw_db w)) i
       (\<lambda>_. set_sj_version (sj_version j + 1) (upd (j\<lparr>sj_state := target, sj_updated_at := now\<rparr>)))\<rparr>\<rparr>"
    by (rule sub_moveD)
  let ?j = "set_sj_version (sj_version j + 1) (upd (j\<lparr>sj_state := target, sj_updated_at := now\<rparr>))"
  have f: "sj_frame ?j = sj_frame j" using fr [of "j\<lparr>sj_state := target, sj_updated_at := now\<rparr>"] by (simp add: sj_frame_def)
  then have i: "sj_id ?j = i" using g(2) by (simp add: sj_frame_def)
  have js: "sub_jobs (sw_db w') = put_row sj_id (sub_jobs (sw_db w)) i (\<lambda>_. ?j)" by (simp add: w')
  show "map sj_frame (sub_jobs (sw_db w')) = map sj_frame (sub_jobs (sw_db w))"
    unfolding js by (rule map_put_row_const [where f = sj_frame, OF d g(1) f])
  have "get_row sj_id (sub_jobs (sw_db w')) i = Some ?j"
    unfolding js get_put_row_const [where key = sj_id, OF i] g(1) by simp
  then show "\<exists>j v. get_row sj_id (sub_jobs (sw_db w')) i = Some (set_sj_version v (upd (j\<lparr>sj_state := target, sj_updated_at := now\<rparr>)))"
    by blast
qed

definition sub_settled :: "'p sub_world \<Rightarrow> ident \<Rightarrow> sub_error + submission_outcome \<Rightarrow> bool" where
  "sub_settled w i res \<longleftrightarrow> (\<forall>out. res = Inr out \<longrightarrow> so_state out = Sub_succeeded \<longrightarrow> so_job_id out = i \<and>
     (\<exists>j. get_row sj_id (sub_jobs (sw_db w)) i = Some j \<and> sj_state j = Sub_succeeded \<and> sj_provider_receipt j = so_receipt_id out))"

abbreviation same_frames :: "'p sub_world \<Rightarrow> 'p sub_world \<Rightarrow> bool" where
  "same_frames w w' \<equiv> map sj_frame (sub_jobs (sw_db w')) = map sj_frame (sub_jobs (sw_db w))"

lemma frames_distinct: "same_frames w w' \<Longrightarrow> keys_distinct sj_id (sub_jobs (sw_db w')) = keys_distinct sj_id (sub_jobs (sw_db w))"
  by (metis (no_types, lifting) list.map_comp comp_def fst_conv sj_frame_def map_eq_conv)

lemma execute_settled:
  assumes d: "keys_distinct sj_id (sub_jobs (sw_db w))" and e: "execute submit now w i dest pl = (w', res)"
  shows "same_frames w w' \<and> sub_settled w' i res"
proof (cases "sub_move now w i Sub_executing (\<lambda>j. j\<lparr>sj_attempts := sj_attempts j + 1\<rparr>)")
  case (Inl err)
  with e show ?thesis by (auto simp: execute_def sub_settled_def)
next
  case (Inr q)
  obtain w1 job where q: "q = (w1, job)" by (cases q)
  have f1: "same_frames w w1" by (rule sub_move_frames(1) [OF Inr [unfolded q] d]) (simp add: sj_frame_def)
  obtain x p where s: "submit (sj_tenant_id job) (sj_idempotency_key job) dest pl (sw_provider w1) = (x, p)" by fastforce
  let ?w2 = "w1\<lparr>sw_provider := p\<rparr>"
  have d2: "keys_distinct sj_id (sub_jobs (sw_db ?w2))" using frames_distinct [OF f1] d by simp
  show ?thesis
  proof (cases x)
    case (Inl exc)
    have "same_frames w w3" if "sub_move now ?w2 i Sub_unknown_outcome (\<lambda>j. j\<lparr>sj_last_error_code := Some exc\<rparr>) = Inr (w3, y)" for w3 y
      using sub_move_frames(1) [OF that d2] f1 by (simp add: sj_frame_def)
    then show ?thesis using e f1 Inr q s Inl by (auto simp: execute_def Let_def sub_settled_def split: sum.splits)
  next
    case x: (Inr rc)
    let ?upd = "\<lambda>j. j\<lparr>sj_provider_receipt := Some (rc_receipt_id rc),
       sj_sanitized_result := [(''status'', JStr (rc_status rc)), (''deduplicated'', JBool (rc_deduplicated rc))]\<rparr>"
    have f3: "same_frames w w3 \<and> sub_settled w3 i (Inr \<lparr>so_job_id = i, so_state = Sub_succeeded,
                     so_receipt_id = Some (rc_receipt_id rc), so_deduplicated = rc_deduplicated rc, so_status = rc_status rc\<rparr>)"
      if "sub_move now ?w2 i Sub_succeeded ?upd = Inr (w3, y)" for w3 y
      using sub_move_frames [OF that d2] f1 by (auto simp: sj_frame_def sub_settled_def)
    then show ?thesis using e f1 Inr q s x by (auto simp: execute_def Let_def sub_settled_def split: sum.splits)
  qed
qed

lemma move_then:
  assumes d: "keys_distinct sj_id (sub_jobs (sw_db w))" and fr: "\<And>j. sj_frame (upd j) = sj_frame j"
    and m: "sub_move now w i target upd = Inr (w1, job)"
    and k: "keys_distinct sj_id (sub_jobs (sw_db w1)) \<Longrightarrow> same_frames w1 w' \<and> sub_settled w' i res"
  shows "same_frames w w' \<and> sub_settled w' i res"
proof -
  have f: "same_frames w w1" by (rule sub_move_frames(1) [OF m d fr])
  from k frames_distinct [OF f] d f show ?thesis by simp
qed

lemma settle_settled:
  assumes d: "keys_distinct sj_id (sub_jobs (sw_db w))" and e: "settle_reconciled svc submit now w i rr = (w', res)"
  shows "same_frames w w' \<and> sub_settled w' i res"
proof (cases "get_row sj_id (sub_jobs (sw_db w)) i")
  case None
  with e show ?thesis by (auto simp: settle_reconciled_def sub_load_def sub_settled_def)
next
  case (Some j)
  consider "already_accepted rr" | "\<not> already_accepted rr" "sj_attempts j \<ge> sj_max_attempts j"
    | "\<not> already_accepted rr" "\<not> sj_attempts j \<ge> sj_max_attempts j" by blast
  then show ?thesis
  proof cases
    case 1
    let ?upd = "\<lambda>j. j\<lparr>sj_provider_receipt := rr_receipt_id rr,
       sj_sanitized_result := [(''status'', JStr (rr_status rr)), (''reconciled'', JBool True)]\<rparr>"
    have "same_frames w w1 \<and> sub_settled w1 i (Inr \<lparr>so_job_id = i, so_state = Sub_succeeded, so_receipt_id = rr_receipt_id rr,
                                       so_deduplicated = True, so_status = rr_status rr\<rparr>)"
      if "sub_move now w i Sub_succeeded ?upd = Inr (w1, y)" for w1 y
      using sub_move_frames [OF that d] by (auto simp: sj_frame_def sub_settled_def)
    then show ?thesis using e 1 Some by (auto simp: settle_reconciled_def sub_load_def sub_settled_def split: sum.splits)
  next
    case 2
    have "same_frames w w1" if "sub_move now w i Sub_terminal_failed (\<lambda>j. j\<lparr>sj_last_error_code := Some ''RETRY_BUDGET_EXHAUSTED''\<rparr>) = Inr (w1, y)" for w1 y
      using sub_move_frames(1) [OF that d] by (simp add: sj_frame_def)
    then show ?thesis using e 2 Some by (auto simp: settle_reconciled_def sub_load_def sub_settled_def split: sum.splits)
  next
    case 3
    let ?upd = "\<lambda>x. x\<lparr>sj_next_attempt_at := Some (next_attempt svc now (sj_attempts j))\<rparr>"
    show ?thesis
    proof (cases "sub_move now w i Sub_ready ?upd")
      case (Inl err)
      with e 3 Some show ?thesis by (auto simp: settle_reconciled_def sub_load_def sub_settled_def)
    next
      case (Inr q)
      obtain w1 y where q: "q = (w1, y)" by (cases q)
      with e 3 Some Inr have x: "execute submit now w1 i (sj_destination y) (JObj []) = (w', res)"
        by (simp add: settle_reconciled_def sub_load_def)
      show ?thesis
        by (rule move_then [OF d _ Inr [unfolded q] execute_settled [OF _ x]]) (simp add: sj_frame_def)
    qed
  qed
qed

lemma prepare_frames:
  assumes d: "keys_distinct sj_id (sub_jobs (sw_db w))" and e: "prepare_reconcile now w job = (w', r)"
  shows "same_frames w w'"
proof -
  have mv: "same_frames v v'" if "keys_distinct sj_id (sub_jobs (sw_db v))" "sub_move now v i t id = Inr (v', y)"
    for v v' :: "'a sub_world" and i t y
    by (rule sub_move_frames(1) [OF that(2,1)]) simp
  obtain w1 y where s: "(if sj_state job \<in> {Sub_ready, Sub_executing}
            then sub_move now w (sj_id job) Sub_unknown_outcome id else Inr (w, job)) = Inr (w1, y) \<or> w' = w"
    using e by (cases "if sj_state job \<in> {Sub_ready, Sub_executing}
            then sub_move now w (sj_id job) Sub_unknown_outcome id else Inr (w, job)") (auto simp: prepare_reconcile_def)
  show ?thesis
  proof (cases "w' = w")
    case False
    with s have s1: "(if sj_state job \<in> {Sub_ready, Sub_executing}
            then sub_move now w (sj_id job) Sub_unknown_outcome id else Inr (w, job)) = Inr (w1, y)" by simp
    then have f: "same_frames w w1" by (auto split: if_splits intro: mv [OF d])
    have d1: "keys_distinct sj_id (sub_jobs (sw_db w1))" using frames_distinct [OF f] d by simp
    from e s1 have "w' = w1 \<or> (\<exists>y. sub_move now w1 (sj_id job) Sub_reconciling id = Inr (w', y))"
      by (auto simp: prepare_reconcile_def split: sum.splits if_splits)
    with mv [OF d1] f show ?thesis by auto
  qed simp
qed

lemma resume_settled:
  assumes d: "keys_distinct sj_id (sub_jobs (sw_db w))" and e: "reconcile_and_resume svc submit reconcile now w i = (w', res)"
  shows "same_frames w w' \<and> sub_settled w' i res"
proof (cases "get_row sj_id (sub_jobs (sw_db w)) i")
  case None
  with e show ?thesis by (auto simp: reconcile_and_resume_def sub_load_def sub_settled_def)
next
  case (Some job)
  consider "sj_state job = Sub_succeeded" | "sj_state job = Sub_recoverable_failed"
    | "sj_state job \<noteq> Sub_succeeded" "sj_state job \<noteq> Sub_recoverable_failed" by blast
  then show ?thesis
  proof cases
    case 1
    with e Some show ?thesis by (auto simp: reconcile_and_resume_def sub_load_def sub_settled_def)
  next
    case 2
    show ?thesis
    proof (cases "sub_move now w i Sub_ready id")
      case (Inl err)
      with e 2 Some show ?thesis by (auto simp: reconcile_and_resume_def sub_load_def sub_settled_def)
    next
      case (Inr q)
      obtain w1 y where q: "q = (w1, y)" by (cases q)
      with e 2 Some Inr have x: "execute submit now w1 i (sj_destination y) (JObj []) = (w', res)"
        by (simp add: reconcile_and_resume_def sub_load_def)
      show ?thesis by (rule move_then [OF d _ Inr [unfolded q] execute_settled [OF _ x]]) simp
    qed
  next
    case 3
    obtain w1 r where p: "prepare_reconcile now w job = (w1, r)" by fastforce
    note f = prepare_frames [OF d p]
    have d1: "keys_distinct sj_id (sub_jobs (sw_db w1))" using frames_distinct [OF f] d by simp
    show ?thesis
    proof (cases r)
      case (Inl err)
      with e p f 3 Some show ?thesis by (auto simp: reconcile_and_resume_def sub_load_def sub_settled_def)
    next
      case (Inr job1)
      with e p f 3 Some settle_settled [OF d1] show ?thesis
        by (cases "reconcile (sj_tenant_id job1) (sj_idempotency_key job1) (sw_provider w1)")
           (auto simp: reconcile_and_resume_def sub_load_def sub_settled_def)
    qed
  qed
qed

lemma resolve_settled:
  assumes d: "keys_distinct sj_id (sub_jobs (sw_db w))" and j: "job \<in> set (sub_jobs (sw_db w))"
    and e: "resolve_existing svc submit reconcile now w job = (w', res)"
  shows "same_frames w w' \<and> sub_settled w' (sj_id job) res"
proof (cases "sj_state job \<in> {Sub_succeeded, Sub_terminal_failed, Sub_cancelled}")
  case True
  have "get_row sj_id (sub_jobs (sw_db w)) (sj_id job) = Some job" by (rule get_row_in_set [OF d j])
  with e True show ?thesis by (auto simp: resolve_existing_def sub_settled_def)
next
  case False
  with e have "reconcile_and_resume svc submit reconcile now w (sj_id job) = (w', res)" by (simp add: resolve_existing_def)
  then show ?thesis by (rule resume_settled [OF d])
qed

lemma frames_row:
  assumes f: "same_frames w w'" and d: "keys_distinct sj_id (sub_jobs (sw_db w))"
    and g: "get_row sj_id (sub_jobs (sw_db w)) i = Some j" "get_row sj_id (sub_jobs (sw_db w')) i = Some j'"
  shows "sj_frame j' = sj_frame j"
proof -
  have "sj_frame j' \<in> sj_frame ` set (sub_jobs (sw_db w))"
    using get_row_SomeD [OF g(2)] f by (metis image_eqI list.set_map)
  then obtain x where x: "x \<in> set (sub_jobs (sw_db w))" "sj_frame x = sj_frame j'" by (metis imageE)
  then have "sj_id x = i" using get_row_SomeD [OF g(2)] by (simp add: sj_frame_def)
  with get_row_in_set [OF d x(1)] g(1) x(2) show ?thesis by simp
qed

lemma sub_find_job_unique:
  assumes "sub_inv effects svc w" and "j \<in> set (sub_jobs (sw_db w))" and "sj_key j = (tenant, key)"
  shows "sub_find_job svc (sw_db w) tenant key = Some j"
proof (cases "sub_find_job svc (sw_db w) tenant key")
  case None
  with assms show ?thesis unfolding find_None_iff_key by (auto simp: sub_inv_def)
next
  case (Some j')
  from find_SomeD [OF Some] have "j' \<in> set (sub_jobs (sw_db w))" "sj_key j' = (tenant, key)" by simp_all
  moreover have "inj_on sj_key (set (sub_jobs (sw_db w)))" using assms(1) by (simp add: sub_inv_def distinct_map)
  ultimately have "j' = j" using assms(2,3) by (metis inj_onD)
  with Some show ?thesis by simp
qed

lemma settled_found:
  assumes s: "same_frames w w'" "sub_settled w' i (Inr out)" and o: "so_state out = Sub_succeeded"
    and d: "keys_distinct sj_id (sub_jobs (sw_db w))"
    and k: "map_option sj_key (get_row sj_id (sub_jobs (sw_db w)) i) = Some (tenant, key)"
    and inv: "sub_inv effects svc w'"
  shows "\<exists>j. sub_find_job svc (sw_db w') tenant key = Some j \<and> sj_state j = Sub_succeeded \<and>
    sj_provider_receipt j = so_receipt_id out \<and> sj_id j = so_job_id out"
proof -
  obtain j where j: "get_row sj_id (sub_jobs (sw_db w')) i = Some j" "sj_state j = Sub_succeeded"
    "sj_provider_receipt j = so_receipt_id out" "so_job_id out = i"
    using s(2) o by (auto simp: sub_settled_def)
  obtain j0 where j0: "get_row sj_id (sub_jobs (sw_db w)) i = Some j0" "sj_key j0 = (tenant, key)" using k by auto
  have "sj_key j = (tenant, key)"
    using frames_row [OF s(1) d j0(1) j(1)] j0(2) by (simp add: sj_frame_def sj_key_def)
  with sub_find_job_unique [OF inv] get_row_SomeD [OF j(1)] have "sub_find_job svc (sw_db w') tenant key = Some j" by simp
  then show ?thesis using j get_row_SomeD [OF j(1)] by (intro exI [of _ j]) simp
qed

lemma submit_settled:
  assumes inv: "sub_inv effects svc w" "sub_inv effects svc w'"
    and e: "submit_for_approval sha256 svc submit reconcile now jid w tenant i d di etv pl req = (w', Inr out)"
    and o: "so_state out = Sub_succeeded"
  shows "\<exists>j. sub_find_job svc (sw_db w') tenant (idempotency_key_for_approval sha256 i) = Some j \<and> sj_state j = Sub_succeeded \<and>
    sj_provider_receipt j = so_receipt_id out \<and> sj_id j = so_job_id out"
proof -
  let ?key = "idempotency_key_for_approval sha256 i"
  have dist: "keys_distinct sj_id (sub_jobs (sw_db w))" by (rule sub_inv_distinct [OF inv(1)])
  have resolve: ?thesis if "sub_inv effects svc v" "sub_find_job svc (sw_db v) tenant ?key = Some j"
      "resolve_existing svc submit reconcile now v j = (w', Inr out)" for v :: "'a sub_world" and j
  proof -
    note d = sub_inv_distinct [OF that(1)]
    have j: "j \<in> set (sub_jobs (sw_db v))" "sj_key j = (tenant, ?key)" using find_SomeD [OF that(2)] by simp_all
    note rs = resolve_settled [OF d j(1) that(3)]
    show ?thesis by (rule settled_found [OF conjunct1 [OF rs] conjunct2 [OF rs] o d _ inv(2)])
      (simp add: get_row_in_set [OF d j(1)] j(2))
  qed
  show ?thesis
  proof (cases "sub_find_job svc (sw_db w) tenant ?key")
    case (Some j)
    with e have "resolve_existing svc submit reconcile now w j = (w', Inr out)" by (simp add: submit_for_approval_def Let_def)
    then show ?thesis by (rule resolve [OF inv(1) Some])
  next
    case None
    obtain db r where c: "consume_and_claim svc (sw_db w) now jid tenant i ?key d etv = (db, r)" by fastforce
    obtain k where k: "r = Inr k" "reauthorize sha256 svc (sw_db w) now tenant i di etv req = Inr ()"
      using e None c by (cases r; cases "reauthorize sha256 svc (sw_db w) now tenant i di etv req") (simp_all add: submit_for_approval_def Let_def)
    note ci = claim_inv [OF inv(1) c]
    let ?v = "w\<lparr>sw_db := db\<rparr>"
    have iv: "sub_inv effects svc ?v" using ci by blast
    show ?thesis
    proof (cases k)
      case nk: None
      with e None c k obtain j where "sub_find_job svc db tenant ?key = Some j"
        "resolve_existing svc submit reconcile now ?v j = (w', Inr out)"
        by (cases "sub_find_job svc db tenant ?key") (simp_all add: submit_for_approval_def Let_def)
      then show ?thesis using resolve [OF iv, of j] by simp
    next
      case (Some kid)
      with e None c k have x: "execute submit now ?v kid d pl = (w', Inr out)" by (simp add: submit_for_approval_def Let_def)
      note d = sub_inv_distinct [OF iv]
      note rs = execute_settled [OF d x]
      show ?thesis by (rule settled_found [OF conjunct1 [OF rs] conjunct2 [OF rs] o d _ inv(2)])
        (use ci [of kid] k(1) Some in simp)
    qed
  qed
qed

lemma reauthorize_ok:
  assumes "reauthorize sha256 svc db now tenant i di etv req = Inr u"
  shows "\<exists>a digest. get_row ap_id (sub_approvals db) i = Some a \<and> ap_tenant_id a = tenant \<and>
    ap_status a = Ap_approved \<and> \<not> is_expired now a \<and>
    compute_action_digest sha256 di = Some digest \<and> digests_match (ap_action_digest a) digest = Some True \<and>
    (\<forall>check. ss_authority_check svc = Some check \<longrightarrow>
       check tenant (case ap_decided_by a of None \<Rightarrow> ap_requested_by a | Some u \<Rightarrow> if u = [] then ap_requested_by a else u) req = None)"
proof (cases "get_row ap_id (sub_approvals db) i")
  case None
  with assms show ?thesis by (simp add: reauthorize_def)
next
  case (Some a)
  show ?thesis
  proof (cases "ap_tenant_id a = tenant \<and> ap_status a = Ap_approved \<and> \<not> is_expired now a")
    case False
    with assms Some show ?thesis by (auto simp: reauthorize_def split: if_splits)
  next
    case True
    obtain digest where dg: "compute_action_digest sha256 di = Some digest"
      using assms Some True by (cases "compute_action_digest sha256 di") (simp_all add: reauthorize_def)
    have m: "digests_match (ap_action_digest a) digest = Some True"
      using assms Some True dg
      by (cases "digests_match (ap_action_digest a) digest") (simp_all add: reauthorize_def split: bool.splits)
    show ?thesis
    proof (intro exI conjI allI impI)
      fix check
      assume ch: "ss_authority_check svc = Some check"
      then show "check tenant (case ap_decided_by a of None \<Rightarrow> ap_requested_by a | Some u \<Rightarrow> if u = [] then ap_requested_by a else u) req = None"
        using assms Some True dg m by (cases "ap_decided_by a") (auto simp: reauthorize_def Let_def split: option.splits if_splits)
    qed (use Some True dg m in simp_all)
  qed
qed

section \<open>A sample submission\<close>

definition sample_service :: submission_service where
  "sample_service = \<lparr>ss_connector_id = CONNECTOR_ID, ss_authority_check = None, ss_max_attempts = 5, ss_retry_backoff = 30\<rparr>"

definition sample_sub_world :: "mock_connector sub_world" where
  "sample_sub_world = \<lparr>sw_db = \<lparr>sub_approvals = [sample_approval\<lparr>ap_status := Ap_approved\<rparr>], sub_jobs = []\<rparr>, sw_provider = []\<rparr>"

definition sample_submit :: "mock_connector sub_world \<Rightarrow> mock_connector sub_result" where
  "sample_submit w = submit_for_approval (\<lambda>_. ''ab'') sample_service (mock_submit (\<lambda>_. ''ab'')) mock_reconcile
     5 ''j1'' w ''t1'' ''a1'' ''registry'' sample_digest_input None (JObj []) ''submit''"

lemma sample_reach: "reach (sub_init mock_effects) (sub_step (\<lambda>_. ''ab'') sample_service (mock_submit (\<lambda>_. ''ab'')) mock_reconcile) sample_sub_world"
  by (rule reach_init) (simp add: sub_init_def sample_sub_world_def mock_effects_def)

lemma sample_submitted:
  "\<exists>w out. sample_submit sample_sub_world = (w, Inr out) \<and> so_state out = Sub_succeeded \<and>
     mock_effects (sw_provider w) (''t1'', ''ab'') = 1 \<and> map sj_state (sub_jobs (sw_db w)) = [Sub_succeeded]"
  by (simp add: sample_submit_def sample_sub_world_def sample_service_def submit_for_approval_def Let_def sub_find_job_def
      idempotency_key_for_approval_def reauthorize_def sample_approval_def is_expired_def compute_action_digest_total
      sample_match consume_and_claim_def cas_row_def execute_def sub_move_def sub_load_def sub_transition_def mock_submit_def
      mock_effects_def)

lemma sample_reach_submitted:
  assumes "sample_submit sample_sub_world = (w, r)"
  shows "reach (sub_init mock_effects) (sub_step (\<lambda>_. ''ab'') sample_service (mock_submit (\<lambda>_. ''ab'')) mock_reconcile) w"
  using sample_reach step_submit [OF assms [unfolded sample_submit_def]] by (rule reach_step)

section \<open>Properties\<close>

text \<open>C1. Whatever the service does, and at whatever point between two of its transactions it
  crashes, a provider that acts at most once per call and answers reconciliations truthfully
  acts at most once on any idempotency key; it has acted exactly once where a job succeeded,
  and it acts only for a consumed approval, within the retry budget. Deduplication by the
  provider is not needed for this.\<close>

theorem at_most_one_effect:
  assumes "submission_provider submit reconcile effects"
    and "reach (sub_init effects) (sub_step sha256 svc submit reconcile) w"
  shows "effects (sw_provider w) k \<le> 1 \<and>
    (effects (sw_provider w) k = 1 \<longrightarrow> (\<exists>j\<in>set (sub_jobs (sw_db w)). sj_key j = k \<and>
       map_option ap_status (get_row ap_id (sub_approvals (sw_db w)) (sj_approval_id j)) = Some Ap_consumed \<and>
       sj_attempts j \<le> max 1 (sj_max_attempts j))) \<and>
    (\<forall>j\<in>set (sub_jobs (sw_db w)). sj_state j = Sub_succeeded \<longrightarrow> effects (sw_provider w) (sj_key j) = 1)"
proof -
  have inv: "sub_inv effects svc w"
    by (rule submission_provider.reachable_inv [OF assms])
  have job: "effects (sw_provider w) (sj_key j) \<le> 1 \<and> sj_attempts j \<le> max 1 (sj_max_attempts j) \<and>
      (sj_state j = Sub_succeeded \<longrightarrow> effects (sw_provider w) (sj_key j) = 1)" if "j \<in> set (sub_jobs (sw_db w))" for j
    using inv that by (cases "sj_state j") (auto simp: sub_inv_def sub_job_ok_def)
  show ?thesis
  proof (cases "k \<in> sj_key ` set (sub_jobs (sw_db w))")
    case True
    then obtain j where j: "j \<in> set (sub_jobs (sw_db w))" "k = sj_key j" by blast
    with job [OF j(1)] inv have "effects (sw_provider w) k \<le> 1"
      "map_option ap_status (get_row ap_id (sub_approvals (sw_db w)) (sj_approval_id j)) = Some Ap_consumed"
      by (simp_all add: sub_inv_def)
    with job j show ?thesis by blast
  next
    case False
    with sub_inv_no_key [OF inv False] job show ?thesis by simp
  qed
qed

theorem at_most_one_effect_witness:
  "\<exists>w out. sample_submit sample_sub_world = (w, Inr out) \<and> mock_effects (sw_provider w) (''t1'', ''ab'') = 1 \<and>
     (\<exists>j\<in>set (sub_jobs (sw_db w)). sj_key j = (''t1'', ''ab'') \<and>
       map_option ap_status (get_row ap_id (sub_approvals (sw_db w)) (sj_approval_id j)) = Some Ap_consumed)"
proof -
  obtain w out where s: "sample_submit sample_sub_world = (w, Inr out)" "mock_effects (sw_provider w) (''t1'', ''ab'') = 1"
    using sample_submitted by blast
  from at_most_one_effect [OF mock.submission_provider_axioms sample_reach_submitted [OF s(1)], of "(''t1'', ''ab'')"] s
  show ?thesis by blast
qed

text \<open>After a call that reported success, every later call for the same approval, whatever
  its time, destination, payload or digest input, changes nothing (the provider is not asked
  again) and reports success with the same job and the same receipt, marked deduplicated.\<close>

theorem resubmission_is_idempotent:
  assumes "submission_provider submit reconcile effects"
    and "reach (sub_init effects) (sub_step sha256 svc submit reconcile) w"
    and "submit_for_approval sha256 svc submit reconcile now jid w tenant i d di etv pl req = (w', Inr out)"
    and "so_state out = Sub_succeeded"
  shows "\<exists>out'. submit_for_approval sha256 svc submit reconcile now2 jid2 w' tenant i d2 di2 etv2 pl2 req2 = (w', Inr out') \<and>
    so_state out' = Sub_succeeded \<and> so_receipt_id out' = so_receipt_id out \<and> so_job_id out' = so_job_id out \<and>
    so_deduplicated out'"
proof -
  note inv = submission_provider.reachable_inv [OF assms(1,2)]
  have "sub_inv effects svc w'" by (rule submission_provider.submit_for_approval_inv [OF assms(1) inv assms(3)])
  from submit_settled [OF inv this assms(3,4)] show ?thesis
    by (auto simp: submit_for_approval_def Let_def resolve_existing_def)
qed

theorem resubmission_is_idempotent_witness:
  "\<exists>w out out'. sample_submit sample_sub_world = (w, Inr out) \<and> sample_submit w = (w, Inr out') \<and>
     so_receipt_id out' = so_receipt_id out \<and> so_deduplicated out'"
proof -
  obtain w out where s: "sample_submit sample_sub_world = (w, Inr out)" "so_state out = Sub_succeeded"
    using sample_submitted by blast
  from resubmission_is_idempotent [OF mock.submission_provider_axioms sample_reach s(1) [unfolded sample_submit_def] s(2)]
  have "\<exists>out'. sample_submit w = (w, Inr out') \<and> so_receipt_id out' = so_receipt_id out \<and> so_deduplicated out'"
    unfolding sample_submit_def by blast
  with s(1) show ?thesis by blast
qed

text \<open>A first call for an approval makes the provider act only if, at that moment, the
  approval belongs to the tenant, is approved and not expired, the digest of the action as it
  is now is the one that was approved, and the configured authority check passes for the
  decider; the approval is then consumed.\<close>

theorem submission_is_reauthorized:
  assumes "submit_for_approval sha256 svc submit reconcile now jid w tenant i d di etv pl req = (w', res)"
    and "sub_find_job svc (sw_db w) tenant (idempotency_key_for_approval sha256 i) = None"
    and "sw_provider w' \<noteq> sw_provider w"
  shows "\<exists>a digest. get_row ap_id (sub_approvals (sw_db w)) i = Some a \<and> ap_tenant_id a = tenant \<and>
    ap_status a = Ap_approved \<and> \<not> is_expired now a \<and>
    compute_action_digest sha256 di = Some digest \<and> digests_match (ap_action_digest a) digest = Some True \<and>
    (\<forall>check. ss_authority_check svc = Some check \<longrightarrow>
       check tenant (case ap_decided_by a of None \<Rightarrow> ap_requested_by a | Some u \<Rightarrow> if u = [] then ap_requested_by a else u) req = None)"
proof -
  have "reauthorize sha256 svc (sw_db w) now tenant i di etv req = Inr ()"
    using assms by (cases "reauthorize sha256 svc (sw_db w) now tenant i di etv req")
      (auto simp: submit_for_approval_def Let_def)
  then show ?thesis by (rule reauthorize_ok)
qed

theorem submission_is_reauthorized_witness:
  "\<exists>w out a. sample_submit sample_sub_world = (w, Inr out) \<and>
     get_row ap_id (sub_approvals (sw_db sample_sub_world)) ''a1'' = Some a \<and> ap_status a = Ap_approved \<and> \<not> is_expired 5 a"
proof -
  obtain w out where s: "sample_submit sample_sub_world = (w, Inr out)" "mock_effects (sw_provider w) (''t1'', ''ab'') = 1"
    using sample_submitted by blast
  have "sw_provider w \<noteq> sw_provider sample_sub_world" using s(2) by (auto simp: sample_sub_world_def mock_effects_def)
  moreover have "sub_find_job sample_service (sw_db sample_sub_world) ''t1'' (idempotency_key_for_approval (\<lambda>_. ''ab'') ''a1'') = None"
    by (simp add: sample_sub_world_def sub_find_job_def)
  ultimately show ?thesis
    using submission_is_reauthorized [OF s(1) [unfolded sample_submit_def]] s(1) by blast
qed

text \<open>A job left \<open>ready\<close> (the process died between the claim and the first transition, or
  between the end of a reconciliation and the retry) is never submitted: every later call for
  its approval and every reconciliation of it raises \<open>SUBMISSION_TRANSITION_INVALID\<close> and
  changes nothing.\<close>

theorem ready_job_is_stuck:
  assumes "submission_provider submit reconcile effects"
    and "reach (sub_init effects) (sub_step sha256 svc submit reconcile) w"
    and "sub_find_job svc (sw_db w) tenant (idempotency_key_for_approval sha256 i) = Some j" and "sj_state j = Sub_ready"
  shows "submit_for_approval sha256 svc submit reconcile now jid w tenant i d di etv pl req =
      (w, Inl (Sub_error ''SUBMISSION_TRANSITION_INVALID'')) \<and>
    sub_reconcile svc submit reconcile now w tenant (sj_id j) = (w, Inl (Sub_error ''SUBMISSION_TRANSITION_INVALID''))"
proof -
  note d = sub_inv_distinct [OF submission_provider.reachable_inv [OF assms(1,2)]]
  have j: "j \<in> set (sub_jobs (sw_db w))" "sj_tenant_id j = tenant"
    using find_SomeD [OF assms(3)] by (simp_all add: sj_key_def)
  have g: "get_row sj_id (sub_jobs (sw_db w)) (sj_id j) = Some j" by (rule get_row_in_set [OF d j(1)])
  have "reconcile_and_resume svc submit reconcile now w (sj_id j) = (w, Inl (Sub_error ''SUBMISSION_TRANSITION_INVALID''))"
    using assms(4) g by (simp add: reconcile_and_resume_def prepare_reconcile_def sub_load_def sub_move_def sub_transition_def)
  then show ?thesis
    using assms(3,4) g j(2) by (simp add: submit_for_approval_def Let_def resolve_existing_def sub_reconcile_def sub_load_def)
qed

theorem ready_job_is_stuck_witness:
  "\<exists>db. consume_and_claim sample_service (sw_db sample_sub_world) 5 ''j1'' ''t1'' ''a1''
       (idempotency_key_for_approval (\<lambda>_. ''ab'') ''a1'') ''registry'' None = (db, Inr (Some ''j1'')) \<and>
     sample_submit (sample_sub_world\<lparr>sw_db := db\<rparr>) =
       (sample_sub_world\<lparr>sw_db := db\<rparr>, Inl (Sub_error ''SUBMISSION_TRANSITION_INVALID''))"
proof -
  let ?key = "idempotency_key_for_approval (\<lambda>_. ''ab'') ''a1''"
  obtain db r where c': "consume_and_claim sample_service (sw_db sample_sub_world) 5 ''j1'' ''t1'' ''a1'' ?key ''registry'' None = (db, r)"
    by fastforce
  then have "r = Inr (Some ''j1'')"
    by (simp add: consume_and_claim_def sample_sub_world_def sample_approval_def sub_find_job_def cas_row_def)
  with c' have c: "consume_and_claim sample_service (sw_db sample_sub_world) 5 ''j1'' ''t1'' ''a1'' ?key ''registry'' None = (db, Inr (Some ''j1''))"
    by simp
  have inv: "sub_inv mock_effects sample_service sample_sub_world" by (rule mock.reachable_inv [OF sample_reach])
  obtain j where j': "get_row sj_id (sub_jobs db) ''j1'' = Some j" "sj_key j = (''t1'', ?key)" and st: "sj_state j = Sub_ready"
    using conjunct2 [OF claim_inv [OF inv c, of "''j1''"], rule_format, OF refl]
    by (cases "get_row sj_id (sub_jobs db) ''j1''") simp_all
  have j: "sub_find_job sample_service db ''t1'' ?key = Some j"
    using sub_find_job_unique [OF conjunct1 [OF claim_inv [OF inv c]], of j "''t1''" ?key] j' get_row_SomeD [OF j'(1)] by simp
  have r: "reach (sub_init mock_effects) (sub_step (\<lambda>_. ''ab'') sample_service (mock_submit (\<lambda>_. ''ab'')) mock_reconcile)
      (sample_sub_world\<lparr>sw_db := db\<rparr>)"
    by (rule reach_step [OF sample_reach]) (rule crash_claimed [OF c])
  have "sample_submit (sample_sub_world\<lparr>sw_db := db\<rparr>) =
      (sample_sub_world\<lparr>sw_db := db\<rparr>, Inl (Sub_error ''SUBMISSION_TRANSITION_INVALID''))"
    unfolding sample_submit_def
    by (rule conjunct1 [OF ready_job_is_stuck [OF mock.submission_provider_axioms r _ st]]) (simp add: j)
  with c show ?thesis by (intro exI conjI)
qed

end
