(* ===== verification/Quota.thy ===== *)
theory Quota
  imports Prelude
begin

text \<open>
  Quota admission: the Lua scripts and the coordinator over them (\<open>quota/coordinator.py\<close>),
  the binding to the runs API (\<open>quota/admission.py\<close>) and the durable ledger
  (\<open>quota/ledger.py\<close>).

  Redis is a keyspace of typed values with an optional expiry instant; \<open>clk\<close> is the clock of
  the Redis server and \<open>now\<close> the one a caller passes to a script, both in milliseconds. A key
  is visible up to and including its expiry. Lua numbers are rationals (the scripts add,
  scale and compare; rounding of doubles is not modelled). The outcome of each network call
  is the parameter \<open>net\<close>: \<open>Some exc\<close> means that the call raised before it reached Redis.
\<close>

section \<open>Redis\<close>

datatype redis_value = R_bucket rat int | R_zset "(string \<times> int) list"

type_synonym redis = "string \<rightharpoonup> redis_value \<times> int option"

definition r_get :: "int \<Rightarrow> redis \<Rightarrow> string \<Rightarrow> (redis_value \<times> int option) option" where
  "r_get clk st k = (case st k of
     None \<Rightarrow> None
   | Some (v, None) \<Rightarrow> Some (v, None)
   | Some (v, Some e) \<Rightarrow> if clk \<le> e then Some (v, Some e) else None)"

definition pexpire :: "int \<Rightarrow> redis \<Rightarrow> string \<Rightarrow> int \<Rightarrow> redis" where
  "pexpire clk st k ms = (case r_get clk st k of
     None \<Rightarrow> st
   | Some (v, _) \<Rightarrow> if ms \<le> 0 then st(k := None) else st(k \<mapsto> (v, Some (clk + ms))))"

definition zset_of :: "int \<Rightarrow> redis \<Rightarrow> string \<Rightarrow> string + (string \<times> int) list \<times> int option" where
  "zset_of clk st k = (case r_get clk st k of
     None \<Rightarrow> Inr ([], None)
   | Some (R_zset z, e) \<Rightarrow> Inr (z, e)
   | Some (R_bucket _ _, _) \<Rightarrow> Inl ''WRONGTYPE'')"

text \<open>A sorted set that becomes empty is removed together with its expiry.\<close>

definition put_zset :: "redis \<Rightarrow> string \<Rightarrow> (string \<times> int) list \<Rightarrow> int option \<Rightarrow> redis" where
  "put_zset st k z e = (if z = [] then st(k := None) else st(k \<mapsto> (R_zset z, e)))"

definition zadd :: "(string \<times> int) list \<Rightarrow> int \<Rightarrow> string \<Rightarrow> (string \<times> int) list" where
  "zadd z score member = filter (\<lambda>e. fst e \<noteq> member) z @ [(member, score)]"

definition zpurge :: "int \<Rightarrow> (string \<times> int) list \<Rightarrow> (string \<times> int) list" where
  "zpurge now z = filter (\<lambda>e. now < snd e) z"

definition zsoonest :: "(string \<times> int) list \<Rightarrow> int option" where
  "zsoonest z = (if z = [] then None else Some (Min (snd ` set z)))"

section \<open>The scripts\<close>

definition tb_refilled :: "rat \<Rightarrow> rat \<Rightarrow> int \<Rightarrow> (rat \<times> int) option \<Rightarrow> rat" where
  "tb_refilled capacity refill now data =
     (let (tokens, ts) = (case data of None \<Rightarrow> (capacity, now) | Some d \<Rightarrow> d);
          elapsed = (if now - ts < 0 then 0 else now - ts)
      in min capacity (tokens + of_int elapsed / 1000 * refill))"

definition tb_data :: "int \<Rightarrow> redis \<Rightarrow> string \<Rightarrow> string + ((rat \<times> int) option \<times> int option)" where
  "tb_data clk st k = (case r_get clk st k of
     None \<Rightarrow> Inr (None, None)
   | Some (R_bucket tokens ts, e) \<Rightarrow> Inr (Some (tokens, ts), e)
   | Some (R_zset _, _) \<Rightarrow> Inl ''WRONGTYPE'')"

definition token_bucket :: "int \<Rightarrow> redis \<Rightarrow> string \<Rightarrow> rat \<Rightarrow> rat \<Rightarrow> int \<Rightarrow> rat \<Rightarrow> int
    \<Rightarrow> string + redis \<times> bool \<times> int \<times> int" where
  "token_bucket clk st key capacity refill now cost ttl =
     res_bind (tb_data clk st key) (\<lambda>(data, e).
       let tokens = tb_refilled capacity refill now data;
           allowed = (cost \<le> tokens);
           retry = (if allowed then 0 else if 0 < refill then \<lceil>(cost - tokens) / refill * 1000\<rceil> else ttl);
           left = (if allowed then tokens - cost else tokens)
       in Inr (st(key \<mapsto> (R_bucket left now, if 0 < ttl then Some (clk + ttl) else e)),
               allowed, \<lfloor>left * 1000\<rfloor>, retry))"

definition acquire_slot :: "int \<Rightarrow> redis \<Rightarrow> string \<Rightarrow> int \<Rightarrow> int \<Rightarrow> int \<Rightarrow> string
    \<Rightarrow> string + redis \<times> bool \<times> int \<times> int" where
  "acquire_slot clk st key maxc now lease member =
     res_bind (zset_of clk st key) (\<lambda>(z, e).
       let live = zpurge now z; n = int (length live) in
       if n < maxc then
         Inr (pexpire clk (put_zset st key (zadd live (now + lease) member) (if live = [] then None else e)) key (lease + 1000),
              True, maxc - n - 1, 0)
       else
         Inr (put_zset st key live e, False, 0,
              (case zsoonest live of None \<Rightarrow> 0 | Some s \<Rightarrow> if s - now < 0 then 0 else s - now)))"

definition release_slot :: "int \<Rightarrow> redis \<Rightarrow> string \<Rightarrow> string \<Rightarrow> string + redis \<times> int" where
  "release_slot clk st key member =
     res_bind (zset_of clk st key) (\<lambda>(z, e).
       Inr (put_zset st key (filter (\<lambda>m. fst m \<noteq> member) z) e, if member \<in> fst ` set z then 1 else 0))"

section \<open>The coordinator\<close>

record quota_decision =
  qd_admitted :: bool
  qd_reason :: "string option"
  qd_http_status :: int
  qd_retry_after_seconds :: rat
  qd_lease_id :: "string option"
  qd_remaining_tokens :: rat

record quota_limits =
  ql_capacity :: rat
  ql_refill_per_sec :: rat
  ql_max_concurrency :: int
  ql_lease_ms :: int
  ql_cost :: rat

datatype redis_call = Call_acquire | Call_consume | Call_release

definition tb_key :: "string \<Rightarrow> string \<Rightarrow> string \<Rightarrow> string" where
  "tb_key prefix resource identity = prefix @ '':tb:'' @ resource @ '':'' @ identity"

definition sem_key :: "string \<Rightarrow> string \<Rightarrow> string \<Rightarrow> string" where
  "sem_key prefix resource identity = prefix @ '':sem:'' @ resource @ '':'' @ identity"

definition via :: "(redis_call \<Rightarrow> string option) \<Rightarrow> redis_call \<Rightarrow> string + 'a \<Rightarrow> string + 'a" where
  "via net c r = (case net c of None \<Rightarrow> r | Some exc \<Rightarrow> Inl exc)"

definition quota_admit :: "(redis_call \<Rightarrow> string option) \<Rightarrow> string \<Rightarrow> int \<Rightarrow> redis \<Rightarrow> string \<Rightarrow> string \<Rightarrow> quota_limits
    \<Rightarrow> int \<Rightarrow> string \<Rightarrow> redis \<times> (string + quota_decision)" where
  "quota_admit net prefix clk st resource identity limits now lease_id =
     (case via net Call_acquire (acquire_slot clk st (sem_key prefix resource identity)
             (ql_max_concurrency limits) now (ql_lease_ms limits) lease_id) of
        Inl e \<Rightarrow> (st, Inl e)
      | Inr (st1, acquired, _, sem_retry) \<Rightarrow>
          if \<not> acquired then
            (st1, Inr \<lparr>qd_admitted = False, qd_reason = Some ''concurrency_saturated'', qd_http_status = 503,
               qd_retry_after_seconds = of_int sem_retry / 1000, qd_lease_id = None, qd_remaining_tokens = 0\<rparr>)
          else
            (case via net Call_consume (token_bucket clk st1 (tb_key prefix resource identity) (ql_capacity limits)
                     (ql_refill_per_sec limits) now (ql_cost limits) (ql_lease_ms limits)) of
               Inl e \<Rightarrow> (st1, Inl e)
             | Inr (st2, allowed, tokens_milli, tb_retry) \<Rightarrow>
                 if \<not> allowed then
                   (case via net Call_release (release_slot clk st2 (sem_key prefix resource identity) lease_id) of
                      Inl e \<Rightarrow> (st2, Inl e)
                    | Inr (st3, _) \<Rightarrow>
                        (st3, Inr \<lparr>qd_admitted = False, qd_reason = Some ''rate_limited'', qd_http_status = 429,
                           qd_retry_after_seconds = of_int tb_retry / 1000, qd_lease_id = None,
                           qd_remaining_tokens = of_int tokens_milli / 1000\<rparr>))
                 else
                   (st2, Inr \<lparr>qd_admitted = True, qd_reason = None, qd_http_status = 200, qd_retry_after_seconds = 0,
                      qd_lease_id = Some lease_id, qd_remaining_tokens = of_int tokens_milli / 1000\<rparr>)))"

definition quota_release :: "string \<Rightarrow> int \<Rightarrow> redis \<Rightarrow> string \<Rightarrow> string \<Rightarrow> string \<Rightarrow> string + redis \<times> bool" where
  "quota_release prefix clk st resource identity lease_id =
     res_bind (release_slot clk st (sem_key prefix resource identity) lease_id) (\<lambda>(st', n). Inr (st', n = 1))"

definition active_slots :: "string \<Rightarrow> int \<Rightarrow> redis \<Rightarrow> string \<Rightarrow> string \<Rightarrow> int \<Rightarrow> string + redis \<times> int" where
  "active_slots prefix clk st resource identity now =
     res_bind (zset_of clk st (sem_key prefix resource identity)) (\<lambda>(z, e).
       let live = zpurge now z in
       Inr (put_zset st (sem_key prefix resource identity) live e, int (length live)))"

section \<open>The admission gate of the runs API\<close>

record admission_outcome =
  ao_admitted :: bool
  ao_reason :: string
  ao_http_status :: int
  ao_error_code :: string
  ao_retry_after_seconds :: rat

definition admitted_outcome :: admission_outcome where
  "admitted_outcome = \<lparr>ao_admitted = True, ao_reason = ''admitted'', ao_http_status = 200, ao_error_code = ''admitted'',
     ao_retry_after_seconds = 0\<rparr>"

definition REASON_TO_CODE :: "(string \<times> string) list" where
  "REASON_TO_CODE = [(''rate_limited'', ''RATE_LIMITED''), (''concurrency_saturated'', ''CONCURRENCY_SATURATED'')]"

text \<open>The limits provider may raise (left); every error of the coordinator is a \<open>RedisError\<close> or an \<open>OSError\<close>.\<close>

definition admission_admit :: "(redis_call \<Rightarrow> string option) \<Rightarrow> string \<Rightarrow> (string \<Rightarrow> string \<Rightarrow> string + quota_limits) \<Rightarrow> rat
    \<Rightarrow> int \<Rightarrow> redis \<Rightarrow> int \<Rightarrow> string \<Rightarrow> string \<Rightarrow> string \<Rightarrow> redis \<times> (string + admission_outcome)" where
  "admission_admit net prefix limits_provider fail_closed_retry_seconds clk st now lease_id resource identity =
     (case limits_provider resource identity of
        Inl exc \<Rightarrow> (st, Inl exc)
      | Inr limits \<Rightarrow>
          (case quota_admit net prefix clk st resource identity limits now lease_id of
             (st', Inl _) \<Rightarrow>
               (st', Inr \<lparr>ao_admitted = False, ao_reason = ''admission backend unavailable'', ao_http_status = 503,
                  ao_error_code = ''ADMISSION_UNAVAILABLE'', ao_retry_after_seconds = fail_closed_retry_seconds\<rparr>)
           | (st', Inr decision) \<Rightarrow>
               if qd_admitted decision then (st', Inr admitted_outcome)
               else
                 (let reason = (case qd_reason decision of None \<Rightarrow> ''rate_limited''
                                | Some r \<Rightarrow> if r = [] then ''rate_limited'' else r)
                  in (st', Inr \<lparr>ao_admitted = False, ao_reason = reason, ao_http_status = qd_http_status decision,
                       ao_error_code = (case map_of REASON_TO_CODE reason of None \<Rightarrow> ''RATE_LIMITED'' | Some c \<Rightarrow> c),
                       ao_retry_after_seconds = qd_retry_after_seconds decision\<rparr>))))"

section \<open>The ledger\<close>

record quota_policy =
  qp_id :: ident
  qp_scope :: string
  qp_tenant_id :: "ident option"
  qp_workload :: "string option"
  qp_requests_per_window :: int
  qp_window_seconds :: int
  qp_tokens_per_window :: int
  qp_max_concurrency :: int
  qp_queue_admission_limit :: int
  qp_active :: bool
  qp_created_at :: instant
  qp_updated_at :: instant
  qp_version :: int

record quota_lease =
  qle_id :: ident
  qle_tenant_id :: ident
  qle_run_id :: "ident option"
  qle_owner :: string
  qle_resource :: string
  qle_acquired_at :: instant
  qle_expires_at :: instant
  qle_released_at :: "instant option"
  qle_outcome :: "string option"
  qle_created_at :: instant

record usage_record =
  ur_id :: ident
  ur_tenant_id :: ident
  ur_run_id :: "ident option"
  ur_user_id :: "ident option"
  ur_kind :: string
  ur_provider :: "string option"
  ur_model :: "string option"
  ur_requests :: int
  ur_reserved_tokens :: int
  ur_actual_tokens :: int
  ur_latency_ms :: "int option"
  ur_occurred_at :: instant

record ledger_db =
  lg_policies :: "quota_policy list"
  lg_leases :: "quota_lease list"
  lg_usage :: "usage_record list"

definition RESOLUTION_TIERS :: "(string \<times> bool \<times> bool) list" where
  "RESOLUTION_TIERS = [(''tenant'', True, True), (''tenant'', True, False), (''global'', False, True), (''global'', False, False)]"

text \<open>The highest version among the rows, the first of them in table order.\<close>

fun newest_policy :: "quota_policy list \<Rightarrow> quota_policy option" where
  "newest_policy [] = None"
| "newest_policy (p # ps) =
     (case newest_policy ps of
        None \<Rightarrow> Some p
      | Some q \<Rightarrow> if qp_version p < qp_version q then Some q else Some p)"

definition tier_rows :: "quota_policy list \<Rightarrow> ident option \<Rightarrow> string option \<Rightarrow> string \<times> bool \<times> bool \<Rightarrow> quota_policy list" where
  "tier_rows ps tenant_id workload tier =
     (case tier of (scope, use_tenant, use_workload) \<Rightarrow>
        if (use_tenant \<and> tenant_id = None) \<or> (use_workload \<and> workload = None) then []
        else filter (\<lambda>p. qp_scope p = scope \<and> qp_active p \<and>
               qp_tenant_id p = (if use_tenant then tenant_id else None) \<and>
               qp_workload p = (if use_workload then workload else None)) ps)"

fun resolve_tiers :: "quota_policy list \<Rightarrow> ident option \<Rightarrow> string option \<Rightarrow> (string \<times> bool \<times> bool) list \<Rightarrow> quota_policy option" where
  "resolve_tiers ps tenant_id workload [] = None"
| "resolve_tiers ps tenant_id workload (t # ts) =
     (case newest_policy (tier_rows ps tenant_id workload t) of
        Some p \<Rightarrow> Some p
      | None \<Rightarrow> resolve_tiers ps tenant_id workload ts)"

definition resolve_policy :: "ledger_db \<Rightarrow> ident option \<Rightarrow> string option \<Rightarrow> quota_policy option" where
  "resolve_policy db tenant_id workload = resolve_tiers (lg_policies db) tenant_id workload RESOLUTION_TIERS"

definition upsert_policy :: "ledger_db \<Rightarrow> instant \<Rightarrow> ident \<Rightarrow> string \<Rightarrow> ident option \<Rightarrow> string option \<Rightarrow> int \<Rightarrow> int \<Rightarrow> int
    \<Rightarrow> int \<Rightarrow> int \<Rightarrow> int \<Rightarrow> bool \<Rightarrow> ledger_db \<times> ident" where
  "upsert_policy db now new_id scope tenant_id workload requests window tokens max_conc queue_limit version active =
     (case find (\<lambda>p. qp_scope p = scope \<and> qp_tenant_id p = tenant_id \<and> qp_workload p = workload \<and> qp_version p = version)
             (lg_policies db) of
        Some existing \<Rightarrow>
          (db\<lparr>lg_policies := put_row qp_id (lg_policies db) (qp_id existing)
             (\<lambda>p. p\<lparr>qp_requests_per_window := requests, qp_window_seconds := window, qp_tokens_per_window := tokens,
                    qp_max_concurrency := max_conc, qp_queue_admission_limit := queue_limit, qp_active := active,
                    qp_updated_at := now\<rparr>)\<rparr>, qp_id existing)
      | None \<Rightarrow>
          (db\<lparr>lg_policies := lg_policies db @
             [\<lparr>qp_id = new_id, qp_scope = scope, qp_tenant_id = tenant_id, qp_workload = workload,
               qp_requests_per_window = requests, qp_window_seconds = window, qp_tokens_per_window = tokens,
               qp_max_concurrency = max_conc, qp_queue_admission_limit = queue_limit, qp_active = active,
               qp_created_at = now, qp_updated_at = now, qp_version = version\<rparr>]\<rparr>, new_id))"

definition record_lease :: "ledger_db \<Rightarrow> instant \<Rightarrow> ident \<Rightarrow> ident \<Rightarrow> string \<Rightarrow> string \<Rightarrow> instant \<Rightarrow> ident option \<Rightarrow> instant option
    \<Rightarrow> ledger_db \<times> quota_lease" where
  "record_lease db now new_id tenant_id resource owner expires_at run_id acquired_at =
     (let lease = \<lparr>qle_id = new_id, qle_tenant_id = tenant_id, qle_run_id = run_id, qle_owner = owner, qle_resource = resource,
                   qle_acquired_at = (case acquired_at of None \<Rightarrow> now | Some t \<Rightarrow> t), qle_expires_at = expires_at,
                   qle_released_at = None, qle_outcome = None, qle_created_at = now\<rparr>
      in (db\<lparr>lg_leases := lg_leases db @ [lease]\<rparr>, lease))"

text \<open>\<open>Inl\<close> is the \<open>KeyError\<close> for an unknown lease.\<close>

definition close_lease :: "ledger_db \<Rightarrow> instant \<Rightarrow> ident \<Rightarrow> string \<Rightarrow> instant option \<Rightarrow> ledger_db \<times> (ident + quota_lease)" where
  "close_lease db now lease_id outcome released_at =
     (case get_row qle_id (lg_leases db) lease_id of
        None \<Rightarrow> (db, Inl lease_id)
      | Some lease \<Rightarrow>
          if qle_released_at lease = None then
            (let lease' = lease\<lparr>qle_released_at := Some (case released_at of None \<Rightarrow> now | Some t \<Rightarrow> t), qle_outcome := Some outcome\<rparr>
             in (db\<lparr>lg_leases := put_row qle_id (lg_leases db) lease_id (\<lambda>_. lease')\<rparr>, Inr lease'))
          else (db, Inr lease))"

definition open_leases :: "ledger_db \<Rightarrow> ident \<Rightarrow> quota_lease list" where
  "open_leases db tenant_id =
     sort_key qle_acquired_at (filter (\<lambda>l. qle_tenant_id l = tenant_id \<and> qle_released_at l = None) (lg_leases db))"

definition record_usage :: "ledger_db \<Rightarrow> instant \<Rightarrow> ident \<Rightarrow> ident \<Rightarrow> string \<Rightarrow> ident option \<Rightarrow> ident option \<Rightarrow> string option
    \<Rightarrow> string option \<Rightarrow> int \<Rightarrow> int \<Rightarrow> int \<Rightarrow> int option \<Rightarrow> instant option \<Rightarrow> ledger_db \<times> usage_record" where
  "record_usage db now new_id tenant_id kind run_id user_id provider model requests reserved actual latency occurred_at =
     (let r = \<lparr>ur_id = new_id, ur_tenant_id = tenant_id, ur_run_id = run_id, ur_user_id = user_id, ur_kind = kind,
               ur_provider = provider, ur_model = model, ur_requests = requests, ur_reserved_tokens = reserved,
               ur_actual_tokens = actual, ur_latency_ms = latency,
               ur_occurred_at = (case occurred_at of None \<Rightarrow> now | Some t \<Rightarrow> t)\<rparr>
      in (db\<lparr>lg_usage := lg_usage db @ [r]\<rparr>, r))"

definition usage_totals :: "ledger_db \<Rightarrow> ident \<Rightarrow> ident option \<Rightarrow> int \<times> int \<times> int \<times> int" where
  "usage_totals db tenant_id run_id =
     (let rows = filter (\<lambda>r. ur_tenant_id r = tenant_id \<and> (run_id = None \<or> ur_run_id r = run_id)) (lg_usage db)
      in (int (length rows), sum_list (map ur_requests rows), sum_list (map ur_reserved_tokens rows),
          sum_list (map ur_actual_tokens rows)))"

end
