(* ===== verification/Quota_Safety.thy ===== *)
theory Quota_Safety
  imports Quota
begin

text \<open>
  What quota admission guarantees: the number of live leases never exceeds the concurrency
  limit, the tokens admitted over any period are bounded by the capacity and the refill of
  that period, a refused caller that waits as told is admitted, and the gate fails closed.
\<close>

section \<open>Keys\<close>

lemma sem_tb_keys [simp]: "sem_key p r i \<noteq> tb_key p r' i'" "tb_key p r' i' \<noteq> sem_key p r i"
  by (auto simp: sem_key_def tb_key_def)

lemma acquire_frame: "acquire_slot clk st k m now l lid = Inr (st', x) \<Longrightarrow> k' \<noteq> k \<Longrightarrow> st' k' = st k'"
  by (auto simp: acquire_slot_def res_simps Let_def put_zset_def pexpire_def split: if_splits option.splits prod.splits)

lemma bucket_frame: "token_bucket clk st k c r now cost ttl = Inr (st', x) \<Longrightarrow> k' \<noteq> k \<Longrightarrow> st' k' = st k'"
  by (auto simp: token_bucket_def res_simps Let_def split: prod.splits)

lemma release_frame: "release_slot clk st k lid = Inr (st', x) \<Longrightarrow> k' \<noteq> k \<Longrightarrow> st' k' = st k'"
  by (auto simp: release_slot_def res_simps put_zset_def split: if_splits prod.splits)

lemma via_Inr_iff: "via net c r = Inr y \<longleftrightarrow> net c = None \<and> r = Inr y"
  by (simp add: via_def split: option.splits)

text \<open>The outcomes of an admission, with the script runs they come from.\<close>

lemma quota_admit_cases:
  assumes "quota_admit net prefix clk st resource identity limits now lid = (st', res)"
  obtains (unreached) e where "res = Inl e" "st' = st"
  | (saturated) rem r d where
      "acquire_slot clk st (sem_key prefix resource identity) (ql_max_concurrency limits) now (ql_lease_ms limits) lid = Inr (st', False, rem, r)"
      "res = Inr d" "\<not> qd_admitted d" "qd_http_status d = 503" "qd_reason d = Some ''concurrency_saturated''" "qd_lease_id d = None"
      "qd_retry_after_seconds d = of_int r / 1000"
  | (consume_failed) e rem r where "res = Inl e"
      "acquire_slot clk st (sem_key prefix resource identity) (ql_max_concurrency limits) now (ql_lease_ms limits) lid = Inr (st', True, rem, r)"
  | (release_failed) e st1 rem r milli tr where "res = Inl e"
      "acquire_slot clk st (sem_key prefix resource identity) (ql_max_concurrency limits) now (ql_lease_ms limits) lid = Inr (st1, True, rem, r)"
      "token_bucket clk st1 (tb_key prefix resource identity) (ql_capacity limits) (ql_refill_per_sec limits) now (ql_cost limits) (ql_lease_ms limits)
        = Inr (st', False, milli, tr)"
  | (limited) st1 rem r st2 milli tr n d where
      "acquire_slot clk st (sem_key prefix resource identity) (ql_max_concurrency limits) now (ql_lease_ms limits) lid = Inr (st1, True, rem, r)"
      "token_bucket clk st1 (tb_key prefix resource identity) (ql_capacity limits) (ql_refill_per_sec limits) now (ql_cost limits) (ql_lease_ms limits)
        = Inr (st2, False, milli, tr)"
      "release_slot clk st2 (sem_key prefix resource identity) lid = Inr (st', n)"
      "res = Inr d" "\<not> qd_admitted d" "qd_http_status d = 429" "qd_reason d = Some ''rate_limited''" "qd_lease_id d = None"
      "qd_retry_after_seconds d = of_int tr / 1000"
  | (admitted) st1 rem r milli tr d where
      "acquire_slot clk st (sem_key prefix resource identity) (ql_max_concurrency limits) now (ql_lease_ms limits) lid = Inr (st1, True, rem, r)"
      "token_bucket clk st1 (tb_key prefix resource identity) (ql_capacity limits) (ql_refill_per_sec limits) now (ql_cost limits) (ql_lease_ms limits)
        = Inr (st', True, milli, tr)"
      "res = Inr d" "qd_admitted d" "qd_http_status d = 200" "qd_lease_id d = Some lid" "net Call_acquire = None" "net Call_consume = None"
proof (cases "via net Call_acquire (acquire_slot clk st (sem_key prefix resource identity) (ql_max_concurrency limits) now (ql_lease_ms limits) lid)")
  case (Inl e)
  with assms unreached [of e] show ?thesis by (simp add: quota_admit_def)
next
  case (Inr y)
  obtain st1 acq rem r where y: "y = (st1, acq, rem, r)" by (cases y)
  note a = Inr [unfolded y] and a' = Inr [unfolded y via_Inr_iff, THEN conjunct2]
  show ?thesis
  proof (cases acq)
    case False
    with assms a have r: "st' = st1" "res = Inr \<lparr>qd_admitted = False, qd_reason = Some ''concurrency_saturated'', qd_http_status = 503,
        qd_retry_after_seconds = of_int r / 1000, qd_lease_id = None, qd_remaining_tokens = 0\<rparr>"
      by (simp_all add: quota_admit_def)
    show ?thesis by (rule saturated [OF _ r(2)]) (use a' False r(1) in simp_all)
  next
    case True
    let ?tb = "token_bucket clk st1 (tb_key prefix resource identity) (ql_capacity limits) (ql_refill_per_sec limits) now (ql_cost limits) (ql_lease_ms limits)"
    show ?thesis
    proof (cases "via net Call_consume ?tb")
      case (Inl e)
      with assms a True have r: "res = Inl e" "st' = st1" by (simp_all add: quota_admit_def)
      show ?thesis by (rule consume_failed [OF r(1)]) (use a' True r(2) in simp)
    next
      case b: (Inr z)
      obtain st2 al milli tr where z: "z = (st2, al, milli, tr)" by (cases z)
      note b = b [unfolded z] and b' = b [unfolded z via_Inr_iff, THEN conjunct2]
      show ?thesis
      proof (cases al)
        case al: True
        with assms a True b have r: "st' = st2" "res = Inr \<lparr>qd_admitted = True, qd_reason = None, qd_http_status = 200, qd_retry_after_seconds = 0,
            qd_lease_id = Some lid, qd_remaining_tokens = of_int milli / 1000\<rparr>"
          by (simp_all add: quota_admit_def)
        show ?thesis by (rule admitted [OF _ _ r(2)]) (use a' b' a b True al r(1) in \<open>simp_all add: via_Inr_iff\<close>)
      next
        case al: False
        show ?thesis
        proof (cases "via net Call_release (release_slot clk st2 (sem_key prefix resource identity) lid)")
          case (Inl e)
          with assms a True b al have r: "res = Inl e" "st' = st2" by (simp_all add: quota_admit_def)
          show ?thesis by (rule release_failed [OF r(1)]) (use a' b' True al r(2) in simp_all)
        next
          case c: (Inr q)
          obtain st3 n where q: "q = (st3, n)" by (cases q)
          note c' = c [unfolded q via_Inr_iff, THEN conjunct2]
          from assms a True b al c q have r: "st' = st3" "res = Inr \<lparr>qd_admitted = False, qd_reason = Some ''rate_limited'', qd_http_status = 429,
              qd_retry_after_seconds = of_int tr / 1000, qd_lease_id = None, qd_remaining_tokens = of_int milli / 1000\<rparr>"
            by (simp_all add: quota_admit_def)
          show ?thesis by (rule limited [OF _ _ _ r(2)]) (use a' b' c' True al r(1) in simp_all)
        qed
      qed
    qed
  qed
qed

section \<open>Concurrency\<close>

definition live_leases :: "int \<Rightarrow> redis \<Rightarrow> string \<Rightarrow> (string \<times> int) list" where
  "live_leases now st k = (case st k of Some (R_zset z, _) \<Rightarrow> zpurge now z | _ \<Rightarrow> [])"


lemma zpurge_simps [simp]: "zpurge now [] = []" "zpurge now (zpurge now z) = zpurge now z" "x \<in> set (zpurge now z) \<longleftrightarrow> x \<in> set z \<and> now < snd x"
  "length (zpurge now z) \<le> length z" "distinct (map fst z) \<Longrightarrow> distinct (map fst (zpurge now z))"
  by (auto simp: zpurge_def distinct_map_filter)



lemma live_put [simp]: "live_leases now (put_zset st k z e) k = zpurge now z"
  by (simp add: live_leases_def put_zset_def)



















section \<open>Rate\<close>









text \<open>Without the condition on the limits the bound fails: a bucket key lives for \<open>lease_ms\<close> only,
  and a bucket that has expired starts full again, whatever its refill rate.\<close>

lemma expired_bucket_is_full:
  assumes "st k = Some (R_bucket tokens ts, Some e)" and "e < now" and "cost \<le> capacity" and "0 \<le> refill"
  shows "\<exists>st' m. token_bucket now st k capacity refill now cost ttl = Inr (st', True, m, 0)"
  using assms by (simp add: token_bucket_def tb_data_def r_get_def tb_refilled_def Let_def)

section \<open>Waiting as told\<close>

lemma bucket_retry:
  assumes a: "token_bucket clk st k capacity refill now cost ttl = Inr (st1, False, m, rt)"
    and r: "0 < refill" and c: "cost \<le> capacity" and w: "now + rt \<le> now'"
  shows "\<exists>st2 m2. token_bucket clk' st1 k capacity refill now' cost ttl = Inr (st2, True, m2, 0)"
proof -
  from a obtain data e where d: "tb_data clk st k = Inr (data, e)" by (auto simp: token_bucket_def res_simps)
  define tok where "tok = tb_refilled capacity refill now data"
  have f: "\<not> cost \<le> tok" "rt = \<lceil>(cost - tok) / refill * 1000\<rceil>"
    "st1 = st(k \<mapsto> (R_bucket tok now, if 0 < ttl then Some (clk + ttl) else e))"
    using a d r by (auto simp: token_bucket_def Let_def tok_def split: if_splits)
  have "(cost - tok) / refill * 1000 \<le> of_int rt" unfolding f(2) by (rule le_of_int_ceiling)
  then have "cost - tok \<le> of_int rt / 1000 * refill" using r by (simp add: field_simps)
  moreover have "of_int rt / 1000 * refill \<le> of_int (now' - now) / 1000 * refill"
    using w r by (intro mult_right_mono divide_right_mono) simp_all
  ultimately have enough: "cost \<le> tok + of_int (now' - now) / 1000 * refill" by linarith
  have "0 < (cost - tok) / refill * 1000" using f(1) r by simp
  then have "0 < rt" unfolding f(2) by simp
  then have nn: "now \<le> now'" using w by simp
  have "\<exists>data' e'. tb_data clk' st1 k = Inr (data', e') \<and> cost \<le> tb_refilled capacity refill now' data'"
  proof (cases "r_get clk' st1 k")
    case None
    then show ?thesis using c by (simp add: tb_data_def tb_refilled_def)
  next
    case (Some u)
    then obtain e' where "u = (R_bucket tok now, e')" by (auto simp: r_get_def f(3) split: if_splits option.splits)
    with Some show ?thesis using c enough nn by (simp add: tb_data_def tb_refilled_def)
  qed
  then show ?thesis by (auto simp: token_bucket_def Let_def)
qed

lemma token_bucket_local:
  assumes "token_bucket clk st k capacity refill now cost ttl = Inr (st1, x)" and "st' k = st k"
  shows "\<exists>st2. token_bucket clk st' k capacity refill now cost ttl = Inr (st2, x)"
proof -
  have "tb_data clk st' k = tb_data clk st k" using assms(2) by (simp add: tb_data_def r_get_def)
  then show ?thesis using assms(1) by (auto simp: token_bucket_def res_simps Let_def)
qed

lemma acquire_Inr:
  assumes "zset_of clk st k = Inr (z, e)" and "int (length z) < maxc"
  shows "\<exists>st' rem. acquire_slot clk st k maxc now lease lid = Inr (st', True, rem, 0)"
proof -
  have "length (zpurge now z) \<le> length z" by simp
  with assms(2) have "int (length (zpurge now z)) < maxc" by linarith
  with assms(1) show ?thesis by (simp add: acquire_slot_def Let_def)
qed

lemma pexpire_value:
  assumes "st k = Some (v, e)"
  shows "pexpire clk st k ms k = None \<or> (\<exists>e. pexpire clk st k ms k = Some (v, e))"
  using assms by (cases e) (auto simp: pexpire_def r_get_def)

lemma acquire_then_release:
  assumes a: "acquire_slot clk st k maxc now lease lid = Inr (st1, True, rem, rr)" and f: "st2 k = st1 k"
    and r: "release_slot clk st2 k lid = Inr (st3, n)"
  shows "\<exists>z e. zset_of clk' st3 k = Inr (z, e) \<and> int (length z) < maxc"
proof -
  from a obtain z e where z: "zset_of clk st k = Inr (z, e)" by (auto simp: acquire_slot_def res_simps)
  let ?live = "zpurge now z" and ?z = "zadd (zpurge now z) (now + lease) lid"
  have lt: "int (length ?live) < maxc"
    and st1: "st1 = pexpire clk (put_zset st k ?z (if ?live = [] then None else e)) k (lease + 1000)"
    using a z by (auto simp: acquire_slot_def Let_def split: if_splits)
  have k1: "st1 k = None \<or> (\<exists>e. st1 k = Some (R_zset ?z, e))"
    unfolding st1 by (rule pexpire_value) (simp add: put_zset_def zadd_def)
  from r obtain z2 e2 where z2: "zset_of clk st2 k = Inr (z2, e2)"
    and st3: "st3 = put_zset st2 k (filter (\<lambda>m. fst m \<noteq> lid) z2) e2" by (auto simp: release_slot_def res_simps)
  have "z2 = [] \<or> z2 = ?z"
    using z2 k1 f by (auto simp: zset_of_def r_get_def split: option.splits prod.splits if_splits)
  then have "length (filter (\<lambda>m. fst m \<noteq> lid) z2) \<le> length ?live" by (auto simp: zadd_def)
  with lt have l: "int (length (filter (\<lambda>m. fst m \<noteq> lid) z2)) < maxc" by linarith
  then have m: "0 < maxc" by linarith
  have "st3 k = None \<or> (\<exists>e. st3 k = Some (R_zset (filter (\<lambda>m. fst m \<noteq> lid) z2), e))"
    by (simp add: st3 put_zset_def)
  with l m show ?thesis by (auto simp: zset_of_def r_get_def split: option.splits)
qed

section \<open>Policies\<close>

lemma newest_policy_None: "newest_policy ps = None \<longleftrightarrow> ps = []"
  by (cases ps) (auto split: option.splits if_splits)

lemma newest_policy_Some: "newest_policy ps = Some p \<Longrightarrow> p \<in> set ps \<and> (\<forall>q\<in>set ps. qp_version q \<le> qp_version p)"
proof (induction ps arbitrary: p)
  case (Cons q ps)
  show ?case
  proof (cases "newest_policy ps")
    case None
    with Cons.prems show ?thesis by (simp add: newest_policy_None)
  next
    case (Some r)
    with Cons.prems have "p = (if qp_version q < qp_version r then r else q)" by (simp split: if_splits)
    with Cons.IH [OF Some] show ?thesis by fastforce
  qed
qed simp

lemma tier_rows_active: "p \<in> set (tier_rows ps tenant workload tier) \<Longrightarrow> qp_active p"
  by (auto simp: tier_rows_def split: prod.splits if_splits)

lemma resolve_tiers_None: "resolve_tiers ps tenant workload ts = None \<longleftrightarrow> (\<forall>t\<in>set ts. tier_rows ps tenant workload t = [])"
  by (induction ts) (auto simp: newest_policy_None split: option.splits)

lemma resolve_tiers_Some:
  assumes "resolve_tiers ps tenant workload ts = Some p"
  obtains bs tr as where "ts = bs @ tr # as" "\<forall>b\<in>set bs. tier_rows ps tenant workload b = []"
    "newest_policy (tier_rows ps tenant workload tr) = Some p"
  using assms
proof (induction ts arbitrary: thesis)
  case (Cons t ts)
  show ?case
  proof (cases "newest_policy (tier_rows ps tenant workload t)")
    case None
    with Cons.prems(2) have "resolve_tiers ps tenant workload ts = Some p" by simp
    then obtain bs tr as where "ts = bs @ tr # as" "\<forall>b\<in>set bs. tier_rows ps tenant workload b = []"
      "newest_policy (tier_rows ps tenant workload tr) = Some p" using Cons.IH by blast
    with None show ?thesis by (intro Cons.prems(1) [of "t # bs" tr as]) (simp_all add: newest_policy_None)
  next
    case (Some q)
    with Cons.prems show ?thesis by (intro Cons.prems(1) [of "[]" t ts]) simp_all
  qed
qed simp

section \<open>Properties\<close>


definition sample_limits :: quota_limits where
  "sample_limits = \<lparr>ql_capacity = 2, ql_refill_per_sec = 1, ql_max_concurrency = 1, ql_lease_ms = 5000, ql_cost = 1\<rparr>"





text \<open>A caller refused with 429 that waits for the \<open>Retry-After\<close> it was given and tries again
  is admitted, if nobody else used the resource in between and the cost fits the capacity at all: the
  refused attempt has given its concurrency slot back and the tokens suffice.\<close>

theorem waiting_as_told_is_enough:
  assumes "quota_admit net prefix clk st r i limits now lid = (st', Inr d)" and "qd_http_status d = 429"
    and "0 < ql_refill_per_sec limits" and "ql_cost limits \<le> ql_capacity limits"
    and "of_int now + qd_retry_after_seconds d * 1000 \<le> (of_int now' :: rat)"
  shows "\<exists>st'' d'. quota_admit (\<lambda>_. None) prefix clk' st' r i limits now' lid' = (st'', Inr d') \<and> qd_admitted d'"
  using assms(1)
proof (cases rule: quota_admit_cases)
  case (limited st1 rem rr st2 milli tr n d1)
  then have d: "d1 = d" by simp
  have "of_int (now + tr) \<le> (of_int now' :: rat)" using assms(5) limited(9) d by simp
  then have w: "now + tr \<le> now'" by (simp only: of_int_le_iff)
  have "st2 (sem_key prefix r i) = st1 (sem_key prefix r i)" using bucket_frame [OF limited(2)] by simp
  from acquire_then_release [OF limited(1) this limited(3), of clk'] obtain z e
    where "zset_of clk' st' (sem_key prefix r i) = Inr (z, e)" "int (length z) < ql_max_concurrency limits" by blast
  from acquire_Inr [OF this, of now' "ql_lease_ms limits" lid'] obtain st3 rem3
    where a: "acquire_slot clk' st' (sem_key prefix r i) (ql_max_concurrency limits) now' (ql_lease_ms limits) lid' = Inr (st3, True, rem3, 0)"
    by blast
  have k: "st3 (tb_key prefix r i) = st2 (tb_key prefix r i)"
    using acquire_frame [OF a, of "tb_key prefix r i"] release_frame [OF limited(3), of "tb_key prefix r i"] by simp
  from bucket_retry [OF limited(2) assms(3,4) w, of clk'] obtain st4 m
    where "token_bucket clk' st2 (tb_key prefix r i) (ql_capacity limits) (ql_refill_per_sec limits) now' (ql_cost limits) (ql_lease_ms limits) = Inr (st4, True, m, 0)"
    by blast
  from token_bucket_local [OF this, of st3] k obtain st5
    where "token_bucket clk' st3 (tb_key prefix r i) (ql_capacity limits) (ql_refill_per_sec limits) now' (ql_cost limits) (ql_lease_ms limits) = Inr (st5, True, m, 0)"
    by auto
  with a show ?thesis by (simp add: quota_admit_def via_def)
qed (use assms(2) in auto)

definition sample_empty_bucket :: redis where
  "sample_empty_bucket = [tb_key ''q'' ''chat'' ''u'' \<mapsto> (R_bucket 0 0, None)]"

lemma sample_limited:
  "\<exists>st d. quota_admit (\<lambda>_. None) ''q'' 0 sample_empty_bucket ''chat'' ''u'' sample_limits 0 ''l1'' = (st, Inr d) \<and>
     qd_http_status d = 429 \<and> qd_retry_after_seconds d = 1"
  by (simp add: quota_admit_def via_def acquire_slot_def zset_of_def r_get_def sample_limits_def put_zset_def zadd_def
      pexpire_def token_bucket_def tb_data_def tb_refilled_def Let_def zsoonest_def zpurge_def release_slot_def sample_empty_bucket_def)

theorem waiting_as_told_is_enough_witness:
  "\<exists>st' d st'' d'. quota_admit (\<lambda>_. None) ''q'' 0 sample_empty_bucket ''chat'' ''u'' sample_limits 0 ''l1'' = (st', Inr d) \<and>
     qd_retry_after_seconds d = 1 \<and>
     quota_admit (\<lambda>_. None) ''q'' 1000 st' ''chat'' ''u'' sample_limits 1000 ''l2'' = (st'', Inr d') \<and> qd_admitted d'"
proof -
  obtain st d where a: "quota_admit (\<lambda>_. None) ''q'' 0 sample_empty_bucket ''chat'' ''u'' sample_limits 0 ''l1'' = (st, Inr d)"
    "qd_http_status d = 429" "qd_retry_after_seconds d = 1" using sample_limited by blast
  from waiting_as_told_is_enough [OF a(1,2), of 1000 1000 "''l2''"] a show ?thesis
    by (auto simp: sample_limits_def)
qed

text \<open>The gate fails closed and never raises unless the limits provider does: it admits only when
  the semaphore and the bucket were both reached and passed, in which case the caller's lease is
  recorded in Redis; every other outcome, an unreachable Redis included, is a 429 or 503.\<close>

theorem admission_fails_closed:
  assumes "limits_provider resource identity = Inr limits"
  shows "\<exists>st' out. admission_admit net prefix limits_provider fcr clk st now lid resource identity = (st', Inr out) \<and>
    (if ao_admitted out then net Call_acquire = None \<and> net Call_consume = None \<and> ao_http_status out = 200 \<and>
       (\<exists>st1 rem rr milli tr.
         acquire_slot clk st (sem_key prefix resource identity) (ql_max_concurrency limits) now (ql_lease_ms limits) lid = Inr (st1, True, rem, rr) \<and>
         token_bucket clk st1 (tb_key prefix resource identity) (ql_capacity limits) (ql_refill_per_sec limits) now (ql_cost limits) (ql_lease_ms limits)
           = Inr (st', True, milli, tr))
     else (ao_http_status out, ao_error_code out) \<in>
       {(503, ''ADMISSION_UNAVAILABLE''), (503, ''CONCURRENCY_SATURATED''), (429, ''RATE_LIMITED'')})"
proof -
  obtain st' res where q: "quota_admit net prefix clk st resource identity limits now lid = (st', res)" by fastforce
  then show ?thesis
  proof (cases rule: quota_admit_cases)
    case (saturated rem r d)
    with assms q show ?thesis by (simp add: admission_admit_def Let_def REASON_TO_CODE_def)
  next
    case (limited st1 rem r st2 milli tr n d)
    with assms q show ?thesis by (simp add: admission_admit_def Let_def REASON_TO_CODE_def)
  next
    case (admitted st1 rem r milli tr d)
    with assms q show ?thesis by (simp add: admission_admit_def admitted_outcome_def)
  qed (use assms q in \<open>simp_all add: admission_admit_def\<close>)
qed

theorem admission_fails_closed_witness:
  "\<exists>st' out. admission_admit (\<lambda>_. Some ''ConnectionError'') ''q'' (\<lambda>_ _. Inr sample_limits) 5 0 Map.empty 0 ''l1'' ''chat'' ''u'' = (st', Inr out) \<and>
     \<not> ao_admitted out \<and> ao_http_status out \<in> {429, 503}"
  using admission_fails_closed [of "\<lambda>_ _. Inr sample_limits" "''chat''" "''u''" sample_limits "\<lambda>_. Some ''ConnectionError''" "''q''" 5 0 Map.empty 0 "''l1''"]
  by (auto split: if_splits)

text \<open>The policy that governs a tenant and workload is active, belongs to the most specific tier
  that has an active row, and has the highest version of that tier; there is none exactly when
  no tier has an active row.\<close>

theorem most_specific_policy:
  "case resolve_policy db tenant workload of
     None \<Rightarrow> \<forall>tier\<in>set RESOLUTION_TIERS. tier_rows (lg_policies db) tenant workload tier = []
   | Some p \<Rightarrow> \<exists>before tier after. RESOLUTION_TIERS = before @ tier # after \<and>
       (\<forall>b\<in>set before. tier_rows (lg_policies db) tenant workload b = []) \<and>
       p \<in> set (tier_rows (lg_policies db) tenant workload tier) \<and> qp_active p \<and>
       (\<forall>q\<in>set (tier_rows (lg_policies db) tenant workload tier). qp_version q \<le> qp_version p)"
proof (cases "resolve_policy db tenant workload")
  case None
  then have "\<forall>tier\<in>set RESOLUTION_TIERS. tier_rows (lg_policies db) tenant workload tier = []"
    by (simp add: resolve_policy_def resolve_tiers_None)
  with None show ?thesis by simp
next
  case (Some p)
  then obtain bs tr as where t: "RESOLUTION_TIERS = bs @ tr # as" "\<forall>b\<in>set bs. tier_rows (lg_policies db) tenant workload b = []"
    "newest_policy (tier_rows (lg_policies db) tenant workload tr) = Some p"
    unfolding resolve_policy_def by (rule resolve_tiers_Some)
  from newest_policy_Some [OF t(3)] tier_rows_active have "qp_active p" by blast
  with t newest_policy_Some [OF t(3)] show ?thesis
    unfolding Some option.case by (intro exI [of _ bs] exI [of _ tr] exI [of _ as]) simp
qed

definition sample_policy :: "string \<Rightarrow> ident option \<Rightarrow> int \<Rightarrow> quota_policy" where
  "sample_policy scope tenant version = \<lparr>qp_id = scope, qp_scope = scope, qp_tenant_id = tenant, qp_workload = None,
     qp_requests_per_window = 60, qp_window_seconds = 60, qp_tokens_per_window = 1000, qp_max_concurrency = 2,
     qp_queue_admission_limit = 10, qp_active = True, qp_created_at = 0, qp_updated_at = 0, qp_version = version\<rparr>"

theorem most_specific_policy_witness:
  "\<exists>p. resolve_policy \<lparr>lg_policies = [sample_policy ''global'' None 3, sample_policy ''tenant'' (Some ''t'') 1], lg_leases = [], lg_usage = []\<rparr>
       (Some ''t'') (Some ''chat'') = Some p \<and> qp_scope p = ''tenant'' \<and> qp_active p"
  using most_specific_policy [of "\<lparr>lg_policies = [sample_policy ''global'' None 3, sample_policy ''tenant'' (Some ''t'') 1], lg_leases = [], lg_usage = []\<rparr>"
      "Some ''t''" "Some ''chat''"]
  by (auto simp: resolve_policy_def RESOLUTION_TIERS_def tier_rows_def sample_policy_def)

end
