(* ===== verification/Repo_Core.thy ===== *)
theory Repo_Core
  imports Canonical_Json Py_Text
begin

text \<open>
  The shared part of the tenant-scoped repositories (\<open>db/repositories.py\<close>): the typed errors and the shape in which they leave the
  program, the checks of the arguments, and the queries every repository is made of. A table is a list of rows in insertion order, which is also the order
  of an unordered query; \<open>tenant_of\<close> reads its (possibly null) column \<open>tenant_id\<close>.

  The locale \<open>tenant_table\<close> is the interface of a table the repositories update: under it the answer for a tenant depends on that
  tenant's rows alone, rows of others are left as they are, and a stale writer loses.
\<close>

section \<open>Errors\<close>

text \<open>\<open>Repo_value_error\<close> is Python's \<open>ValueError\<close> (with the name of the refused argument), \<open>Repo_integrity_error\<close> an \<open>IntegrityError\<close> of the database.\<close>

datatype repo_error =
    Tenant_scope_error string
  | Resource_not_found string string
  | Tenant_not_found string
  | Version_conflict string string int
  | Repo_idempotency_conflict string string
  | Unknown_resource_kind string
  | Run_event_sequence_conflict ident int
  | Run_state_transition string string
  | Repo_value_error string
  | Repo_integrity_error

record app_error =
  ae_code :: string
  ae_message :: string
  ae_status_code :: int
  ae_details :: "(string \<times> json) list"

definition MAX_MESSAGE_IDENTIFIER :: nat where "MAX_MESSAGE_IDENTIFIER = 64"

text \<open>\<open>isprintable\<close> of a character: not a control character, the no-break space or the soft hyphen.\<close>

definition is_printable :: "char \<Rightarrow> bool" where
  "is_printable c = (let n = (of_char c :: nat) in 32 \<le> n \<and> n \<le> 126 \<or> 161 \<le> n \<and> n \<noteq> 173)"

definition printable :: "string \<Rightarrow> string" where
  "printable value =
     (let cleaned = map (\<lambda>c. if is_printable c then c else CHR ''?'') value in
      if MAX_MESSAGE_IDENTIFIER < length cleaned then take MAX_MESSAGE_IDENTIFIER cleaned @ ''...'' else cleaned)"

definition not_found_message :: "string \<Rightarrow> string \<Rightarrow> string" where
  "not_found_message kind i = kind @ '' '' @ printable i @ '' was not found''"

definition RESOURCE_KINDS :: "string list" where
  "RESOURCE_KINDS = [''tenant'', ''user'', ''role'', ''user_role_grant'', ''agent_run'', ''graph_checkpoint_binding'', ''audit_event'',
     ''eval_case'', ''eval_run'', ''retrieval_eval_item'']"

text \<open>The error as \<open>ApplicationError\<close> carries it to the API; \<open>ValueError\<close> and \<open>IntegrityError\<close> are none. The tenant is a text here, so it was always supplied.\<close>

definition error_shape :: "repo_error \<Rightarrow> app_error option" where
  "error_shape e = (case e of
     Tenant_scope_error operation \<Rightarrow>
       Some \<lparr>ae_code = ''MISSING_TENANT_SCOPE'', ae_message = ''An explicit tenant_id is required for this operation'', ae_status_code = 400,
             ae_details = [(''operation'', JStr operation), (''tenant_supplied'', JBool True)]\<rparr>
   | Resource_not_found kind i \<Rightarrow>
       Some \<lparr>ae_code = ''RESOURCE_NOT_FOUND'', ae_message = not_found_message kind i, ae_status_code = 404,
             ae_details = [(''resource_kind'', JStr kind), (''resource_id'', JStr (printable i))]\<rparr>
   | Tenant_not_found i \<Rightarrow>
       Some \<lparr>ae_code = ''TENANT_NOT_FOUND'', ae_message = not_found_message ''tenant'' i, ae_status_code = 404,
             ae_details = [(''resource_kind'', JStr ''tenant''), (''resource_id'', JStr (printable i))]\<rparr>
   | Version_conflict kind i v \<Rightarrow>
       Some \<lparr>ae_code = ''VERSION_CONFLICT'', ae_message = kind @ '' '' @ printable i @ '' was modified by another writer; expected version '' @ show_int v,
             ae_status_code = 409, ae_details = [(''resource_kind'', JStr kind), (''resource_id'', JStr (printable i)), (''expected_version'', JInt v)]\<rparr>
   | Repo_idempotency_conflict operation key \<Rightarrow>
       Some \<lparr>ae_code = ''IDEMPOTENCY_CONFLICT'',
             ae_message = ''idempotency key '' @ printable key @ '' for operation '' @ printable operation @ '' is already bound to a different request'',
             ae_status_code = 409, ae_details = [(''operation'', JStr operation), (''idempotency_key'', JStr (printable key))]\<rparr>
   | Unknown_resource_kind kind \<Rightarrow>
       Some \<lparr>ae_code = ''UNKNOWN_RESOURCE_KIND'', ae_message = ''Unsupported resource kind '' @ printable kind, ae_status_code = 400,
             ae_details = [(''resource_kind'', JStr (printable kind)), (''supported'', JArr (map JStr (sort RESOURCE_KINDS)))]\<rparr>
   | Run_event_sequence_conflict run n \<Rightarrow>
       Some \<lparr>ae_code = ''RUN_EVENT_SEQUENCE_CONFLICT'', ae_message = ''run '' @ printable run @ '' already has an event at sequence '' @ show_int n,
             ae_status_code = 409, ae_details = [(''run_id'', JStr (printable run)), (''sequence'', JInt n)]\<rparr>
   | Run_state_transition run status \<Rightarrow>
       Some \<lparr>ae_code = ''RUN_STATE_TRANSITION_INVALID'', ae_message = ''run '' @ printable run @ '' is terminal and cannot be resumed in place'',
             ae_status_code = 409, ae_details = [(''run_id'', JStr (printable run)), (''status'', JStr status)]\<rparr>
   | Repo_value_error field \<Rightarrow> None
   | Repo_integrity_error \<Rightarrow> None)"

section \<open>Arguments\<close>

definition require_tenant :: "string \<Rightarrow> string \<Rightarrow> repo_error + string" where
  "require_tenant tenant_id operation = (if py_strip tenant_id = [] then Inl (Tenant_scope_error operation) else Inr (py_strip tenant_id))"

definition require_text :: "string \<Rightarrow> string \<Rightarrow> repo_error + string" where
  "require_text field value = (if py_strip value = [] then Inl (Repo_value_error field) else Inr (py_strip value))"

definition require_version :: "int \<Rightarrow> string \<Rightarrow> repo_error + int" where
  "require_version expected operation = (if expected < 1 then Inl (Repo_value_error operation) else Inr expected)"

definition require_limit :: "int \<Rightarrow> repo_error + int" where
  "require_limit limit = (if limit < 1 then Inl (Repo_value_error ''limit'') else Inr limit)"

section \<open>Queries\<close>

definition entity_where :: "('r \<Rightarrow> ident) \<Rightarrow> ('r \<Rightarrow> string option) \<Rightarrow> ident \<Rightarrow> string option \<Rightarrow> 'r \<Rightarrow> bool" where
  "entity_where key tenant_of i tenant r \<longleftrightarrow> key r = i \<and> (case tenant of None \<Rightarrow> True | Some tn \<Rightarrow> tenant_of r = Some tn)"

definition fetch_optional :: "('r \<Rightarrow> ident) \<Rightarrow> ('r \<Rightarrow> string option) \<Rightarrow> 'r list \<Rightarrow> ident \<Rightarrow> string option \<Rightarrow> 'r option" where
  "fetch_optional key tenant_of t i tenant = find (entity_where key tenant_of i tenant) t"

definition fetch_one :: "('r \<Rightarrow> ident) \<Rightarrow> ('r \<Rightarrow> string option) \<Rightarrow> string \<Rightarrow> 'r list \<Rightarrow> ident \<Rightarrow> string option \<Rightarrow> repo_error + 'r" where
  "fetch_one key tenant_of kind t i tenant = res_of_option (Resource_not_found kind i) (find (entity_where key tenant_of i tenant) t)"

text \<open>\<open>next_version\<close>: \<open>version + 1\<close>, and \<open>updated_at\<close> where the model has one (\<open>touch\<close>).\<close>

definition next_version :: "('r \<Rightarrow> int) \<Rightarrow> (int \<Rightarrow> 'r \<Rightarrow> 'r) \<Rightarrow> ('r \<Rightarrow> 'r) \<Rightarrow> ('r \<Rightarrow> 'r) \<Rightarrow> 'r \<Rightarrow> 'r" where
  "next_version ver set_ver touch upd r = set_ver (ver r + 1) (touch (upd r))"

text \<open>The probe, the update and the refreshed row.\<close>

definition apply_compare_and_set :: "('r \<Rightarrow> ident) \<Rightarrow> ('r \<Rightarrow> string option) \<Rightarrow> ('r \<Rightarrow> int) \<Rightarrow> (int \<Rightarrow> 'r \<Rightarrow> 'r) \<Rightarrow> ('r \<Rightarrow> 'r) \<Rightarrow> string
    \<Rightarrow> 'r list \<Rightarrow> ident \<Rightarrow> string option \<Rightarrow> int \<Rightarrow> ('r \<Rightarrow> 'r) \<Rightarrow> repo_error + 'r list \<times> 'r" where
  "apply_compare_and_set key tenant_of ver set_ver touch kind t i tenant expected upd =
     (if \<not> list_ex (entity_where key tenant_of i tenant) t then Inl (Resource_not_found kind i)
      else if \<not> list_ex (\<lambda>r. entity_where key tenant_of i tenant r \<and> ver r = expected) t then Inl (Version_conflict kind i expected)
      else
        (let t' = map (\<lambda>r. if entity_where key tenant_of i tenant r \<and> ver r = expected then next_version ver set_ver touch upd r else r) t in
         res_bind (fetch_one key tenant_of kind t' i tenant) (\<lambda>r. Inr (t', r))))"

section \<open>The interface of a tenant's table\<close>

definition tenant_part :: "('r \<Rightarrow> string option) \<Rightarrow> string \<Rightarrow> 'r list \<Rightarrow> 'r list" where
  "tenant_part tenant_of tn t = filter (\<lambda>r. tenant_of r = Some tn) t"

definition other_part :: "('r \<Rightarrow> string option) \<Rightarrow> string \<Rightarrow> 'r list \<Rightarrow> 'r list" where
  "other_part tenant_of tn t = filter (\<lambda>r. tenant_of r \<noteq> Some tn) t"

lemma find_tenant_part: "find (\<lambda>r. P r \<and> tenant_of r = Some tn) t = find P (tenant_part tenant_of tn t)"
  by (induction t) (auto simp: tenant_part_def)

lemma filter_tenant_part: "filter (\<lambda>r. tenant_of r = Some tn \<and> P r) t = filter P (tenant_part tenant_of tn t)"
  by (simp add: tenant_part_def conj_commute)

lemma list_ex_tenant_part: "list_ex (\<lambda>r. P r \<and> tenant_of r = Some tn) t \<longleftrightarrow> list_ex P (tenant_part tenant_of tn t)"
  by (auto simp: tenant_part_def list_ex_iff)

lemma tenant_part_append [simp]: "tenant_part tenant_of tn (t @ u) = tenant_part tenant_of tn t @ tenant_part tenant_of tn u"
  by (simp add: tenant_part_def)

lemma other_part_append [simp]: "other_part tenant_of tn (t @ u) = other_part tenant_of tn t @ other_part tenant_of tn u"
  by (simp add: other_part_def)

lemma tenant_part_map:
  "(\<And>r. tenant_of (f r) = tenant_of r) \<Longrightarrow> tenant_part tenant_of tn (map f t) = map f (tenant_part tenant_of tn t)"
  by (induction t) (simp_all add: tenant_part_def)

lemma other_part_map:
  "(\<And>r. tenant_of (f r) = tenant_of r) \<Longrightarrow> (\<And>r. tenant_of r \<noteq> Some tn \<Longrightarrow> f r = r) \<Longrightarrow> other_part tenant_of tn (map f t) = other_part tenant_of tn t"
  by (induction t) (simp_all add: other_part_def)

lemma entity_where_None: "entity_where key tenant_of i None = (\<lambda>r. key r = i)"
  by (auto simp: entity_where_def)

lemma entity_where_Some: "entity_where key tenant_of i (Some tn) = (\<lambda>r. key r = i \<and> tenant_of r = Some tn)"
  by (auto simp: entity_where_def)

lemma entity_where_cong:
  "key x = key y \<Longrightarrow> tenant_of x = tenant_of y \<Longrightarrow> entity_where key tenant_of i tenant x = entity_where key tenant_of i tenant y"
  by (simp add: entity_where_def split: option.splits)

lemma fetch_one_part: "fetch_one key tenant_of kind t i (Some tn) = fetch_one key tenant_of kind (tenant_part tenant_of tn t) i None"
  by (simp add: fetch_one_def entity_where_None entity_where_Some find_tenant_part)

locale tenant_table = versioned_table key ver set_ver
  for key :: "'r \<Rightarrow> ident" and ver :: "'r \<Rightarrow> int" and set_ver :: "int \<Rightarrow> 'r \<Rightarrow> 'r" +
  fixes tenant_of :: "'r \<Rightarrow> string option" and touch :: "'r \<Rightarrow> 'r"
  assumes tenant_set_ver: "tenant_of (set_ver v r) = tenant_of r"
    and key_touch: "key (touch r) = key r"
    and tenant_touch: "tenant_of (touch r) = tenant_of r"
begin

abbreviation cas :: "string \<Rightarrow> 'r list \<Rightarrow> ident \<Rightarrow> string option \<Rightarrow> int \<Rightarrow> ('r \<Rightarrow> 'r) \<Rightarrow> repo_error + 'r list \<times> 'r" where
  "cas \<equiv> apply_compare_and_set key tenant_of ver set_ver touch"

abbreviation keeps :: "('r \<Rightarrow> 'r) \<Rightarrow> bool" where
  "keeps upd \<equiv> \<forall>r. key (upd r) = key r \<and> tenant_of (upd r) = tenant_of r"

lemma key_next: "keeps upd \<Longrightarrow> key (next_version ver set_ver touch upd r) = key r"
  by (simp add: next_version_def key_set_ver key_touch)

lemma tenant_next: "keeps upd \<Longrightarrow> tenant_of (next_version ver set_ver touch upd r) = tenant_of r"
  by (simp add: next_version_def tenant_set_ver tenant_touch)

lemma ver_next: "ver (next_version ver set_ver touch upd r) = ver r + 1"
  by (simp add: next_version_def ver_set_ver)

lemma cas_Inr:
  assumes "cas kind t i tenant v upd = Inr (t', r)"
  shows "t' = map (\<lambda>r. if entity_where key tenant_of i tenant r \<and> ver r = v then next_version ver set_ver touch upd r else r) t"
    and "\<exists>r0\<in>set t. entity_where key tenant_of i tenant r0 \<and> ver r0 = v" and "r \<in> set t'" and "key r = i"
proof -
  show t': "t' = map (\<lambda>r. if entity_where key tenant_of i tenant r \<and> ver r = v then next_version ver set_ver touch upd r else r) t"
    using assms by (auto simp: apply_compare_and_set_def Let_def res_simps split: if_splits)
  show "\<exists>r0\<in>set t. entity_where key tenant_of i tenant r0 \<and> ver r0 = v"
    using assms by (auto simp: apply_compare_and_set_def list_ex_iff split: if_splits)
  have "fetch_one key tenant_of kind t' i tenant = Inr r"
    using assms t' by (auto simp: apply_compare_and_set_def Let_def res_simps split: if_splits)
  then show "r \<in> set t'" "key r = i"
    by (auto simp: fetch_one_def res_simps entity_where_def find_Some_iff in_set_conv_nth)
qed

text \<open>An update that is found succeeds: the row it wrote is there to be read.\<close>

lemma cas_total:
  assumes "keeps upd"
  shows "cas kind t i tenant v upd =
    (if \<not> list_ex (entity_where key tenant_of i tenant) t then Inl (Resource_not_found kind i)
     else if \<not> list_ex (\<lambda>r. entity_where key tenant_of i tenant r \<and> ver r = v) t then Inl (Version_conflict kind i v)
     else (let t' = map (\<lambda>r. if entity_where key tenant_of i tenant r \<and> ver r = v then next_version ver set_ver touch upd r else r) t in
           Inr (t', the (find (entity_where key tenant_of i tenant) t'))))"
proof -
  let ?f = "\<lambda>r. if entity_where key tenant_of i tenant r \<and> ver r = v then next_version ver set_ver touch upd r else r"
  have w: "entity_where key tenant_of i tenant (?f r) \<longleftrightarrow> entity_where key tenant_of i tenant r" for r
    using entity_where_cong [where key = key and tenant_of = tenant_of, OF key_next [OF assms] tenant_next [OF assms]] by simp
  have "find (entity_where key tenant_of i tenant) (map ?f t) \<noteq> None" if "list_ex (entity_where key tenant_of i tenant) t"
  proof -
    from that obtain x where x: "x \<in> set t" "entity_where key tenant_of i tenant x" by (auto simp: list_ex_iff)
    have "?f x \<in> set (map ?f t)" unfolding set_map using x(1) by (rule imageI)
    moreover have "entity_where key tenant_of i tenant (?f x)" using w [of x] x(2) by blast
    ultimately show ?thesis unfolding find_None_iff by blast
  qed
  then show ?thesis
    by (auto simp: apply_compare_and_set_def fetch_one_def Let_def)
qed

text \<open>The answer and the tenant's new rows depend on the tenant's old rows alone.\<close>

lemma cas_part:
  assumes "keeps upd"
  shows "map_sum id (map_prod (tenant_part tenant_of tn) id) (cas kind t i (Some tn) v upd) = cas kind (tenant_part tenant_of tn t) i None v upd"
proof -
  let ?f = "\<lambda>r. if key r = i \<and> tenant_of r = Some tn \<and> ver r = v then next_version ver set_ver touch upd r else r"
  let ?g = "\<lambda>r. if key r = i \<and> ver r = v then next_version ver set_ver touch upd r else r"
  have p: "tenant_part tenant_of tn (map ?f t) = map ?g (tenant_part tenant_of tn t)"
    using assms by (subst tenant_part_map) (auto simp: tenant_next tenant_part_def)
  have e: "list_ex (\<lambda>r. key r = i \<and> tenant_of r = Some tn) t = list_ex (\<lambda>r. key r = i) (tenant_part tenant_of tn t)"
    by (rule list_ex_tenant_part)
  have v: "list_ex (\<lambda>r. (key r = i \<and> tenant_of r = Some tn) \<and> ver r = v) t = list_ex (\<lambda>r. key r = i \<and> ver r = v) (tenant_part tenant_of tn t)"
    by (auto simp: tenant_part_def list_ex_iff)
  show ?thesis
    using assms by (simp add: cas_total entity_where_None entity_where_Some e v [simplified conj_assoc] find_tenant_part p Let_def)
qed

lemma cas_other:
  assumes "cas kind t i (Some tn) v upd = Inr (t', r)" and "keeps upd"
  shows "other_part tenant_of tn t' = other_part tenant_of tn t"
  unfolding cas_Inr(1) [OF assms(1)] using assms(2) by (intro other_part_map) (auto simp: entity_where_def tenant_next)

lemma cas_keys: "cas kind t i tenant v upd = Inr (t', r) \<Longrightarrow> keeps upd \<Longrightarrow> map key t' = map key t"
  by (drule cas_Inr(1)) (simp add: key_next)

text \<open>Where the primary key is one, the update is the compare-and-set of the services on the visible row.\<close>

lemma cas_is_cas_row:
  assumes "keys_distinct key t" and "get_row key t i = Some r0" and "tenant = None \<or> tenant = Some tn \<and> tenant_of r0 = Some tn" and "keeps upd"
  shows "map_option fst (case cas kind t i tenant v upd of Inl e \<Rightarrow> None | Inr q \<Rightarrow> Some q) = cas_row key ver set_ver t i v (\<lambda>r. touch (upd r))"
proof -
  have r0: "r0 \<in> set t" "key r0 = i" using get_row_SomeD [OF assms(2)] by simp_all
  have u: "r = r0" if "r \<in> set t" "key r = i" for r
    using get_row_in_set [OF assms(1) that(1)] that(2) assms(2) by simp
  have e: "entity_where key tenant_of i tenant r0" using assms(3) r0(2) by (auto simp: entity_where_def)
  have w: "entity_where key tenant_of i tenant r \<longleftrightarrow> r = r0" if "r \<in> set t" for r
    using u [OF that] e by (metis entity_where_def)
  have ex: "list_ex (entity_where key tenant_of i tenant) t" using w r0 by (auto simp: list_ex_iff)
  show ?thesis
  proof (cases "ver r0 = v")
    case True
    have "list_ex (\<lambda>r. entity_where key tenant_of i tenant r \<and> ver r = v) t" using w r0 True by (auto simp: list_ex_iff)
    moreover have "map (\<lambda>r. if entity_where key tenant_of i tenant r \<and> ver r = v then next_version ver set_ver touch upd r else r) t =
        put_row key t i (\<lambda>r. set_ver (v + 1) (touch (upd r)))"
      unfolding put_row_def
    proof (intro map_cong refl)
      fix r assume r: "r \<in> set t"
      show "(if entity_where key tenant_of i tenant r \<and> ver r = v then next_version ver set_ver touch upd r else r) =
          (if key r = i then set_ver (v + 1) (touch (upd r)) else r)"
      proof (cases "r = r0")
        case True
        then show ?thesis using e r0(2) \<open>ver r0 = v\<close> by (simp add: next_version_def)
      next
        case False
        then have "key r \<noteq> i" "\<not> entity_where key tenant_of i tenant r" using u [OF r] w [OF r] by blast+
        then show ?thesis by simp
      qed
    qed
    ultimately show ?thesis
      using ex assms(2) True by (simp add: cas_total [OF assms(4)] cas_row_eq [OF assms(1)] Let_def)
  next
    case False
    have "\<not> list_ex (\<lambda>r. entity_where key tenant_of i tenant r \<and> ver r = v) t" using w False by (auto simp: list_ex_iff)
    then show ?thesis
      using ex assms(2) False by (simp add: cas_total [OF assms(4)] cas_row_eq [OF assms(1)])
  qed
qed

text \<open>A second writer with the version the first one replaced is refused.\<close>

lemma cas_stale:
  assumes "cas kind t i tenant v upd = Inr (t', r)" and "keys_distinct key t" and "keeps upd"
  shows "cas kind' t' i tenant v upd' = Inl (Version_conflict kind' i v)"
proof -
  note c = cas_Inr [OF assms(1)]
  obtain r0 where r0: "r0 \<in> set t" "entity_where key tenant_of i tenant r0" "ver r0 = v" using c(2) by blast
  have "entity_where key tenant_of i tenant (next_version ver set_ver touch upd r0)"
    using r0(2) entity_where_cong [where key = key and tenant_of = tenant_of, OF key_next [OF assms(3)] tenant_next [OF assms(3)]] by simp
  moreover have "next_version ver set_ver touch upd r0 \<in> set t'" using r0 by (auto simp: c(1))
  ultimately have "list_ex (entity_where key tenant_of i tenant) t'" by (auto simp: list_ex_iff)
  moreover have "\<not> list_ex (\<lambda>x. entity_where key tenant_of i tenant x \<and> ver x = v) t'"
  proof
    assume "list_ex (\<lambda>x. entity_where key tenant_of i tenant x \<and> ver x = v) t'"
    then obtain x y where "x \<in> set t" "entity_where key tenant_of i tenant y" "ver y = v"
      "y = (if entity_where key tenant_of i tenant x \<and> ver x = v then next_version ver set_ver touch upd x else x)"
      by (auto simp: list_ex_iff c(1))
    then show False by (auto simp: ver_next split: if_splits)
  qed
  ultimately show ?thesis by (simp add: apply_compare_and_set_def)
qed

end

end
