(* ===== verification/Run_Events.thy ===== *)
theory Run_Events
  imports Repo_Core Run_Vocabulary
begin

text \<open>
  Progress events of a run: the bounded Redis stream (\<open>sse/stream.py\<close>), the durable
  milestones in PostgreSQL (\<open>RunEventRepository\<close> in \<open>db/repositories.py\<close>, \<open>sse/snapshot.py\<close>),
  the per-connection channel (\<open>sse/channel.py\<close>) and the generator that composes them into
  the frames a client receives (\<open>sse/endpoint.py\<close>).

  A Redis stream is its retained entries, the last id it generated and the instant its key
  expires; \<open>clk\<close> is the server clock in milliseconds. The data of an event is a JSON value;
  that \<open>json.loads\<close> undoes \<open>json.dumps\<close> is not modelled again here.
\<close>

section \<open>Vocabulary\<close>

record stream_event =
  se_id :: string
  se_event_type :: string
  se_data :: json

definition is_terminal_event :: "stream_event \<Rightarrow> bool" where
  "is_terminal_event e \<longleftrightarrow> se_event_type e \<in> TERMINAL_EVENT_TYPES"

record replay_result =
  rp_events :: "stream_event list"
  rp_gap :: bool

section \<open>Stream ids\<close>

type_synonym stream_id = "nat \<times> nat"

definition show_id :: "stream_id \<Rightarrow> string" where
  "show_id i = show_nat (fst i) @ CHR ''-'' # show_nat (snd i)"

text \<open>Redis reads an unsigned 64-bit decimal number.\<close>

definition read_u64 :: "string \<Rightarrow> nat option" where
  "read_u64 s = (if s \<noteq> [] \<and> list_all is_digit s \<and> digits_value s < 2 ^ 64 then Some (digits_value s) else None)"

text \<open>An id argument of \<open>XRANGE\<close> and \<open>XREAD\<close>: \<open>ms\<close> or \<open>ms-seq\<close>; anything else is an error reply.\<close>

definition read_id :: "string \<Rightarrow> stream_id option" where
  "read_id s =
     (case split_on (CHR ''-'') s of
        [ms] \<Rightarrow> map_option (\<lambda>m. (m, 0)) (read_u64 ms)
      | [ms, sq] \<Rightarrow> (case (read_u64 ms, read_u64 sq) of (Some m, Some q) \<Rightarrow> Some (m, q) | _ \<Rightarrow> None)
      | _ \<Rightarrow> None)"

section \<open>The stream\<close>

record run_stream =
  rst_entries :: "(stream_id \<times> string \<times> json) list"
  rst_last :: stream_id
  rst_expires :: "int option"

type_synonym streams = "string \<rightharpoonup> run_stream"

record stream_config =
  sc_prefix :: string
  sc_max_events :: nat
  sc_ttl :: int

definition stream_key :: "stream_config \<Rightarrow> string \<Rightarrow> string" where
  "stream_key cfg run_id = sc_prefix cfg @ '':'' @ run_id"

definition get_stream :: "int \<Rightarrow> streams \<Rightarrow> string \<Rightarrow> run_stream option" where
  "get_stream clk rs k = (case rs k of
     None \<Rightarrow> None
   | Some s \<Rightarrow> (case rst_expires s of None \<Rightarrow> Some s | Some e \<Rightarrow> if clk \<le> e then Some s else None))"

definition next_id :: "int \<Rightarrow> run_stream option \<Rightarrow> stream_id" where
  "next_id clk s = (case s of
     None \<Rightarrow> (nat clk, 0)
   | Some s \<Rightarrow> if fst (rst_last s) < nat clk then (nat clk, 0) else (fst (rst_last s), snd (rst_last s) + 1))"

definition last_n :: "nat \<Rightarrow> 'a list \<Rightarrow> 'a list" where
  "last_n n xs = drop (length xs - n) xs"

text \<open>\<open>XADD\<close> with an exact \<open>MAXLEN\<close>, then \<open>EXPIRE\<close> (a non-positive time deletes the key).\<close>

definition publish :: "stream_config \<Rightarrow> int \<Rightarrow> streams \<Rightarrow> string \<Rightarrow> string \<Rightarrow> json \<Rightarrow> streams \<times> string" where
  "publish cfg clk rs run_id event_type data =
     (let k = stream_key cfg run_id; old = get_stream clk rs k; i = next_id clk old;
          entries = (case old of None \<Rightarrow> [] | Some s \<Rightarrow> rst_entries s) @ [(i, event_type, data)]
      in (if sc_ttl cfg \<le> 0 then rs(k := None)
          else rs(k \<mapsto> \<lparr>rst_entries = last_n (sc_max_events cfg) entries, rst_last = i,
                        rst_expires = Some (clk + sc_ttl cfg * 1000)\<rparr>), show_id i))"

definition retained :: "int \<Rightarrow> streams \<Rightarrow> string \<Rightarrow> (stream_id \<times> string \<times> json) list" where
  "retained clk rs k = (case get_stream clk rs k of None \<Rightarrow> [] | Some s \<Rightarrow> rst_entries s)"

definition to_stream_event :: "stream_id \<times> string \<times> json \<Rightarrow> stream_event" where
  "to_stream_event e = \<lparr>se_id = show_id (fst e), se_event_type = fst (snd e), se_data = snd (snd e)\<rparr>"

definition has_gap :: "int \<Rightarrow> streams \<Rightarrow> string \<Rightarrow> stream_id \<Rightarrow> bool" where
  "has_gap clk rs k after = (case retained clk rs k of [] \<Rightarrow> True | e # _ \<Rightarrow> after < fst e)"

text \<open>An id that Redis cannot read, or the largest one as an exclusive start, is a \<open>ResponseError\<close>.\<close>

definition replay :: "stream_config \<Rightarrow> int \<Rightarrow> streams \<Rightarrow> string \<Rightarrow> string \<Rightarrow> string + replay_result" where
  "replay cfg clk rs run_id after_id =
     (let k = stream_key cfg run_id in
      if after_id \<in> {[], ''0''}
      then Inr \<lparr>rp_events = map to_stream_event (retained clk rs k), rp_gap = False\<rparr>
      else (case read_id after_id of
          None \<Rightarrow> Inl ''ResponseError''
        | Some after \<Rightarrow>
            if after = (2 ^ 64 - 1, 2 ^ 64 - 1) then Inl ''ResponseError''
            else Inr \<lparr>rp_events = map to_stream_event (filter (\<lambda>e. after < fst e) (retained clk rs k)),
                      rp_gap = has_gap clk rs k after\<rparr>))"

definition latest_id :: "stream_config \<Rightarrow> int \<Rightarrow> streams \<Rightarrow> string \<Rightarrow> string option" where
  "latest_id cfg clk rs run_id =
     (let es = retained clk rs (stream_key cfg run_id) in if es = [] then None else Some (show_id (fst (last es))))"

text \<open>One \<open>XREAD\<close> of the live tail: at most 100 entries after \<open>last\<close>.\<close>

definition tail_read :: "stream_config \<Rightarrow> int \<Rightarrow> streams \<Rightarrow> string \<Rightarrow> stream_id \<Rightarrow> (stream_id \<times> string \<times> json) list" where
  "tail_read cfg clk rs run_id after = take 100 (filter (\<lambda>e. after < fst e) (retained clk rs (stream_key cfg run_id)))"

text \<open>The tail over the states its successive reads find; \<open>None\<close> is a heartbeat tick.\<close>

fun tail_stream :: "stream_config \<Rightarrow> string \<Rightarrow> stream_id \<Rightarrow> (int \<times> streams) list \<Rightarrow> stream_event option list" where
  "tail_stream cfg run_id after [] = []"
| "tail_stream cfg run_id after ((clk, rs) # reads) =
     (case tail_read cfg clk rs run_id after of
        [] \<Rightarrow> None # tail_stream cfg run_id after reads
      | e # es \<Rightarrow> map (Some \<circ> to_stream_event) (e # es) @ tail_stream cfg run_id (fst (last (e # es))) reads)"

definition ttl_seconds_remaining :: "stream_config \<Rightarrow> int \<Rightarrow> streams \<Rightarrow> string \<Rightarrow> int option" where
  "ttl_seconds_remaining cfg clk rs run_id =
     (case get_stream clk rs (stream_key cfg run_id) of
        None \<Rightarrow> None
      | Some s \<Rightarrow> (case rst_expires s of None \<Rightarrow> None | Some e \<Rightarrow> Some ((e - clk + 500) div 1000)))"

section \<open>Durable milestones\<close>

record run_event =
  re_id :: ident
  re_event_id :: ident
  re_tenant_id :: ident
  re_run_id :: ident
  re_sequence :: int
  re_event_type :: string
  re_stage :: string
  re_public_status :: string
  re_payload :: "(string \<times> json) list"
  re_occurred_at :: instant
  re_trace_id :: "string option"
  re_request_id :: "string option"

definition next_sequence :: "run_event list \<Rightarrow> string \<Rightarrow> string \<Rightarrow> repo_error + int" where
  "next_sequence t tenant_id run_id =
     res_bind (require_tenant tenant_id ''RunEventRepository.next_sequence'') (\<lambda>tenant.
     res_bind (require_text ''run_id'' run_id) (\<lambda>run.
       Inr (Max (insert 0 (re_sequence ` set (filter (\<lambda>r. re_tenant_id r = tenant \<and> re_run_id r = run) t))) + 1)))"

text \<open>The insert runs in a savepoint; a violated unique constraint is the typed conflict.\<close>

definition append_run_event :: "run_event list \<Rightarrow> instant \<Rightarrow> ident \<Rightarrow> ident \<Rightarrow> string \<Rightarrow> string \<Rightarrow> string \<Rightarrow> int option
    \<Rightarrow> (string \<times> json) list \<Rightarrow> string \<Rightarrow> string \<Rightarrow> string option \<Rightarrow> string option \<Rightarrow> instant option
    \<Rightarrow> repo_error + run_event list \<times> run_event" where
  "append_run_event t now new_id event_id tenant_id run_id event_type sequence payload stage public_status trace_id request_id occurred_at =
     res_bind (require_tenant tenant_id ''RunEventRepository.append'') (\<lambda>tenant.
     res_bind (require_text ''run_id'' run_id) (\<lambda>run.
     res_bind (case sequence of
                 None \<Rightarrow> next_sequence t tenant run
               | Some s \<Rightarrow> if s < 1 then Inl (Repo_value_error ''sequence'') else Inr s) (\<lambda>sq.
     res_bind (require_text ''event_type'' event_type) (\<lambda>et.
       let row = \<lparr>re_id = new_id, re_event_id = event_id, re_tenant_id = tenant, re_run_id = run, re_sequence = sq,
                  re_event_type = et, re_stage = stage, re_public_status = public_status, re_payload = payload,
                  re_occurred_at = (case occurred_at of None \<Rightarrow> now | Some o1 \<Rightarrow> o1), re_trace_id = trace_id, re_request_id = request_id\<rparr>
       in if (\<exists>r\<in>set t. re_id r = new_id \<or> re_event_id r = event_id \<or> (re_run_id r = run \<and> re_sequence r = sq))
          then Inl (Run_event_sequence_conflict run sq) else Inr (t @ [row], row)))))"

definition list_for_run :: "run_event list \<Rightarrow> string \<Rightarrow> string \<Rightarrow> int \<Rightarrow> int \<Rightarrow> repo_error + run_event list" where
  "list_for_run t tenant_id run_id after_sequence limit =
     res_bind (require_tenant tenant_id ''RunEventRepository.list_for_run'') (\<lambda>tenant.
       if after_sequence < 0 then Inl (Repo_value_error ''after_sequence'')
       else res_bind (require_text ''run_id'' run_id) (\<lambda>run.
         if limit < 1 then Inl (Repo_value_error ''limit'')
         else Inr (take (nat limit) (sort_key re_sequence
                (filter (\<lambda>r. re_tenant_id r = tenant \<and> re_run_id r = run \<and> after_sequence < re_sequence r) t)))))"

definition count_for_run :: "run_event list \<Rightarrow> string \<Rightarrow> string \<Rightarrow> repo_error + int" where
  "count_for_run t tenant_id run_id =
     res_bind (require_tenant tenant_id ''RunEventRepository.count_for_run'') (\<lambda>tenant.
     res_bind (require_text ''run_id'' run_id) (\<lambda>run.
       Inr (int (length (filter (\<lambda>r. re_tenant_id r = tenant \<and> re_run_id r = run) t)))))"

definition DEFAULT_SNAPSHOT_LIMIT :: int where "DEFAULT_SNAPSHOT_LIMIT = 1000"

definition setdefault :: "string \<Rightarrow> json \<Rightarrow> (string \<times> json) list \<Rightarrow> (string \<times> json) list" where
  "setdefault k v d = (if k \<in> fst ` set d then d else d @ [(k, v)])"

definition milestone_event :: "run_event \<Rightarrow> stream_event" where
  "milestone_event r =
     (let d1 = setdefault ''sequence'' (JInt (re_sequence r)) (re_payload r);
          d2 = (if re_stage r = [] then d1 else setdefault ''stage'' (JStr (re_stage r)) d1);
          d3 = (if re_public_status r = [] then d2 else setdefault ''public_status'' (JStr (re_public_status r)) d2)
      in \<lparr>se_id = CHR ''d'' # show_int (re_sequence r), se_event_type = re_event_type r, se_data = JObj d3\<rparr>)"

definition milestones :: "run_event list \<Rightarrow> string \<Rightarrow> string \<Rightarrow> int \<Rightarrow> int \<Rightarrow> repo_error + stream_event list" where
  "milestones t tenant_id run_id after_sequence limit =
     res_bind (list_for_run t tenant_id run_id after_sequence limit) (\<lambda>rows. Inr (map milestone_event rows))"

definition snapshot_bind :: "run_event list \<Rightarrow> string \<Rightarrow> string \<Rightarrow> int \<Rightarrow> repo_error + stream_event list" where
  "snapshot_bind t tenant_id run_id after_sequence = milestones t tenant_id run_id after_sequence DEFAULT_SNAPSHOT_LIMIT"

section \<open>The channel of a connection\<close>

record channel_event =
  ce_event_type :: string
  ce_data :: json
  ce_id :: "string option"
  ce_is_heartbeat :: bool

record channel =
  ch_capacity :: nat
  ch_buffer :: "channel_event list"
  ch_closed :: bool

datatype channel_error = Slow_consumer | Channel_closed

definition channel_heartbeat :: channel_event where
  "channel_heartbeat = \<lparr>ce_event_type = ''heartbeat'', ce_data = JObj [], ce_id = None, ce_is_heartbeat = True\<rparr>"

text \<open>\<open>drained\<close>: the subscriber takes the oldest event within the send timeout if the buffer is full.\<close>

definition channel_publish :: "bool \<Rightarrow> channel \<Rightarrow> channel_event \<Rightarrow> channel \<times> (channel_error + channel_event option)" where
  "channel_publish drained ch e =
     (if ch_closed ch then (ch, Inl Channel_closed)
      else if length (ch_buffer ch) < ch_capacity ch then (ch\<lparr>ch_buffer := ch_buffer ch @ [e]\<rparr>, Inr None)
      else if drained then
        (case ch_buffer ch of
           [] \<Rightarrow> (ch, Inr (Some e))
         | x # xs \<Rightarrow> (ch\<lparr>ch_buffer := xs @ [e]\<rparr>, Inr (Some x)))
      else (ch, Inl Slow_consumer))"

text \<open>One turn of \<open>subscribe\<close>: an event, a heartbeat when none arrives in time, or the end (\<open>None\<close>).\<close>

definition channel_receive :: "channel \<Rightarrow> channel \<times> channel_event option" where
  "channel_receive ch =
     (if ch_closed ch then (ch, None)
      else (case ch_buffer ch of
          [] \<Rightarrow> (ch, Some channel_heartbeat)
        | x # xs \<Rightarrow> (ch\<lparr>ch_buffer := xs\<rparr>, Some x)))"

definition channel_aclose :: "channel \<Rightarrow> channel" where
  "channel_aclose ch = ch\<lparr>ch_closed := True\<rparr>"

section \<open>Frames\<close>

datatype frame_data = F_json json | F_text string

record frame =
  fr_event :: string
  fr_data :: frame_data
  fr_id :: "string option"

definition CONTROL_SNAPSHOT_REQUIRED :: string where "CONTROL_SNAPSHOT_REQUIRED = ''snapshot_required''"
definition CONTROL_HEARTBEAT :: string where "CONTROL_HEARTBEAT = ''heartbeat''"

definition mk_frame :: "string \<Rightarrow> json \<Rightarrow> string \<Rightarrow> frame" where
  "mk_frame event_type data event_id =
     \<lparr>fr_event = event_type, fr_data = (case data of JStr s \<Rightarrow> F_text s | _ \<Rightarrow> F_json data),
      fr_id = (if event_id = [] then None else Some event_id)\<rparr>"

definition event_frame :: "stream_event \<Rightarrow> frame" where
  "event_frame e = mk_frame (se_event_type e) (se_data e) (se_id e)"

text \<open>The frames of the live tail up to and including the first terminal event.\<close>

fun live_frames :: "(stream_event \<Rightarrow> bool) option \<Rightarrow> stream_event option list \<Rightarrow> frame list" where
  "live_frames is_terminal [] = []"
| "live_frames is_terminal (None # es) = mk_frame CONTROL_HEARTBEAT (JStr []) [] # live_frames is_terminal es"
| "live_frames is_terminal (Some e # es) =
     event_frame e # (if (case is_terminal of None \<Rightarrow> False | Some f \<Rightarrow> f e) then [] else live_frames is_terminal es)"

definition channel_frames :: "channel_event list \<Rightarrow> frame list" where
  "channel_frames es = map (\<lambda>e. if ce_is_heartbeat e then mk_frame CONTROL_HEARTBEAT (JStr []) []
                                else mk_frame (ce_event_type e) (ce_data e) (case ce_id e of None \<Rightarrow> [] | Some i \<Rightarrow> i)) es"

definition last_replayed :: "string \<Rightarrow> stream_event list \<Rightarrow> string" where
  "last_replayed after es = foldl (\<lambda>l e. if se_id e = [] then l else se_id e) after es"

text \<open>
  The generator: \<open>snapshot\<close> is what the durable reader returns (or raises) if one is wired,
  \<open>live_tail\<close> the items its iterator yields for a start id until the client leaves, \<open>chan\<close> the
  items of a subscription. The first component are the frames sent, the second the error that
  ended the stream, if any.
\<close>

definition sse_event_source :: "string + replay_result \<Rightarrow> string \<Rightarrow> string option \<Rightarrow> channel_event list option
    \<Rightarrow> (string + stream_event list) option \<Rightarrow> (string \<Rightarrow> stream_event option list) option
    \<Rightarrow> (stream_event \<Rightarrow> bool) option \<Rightarrow> frame list \<times> string option" where
  "sse_event_source result run_id last_event_id chan snapshot live_tail_factory is_terminal =
     (let after = (case last_event_id of None \<Rightarrow> ''0'' | Some s \<Rightarrow> if s = [] then ''0'' else s) in
      case result of
        Inl exc \<Rightarrow> ([], Some exc)
      | Inr r \<Rightarrow>
          (let control = (if rp_gap r then [mk_frame CONTROL_SNAPSHOT_REQUIRED (JObj [(''run_id'', JStr run_id)]) []] else []) in
           case (if rp_gap r then (case snapshot of None \<Rightarrow> Inr (rp_events r) | Some s \<Rightarrow> s) else Inr (rp_events r)) of
             Inl exc \<Rightarrow> (control, Some exc)
           | Inr sent \<Rightarrow>
               (let backlog = control @ map event_frame sent;
                    last_id = (if rp_gap r \<and> snapshot \<noteq> None then after else last_replayed after sent);
                    replay_terminal = (case is_terminal of None \<Rightarrow> False | Some f \<Rightarrow> list_ex f sent)
                in case live_tail_factory of
                     Some tail \<Rightarrow>
                       if replay_terminal then (backlog, None)
                       else (backlog @ live_frames is_terminal (tail (if rp_gap r then ''$'' else last_id)), None)
                   | None \<Rightarrow>
                       (case chan of None \<Rightarrow> (backlog, None) | Some es \<Rightarrow> (backlog @ channel_frames es, None)))))"

end
