(* ===== verification/Authorization.thy ===== *)
theory Authorization
  imports Canonical_Json Py_Text
begin

text \<open>
  Identity and permission: the request principal derived from a validated membership
  (\<open>auth/principal.py\<close>) and the allow-only authorization of its actions
  (\<open>auth/authorization.py\<close>).

  A record read by attribute is an \<open>entity\<close>: its identifiers may be missing, a UUID, a string or
  a value of another type, its status may be missing, a string or a value of another type. The
  grant source and the resource catalogue are parameters; the in-memory grant source of the
  program interprets the contract \<open>grant_source\<close>.
\<close>

section \<open>Identifiers and entities\<close>

datatype ident_value = Id_uuid string | Id_text string | Id_other
datatype status_value = Status_text string | Status_other

record entity =
  en_id :: "ident_value option"
  en_tenant_id :: "ident_value option"
  en_user_id :: "ident_value option"
  en_status :: "status_value option"

text \<open>Every rejection is \<open>AUTH_FORBIDDEN\<close> with status 403; the message differs.\<close>

datatype principal_error = Principal_error string

definition casefold_char :: "char \<Rightarrow> string" where
  "casefold_char c = (if c = CHR 0xDF then ''ss'' else [lower_char c])"

definition py_casefold :: "string \<Rightarrow> string" where
  "py_casefold s = concat (map casefold_char s)"

definition ACTIVE_STATUS :: string where "ACTIVE_STATUS = ''active''"

definition INACTIVE_STATUSES :: "string set" where
  "INACTIVE_STATUSES = {''suspended'', ''disabled'', ''deleted'', ''revoked'', ''expired''}"

definition stringify_identifier :: "ident_value option \<Rightarrow> string option" where
  "stringify_identifier v = (case v of
     Some (Id_uuid s) \<Rightarrow> Some s
   | Some (Id_text s) \<Rightarrow> if py_strip s = [] then None else Some (py_strip s)
   | _ \<Rightarrow> None)"

definition require_identifier :: "ident_value option \<Rightarrow> string \<Rightarrow> principal_error + string" where
  "require_identifier v field =
     res_of_option (Principal_error (field @ '' must be a UUID or non-empty string'')) (stringify_identifier v)"

definition require_entity_identifier :: "entity option \<Rightarrow> string \<Rightarrow> principal_error + string" where
  "require_entity_identifier e field = (case e of
     None \<Rightarrow> Inl (Principal_error (field @ '' is required to authenticate this request''))
   | Some en \<Rightarrow> require_identifier (en_id en) (field @ ''.id''))"

definition ensure_active :: "entity option \<Rightarrow> string \<Rightarrow> string \<Rightarrow> principal_error + unit" where
  "ensure_active e field expected_status =
     (if py_strip expected_status = [] then Inl (Principal_error ''expected_status must be a non-empty string'')
      else if py_casefold (py_strip expected_status) \<in> INACTIVE_STATUSES
        then Inl (Principal_error ''expected_status must be an active status'')
      else (case e of
          None \<Rightarrow> Inr ()
        | Some en \<Rightarrow> (case en_status en of
            None \<Rightarrow> Inr ()
          | Some Status_other \<Rightarrow> Inl (Principal_error (field @ ''.status must be a string''))
          | Some (Status_text s) \<Rightarrow>
              (let normalized = py_casefold (py_strip s) in
               if normalized = py_casefold (py_strip expected_status) then Inr ()
               else if normalized \<in> INACTIVE_STATUSES then Inl (Principal_error (field @ '' is not active''))
               else Inl (Principal_error (field @ '' has an unrecognized status''))))))"

fun unique_codes :: "string list \<Rightarrow> string \<Rightarrow> principal_error + string set" where
  "unique_codes [] field = Inr {}"
| "unique_codes (v # vs) field =
     (if py_strip v = [] then Inl (Principal_error (field @ '' entries must be non-empty strings''))
      else res_bind (unique_codes vs field) (\<lambda>cs. Inr (insert (py_strip v) cs)))"

section \<open>The principal\<close>

record role_grant =
  rg_role_code :: string
  rg_scopes :: "string set"
  rg_valid_from :: "instant option"
  rg_expires_at :: "instant option"
  rg_revoked :: bool

definition is_valid_at :: "role_grant \<Rightarrow> instant option \<Rightarrow> bool" where
  "is_valid_at g now =
     (if rg_revoked g then False
      else if (case (rg_valid_from g, rg_expires_at g) of (Some f, Some e) \<Rightarrow> e \<le> f | _ \<Rightarrow> False) then False
      else (case now of
          None \<Rightarrow> True
        | Some n \<Rightarrow>
            if (case rg_valid_from g of Some f \<Rightarrow> n < f | None \<Rightarrow> False) then False
            else \<not> (case rg_expires_at g of Some e \<Rightarrow> e \<le> n | None \<Rightarrow> False)))"

record request_principal =
  pr_tenant_id :: string
  pr_user_id :: string
  pr_membership_id :: string
  pr_roles :: "string set"
  pr_scopes :: "string set"
  pr_authorization_version :: int
  pr_session_id :: string
  pr_request_id :: string
  pr_run_id :: "string option"

record principal_ref =
  ref_tenant_id :: string
  ref_user_id :: string
  ref_membership_id :: string
  ref_authorization_version :: int

definition ref_as_context :: "principal_ref \<Rightarrow> (string \<times> json) list" where
  "ref_as_context r = [(''tenant_id'', JStr (ref_tenant_id r)), (''user_id'', JStr (ref_user_id r)),
     (''membership_id'', JStr (ref_membership_id r)), (''authorization_version'', JInt (ref_authorization_version r))]"

definition ref_str :: "principal_ref \<Rightarrow> string" where
  "ref_str r = ''tenant='' @ ref_tenant_id r @ '' user='' @ ref_user_id r @ '' membership='' @ ref_membership_id r @
     '' authz_v='' @ show_int (ref_authorization_version r)"

definition to_principal_ref :: "request_principal \<Rightarrow> principal_ref" where
  "to_principal_ref p = \<lparr>ref_tenant_id = pr_tenant_id p, ref_user_id = pr_user_id p, ref_membership_id = pr_membership_id p,
     ref_authorization_version = pr_authorization_version p\<rparr>"

definition with_run :: "request_principal \<Rightarrow> ident_value option \<Rightarrow> principal_error + request_principal" where
  "with_run p run_id = res_bind (require_identifier run_id ''run_id'') (\<lambda>r. Inr (p\<lparr>pr_run_id := Some r\<rparr>))"

definition with_authorization_version :: "request_principal \<Rightarrow> int \<Rightarrow> principal_error + request_principal" where
  "with_authorization_version p v =
     (if v < 0 then Inl (Principal_error ''authorization_version must not be negative'')
      else Inr (p\<lparr>pr_authorization_version := v\<rparr>))"

text \<open>A value the request claims for the tenant or user: compared, never trusted.\<close>

definition check_claim :: "string \<Rightarrow> ident_value option \<Rightarrow> string \<Rightarrow> principal_error + unit" where
  "check_claim field claimed expected = (case claimed of
     None \<Rightarrow> Inr ()
   | Some v \<Rightarrow> (case stringify_identifier (Some v) of
       None \<Rightarrow> Inl (Principal_error (''Request-supplied '' @ field @ '' must be a UUID or string''))
     | Some c \<Rightarrow> if c \<noteq> expected
         then Inl (Principal_error (''Request-supplied '' @ field @ '' does not match the authenticated membership''))
         else Inr ()))"

definition resolve_principal :: "entity option \<Rightarrow> entity option \<Rightarrow> entity option \<Rightarrow> string list \<Rightarrow> string list \<Rightarrow> role_grant list
    \<Rightarrow> int \<Rightarrow> ident_value option \<Rightarrow> ident_value option \<Rightarrow> ident_value option \<Rightarrow> ident_value option \<Rightarrow> ident_value option
    \<Rightarrow> instant option \<Rightarrow> string \<Rightarrow> principal_error + request_principal" where
  "resolve_principal tenant user membership role_codes scopes grants authorization_version session_id request_id run_id
      requested_tenant_id requested_user_id now expected_status =
     (case membership of
        None \<Rightarrow> Inl (Principal_error ''Validated membership is required to build a principal'')
      | Some m \<Rightarrow>
          res_bind (require_identifier (en_id m) ''membership.id'') (\<lambda>membership_id.
          res_bind (require_identifier (en_tenant_id m) ''membership.tenant_id'') (\<lambda>membership_tenant_id.
          res_bind (require_identifier (en_user_id m) ''membership.user_id'') (\<lambda>membership_user_id.
          res_bind (require_entity_identifier tenant ''tenant'') (\<lambda>tenant_id.
          res_bind (require_entity_identifier user ''user'') (\<lambda>user_id.
          res_bind (res_guard (membership_tenant_id = tenant_id)
                      (Principal_error ''Membership does not belong to the authenticated tenant'')) (\<lambda>_.
          res_bind (res_guard (membership_user_id = user_id)
                      (Principal_error ''Membership does not belong to the authenticated user'')) (\<lambda>_.
          res_bind (check_claim ''tenant_id'' requested_tenant_id tenant_id) (\<lambda>_.
          res_bind (check_claim ''user_id'' requested_user_id user_id) (\<lambda>_.
          res_bind (ensure_active tenant ''tenant'' expected_status) (\<lambda>_.
          res_bind (ensure_active user ''user'' expected_status) (\<lambda>_.
          res_bind (ensure_active membership ''membership'' expected_status) (\<lambda>_.
          res_bind (res_guard (0 \<le> authorization_version) (Principal_error ''authorization_version must not be negative'')) (\<lambda>_.
          let valid_grants = filter (\<lambda>g. is_valid_at g now) grants in
          res_bind (unique_codes role_codes ''role_codes'') (\<lambda>declared_roles.
          res_bind (unique_codes scopes ''scopes'') (\<lambda>declared_scopes.
          let granted_roles = rg_role_code ` set valid_grants;
              granted_scopes = (\<Union>g\<in>set valid_grants. rg_scopes g)
          in res_bind (require_identifier session_id ''session_id'') (\<lambda>sid.
             res_bind (require_identifier request_id ''request_id'') (\<lambda>rid.
             res_bind (case run_id of None \<Rightarrow> Inr None | Some _ \<Rightarrow> res_bind (require_identifier run_id ''run_id'') (\<lambda>r. Inr (Some r))) (\<lambda>run.
               Inr \<lparr>pr_tenant_id = tenant_id, pr_user_id = user_id, pr_membership_id = membership_id,
                    pr_roles = (if declared_roles = {} then granted_roles else declared_roles \<inter> granted_roles),
                    pr_scopes = (if declared_scopes = {} then granted_scopes else declared_scopes \<inter> granted_scopes),
                    pr_authorization_version = authorization_version, pr_session_id = sid, pr_request_id = rid,
                    pr_run_id = run\<rparr>)))))))))))))))))))"

section \<open>Actions, resources, decisions\<close>

datatype action = Act_read | Act_edit | Act_approve | Act_submit | Act_publish | Act_delete | Act_admin | Act_cross_tenant_admin

fun action_value :: "action \<Rightarrow> string" where
  "action_value Act_read = ''read''"
| "action_value Act_edit = ''edit''"
| "action_value Act_approve = ''approve''"
| "action_value Act_submit = ''submit''"
| "action_value Act_publish = ''publish''"
| "action_value Act_delete = ''delete''"
| "action_value Act_admin = ''admin''"
| "action_value Act_cross_tenant_admin = ''cross_tenant_admin''"

definition all_actions :: "action list" where
  "all_actions = [Act_read, Act_edit, Act_approve, Act_submit, Act_publish, Act_delete, Act_admin, Act_cross_tenant_admin]"

datatype auth_error = Unknown_action string | Denied string action "string option" | Negative_version

definition as_action :: "string \<Rightarrow> auth_error + action" where
  "as_action s = res_of_option (Unknown_action s) (find (\<lambda>a. action_value a = s) all_actions)"

definition required_scope :: "action \<Rightarrow> string" where
  "required_scope a = action_value a"

definition has_scope :: "string set \<Rightarrow> string \<Rightarrow> bool" where
  "has_scope scopes required \<longleftrightarrow> required \<in> scopes"

definition CROSS_TENANT_SCOPE :: string where "CROSS_TENANT_SCOPE = ''cross_tenant_admin''"

record resource_ref =
  rr_kind :: string
  rr_id :: string
  rr_tenant_id :: "string option"
  rr_attributes :: "(string \<times> json) list"

definition dict_update :: "(string \<times> json) list \<Rightarrow> string \<times> json \<Rightarrow> (string \<times> json) list" where
  "dict_update d kv = (if fst kv \<in> fst ` set d then map (\<lambda>x. if fst x = fst kv then kv else x) d else d @ [kv])"

definition with_attributes :: "resource_ref \<Rightarrow> (string \<times> json) list \<Rightarrow> resource_ref" where
  "with_attributes r kvs = r\<lparr>rr_attributes := foldl dict_update (rr_attributes r) kvs\<rparr>"

definition resource_str :: "resource_ref \<Rightarrow> string" where
  "resource_str r = rr_kind r @ '':'' @ rr_id r @ ''@'' @ (case rr_tenant_id r of None \<Rightarrow> ''global'' | Some t \<Rightarrow> if t = [] then ''global'' else t)"

record decision =
  dc_allowed :: bool
  dc_action :: action
  dc_reason_code :: "string option"
  dc_code :: "string option"
  dc_details :: "(string \<times> json) list"

definition auth_allow :: "action \<Rightarrow> decision" where
  "auth_allow a = \<lparr>dc_allowed = True, dc_action = a, dc_reason_code = Some ''ALLOW'', dc_code = None, dc_details = []\<rparr>"

definition auth_deny :: "action \<Rightarrow> string \<Rightarrow> string \<Rightarrow> (string \<times> json) list \<Rightarrow> decision" where
  "auth_deny a reason code details =
     \<lparr>dc_allowed = False, dc_action = a, dc_reason_code = Some reason, dc_code = Some code, dc_details = details\<rparr>"

definition decision_raise_for_denial :: "decision \<Rightarrow> auth_error + unit" where
  "decision_raise_for_denial d =
     (if dc_allowed d then Inr ()
      else Inl (Denied (case dc_code d of None \<Rightarrow> ''AUTH_FORBIDDEN'' | Some c \<Rightarrow> if c = [] then ''AUTH_FORBIDDEN'' else c)
                  (dc_action d) (dc_reason_code d)))"

definition evaluate_authorization :: "request_principal \<Rightarrow> action \<Rightarrow> resource_ref \<Rightarrow> string set \<Rightarrow> string option \<Rightarrow> bool option \<Rightarrow> decision" where
  "evaluate_authorization p a r scopes membership_id resource_exists =
     (if membership_id \<noteq> None \<and> membership_id \<noteq> Some (pr_membership_id p)
      then auth_deny a ''AUTH_MEMBERSHIP_TENANT_MISMATCH'' ''AUTH_FORBIDDEN'' [(''membership_bound'', JBool False)]
      else
        (let cross_tenant = has_scope scopes CROSS_TENANT_SCOPE;
             own_tenant = (rr_tenant_id r = Some (pr_tenant_id p))
         in if rr_tenant_id r = None \<and> \<not> cross_tenant then auth_deny a ''AUTH_RESOURCE_NOT_FOUND'' ''RESOURCE_NOT_FOUND'' []
            else if rr_tenant_id r \<noteq> None \<and> \<not> own_tenant \<and> \<not> cross_tenant
              then auth_deny a ''AUTH_RESOURCE_NOT_FOUND'' ''RESOURCE_NOT_FOUND'' []
            else if resource_exists = Some False then auth_deny a ''AUTH_RESOURCE_NOT_FOUND'' ''RESOURCE_NOT_FOUND'' []
            else if \<not> has_scope scopes (required_scope a)
              then auth_deny a ''AUTH_MISSING_SCOPE'' ''AUTH_FORBIDDEN'' [(''required_scope'', JStr (required_scope a))]
            else auth_allow a))"

section \<open>The service\<close>

type_synonym 'g scopes_fn = "'g \<Rightarrow> string \<Rightarrow> string \<Rightarrow> string \<Rightarrow> string set"
type_synonym 'g version_fn = "'g \<Rightarrow> string \<Rightarrow> string \<Rightarrow> string \<Rightarrow> int"

text \<open>The catalogue answers \<open>None\<close> when it cannot tell; no catalogue is \<open>None\<close> too.\<close>

type_synonym catalog = "resource_ref \<Rightarrow> bool option"

definition resource_exists :: "catalog option \<Rightarrow> resource_ref \<Rightarrow> bool option" where
  "resource_exists catalog r = (case catalog of None \<Rightarrow> None | Some c \<Rightarrow> c r)"

definition authorize :: "catalog option \<Rightarrow> request_principal \<Rightarrow> string \<Rightarrow> resource_ref \<Rightarrow> auth_error + decision" where
  "authorize catalog p action r =
     res_bind (as_action action) (\<lambda>a. Inr (evaluate_authorization p a r (pr_scopes p) None (resource_exists catalog r)))"

definition authorization_version :: "'g version_fn \<Rightarrow> 'g option \<Rightarrow> request_principal \<Rightarrow> int" where
  "authorization_version version_for source p = (case source of
     None \<Rightarrow> pr_authorization_version p
   | Some g \<Rightarrow> version_for g (pr_tenant_id p) (pr_user_id p) (pr_membership_id p))"

definition authorize_fresh :: "'g scopes_fn \<Rightarrow> 'g version_fn \<Rightarrow> 'g option \<Rightarrow> catalog option \<Rightarrow> request_principal \<Rightarrow> string \<Rightarrow> resource_ref
    \<Rightarrow> auth_error + decision" where
  "authorize_fresh scopes_for version_for source catalog p action r =
     res_bind (as_action action) (\<lambda>a.
       case source of
         None \<Rightarrow> Inr (auth_deny a ''AUTH_MISSING_SCOPE'' ''AUTH_FORBIDDEN'' [(''grant_source'', JStr ''unconfigured'')])
       | Some g \<Rightarrow>
           let scopes = scopes_for g (pr_tenant_id p) (pr_user_id p) (pr_membership_id p);
               version = authorization_version version_for source p
           in (case with_authorization_version p version of
                 Inl _ \<Rightarrow> Inl Negative_version
               | Inr p' \<Rightarrow> Inr (evaluate_authorization p' a r scopes None (resource_exists catalog r))))"

definition is_tenant_visible :: "request_principal \<Rightarrow> string \<Rightarrow> bool" where
  "is_tenant_visible p tenant_id \<longleftrightarrow> tenant_id = pr_tenant_id p \<or> has_scope (pr_scopes p) CROSS_TENANT_SCOPE"

definition tenant_denial :: "string \<Rightarrow> string \<Rightarrow> auth_error + decision" where
  "tenant_denial action tenant_id =
     res_bind (as_action action) (\<lambda>a. Inr (auth_deny a ''AUTH_TENANT_NOT_VISIBLE'' ''TENANT_NOT_FOUND'' [(''tenant_id'', JStr tenant_id)]))"

definition raise_for_denial :: "catalog option \<Rightarrow> request_principal \<Rightarrow> string \<Rightarrow> resource_ref \<Rightarrow> auth_error + decision" where
  "raise_for_denial catalog p action r =
     res_bind (authorize catalog p action r) (\<lambda>d. res_bind (decision_raise_for_denial d) (\<lambda>_. Inr d))"

section \<open>The in-memory grant source and catalogue\<close>

type_synonym member_key = "string \<times> string \<times> string"

record memory_grants =
  mg_scopes :: "member_key \<rightharpoonup> string set"
  mg_versions :: "member_key \<rightharpoonup> int"

definition mem_scopes_for :: "memory_grants scopes_fn" where
  "mem_scopes_for g t u m = (case mg_scopes g (t, u, m) of None \<Rightarrow> {} | Some s \<Rightarrow> s)"

definition mem_version_for :: "memory_grants version_fn" where
  "mem_version_for g t u m = (case mg_versions g (t, u, m) of None \<Rightarrow> 0 | Some v \<Rightarrow> v)"

text \<open>The scopes are stored before a negative version is refused.\<close>

definition set_grant :: "memory_grants \<Rightarrow> string \<Rightarrow> string \<Rightarrow> string \<Rightarrow> string set \<Rightarrow> int option \<Rightarrow> memory_grants \<times> (unit + int)" where
  "set_grant g t u m scopes version =
     (let g1 = g\<lparr>mg_scopes := (mg_scopes g)((t, u, m) \<mapsto> py_strip ` {s \<in> scopes. py_strip s \<noteq> []})\<rparr> in
      case version of
        None \<Rightarrow> (g1\<lparr>mg_versions := (mg_versions g)((t, u, m) \<mapsto> mem_version_for g t u m + 1)\<rparr>, Inr (mem_version_for g t u m + 1))
      | Some v \<Rightarrow> if v < 0 then (g1, Inl ()) else (g1\<lparr>mg_versions := (mg_versions g)((t, u, m) \<mapsto> v)\<rparr>, Inr v))"

definition revoke :: "memory_grants \<Rightarrow> string \<Rightarrow> string \<Rightarrow> string \<Rightarrow> memory_grants \<times> (unit + int)" where
  "revoke g t u m = set_grant g t u m {} None"

definition revoke_scope :: "memory_grants \<Rightarrow> string \<Rightarrow> string \<Rightarrow> string \<Rightarrow> string \<Rightarrow> memory_grants \<times> (unit + int)" where
  "revoke_scope g t u m scope = set_grant g t u m {s \<in> mem_scopes_for g t u m. s \<noteq> scope} None"

type_synonym memory_catalog = "(string option \<times> string \<times> string) set"

definition mem_contains :: "memory_catalog \<Rightarrow> catalog" where
  "mem_contains c r = Some ((rr_tenant_id r, rr_kind r, rr_id r) \<in> c)"

definition mem_add :: "memory_catalog \<Rightarrow> resource_ref \<Rightarrow> memory_catalog" where
  "mem_add c r = insert (rr_tenant_id r, rr_kind r, rr_id r) c"

definition mem_remove :: "memory_catalog \<Rightarrow> resource_ref \<Rightarrow> memory_catalog" where
  "mem_remove c r = c - {(rr_tenant_id r, rr_kind r, rr_id r)}"

section \<open>The contract of a grant source\<close>

text \<open>
  \<open>revoke_all\<close> takes every scope of one membership and leaves the others alone; versions only grow.
  Under this contract a revocation takes effect at the next fresh authorization, whatever the
  principal's own snapshot says.
\<close>

locale grant_source =
  fixes scopes_for :: "'g scopes_fn" and version_for :: "'g version_fn"
    and revoke_all :: "'g \<Rightarrow> string \<Rightarrow> string \<Rightarrow> string \<Rightarrow> 'g"
    and ok :: "'g \<Rightarrow> bool"
  assumes revoked_scopes: "scopes_for (revoke_all g t u m) t u m = {}"
    and revoke_others: "(t', u', m') \<noteq> (t, u, m) \<Longrightarrow> scopes_for (revoke_all g t u m) t' u' m' = scopes_for g t' u' m'"
    and version_grows: "ok g \<Longrightarrow> version_for g t u m < version_for (revoke_all g t u m) t u m"
    and version_nonneg: "ok g \<Longrightarrow> 0 \<le> version_for g t u m"
    and revoke_ok: "ok g \<Longrightarrow> ok (revoke_all g t u m)"
begin

lemma fresh_after_revoke:
  assumes "ok g" and "as_action action = Inr a"
  shows "\<exists>d. authorize_fresh scopes_for version_for (Some (revoke_all g (pr_tenant_id p) (pr_user_id p) (pr_membership_id p))) catalog p action r = Inr d \<and>
    \<not> dc_allowed d"
proof -
  let ?g = "revoke_all g (pr_tenant_id p) (pr_user_id p) (pr_membership_id p)"
  have "0 \<le> version_for ?g (pr_tenant_id p) (pr_user_id p) (pr_membership_id p)"
    by (rule version_nonneg [OF revoke_ok [OF assms(1)]])
  then show ?thesis
    using assms(2) by (simp add: authorize_fresh_def authorization_version_def with_authorization_version_def revoked_scopes
        evaluate_authorization_def has_scope_def auth_deny_def Let_def)
qed

end

definition memory_ok :: "memory_grants \<Rightarrow> bool" where
  "memory_ok g \<longleftrightarrow> (\<forall>k v. mg_versions g k = Some v \<longrightarrow> 0 \<le> v)"

interpretation memory_source: grant_source mem_scopes_for mem_version_for "\<lambda>g t u m. fst (revoke g t u m)" memory_ok
  by unfold_locales
     (auto simp: revoke_def set_grant_def mem_scopes_for_def mem_version_for_def memory_ok_def Let_def split: option.splits)

section \<open>Properties\<close>

lemma as_action_value: "as_action (action_value a) = Inr a"
  by (cases a) (simp_all add: as_action_def all_actions_def)

lemma as_action_Inr: "as_action s = Inr a \<longleftrightarrow> s = action_value a"
proof
  show "s = action_value a" if "as_action s = Inr a"
    using that unfolding as_action_def by (auto simp: res_simps find_Some_iff)
qed (simp add: as_action_value)

text \<open>An action is allowed exactly when the caller holds the scope of that very action, the
  resource is one its tenant owns (or it holds the cross-tenant scope), the catalogue does not
  know the resource to be absent, and the membership, if one is named, is the caller's; an unknown
  action is refused.\<close>

theorem allowed_iff_granted:
  "(\<exists>d. authorize catalog p action r = Inr d \<and> dc_allowed d) \<longleftrightarrow>
     action \<in> action_value ` set all_actions \<and> action \<in> pr_scopes p \<and>
     (rr_tenant_id r = Some (pr_tenant_id p) \<or> CROSS_TENANT_SCOPE \<in> pr_scopes p) \<and>
     resource_exists catalog r \<noteq> Some False"
proof (cases "as_action action")
  case (Inl e)
  then have "action \<notin> range action_value" using as_action_value by (metis Inl_Inr_False imageE)
  with Inl show ?thesis by (auto simp: authorize_def)
next
  case (Inr a)
  then have s: "action = action_value a" by (simp add: as_action_Inr)
  have "a \<in> set all_actions" by (cases a) (simp_all add: all_actions_def)
  then have "action \<in> action_value ` set all_actions" using s by blast
  with Inr s show ?thesis
    by (auto simp: authorize_def evaluate_authorization_def has_scope_def required_scope_def auth_allow_def auth_deny_def Let_def)
qed

text \<open>C5. Denials are not an oracle: to a caller without the cross-tenant scope a resource of another
  tenant, a resource of no tenant and a resource of its own that does not exist give the same
  decision, whatever scopes it holds and whatever the catalogue knows of them.\<close>

theorem denial_is_not_an_oracle:
  assumes "CROSS_TENANT_SCOPE \<notin> pr_scopes p"
    and "rr_tenant_id r \<noteq> Some (pr_tenant_id p) \<or> resource_exists catalog r = Some False"
    and "rr_tenant_id r' \<noteq> Some (pr_tenant_id p) \<or> resource_exists catalog r' = Some False"
  shows "authorize catalog p action r = authorize catalog p action r' \<and>
    raise_for_denial catalog p action r = raise_for_denial catalog p action r'"
proof -
  have "evaluate_authorization p a x (pr_scopes p) None (resource_exists catalog x) = auth_deny a ''AUTH_RESOURCE_NOT_FOUND'' ''RESOURCE_NOT_FOUND'' []"
    if "rr_tenant_id x \<noteq> Some (pr_tenant_id p) \<or> resource_exists catalog x = Some False" for a x
    using that assms(1) by (auto simp: evaluate_authorization_def has_scope_def Let_def)
  from this [OF assms(2)] this [OF assms(3)] show ?thesis
    by (simp add: authorize_def raise_for_denial_def)
qed

definition sample_principal :: request_principal where
  "sample_principal = \<lparr>pr_tenant_id = ''t1'', pr_user_id = ''u1'', pr_membership_id = ''m1'', pr_roles = {''member''}, pr_scopes = {''read''},
     pr_authorization_version = 1, pr_session_id = ''s'', pr_request_id = ''q'', pr_run_id = None\<rparr>"

theorem denial_is_not_an_oracle_witness:
  "authorize (Some (mem_contains {})) sample_principal ''read'' \<lparr>rr_kind = ''doc'', rr_id = ''1'', rr_tenant_id = Some ''t2'', rr_attributes = []\<rparr> =
   authorize (Some (mem_contains {})) sample_principal ''read'' \<lparr>rr_kind = ''doc'', rr_id = ''2'', rr_tenant_id = Some ''t1'', rr_attributes = []\<rparr>"
  by (rule conjunct1 [OF denial_is_not_an_oracle])
     (simp_all add: sample_principal_def CROSS_TENANT_SCOPE_def resource_exists_def mem_contains_def)

text \<open>After the grants of a membership were revoked every fresh authorization of it is refused,
  whatever its snapshot of scopes still lists, while other memberships keep their decisions; the
  authorization version has grown.\<close>

theorem revocation_is_immediate:
  assumes "memory_ok g" and "as_action action = Inr a" and "(revoke g (pr_tenant_id p) (pr_user_id p) (pr_membership_id p)) = (g', v)"
  shows "(\<exists>d. authorize_fresh mem_scopes_for mem_version_for (Some g') catalog p action r = Inr d \<and> \<not> dc_allowed d) \<and>
    mem_version_for g (pr_tenant_id p) (pr_user_id p) (pr_membership_id p) < mem_version_for g' (pr_tenant_id p) (pr_user_id p) (pr_membership_id p) \<and>
    (\<forall>t u m. (t, u, m) \<noteq> (pr_tenant_id p, pr_user_id p, pr_membership_id p) \<longrightarrow> mem_scopes_for g' t u m = mem_scopes_for g t u m)"
proof -
  have g': "g' = fst (revoke g (pr_tenant_id p) (pr_user_id p) (pr_membership_id p))" using assms(3) by simp
  show ?thesis
    unfolding g'
    using memory_source.fresh_after_revoke [OF assms(1,2)] memory_source.version_grows [OF assms(1)] memory_source.revoke_others
    by blast
qed

theorem revocation_is_immediate_witness:
  "\<exists>g' v d. revoke \<lparr>mg_scopes = [(''t1'', ''u1'', ''m1'') \<mapsto> {''read''}], mg_versions = Map.empty\<rparr> ''t1'' ''u1'' ''m1'' = (g', v) \<and>
     authorize_fresh mem_scopes_for mem_version_for (Some g') None sample_principal ''read''
       \<lparr>rr_kind = ''doc'', rr_id = ''1'', rr_tenant_id = Some ''t1'', rr_attributes = []\<rparr> = Inr d \<and> \<not> dc_allowed d"
proof -
  let ?g = "\<lparr>mg_scopes = [(''t1'', ''u1'', ''m1'') \<mapsto> {''read''}], mg_versions = Map.empty\<rparr>"
  obtain g' v where r: "revoke ?g ''t1'' ''u1'' ''m1'' = (g', v)" by fastforce
  have ok: "memory_ok ?g" by (simp add: memory_ok_def)
  have a: "as_action ''read'' = Inr Act_read" using as_action_value [of Act_read] by simp
  from revocation_is_immediate [OF ok a, of sample_principal g' v None "\<lparr>rr_kind = ''doc'', rr_id = ''1'', rr_tenant_id = Some ''t1'', rr_attributes = []\<rparr>"] r
  show ?thesis by (auto simp: sample_principal_def)
qed

lemma ensure_active_Inr:
  assumes "ensure_active (Some e) field ACTIVE_STATUS = Inr u" and "en_status e = Some s"
  shows "\<exists>x. s = Status_text x \<and> py_casefold (py_strip x) = ACTIVE_STATUS"
proof -
  have n: "py_casefold (py_strip ACTIVE_STATUS) = ACTIVE_STATUS" by code_simp
  show ?thesis
    using assms n by (cases s) (auto simp: ensure_active_def Let_def split: if_splits)
qed

lemma check_claim_Inr: "check_claim field claimed expected = Inr u \<Longrightarrow> claimed \<noteq> None \<Longrightarrow> stringify_identifier claimed = Some expected"
  by (auto simp: check_claim_def split: option.splits if_splits)

lemma require_identifier_Inr: "require_identifier v field = Inr x \<longleftrightarrow> stringify_identifier v = Some x"
  by (auto simp: require_identifier_def res_simps)

lemma require_entity_identifier_Inr:
  "require_entity_identifier e field = Inr x \<longleftrightarrow> (\<exists>en. e = Some en \<and> stringify_identifier (en_id en) = Some x)"
  by (auto simp: require_entity_identifier_def require_identifier_Inr split: option.splits)

lemma resolve_principal_Inr:
  assumes "resolve_principal tenant user membership role_codes scopes grants av sid rid run_id ct cu now es = Inr p"
  obtains t u m x y z where "tenant = Some t" "user = Some u" "membership = Some m"
    "stringify_identifier (en_id t) = Some (pr_tenant_id p)" "stringify_identifier (en_tenant_id m) = Some (pr_tenant_id p)"
    "stringify_identifier (en_id u) = Some (pr_user_id p)" "stringify_identifier (en_user_id m) = Some (pr_user_id p)"
    "stringify_identifier (en_id m) = Some (pr_membership_id p)"
    "check_claim ''tenant_id'' ct (pr_tenant_id p) = Inr ()" "check_claim ''user_id'' cu (pr_user_id p) = Inr ()"
    "ensure_active (Some t) ''tenant'' es = Inr ()" "ensure_active (Some u) ''user'' es = Inr ()"
    "ensure_active (Some m) ''membership'' es = Inr ()"
    "pr_roles p \<subseteq> rg_role_code ` set (filter (\<lambda>g. is_valid_at g now) grants)"
    "pr_scopes p \<subseteq> (\<Union>g\<in>set (filter (\<lambda>g. is_valid_at g now) grants). rg_scopes g)"
proof (cases membership)
  case None
  with assms show ?thesis by (simp add: resolve_principal_def)
next
  case (Some m)
  from assms show ?thesis
    unfolding resolve_principal_def Some option.case Let_def res_bind_Inr_iff res_guard_iff require_identifier_Inr require_entity_identifier_Inr
    by (elim exE conjE) (rule that [OF _ _ Some], auto split: if_splits)
qed

text \<open>A principal exists only for a membership that links exactly the authenticated tenant and user,
  all three of them active or without a status, and only if the request claims no other tenant or
  user; its roles and scopes come from grants that are neither revoked nor outside their window.\<close>

theorem principal_is_membership_derived:
  assumes "resolve_principal tenant user membership role_codes scopes grants av sid rid run_id claimed_tenant claimed_user now ACTIVE_STATUS = Inr p"
  shows "(\<exists>t u m. tenant = Some t \<and> user = Some u \<and> membership = Some m \<and>
      stringify_identifier (en_id t) = Some (pr_tenant_id p) \<and> stringify_identifier (en_tenant_id m) = Some (pr_tenant_id p) \<and>
      stringify_identifier (en_id u) = Some (pr_user_id p) \<and> stringify_identifier (en_user_id m) = Some (pr_user_id p) \<and>
      stringify_identifier (en_id m) = Some (pr_membership_id p) \<and>
      (\<forall>e\<in>{t, u, m}. \<forall>s. en_status e = Some s \<longrightarrow> (\<exists>x. s = Status_text x \<and> py_casefold (py_strip x) = ACTIVE_STATUS))) \<and>
    (claimed_tenant \<noteq> None \<longrightarrow> stringify_identifier claimed_tenant = Some (pr_tenant_id p)) \<and>
    (claimed_user \<noteq> None \<longrightarrow> stringify_identifier claimed_user = Some (pr_user_id p)) \<and>
    (\<forall>s\<in>pr_scopes p. \<exists>g\<in>set grants. is_valid_at g now \<and> s \<in> rg_scopes g) \<and>
    (\<forall>c\<in>pr_roles p. \<exists>g\<in>set grants. is_valid_at g now \<and> c = rg_role_code g)"
proof -
  from assms obtain t u m where e: "tenant = Some t" "user = Some u" "membership = Some m"
    and i: "stringify_identifier (en_id t) = Some (pr_tenant_id p)" "stringify_identifier (en_tenant_id m) = Some (pr_tenant_id p)"
      "stringify_identifier (en_id u) = Some (pr_user_id p)" "stringify_identifier (en_user_id m) = Some (pr_user_id p)"
      "stringify_identifier (en_id m) = Some (pr_membership_id p)"
    and c: "check_claim ''tenant_id'' claimed_tenant (pr_tenant_id p) = Inr ()" "check_claim ''user_id'' claimed_user (pr_user_id p) = Inr ()"
    and a: "ensure_active (Some t) ''tenant'' ACTIVE_STATUS = Inr ()" "ensure_active (Some u) ''user'' ACTIVE_STATUS = Inr ()"
      "ensure_active (Some m) ''membership'' ACTIVE_STATUS = Inr ()"
    and g: "pr_roles p \<subseteq> rg_role_code ` set (filter (\<lambda>g. is_valid_at g now) grants)"
      "pr_scopes p \<subseteq> (\<Union>g\<in>set (filter (\<lambda>g. is_valid_at g now) grants). rg_scopes g)"
    by (rule resolve_principal_Inr)
  have "\<forall>e\<in>{t, u, m}. \<forall>s. en_status e = Some s \<longrightarrow> (\<exists>x. s = Status_text x \<and> py_casefold (py_strip x) = ACTIVE_STATUS)"
    using ensure_active_Inr [OF a(1)] ensure_active_Inr [OF a(2)] ensure_active_Inr [OF a(3)] by auto
  moreover have "\<forall>s\<in>pr_scopes p. \<exists>g\<in>set grants. is_valid_at g now \<and> s \<in> rg_scopes g" using g(2) by fastforce
  moreover have "\<forall>c\<in>pr_roles p. \<exists>g\<in>set grants. is_valid_at g now \<and> c = rg_role_code g" using g(1) by fastforce
  ultimately show ?thesis
    using e i check_claim_Inr [OF c(1)] check_claim_Inr [OF c(2)] by blast
qed

definition sample_entity :: "string \<Rightarrow> entity" where
  "sample_entity i = \<lparr>en_id = Some (Id_text i), en_tenant_id = Some (Id_text ''t1''), en_user_id = Some (Id_uuid ''u1''),
     en_status = Some (Status_text '' Active'')\<rparr>"

definition sample_grants :: "role_grant list" where
  "sample_grants =
     [\<lparr>rg_role_code = ''member'', rg_scopes = {''read''}, rg_valid_from = Some 1, rg_expires_at = Some 9, rg_revoked = False\<rparr>,
      \<lparr>rg_role_code = ''admin'', rg_scopes = {''admin''}, rg_valid_from = None, rg_expires_at = Some 2, rg_revoked = False\<rparr>]"

lemma sample_identifiers:
  "stringify_identifier (Some (Id_text ''t1'')) = Some ''t1''" "stringify_identifier (Some (Id_text ''u1'')) = Some ''u1''"
  "stringify_identifier (Some (Id_text ''m1'')) = Some ''m1''" "stringify_identifier (Some (Id_text ''s'')) = Some ''s''"
  "stringify_identifier (Some (Id_text ''q'')) = Some ''q''" "stringify_identifier (Some (Id_uuid ''u1'')) = Some ''u1''"
  by code_simp+

lemma sample_active: "ensure_active (Some (sample_entity i)) field ACTIVE_STATUS = Inr ()"
proof -
  have "py_casefold (py_strip '' Active'') = ''active''" "py_casefold (py_strip ACTIVE_STATUS) = ''active''" "py_strip ACTIVE_STATUS \<noteq> []"
    by code_simp+
  then show ?thesis by (simp add: ensure_active_def sample_entity_def INACTIVE_STATUSES_def)
qed

lemma sample_valid_grants: "filter (\<lambda>g. is_valid_at g (Some 5)) sample_grants =
   [\<lparr>rg_role_code = ''member'', rg_scopes = {''read''}, rg_valid_from = Some 1, rg_expires_at = Some 9, rg_revoked = False\<rparr>]"
  by (simp add: sample_grants_def is_valid_at_def)

theorem principal_is_membership_derived_witness:
  "\<exists>p. resolve_principal (Some (sample_entity ''t1'')) (Some (sample_entity ''u1'')) (Some (sample_entity ''m1'')) [] [] sample_grants
      1 (Some (Id_text ''s'')) (Some (Id_text ''q'')) None (Some (Id_text ''t1'')) None (Some 5) ACTIVE_STATUS = Inr p \<and>
    (\<forall>s\<in>pr_scopes p. \<exists>g\<in>set sample_grants. is_valid_at g (Some 5) \<and> s \<in> rg_scopes g) \<and> pr_scopes p = {''read''}"
proof -
  obtain p where p: "resolve_principal (Some (sample_entity ''t1'')) (Some (sample_entity ''u1'')) (Some (sample_entity ''m1'')) [] [] sample_grants
      1 (Some (Id_text ''s'')) (Some (Id_text ''q'')) None (Some (Id_text ''t1'')) None (Some 5) ACTIVE_STATUS = Inr p"
    and s: "pr_scopes p = {''read''}"
    by (simp add: resolve_principal_def require_identifier_def require_entity_identifier_def sample_active check_claim_def
        sample_valid_grants Let_def del: set_filter)
       (simp add: sample_entity_def sample_identifiers)
  from principal_is_membership_derived [OF p] p s show ?thesis by blast
qed

end
