(* ===== verification/Runs_Api.thy ===== *)
theory Runs_Api
  imports Job_Operations Quota Run_Events Authorization
begin

text \<open>
  The runs API (\<open>api/routes_runs.py\<close>): the routes compose admission, the durable job service and
  the event stream. The admission gate is a parameter with its own state (the protocol
  \<open>RunAdmission\<close>); \<open>allow_all\<close> is the default, \<open>admission_admit\<close> the production binding. The body has
  passed the validation of \<open>RunRequest\<close> when \<open>run_request_ok\<close> holds.
\<close>

definition IDEMPOTENCY_KEY_MIN :: nat where "IDEMPOTENCY_KEY_MIN = 16"
definition IDEMPOTENCY_KEY_MAX :: nat where "IDEMPOTENCY_KEY_MAX = 128"

record run_request =
  rq_kind :: string
  rq_payload :: json
  rq_priority_lane :: string
  rq_max_attempts :: int

definition run_request_ok :: "run_request \<Rightarrow> bool" where
  "run_request_ok b \<longleftrightarrow> 1 \<le> length (rq_kind b) \<and> length (rq_kind b) \<le> 80 \<and> length (rq_priority_lane b) \<le> 40 \<and>
     1 \<le> rq_max_attempts b \<and> rq_max_attempts b \<le> 50"

record run_view =
  rv_run_id :: string
  rv_job_id :: string
  rv_tenant_id :: string
  rv_kind :: string
  rv_state :: job_state
  rv_attempts :: int
  rv_max_attempts :: int
  rv_idempotency_key :: string
  rv_priority_lane :: string
  rv_created_at :: instant

definition public_run_id :: "durable_job \<Rightarrow> string" where
  "public_run_id job = (case job_run_id job of None \<Rightarrow> job_id job | Some r \<Rightarrow> if r = [] then job_id job else r)"

definition to_run_view :: "durable_job \<Rightarrow> run_view" where
  "to_run_view job = \<lparr>rv_run_id = public_run_id job, rv_job_id = job_id job, rv_tenant_id = job_tenant_id job, rv_kind = job_kind job,
     rv_state = job_state job, rv_attempts = job_attempts job, rv_max_attempts = job_max_attempts job,
     rv_idempotency_key = job_idempotency_key job, rv_priority_lane = job_priority_lane job, rv_created_at = job_created_at job\<rparr>"

text \<open>A response: a view with its status, a declined admission, an application error with its status
  and code, or an exception the route does not handle.\<close>

datatype run_response =
    Run_ok int run_view
  | Run_declined int string string int
  | Run_error int string
  | Run_unhandled

definition run_not_found :: run_response where
  "run_not_found = Run_error 404 ''NOT_FOUND''"

type_synonym 'a admission = "'a \<Rightarrow> string \<Rightarrow> string \<Rightarrow> 'a \<times> (string + admission_outcome)"

definition allow_all :: "'a admission" where
  "allow_all a resource identity = (a, Inr admitted_outcome)"

definition run_identity :: "request_principal \<Rightarrow> string" where
  "run_identity p = pr_tenant_id p @ '':'' @ pr_user_id p"

definition create_run :: "(string \<Rightarrow> string) \<Rightarrow> 'a admission \<Rightarrow> jobs_db \<Rightarrow> jobs_db \<Rightarrow> instant \<Rightarrow> ident \<Rightarrow> ident \<Rightarrow> 'a
    \<Rightarrow> run_request \<Rightarrow> request_principal \<Rightarrow> string option \<Rightarrow> jobs_db \<times> 'a \<times> run_response" where
  "create_run sha256 admit snap cur now jid eid a body p idempotency_key =
     (let key = py_strip (case idempotency_key of None \<Rightarrow> [] | Some k \<Rightarrow> k) in
      if \<not> (IDEMPOTENCY_KEY_MIN \<le> length key \<and> length key \<le> IDEMPOTENCY_KEY_MAX)
      then (cur, a, Run_error 400 ''IDEMPOTENCY_KEY_INVALID'')
      else (case admit a (rq_kind body) (run_identity p) of
          (a', Inl _) \<Rightarrow> (cur, a', Run_unhandled)
        | (a', Inr outcome) \<Rightarrow>
            if \<not> ao_admitted outcome then
              (cur, a', Run_declined (ao_http_status outcome) (ao_error_code outcome) (ao_reason outcome)
                 (max 1 \<lceil>ao_retry_after_seconds outcome\<rceil>))
            else (case enqueue sha256 snap cur now jid eid (pr_tenant_id p) (rq_kind body) (rq_payload body) key None
                         (rq_max_attempts body) (rq_priority_lane body) 1 of
                Inl Idempotency_conflict \<Rightarrow> (cur, a', Run_error 409 ''IDEMPOTENCY_KEY_CONFLICT'')
              | Inl _ \<Rightarrow> (cur, a', Run_unhandled)
              | Inr (cur', job) \<Rightarrow> (cur', a', Run_ok 201 (to_run_view job)))))"

text \<open>The job a path parameter addresses: its own tenant's, or none.\<close>

definition tenant_job :: "jobs_db \<Rightarrow> request_principal \<Rightarrow> string \<Rightarrow> durable_job option" where
  "tenant_job db p run_id = (case get_job db run_id of
     None \<Rightarrow> None
   | Some job \<Rightarrow> if job_tenant_id job \<noteq> pr_tenant_id p then None else Some job)"

definition get_run :: "jobs_db \<Rightarrow> request_principal \<Rightarrow> string \<Rightarrow> run_response" where
  "get_run db p run_id = (case tenant_job db p run_id of None \<Rightarrow> run_not_found | Some job \<Rightarrow> Run_ok 200 (to_run_view job))"

definition cancel_run :: "jobs_db \<Rightarrow> jobs_db \<Rightarrow> jobs_db \<Rightarrow> instant \<Rightarrow> ident \<Rightarrow> request_principal \<Rightarrow> string \<Rightarrow> jobs_db \<times> run_response" where
  "cancel_run db snap cur now eid p run_id = (case tenant_job db p run_id of
     None \<Rightarrow> (cur, run_not_found)
   | Some job \<Rightarrow> (case request_cancel snap cur now eid (job_id job) of
       Inr (cur', job') \<Rightarrow> (cur', Run_ok 200 (to_run_view job'))
     | Inl Idempotency_conflict \<Rightarrow> (cur, Run_unhandled)
     | Inl Integrity_error \<Rightarrow> (cur, Run_unhandled)
     | Inl _ \<Rightarrow> (cur, Run_error 409 ''RUN_NOT_CANCELLABLE'')))"

text \<open>\<open>Inl\<close> is the 404 before any stream is opened; a run in a terminal state gets no live tail.\<close>

definition stream_run_events :: "stream_config \<Rightarrow> int \<Rightarrow> streams \<Rightarrow> run_event list \<Rightarrow> (string \<Rightarrow> string \<Rightarrow> stream_event option list)
    \<Rightarrow> jobs_db \<Rightarrow> request_principal \<Rightarrow> string \<Rightarrow> string option \<Rightarrow> run_response + frame list \<times> string option" where
  "stream_run_events cfg clk rs events tail db p run_id last_event_id = (case tenant_job db p run_id of
     None \<Rightarrow> Inl run_not_found
   | Some job \<Rightarrow>
       (let public = public_run_id job;
            after = (case last_event_id of None \<Rightarrow> ''0'' | Some s \<Rightarrow> if s = [] then ''0'' else s)
        in Inr (sse_event_source (replay cfg clk rs public after) public last_event_id None
             (Some (case snapshot_bind events (pr_tenant_id p) public 0 of Inl _ \<Rightarrow> Inl ''RepositoryError'' | Inr es \<Rightarrow> Inr es))
             (if job_state job \<in> JOB_TERMINAL_STATES then None else Some (tail public))
             (Some is_terminal_event))))"

section \<open>Shared lemmas\<close>

abbreviation header_key :: "string option \<Rightarrow> string" where
  "header_key k \<equiv> py_strip (case k of None \<Rightarrow> [] | Some x \<Rightarrow> x)"

lemma create_run_ok:
  assumes "create_run sha256 admit snap cur now jid eid a body p k = (cur', a', Run_ok st v)"
  obtains outcome job where "IDEMPOTENCY_KEY_MIN \<le> length (header_key k)" "length (header_key k) \<le> IDEMPOTENCY_KEY_MAX"
    "admit a (rq_kind body) (run_identity p) = (a', Inr outcome)" "ao_admitted outcome" "st = 201"
    "enqueue sha256 snap cur now jid eid (pr_tenant_id p) (rq_kind body) (rq_payload body) (header_key k) None
       (rq_max_attempts body) (rq_priority_lane body) 1 = Inr (cur', job)" "v = to_run_view job"
proof -
  have len: "IDEMPOTENCY_KEY_MIN \<le> length (header_key k) \<and> length (header_key k) \<le> IDEMPOTENCY_KEY_MAX"
    using assms by (cases "IDEMPOTENCY_KEY_MIN \<le> length (header_key k) \<and> length (header_key k) \<le> IDEMPOTENCY_KEY_MAX")
      (auto simp: create_run_def Let_def)
  obtain a1 r where ad: "admit a (rq_kind body) (run_identity p) = (a1, r)" by fastforce
  obtain outcome where r: "r = Inr outcome" "ao_admitted outcome"
    using assms len ad by (cases r) (auto simp: create_run_def Let_def split: if_splits)
  let ?e = "enqueue sha256 snap cur now jid eid (pr_tenant_id p) (rq_kind body) (rq_payload body) (header_key k) None
       (rq_max_attempts body) (rq_priority_lane body) 1"
  show ?thesis
  proof (cases ?e)
    case (Inl err)
    with assms len ad r show ?thesis by (cases err) (simp_all add: create_run_def Let_def)
  next
    case (Inr q)
    obtain c job where "q = (c, job)" by (cases q)
    with assms len ad r Inr that show ?thesis by (simp add: create_run_def Let_def)
  qed
qed

lemma find_snoc: "find P xs = None \<Longrightarrow> P x \<Longrightarrow> find P (xs @ [x]) = Some x"
  by (induction xs) (auto split: if_splits)

text \<open>A job that enqueue returned is stored, is the one under its key, and has the payload's digest.\<close>

lemma enqueue_stored:
  assumes e: "enqueue sha256 cur cur now jid eid tenant kind payload key run maxa lane schema = Inr (cur', job)"
    and d: "keys_distinct job_id (jobs cur)"
  shows "get_row job_id (jobs cur') (job_id job) = Some job \<and> find_by_idempotency cur' tenant kind key = Some job \<and>
    job_payload_digest job = job_digest sha256 payload \<and> job_tenant_id job = tenant"
proof (cases "find_by_idempotency cur tenant kind key")
  case (Some existing)
  with e have "cur' = cur" "job = existing" "job_payload_digest existing = job_digest sha256 payload"
    by (auto simp: enqueue_def reconcile_idempotent_def res_simps Let_def split: if_splits)
  moreover have "existing \<in> set (jobs cur)" "job_tenant_id existing = tenant"
    using Some by (auto simp: find_by_idempotency_def find_Some_iff)
  ultimately show ?thesis using Some get_row_in_set [OF d] by simp
next
  case None
  let ?job = "new_job now jid tenant run kind key schema (job_digest sha256 payload) payload lane maxa"
  have fresh: "jid \<notin> job_id ` set (jobs cur)" using e None by (auto simp: enqueue_def Let_def)
  with e None have c: "jobs cur' = jobs cur @ [?job]" "job = ?job"
    by (auto simp: enqueue_def Let_def split: option.splits)
  have "get_row job_id (jobs cur) jid = None" using fresh by (simp add: get_row_None_iff)
  moreover have "find_by_idempotency cur' tenant kind key = Some ?job"
    unfolding find_by_idempotency_def c(1) by (rule find_snoc) (use None in \<open>simp_all add: find_by_idempotency_def new_job_def\<close>)
  ultimately show ?thesis using c by (simp add: get_row_append new_job_def)
qed

lemma tenant_job_of_id: "get_row job_id (jobs db) i = Some job \<Longrightarrow>
   tenant_job db p i = (if job_tenant_id job = pr_tenant_id p then Some job else None)"
  by (simp add: tenant_job_def get_job_def)

lemma reachable_current:
  assumes "reach hist_init (job_step sha256 svc) h"
  shows "h \<noteq> []" "jobs_inv (hd h)" "keys_distinct job_id (jobs (hd h))"
    "db \<in> set h \<Longrightarrow> jobs_inv db \<and> job_spec_step\<^sup>*\<^sup>* db (hd h)"
proof -
  have i: "hist_inv h" by (rule job_system.reach_inv [OF assms])
  then show "h \<noteq> []" "jobs_inv (hd h)" by (simp_all add: hist_inv_def)
  then show "keys_distinct job_id (jobs (hd h))" using jobs_inv_wf by (auto simp: jobs_wf_def)
  show "db \<in> set h \<Longrightarrow> jobs_inv db \<and> job_spec_step\<^sup>*\<^sup>* db (hd h)" using i by (simp add: hist_inv_def)
qed

text \<open>The tenant of a job id never changes.\<close>

lemma tenant_of_id_stable:
  assumes r: "reach hist_init (job_step sha256 svc) h" and db: "db \<in> set h"
    and j: "j \<in> set (jobs db)" and k: "k \<in> set (jobs (hd h))" and id: "job_id k = job_id j"
  shows "job_tenant_id k = job_tenant_id j"
proof -
  obtain new where "map job_identity (jobs (hd h)) = map job_identity (jobs db) @ new"
    using spec_steps_identity [of db "hd h"] reachable_current(4) [OF r db] jobs_inv_wf by blast
  then have "job_identity j \<in> job_identity ` set (jobs (hd h))" using j by (metis UnCI imageI list.set_map set_append)
  then obtain j0 where j0: "j0 \<in> set (jobs (hd h))" "job_identity j0 = job_identity j" by (metis imageE)
  then have "job_id j0 = job_id k" using id by (simp add: job_identity_def)
  then have "j0 = k" using get_row_in_set [OF reachable_current(3) [OF r]] j0(1) k by (metis option.inject)
  with j0(2) show ?thesis by (simp add: job_identity_def idempotency_triple_def)
qed

lemma cas_row_others: "cas_row k ver setv t i e upd = Some t' \<Longrightarrow> r \<in> set t \<Longrightarrow> k r \<noteq> i \<Longrightarrow> r \<in> set t'"
  by (auto simp: cas_row_def put_row_def intro: rev_image_eqI split: if_splits option.splits)

lemma request_cancel_others:
  assumes "request_cancel snap cur now eid i = Inr (cur', job)" and "j \<in> set (jobs cur)" and "job_id j \<noteq> i"
  shows "j \<in> set (jobs cur')"
proof (cases "load_job snap i")
  case (Inl e)
  with assms(1) show ?thesis by (simp add: request_cancel_def)
next
  case (Inr x)
  have i: "job_id x = i" using Inr get_row_SomeD [of job_id "jobs snap" i x] by (simp add: load_job_def res_simps)
  consider "cur' = cur" | t v where "job_cas cur x (\<lambda>j. j\<lparr>job_state := Cancel_requested, job_updated_at := now\<rparr>) = Inr (t, v)" "jobs cur' = t"
    using assms(1) Inr
    by (auto simp: request_cancel_def res_simps commit_event_def refresh_def split: if_splits option.splits)
  then show ?thesis
  proof cases
    case (2 t v)
    then have "cas_row job_id job_version set_job_version (jobs cur) i (job_version x) (\<lambda>j. j\<lparr>job_state := Cancel_requested, job_updated_at := now\<rparr>) = Some t"
      using i by (simp add: job_cas_def split: option.splits)
    then have "j \<in> set t" using assms(2,3) by (rule cas_row_others)
    with 2 show ?thesis by simp
  qed (use assms(2) in simp)
qed

section \<open>Properties\<close>

text \<open>A run that was created is there: whenever the route answers 201 the admission gate had admitted
  this kind for this caller, every caller of the tenant reads exactly the answered view under the
  job's id, and repeating the request with the same key and body, whatever the time, answers the same view and
  changes nothing in the database.\<close>

theorem created_run_is_readable:
  assumes "reach hist_init (job_step sha256 svc) h"
    and "create_run sha256 admit (hd h) (hd h) now jid eid a body p k = (cur', a', Run_ok st v)"
    and "admit b (rq_kind body) (run_identity p) = (b', Inr admitted_again)" and "ao_admitted admitted_again"
    and "pr_tenant_id q = pr_tenant_id p"
  shows "(\<exists>outcome. admit a (rq_kind body) (run_identity p) = (a', Inr outcome) \<and> ao_admitted outcome) \<and>
    get_run cur' q (rv_job_id v) = Run_ok 200 v \<and> rv_tenant_id v = pr_tenant_id p \<and>
    create_run sha256 admit cur' cur' now2 jid2 eid2 b body p k = (cur', b', Run_ok 201 v)"
proof -
  from assms(2) obtain outcome job where len: "IDEMPOTENCY_KEY_MIN \<le> length (header_key k)" "length (header_key k) \<le> IDEMPOTENCY_KEY_MAX"
    and ad: "admit a (rq_kind body) (run_identity p) = (a', Inr outcome)" "ao_admitted outcome"
    and e: "enqueue sha256 (hd h) (hd h) now jid eid (pr_tenant_id p) (rq_kind body) (rq_payload body) (header_key k) None
       (rq_max_attempts body) (rq_priority_lane body) 1 = Inr (cur', job)" and v: "v = to_run_view job"
    by (rule create_run_ok)
  have s: "get_row job_id (jobs cur') (job_id job) = Some job"
    "find_by_idempotency cur' (pr_tenant_id p) (rq_kind body) (header_key k) = Some job"
    "job_payload_digest job = job_digest sha256 (rq_payload body)" "job_tenant_id job = pr_tenant_id p"
    using enqueue_stored [OF e reachable_current(3) [OF assms(1)]] by simp_all
  have "enqueue sha256 cur' cur' now2 jid2 eid2 (pr_tenant_id p) (rq_kind body) (rq_payload body) (header_key k) None
       (rq_max_attempts body) (rq_priority_lane body) 1 = Inr (cur', job)"
    using s(2,3) by (simp add: enqueue_def Let_def reconcile_idempotent_def)
  then have "create_run sha256 admit cur' cur' now2 jid2 eid2 b body p k = (cur', b', Run_ok 201 v)"
    using len assms(3,4) v by (simp add: create_run_def Let_def)
  moreover have "get_run cur' q (rv_job_id v) = Run_ok 200 v" "rv_tenant_id v = pr_tenant_id p"
    using s(1,4) assms(5) by (simp_all add: v to_run_view_def get_run_def tenant_job_of_id)
  ultimately show ?thesis using ad by blast
qed

definition sample_run_request :: run_request where
  "sample_run_request = \<lparr>rq_kind = ''ingest'', rq_payload = JObj [], rq_priority_lane = ''default'', rq_max_attempts = 3\<rparr>"

lemma enqueue_empty:
  "\<exists>db job. enqueue sha256 empty_db empty_db now jid eid tenant kind payload key run maxa lane schema = Inr (db, job)"
  by (simp add: enqueue_def Let_def find_by_idempotency_def empty_db_def outbox_insert_def)

lemma sample_run_created:
  "\<exists>db v. create_run id allow_all empty_db empty_db 0 ''j1'' ''e1'' () sample_run_request sample_principal (Some ''0123456789abcdef'') = (db, (), Run_ok 201 v)"
proof -
  have k: "header_key (Some ''0123456789abcdef'') = ''0123456789abcdef''" by code_simp
  obtain db job where e: "enqueue id empty_db empty_db 0 ''j1'' ''e1'' (pr_tenant_id sample_principal) (rq_kind sample_run_request)
      (rq_payload sample_run_request) ''0123456789abcdef'' None (rq_max_attempts sample_run_request) (rq_priority_lane sample_run_request) 1 = Inr (db, job)"
    using enqueue_empty by blast
  have "create_run id allow_all empty_db empty_db 0 ''j1'' ''e1'' () sample_run_request sample_principal (Some ''0123456789abcdef'') =
      (db, (), Run_ok 201 (to_run_view job))"
    unfolding create_run_def Let_def k allow_all_def
    using e by (simp add: admitted_outcome_def IDEMPOTENCY_KEY_MIN_def IDEMPOTENCY_KEY_MAX_def)
  then show ?thesis by blast
qed

theorem created_run_is_readable_witness:
  "\<exists>db v. create_run id allow_all empty_db empty_db 0 ''j1'' ''e1'' () sample_run_request sample_principal (Some ''0123456789abcdef'') = (db, (), Run_ok 201 v) \<and>
     get_run db sample_principal (rv_job_id v) = Run_ok 200 v \<and>
     create_run id allow_all db db 9 ''j2'' ''e2'' () sample_run_request sample_principal (Some ''0123456789abcdef'') = (db, (), Run_ok 201 v)"
proof -
  obtain db v where c: "create_run id allow_all empty_db empty_db 0 ''j1'' ''e1'' () sample_run_request sample_principal (Some ''0123456789abcdef'') = (db, (), Run_ok 201 v)"
    using sample_run_created by blast
  have r: "reach hist_init (job_step id sample_service) [empty_db]"
    by (rule reach_init) (simp add: hist_init_def jobs_init_def empty_db_def)
  have al: "allow_all () (rq_kind sample_run_request) (run_identity sample_principal) = ((), Inr admitted_outcome)" by (simp add: allow_all_def)
  have ao: "ao_admitted admitted_outcome" by (simp add: admitted_outcome_def)
  have c': "create_run id allow_all (hd [empty_db]) (hd [empty_db]) 0 ''j1'' ''e1'' () sample_run_request sample_principal (Some ''0123456789abcdef'') = (db, (), Run_ok 201 v)"
    using c by (simp only: list.sel)
  have "get_run db sample_principal (rv_job_id v) = Run_ok 200 v \<and>
     create_run id allow_all db db 9 ''j2'' ''e2'' () sample_run_request sample_principal (Some ''0123456789abcdef'') = (db, (), Run_ok 201 v)"
    using created_run_is_readable [OF r c' al ao refl] by blast
  with c show ?thesis by blast
qed

text \<open>C16. Runs are private to their tenant: to a caller of another tenant a run answers every read,
  cancellation and event stream exactly as an id that does not exist, and no cancellation,
  whatever it read before, changes a job of another tenant.\<close>

theorem runs_are_tenant_private:
  assumes "reach hist_init (job_step sha256 svc) h" and "db \<in> set h"
  shows "(\<forall>job. get_job db rid = Some job \<and> job_tenant_id job \<noteq> pr_tenant_id p \<longrightarrow>
      get_run db p rid = get_run empty_db p rid \<and>
      cancel_run db snap (hd h) now eid p rid = (hd h, snd (cancel_run empty_db empty_db empty_db now eid p rid)) \<and>
      stream_run_events cfg clk rs events tail db p rid lei = stream_run_events cfg clk rs events tail empty_db p rid lei) \<and>
    (\<forall>cur' r. cancel_run db snap (hd h) now eid p rid = (cur', r) \<longrightarrow>
      (\<forall>j\<in>set (jobs (hd h)). job_tenant_id j \<noteq> pr_tenant_id p \<longrightarrow> j \<in> set (jobs cur')))"
proof (intro conjI allI impI ballI)
  fix job
  assume "get_job db rid = Some job \<and> job_tenant_id job \<noteq> pr_tenant_id p"
  then have t: "tenant_job db p rid = tenant_job empty_db p rid" and n: "tenant_job empty_db p rid = None"
    by (simp_all add: tenant_job_def get_job_def empty_db_def)
  show "get_run db p rid = get_run empty_db p rid"
    "cancel_run db snap (hd h) now eid p rid = (hd h, snd (cancel_run empty_db empty_db empty_db now eid p rid))"
    "stream_run_events cfg clk rs events tail db p rid lei = stream_run_events cfg clk rs events tail empty_db p rid lei"
    by (simp_all add: get_run_def cancel_run_def stream_run_events_def t n)
next
  fix cur' r j
  assume c: "cancel_run db snap (hd h) now eid p rid = (cur', r)" and j: "j \<in> set (jobs (hd h))" "job_tenant_id j \<noteq> pr_tenant_id p"
  show "j \<in> set (jobs cur')"
  proof (cases "tenant_job db p rid")
    case None
    with c j(1) show ?thesis by (simp add: cancel_run_def)
  next
    case (Some job)
    then have job: "job \<in> set (jobs db)" "job_tenant_id job = pr_tenant_id p"
      by (auto simp: tenant_job_def get_job_def split: option.splits if_splits dest: get_row_SomeD)
    have ne: "job_id j \<noteq> job_id job" using tenant_of_id_stable [OF assms job(1) j(1)] job(2) j(2) by auto
    show ?thesis
    proof (cases "request_cancel snap (hd h) now eid (job_id job)")
      case (Inl e)
      with c Some j(1) show ?thesis by (cases e) (simp_all add: cancel_run_def)
    next
      case (Inr q)
      obtain c1 job' where "q = (c1, job')" by (cases q)
      with c Some Inr request_cancel_others [OF _ j(1) ne] show ?thesis by (simp add: cancel_run_def)
    qed
  qed
qed

theorem runs_are_tenant_private_witness:
  "get_run queued_db (sample_principal\<lparr>pr_tenant_id := ''t9''\<rparr>) ''j1'' = run_not_found \<and>
   (\<exists>job. get_job queued_db ''j1'' = Some job)"
proof -
  let ?p = "sample_principal\<lparr>pr_tenant_id := ''t9''\<rparr>"
  have g: "get_job queued_db ''j1'' = Some sample_job" "job_tenant_id sample_job \<noteq> pr_tenant_id ?p"
    by (simp_all add: get_job_def sample_defs)
  have "queued_db \<in> set [queued_db, empty_db]" by simp
  from runs_are_tenant_private [OF sample_reach_queued this, of "''j1''" ?p] g
  have "get_run queued_db ?p ''j1'' = get_run empty_db ?p ''j1''" by blast
  then show ?thesis using g by (simp add: get_run_def tenant_job_def get_job_def empty_db_def)
qed

end
