(* ===== verification/Sandbox_Validation.thy ===== *)
theory Sandbox_Validation
  imports Py_Text Canonical_Json "HOL-Library.Word"
begin

text \<open>
  Validation of what enters and leaves a sandbox workspace (\<open>sandbox/validation.py\<close>): relative paths,
  containment under a root, links, media types by their leading bytes, and the archive-bomb limits.
  Bytes are strings of characters up to 255. A path is the list of its components below the POSIX root. The file system
  (\<open>os.path.realpath\<close>, \<open>os.stat\<close>) and \<open>zipfile\<close> are parameters; every exception is a value.
\<close>

unbundle bit_operations_syntax

type_synonym bytes = string
type_synonym path = "string list"

section \<open>Limits and signatures\<close>

definition MAX_ARCHIVE_DEPTH :: nat where "MAX_ARCHIVE_DEPTH = 3"
definition MAX_TOTAL_EXPANDED_BYTES :: nat where "MAX_TOTAL_EXPANDED_BYTES = 256 * 1024 * 1024"
definition MAX_ARCHIVE_ENTRIES :: nat where "MAX_ARCHIVE_ENTRIES = 10000"
definition MAX_COMPRESSION_RATIO :: nat where "MAX_COMPRESSION_RATIO = 200"
definition MAX_ENTRY_BYTES :: nat where "MAX_ENTRY_BYTES = 64 * 1024 * 1024"

definition WINDOWS_DEVICE_NAMES :: "string list" where
  "WINDOWS_DEVICE_NAMES = [''con'', ''prn'', ''aux'', ''nul''] @
     map (\<lambda>d. ''com'' @ [d]) ''123456789'' @ map (\<lambda>d. ''lpt'' @ [d]) ''123456789''"

definition MAGIC_SIGNATURES :: "(string \<times> bytes list) list" where
  "MAGIC_SIGNATURES =
    [(''application/pdf'', [''%PDF-'']),
     (''application/zip'', [[CHR ''P'', CHR ''K'', CHR 0x03, CHR 0x04], [CHR ''P'', CHR ''K'', CHR 0x05, CHR 0x06]]),
     (''application/vnd.openxmlformats-officedocument.wordprocessingml.document'', [[CHR ''P'', CHR ''K'', CHR 0x03, CHR 0x04]]),
     (''application/vnd.openxmlformats-officedocument.spreadsheetml.sheet'', [[CHR ''P'', CHR ''K'', CHR 0x03, CHR 0x04]]),
     (''image/png'', [[CHR 0x89, CHR ''P'', CHR ''N'', CHR ''G'', CHR 0x0D, CHR 0x0A, CHR 0x1A, CHR 0x0A]]),
     (''image/jpeg'', [[CHR 0xFF, CHR 0xD8, CHR 0xFF]])]"

definition TEXT_MEDIA_TYPES :: "string list" where
  "TEXT_MEDIA_TYPES = [''text/plain'', ''text/markdown'', ''text/csv'']"

text \<open>The codes of \<open>ValidationError\<close> and its subclass; \<open>Unhandled\<close> is any exception the code lets through.\<close>

datatype validation_error =
    Validation_error string
  | Workspace_escape string
  | Unhandled string

section \<open>Relative paths\<close>

text \<open>\<open>casefold\<close> differs from \<open>lower\<close> on code points up to 255 only at the sharp s (and the micro sign, whose
  fold is beyond them); neither occurs in a name it is compared with.\<close>

definition casefold :: "string \<Rightarrow> string" where
  "casefold s = concat (map (\<lambda>c. if c = CHR 0xDF then ''ss'' else [lower_char c]) s)"

definition segment_stem :: "string \<Rightarrow> string" where
  "segment_stem s = casefold (hd (split_on CHR ''.'' s))"

fun usable_segments :: "string list \<Rightarrow> validation_error + string list" where
  "usable_segments [] = Inr []"
| "usable_segments (s # ss) =
     (if s = [] \<or> s = ''.'' then usable_segments ss
      else if s = ''..'' then Inl (Workspace_escape ''PATH_TRAVERSAL'')
      else if segment_stem s \<in> set WINDOWS_DEVICE_NAMES then Inl (Workspace_escape ''PATH_DEVICE_NAME'')
      else (case usable_segments ss of Inl e \<Rightarrow> Inl e | Inr r \<Rightarrow> Inr (s # r)))"

definition normalize_relative :: "string \<Rightarrow> validation_error + string" where
  "normalize_relative path =
     (if path = [] \<or> CHR 0x00 \<in> set path then Inl (Workspace_escape ''PATH_INVALID'')
      else let unified = py_strip (replace_char CHR 0x5C CHR ''/'' path) in
        if starts_with unified ''/'' then Inl (Workspace_escape ''PATH_ABSOLUTE'')
        else if 2 \<le> length unified \<and> unified ! 1 = CHR '':'' then Inl (Workspace_escape ''PATH_ABSOLUTE'')
        else (case usable_segments (split_on CHR ''/'' unified) of
            Inl e \<Rightarrow> Inl e
          | Inr [] \<Rightarrow> Inl (Workspace_escape ''PATH_INVALID'')
          | Inr (s # ss) \<Rightarrow> Inr (join_with CHR ''/'' (s # ss))))"

section \<open>Containment and links\<close>

record filesystem =
  fs_realpath :: "path \<Rightarrow> path"
  fs_exists :: "path \<Rightarrow> bool"
  fs_is_symlink :: "path \<Rightarrow> bool"
  fs_attributes :: "path \<Rightarrow> int option"

definition resolve_within :: "filesystem \<Rightarrow> path \<Rightarrow> string \<Rightarrow> validation_error + path" where
  "resolve_within fs base relative_path =
     (case normalize_relative relative_path of
        Inl e \<Rightarrow> Inl e
      | Inr normalized \<Rightarrow>
          (let real_root = fs_realpath fs base;
               candidate = fs_realpath fs (real_root @ split_on CHR ''/'' normalized)
           in if candidate \<noteq> real_root \<and> \<not> strict_prefix real_root candidate
              then Inl (Workspace_escape ''WORKSPACE_ESCAPE'') else Inr candidate))"

text \<open>\<open>Path.suffix\<close>: from the last dot of the name, unless it is the first or the last character.\<close>

definition path_suffix :: "path \<Rightarrow> string" where
  "path_suffix p = (if p = [] then [] else
     let name = last p; ext = rev (takeWhile (\<lambda>c. c \<noteq> CHR ''.'') (rev name)) in
     if CHR ''.'' \<in> set name \<and> ext \<noteq> [] \<and> length ext + 1 < length name then CHR ''.'' # ext else [])"

definition is_reparse_point :: "filesystem \<Rightarrow> path \<Rightarrow> bool" where
  "is_reparse_point fs p = (case fs_attributes fs p of None \<Rightarrow> False | Some a \<Rightarrow> a AND 0x400 \<noteq> 0)"

definition assert_not_a_link :: "filesystem \<Rightarrow> path \<Rightarrow> validation_error option" where
  "assert_not_a_link fs p =
     (if fs_is_symlink fs p then Some (Workspace_escape ''LINK_REJECTED'')
      else if casefold (path_suffix p) = ''.lnk'' then Some (Workspace_escape ''LINK_REJECTED'')
      else if is_reparse_point fs p then Some (Workspace_escape ''LINK_REJECTED'')
      else None)"

function check_ancestors :: "filesystem \<Rightarrow> path \<Rightarrow> path \<Rightarrow> validation_error option" where
  "check_ancestors fs real_root cursor =
     (if cursor = real_root \<or> cursor = [] then None
      else (case (if fs_exists fs cursor \<or> fs_is_symlink fs cursor then assert_not_a_link fs cursor else None) of
          Some e \<Rightarrow> Some e
        | None \<Rightarrow> check_ancestors fs real_root (butlast cursor)))"
  by auto
termination by (relation "measure (\<lambda>(_, _, c). length c)") auto

declare check_ancestors.simps [simp del]

definition safe_input_path :: "filesystem \<Rightarrow> path \<Rightarrow> string \<Rightarrow> validation_error + path" where
  "safe_input_path fs base relative_path =
     (case resolve_within fs base relative_path of
        Inl e \<Rightarrow> Inl e
      | Inr target \<Rightarrow> (case check_ancestors fs (fs_realpath fs base) target of
            Some e \<Rightarrow> Inl e
          | None \<Rightarrow> Inr target))"

definition safe_output_path :: "filesystem \<Rightarrow> path \<Rightarrow> string \<Rightarrow> validation_error + path" where
  "safe_output_path fs base relative_path = safe_input_path fs base relative_path"

section \<open>Media types\<close>

text \<open>\<open>bytes.decode("utf-8")\<close> in strict mode: well-formed sequences of Unicode, no overlong forms and no surrogates.\<close>

abbreviation continuation :: "char \<Rightarrow> bool" where
  "continuation c \<equiv> 0x80 \<le> (of_char c :: nat) \<and> (of_char c :: nat) \<le> 0xBF"

fun utf8_decodes :: "bytes \<Rightarrow> bool" where
  "utf8_decodes [] = True"
| "utf8_decodes (c # s) = (let n = (of_char c :: nat) in
     if n \<le> 0x7F then utf8_decodes s
     else if 0xC2 \<le> n \<and> n \<le> 0xDF then (case s of c1 # s' \<Rightarrow> continuation c1 \<and> utf8_decodes s' | _ \<Rightarrow> False)
     else if 0xE0 \<le> n \<and> n \<le> 0xEF then (case s of c1 # c2 # s' \<Rightarrow> continuation c1 \<and> continuation c2 \<and>
            (n = 0xE0 \<longrightarrow> 0xA0 \<le> (of_char c1 :: nat)) \<and> (n = 0xED \<longrightarrow> (of_char c1 :: nat) \<le> 0x9F) \<and> utf8_decodes s' | _ \<Rightarrow> False)
     else if 0xF0 \<le> n \<and> n \<le> 0xF4 then (case s of c1 # c2 # c3 # s' \<Rightarrow> continuation c1 \<and> continuation c2 \<and> continuation c3 \<and>
            (n = 0xF0 \<longrightarrow> 0x90 \<le> (of_char c1 :: nat)) \<and> (n = 0xF4 \<longrightarrow> (of_char c1 :: nat) \<le> 0x8F) \<and> utf8_decodes s' | _ \<Rightarrow> False)
     else False)"

definition detect_media_type :: "bytes \<Rightarrow> string \<Rightarrow> validation_error + string" where
  "detect_media_type data declared =
     (if declared \<in> set TEXT_MEDIA_TYPES then
        (if \<not> utf8_decodes data then Inl (Validation_error ''MEDIA_TYPE_MISMATCH'')
         else if CHR 0x00 \<in> set data then Inl (Validation_error ''MEDIA_TYPE_MISMATCH'')
         else Inr declared)
      else (case map_of MAGIC_SIGNATURES declared of
          None \<Rightarrow> Inl (Validation_error ''MEDIA_TYPE_UNSUPPORTED'')
        | Some signatures \<Rightarrow>
            if \<not> list_ex (\<lambda>s. prefix s data) signatures then Inl (Validation_error ''MEDIA_TYPE_MISMATCH'') else Inr declared))"

section \<open>Archives\<close>

record zip_info =
  zi_filename :: string
  zi_file_size :: nat
  zi_compress_size :: nat

datatype zip_exc = Bad_zip_file | Zip_other string

text \<open>\<open>ZipFile(data).infolist()\<close> and \<open>archive.read(info)\<close>.\<close>

record zip_lib =
  zip_infolist :: "bytes \<Rightarrow> zip_exc + zip_info list"
  zip_read :: "bytes \<Rightarrow> zip_info \<Rightarrow> zip_exc + bytes"

record archive_report =
  ar_entries :: nat
  ar_total_expanded_bytes :: nat
  ar_max_depth :: nat
  ar_paths :: "string list"

definition empty_report :: archive_report where
  "empty_report = \<lparr>ar_entries = 0, ar_total_expanded_bytes = 0, ar_max_depth = 0, ar_paths = []\<rparr>"

definition looks_like_zip :: "bytes \<Rightarrow> bool" where
  "looks_like_zip data \<longleftrightarrow> take 4 data \<in> {[CHR ''P'', CHR ''K'', CHR 0x03, CHR 0x04], [CHR ''P'', CHR ''K'', CHR 0x05, CHR 0x06],
     [CHR ''P'', CHR ''K'', CHR 0x07, CHR 0x08]}"

definition rstrip_slash :: "string \<Rightarrow> string" where
  "rstrip_slash s = rev (dropWhile (\<lambda>c. c = CHR ''/'') (rev s))"

text \<open>The ratio is a quotient of integers below \<open>2\<^sup>2\<^sup>6\<close> by then, so its comparison with 200 is exact.\<close>

definition check_entry :: "zip_info \<Rightarrow> validation_error option" where
  "check_entry info =
     (let name = rstrip_slash (zi_filename info) in
      case normalize_relative (if name = [] then ''.'' else name) of
        Inl e \<Rightarrow> Some e
      | Inr _ \<Rightarrow>
          if MAX_ENTRY_BYTES < zi_file_size info then Some (Validation_error ''ARCHIVE_ENTRY_TOO_LARGE'')
          else if 0 < zi_compress_size info \<and> MAX_COMPRESSION_RATIO * zi_compress_size info < zi_file_size info
          then Some (Validation_error ''ARCHIVE_RATIO_SUSPICIOUS'')
          else None)"

definition zip_raised :: "zip_exc \<Rightarrow> validation_error" where
  "zip_raised e = (case e of Bad_zip_file \<Rightarrow> Validation_error ''ARCHIVE_CORRUPT'' | Zip_other x \<Rightarrow> Unhandled x)"

definition is_zip_name :: "string \<Rightarrow> bool" where
  "is_zip_name s \<longleftrightarrow> suffix ''.zip'' (py_lower s)"

definition open_layer :: "nat \<Rightarrow> archive_report \<Rightarrow> archive_report" where
  "open_layer depth rep = rep\<lparr>ar_max_depth := max (ar_max_depth rep) depth\<rparr>"

definition count_entries :: "nat \<Rightarrow> archive_report \<Rightarrow> archive_report" where
  "count_entries n rep = rep\<lparr>ar_entries := ar_entries rep + n\<rparr>"

definition add_entry :: "zip_info \<Rightarrow> archive_report \<Rightarrow> archive_report" where
  "add_entry info rep = rep\<lparr>ar_total_expanded_bytes := ar_total_expanded_bytes rep + zi_file_size info,
     ar_paths := ar_paths rep @ [zi_filename info]\<rparr>"

text \<open>The walk returns the report as it stands when it returns or raises.\<close>

function inspect_archive :: "zip_lib \<Rightarrow> bytes \<Rightarrow> nat \<Rightarrow> archive_report \<Rightarrow> archive_report \<times> validation_error option"
  and inspect_entries :: "zip_lib \<Rightarrow> bytes \<Rightarrow> nat \<Rightarrow> zip_info list \<Rightarrow> archive_report \<Rightarrow> archive_report \<times> validation_error option" where
  "inspect_archive z data depth rep =
     (let rep = open_layer depth rep in
      if MAX_ARCHIVE_DEPTH < depth then (rep, Some (Validation_error ''ARCHIVE_TOO_DEEP''))
      else if \<not> looks_like_zip data then (rep, None)
      else (case zip_infolist z data of
          Inl e \<Rightarrow> (rep, Some (zip_raised e))
        | Inr infos \<Rightarrow>
            (let rep = count_entries (length infos) rep in
             if MAX_ARCHIVE_ENTRIES < ar_entries rep then (rep, Some (Validation_error ''ARCHIVE_TOO_MANY_ENTRIES''))
             else inspect_entries z data depth infos rep)))"
| "inspect_entries z data depth [] rep = (rep, None)"
| "inspect_entries z data depth (info # infos) rep =
     (case check_entry info of
        Some e \<Rightarrow> (rep, Some e)
      | None \<Rightarrow>
          (let rep = add_entry info rep in
           if MAX_TOTAL_EXPANDED_BYTES < ar_total_expanded_bytes rep
           then (rep, Some (Validation_error ''ARCHIVE_EXPANDS_TOO_LARGE''))
           else if is_zip_name (zi_filename info) \<and> depth < MAX_ARCHIVE_DEPTH then
             (case zip_read z data info of
                Inl e \<Rightarrow> (rep, Some (zip_raised e))
              | Inr nested \<Rightarrow>
                  (case inspect_archive z nested (depth + 1) rep of
                     (rep, Some e) \<Rightarrow> (rep, Some e)
                   | (rep, None) \<Rightarrow> inspect_entries z data depth infos rep))
           else if is_zip_name (zi_filename info) then (rep, Some (Validation_error ''ARCHIVE_TOO_DEEP''))
           else inspect_entries z data depth infos rep))"
  by pat_completeness auto
termination
  by (relation "measures [\<lambda>x. case x of Inl (_, _, d, _) \<Rightarrow> 2 * (MAX_ARCHIVE_DEPTH + 1 - d) | Inr (_, _, d, _, _) \<Rightarrow> 2 * (MAX_ARCHIVE_DEPTH + 1 - d) - 1,
      \<lambda>x. case x of Inl _ \<Rightarrow> 0 | Inr (_, _, _, is, _) \<Rightarrow> length is]")
    (auto simp: MAX_ARCHIVE_DEPTH_def)

declare inspect_archive.simps [simp del] inspect_entries.simps [simp del]

definition validate_upload :: "(bytes \<Rightarrow> string) \<Rightarrow> zip_lib \<Rightarrow> bytes \<Rightarrow> string \<Rightarrow> nat \<Rightarrow> string option \<Rightarrow> validation_error option" where
  "validate_upload sha256 z data declared_media_type max_bytes expected_sha256 =
     (if max_bytes < length data then Some (Validation_error ''UPLOAD_TOO_LARGE'')
      else if length data = 0 then Some (Validation_error ''UPLOAD_EMPTY'')
      else if (case expected_sha256 of None \<Rightarrow> False | Some e \<Rightarrow> sha256 data \<noteq> py_lower e)
        then Some (Validation_error ''UPLOAD_HASH_MISMATCH'')
      else (case detect_media_type data declared_media_type of
          Inl e \<Rightarrow> Some e
        | Inr _ \<Rightarrow> if looks_like_zip data then snd (inspect_archive z data 1 empty_report) else None))"

end
