(* ===== verification/Sandbox_Safety.thy ===== *)
theory Sandbox_Safety
  imports Sandbox_Validation
begin

text \<open>
  What the sandbox validation guarantees: an accepted path stays below its root, a staged file is inside the
  workspace and behind no shortcut, the incremental walk over nested archives decides exactly the limits of
  the whole tree, and a bomb is stopped early.
\<close>

section \<open>Reference definitions\<close>

text \<open>How an operating system follows relative components from a directory.\<close>

fun follow :: "path \<Rightarrow> string list \<Rightarrow> path" where
  "follow p [] = p"
| "follow p (s # ss) = follow (if s = [] \<or> s = ''.'' then p else if s = ''..'' then butlast p else p @ [s]) ss"

text \<open>All entries of an archive and of the archives named as such inside it, in the order of the walk, with
  the deepest layer; \<open>None\<close> when some layer cannot be read or is too deep.\<close>

function archive_listing :: "zip_lib \<Rightarrow> bytes \<Rightarrow> nat \<Rightarrow> (zip_info list \<times> nat) option"
  and entries_listing :: "zip_lib \<Rightarrow> bytes \<Rightarrow> nat \<Rightarrow> zip_info list \<Rightarrow> (zip_info list \<times> nat) option" where
  "archive_listing z data depth =
     (if MAX_ARCHIVE_DEPTH < depth then None
      else if \<not> looks_like_zip data then Some ([], depth)
      else (case zip_infolist z data of Inl _ \<Rightarrow> None | Inr infos \<Rightarrow> entries_listing z data depth infos))"
| "entries_listing z data depth [] = Some ([], depth)"
| "entries_listing z data depth (info # infos) =
     (let inner = (if \<not> is_zip_name (zi_filename info) then Some ([], depth)
                   else if MAX_ARCHIVE_DEPTH \<le> depth then None
                   else (case zip_read z data info of Inl _ \<Rightarrow> None | Inr nested \<Rightarrow> archive_listing z nested (depth + 1)))
      in case (inner, entries_listing z data depth infos) of
          (Some (es, d), Some (fs, d')) \<Rightarrow> Some (info # es @ fs, max d d')
        | _ \<Rightarrow> None)"
  by pat_completeness auto
termination
  by (relation "measures [\<lambda>x. case x of Inl (_, _, d) \<Rightarrow> 2 * (MAX_ARCHIVE_DEPTH + 1 - d) | Inr (_, _, d, _) \<Rightarrow> 2 * (MAX_ARCHIVE_DEPTH + 1 - d) - 1,
      \<lambda>x. case x of Inl _ \<Rightarrow> 0 | Inr (_, _, _, is) \<Rightarrow> length is]")
    (auto simp: MAX_ARCHIVE_DEPTH_def)

declare archive_listing.simps [simp del] entries_listing.simps [simp del]

definition within_limits :: "zip_info list \<Rightarrow> bool" where
  "within_limits es \<longleftrightarrow> length es \<le> MAX_ARCHIVE_ENTRIES \<and> sum_list (map zi_file_size es) \<le> MAX_TOTAL_EXPANDED_BYTES \<and>
     list_all (\<lambda>e. check_entry e = None) es"

definition report_of :: "zip_info list \<Rightarrow> nat \<Rightarrow> archive_report" where
  "report_of es d = \<lparr>ar_entries = length es, ar_total_expanded_bytes = sum_list (map zi_file_size es),
     ar_max_depth = d, ar_paths = map zi_filename es\<rparr>"

section \<open>Paths\<close>

definition safe_segment :: "string \<Rightarrow> bool" where
  "safe_segment s \<longleftrightarrow> s \<noteq> [] \<and> s \<noteq> ''.'' \<and> s \<noteq> ''..'' \<and> segment_stem s \<notin> set WINDOWS_DEVICE_NAMES \<and>
     CHR ''/'' \<notin> set s \<and> CHR 0x5C \<notin> set s \<and> CHR 0x00 \<notin> set s"

lemma usable_segments_Inr:
  "usable_segments ss = Inr r \<Longrightarrow> set r \<subseteq> set ss \<and>
     (\<forall>s\<in>set r. s \<noteq> [] \<and> s \<noteq> ''.'' \<and> s \<noteq> ''..'' \<and> segment_stem s \<notin> set WINDOWS_DEVICE_NAMES)"
proof (induction ss arbitrary: r)
  case (Cons s ss)
  show ?case
  proof (cases "s = [] \<or> s = ''.''")
    case True
    with Cons.prems have "usable_segments ss = Inr r" by simp
    from Cons.IH [OF this] show ?thesis by auto
  next
    case False
    with Cons.prems obtain r' where r: "usable_segments ss = Inr r'" "r = s # r'"
      and s: "s \<noteq> ''..''" "segment_stem s \<notin> set WINDOWS_DEVICE_NAMES" by (simp split: if_split_asm sum.split_asm)
    from Cons.IH [OF r(1)] r(2) s False show ?thesis by auto
  qed
qed simp

lemma set_py_strip: "set (py_strip s) \<subseteq> set s"
  unfolding py_strip_def by (metis (no_types) set_dropWhileD set_rev subsetI)

lemma set_split_on: "w \<in> set (split_on d s) \<Longrightarrow> set w \<subseteq> set s"
  using split_word_position [of w d s] set_mono_prefix set_mono_sublist by fastforce

lemma normalize_relative_Inr:
  assumes "normalize_relative p = Inr q"
  obtains segs where "q = join_with CHR ''/'' segs" "segs \<noteq> []" "\<forall>s\<in>set segs. safe_segment s"
proof -
  define u where "u = py_strip (replace_char CHR 0x5C CHR ''/'' p)"
  have nul: "CHR 0x00 \<notin> set p" using assms by (auto simp: normalize_relative_def)
  then have u: "CHR 0x00 \<notin> set u" "CHR 0x5C \<notin> set u"
    using set_py_strip [of "replace_char CHR 0x5C CHR ''/'' p"] by (auto simp: u_def replace_char_def)
  obtain segs where segs: "usable_segments (split_on CHR ''/'' u) = Inr segs" "segs \<noteq> []" "q = join_with CHR ''/'' segs"
    using assms by (auto simp: normalize_relative_def Let_def u_def split: if_splits sum.splits list.splits)
  have "safe_segment s" if s: "s \<in> set segs" for s
  proof -
    have "s \<in> set (split_on CHR ''/'' u)" using usable_segments_Inr [OF segs(1)] s by blast
    then have "set s \<subseteq> set u" "CHR ''/'' \<notin> set s" by (rule set_split_on, rule split_on_no_sep)
    with usable_segments_Inr [OF segs(1)] s u show ?thesis by (auto simp: safe_segment_def)
  qed
  with segs that show thesis by blast
qed

lemma follow_safe: "\<forall>s\<in>set ss. safe_segment s \<Longrightarrow> follow p ss = p @ ss"
  by (induction ss arbitrary: p) (auto simp: safe_segment_def)

lemma check_ancestors_None:
  assumes "check_ancestors fs b c = None" and "prefix b c" and "strict_prefix b p" "prefix p c" and "fs_exists fs p \<or> fs_is_symlink fs p"
  shows "assert_not_a_link fs p = None"
  using assms
proof (induction fs b c rule: check_ancestors.induct)
  case (1 fs b c)
  have c: "c \<noteq> b" "c \<noteq> []" using 1(4,5) by auto
  from 1(2) c have n: "(if fs_exists fs c \<or> fs_is_symlink fs c then assert_not_a_link fs c else None) = None"
    and r: "check_ancestors fs b (butlast c) = None"
    by (auto simp: check_ancestors.simps [of fs b c] split: option.splits)
  show ?case
  proof (cases "p = c")
    case True
    with n 1(6) show ?thesis by simp
  next
    case False
    then have "prefix p (butlast c)" using 1(5) c(2) by (metis append_butlast_last_id prefix_snoc)
    moreover from this have "prefix b (butlast c)" using 1(4) by (meson prefix_order.less_imp_le prefix_order.trans)
    ultimately show ?thesis using 1(1) c n r 1(4,6) by blast
  qed
qed


lemma assert_not_a_link_None: "assert_not_a_link fs p = None \<longleftrightarrow>
   \<not> fs_is_symlink fs p \<and> casefold (path_suffix p) \<noteq> ''.lnk'' \<and> \<not> is_reparse_point fs p"
  by (simp add: assert_not_a_link_def)

lemma check_ancestors_clean: "(\<And>q. prefix q c \<Longrightarrow> assert_not_a_link fs q = None) \<Longrightarrow> check_ancestors fs b c = None"
proof (induction fs b c rule: check_ancestors.induct)
  case (1 fs b c)
  have "check_ancestors fs b (butlast c) = None" if "c \<noteq> b" "c \<noteq> []"
    using that 1(1) [OF _ _ ] 1(2) by (metis (full_types) prefix_order.trans prefixeq_butlast prefix_order.refl)
  with 1(2) [of c] show ?case by (subst check_ancestors.simps) simp
qed

section \<open>The archive walk\<close>

lemmas report_ops = open_layer_def count_entries_def add_entry_def

definition report_ok :: "archive_report \<Rightarrow> bool" where
  "report_ok rep \<longleftrightarrow> ar_entries rep \<le> MAX_ARCHIVE_ENTRIES \<and> ar_total_expanded_bytes rep \<le> MAX_TOTAL_EXPANDED_BYTES"

text \<open>The report after a walk that listed \<open>es\<close> down to layer \<open>d\<close>, \<open>n\<close> of whose entries had been counted before.\<close>

definition extend_report :: "archive_report \<Rightarrow> nat \<Rightarrow> zip_info list \<Rightarrow> nat \<Rightarrow> archive_report" where
  "extend_report rep n es d = \<lparr>ar_entries = ar_entries rep + (length es - n),
     ar_total_expanded_bytes = ar_total_expanded_bytes rep + sum_list (map zi_file_size es),
     ar_max_depth = max (ar_max_depth rep) d, ar_paths = ar_paths rep @ map zi_filename es\<rparr>"

abbreviation accepts :: "archive_report \<Rightarrow> nat \<Rightarrow> (zip_info list \<times> nat) option \<Rightarrow> archive_report \<Rightarrow> bool" where
  "accepts rep n l rep' \<equiv> (\<exists>es d. l = Some (es, d) \<and> n \<le> length es \<and> rep' = extend_report rep n es d \<and> report_ok rep' \<and>
     list_all (\<lambda>e. check_entry e = None) es)"

lemma archive_listing_depth: "archive_listing z data k = Some (es, d) \<Longrightarrow> k \<le> d \<and> d \<le> MAX_ARCHIVE_DEPTH"
  and entries_listing_depth: "entries_listing z data k infos = Some (es, d) \<Longrightarrow> k \<le> MAX_ARCHIVE_DEPTH \<Longrightarrow>
    k \<le> d \<and> d \<le> MAX_ARCHIVE_DEPTH \<and> length infos \<le> length es"
proof (induction z data k and z data k infos arbitrary: es d and es d rule: archive_listing_entries_listing.induct)
  case (1 z data k)
  then show ?case by (auto simp: archive_listing.simps [of z data k] split: if_splits sum.splits)
next
  case (2 z data k)
  then show ?case by (simp add: entries_listing.simps)
next
  case (3 z data k info infos)
  from 3(3) obtain es1 d1 es2 d2 where
    i: "(if \<not> is_zip_name (zi_filename info) then Some ([], k) else if MAX_ARCHIVE_DEPTH \<le> k then None
         else (case zip_read z data info of Inl _ \<Rightarrow> None | Inr nested \<Rightarrow> archive_listing z nested (k + 1))) = Some (es1, d1)"
    and r: "entries_listing z data k infos = Some (es2, d2)" and es: "es = info # es1 @ es2" "d = max d1 d2"
    by (auto simp: entries_listing.simps Let_def split: option.splits)
  have "k \<le> d1 \<and> d1 \<le> MAX_ARCHIVE_DEPTH" using i 3(1,4) by (auto split: if_splits sum.splits dest: Suc_leD)
  with 3(2) [OF refl r 3(4)] es show ?case by auto
qed


lemma extend_nil [simp]: "extend_report rep 0 [] d = open_layer d rep"
  by (simp add: extend_report_def open_layer_def)

lemma extend_count: "n \<le> length es \<Longrightarrow> d \<ge> k \<Longrightarrow>
   extend_report (count_entries n (open_layer k rep)) n es d = extend_report rep 0 es d"
  by (simp add: extend_report_def report_ops)

lemma extend_step: "n \<le> length es2 \<Longrightarrow>
   extend_report (extend_report (add_entry info rep) 0 es1 d1) n es2 d2 = extend_report rep (Suc n) (info # es1 @ es2) (max d1 d2)"
  by (simp add: extend_report_def report_ops max.assoc)

lemma extend_step_plain: "n \<le> length es2 \<Longrightarrow> k \<le> d2 \<Longrightarrow>
   extend_report (add_entry info rep) n es2 d2 = extend_report rep (Suc n) (info # es2) (max k d2)"
  by (simp add: extend_report_def report_ops max.absorb2)

lemma report_ok_extendD: "report_ok (extend_report rep n es d) \<Longrightarrow> report_ok rep"
  by (simp add: report_ok_def extend_report_def)

lemma report_ok_extend_innerD: "report_ok (extend_report rep (Suc n) (info # es1 @ es2) d) \<Longrightarrow> n \<le> length es2 \<Longrightarrow>
   report_ok (extend_report (add_entry info rep) 0 es1 d1)"
  by (simp add: report_ok_def extend_report_def add_entry_def, linarith)

lemma report_ok_extend_firstD: "report_ok (extend_report rep n (info # es) d) \<Longrightarrow>
   ar_total_expanded_bytes rep + zi_file_size info \<le> MAX_TOTAL_EXPANDED_BYTES"
  by (simp add: report_ok_def extend_report_def)

lemma inspect_entries_step:
  assumes ok: "report_ok rep" and k: "k \<le> MAX_ARCHIVE_DEPTH" "k \<le> ar_max_depth rep"
    and rest: "\<And>rep rep'. report_ok rep \<Longrightarrow> k \<le> ar_max_depth rep \<Longrightarrow>
      inspect_entries z data k infos rep = (rep', None) \<longleftrightarrow> accepts rep (length infos) (entries_listing z data k infos) rep'"
    and inner: "\<And>nested rep rep'. is_zip_name (zi_filename info) \<Longrightarrow> k < MAX_ARCHIVE_DEPTH \<Longrightarrow> zip_read z data info = Inr nested \<Longrightarrow> report_ok rep \<Longrightarrow>
      inspect_archive z nested (k + 1) rep = (rep', None) \<longleftrightarrow> accepts rep 0 (archive_listing z nested (k + 1)) rep'"
  shows "inspect_entries z data k (info # infos) rep = (rep', None) \<longleftrightarrow>
    accepts rep (length (info # infos)) (entries_listing z data k (info # infos)) rep'"
proof -
  let ?r = "add_entry info rep" and ?n = "length infos" and ?rest = "entries_listing z data k infos"
  note [simp] = inspect_entries.simps(2) [of z data k info infos rep] entries_listing.simps(2) [of z data k info infos]
  have okr: "report_ok ?r" if "ar_total_expanded_bytes ?r \<le> MAX_TOTAL_EXPANDED_BYTES"
    using that ok by (simp add: report_ok_def add_entry_def)
  have kr: "k \<le> ar_max_depth ?r" using k by (simp add: add_entry_def)
  have le: "?n \<le> length es \<and> k \<le> d" if "?rest = Some (es, d)" for es d
    using entries_listing_depth [OF that k(1)] by simp
  consider (bad) e where "check_entry info = Some e"
    | (large) "check_entry info = None" "MAX_TOTAL_EXPANDED_BYTES < ar_total_expanded_bytes ?r"
    | (plain) "check_entry info = None" "ar_total_expanded_bytes ?r \<le> MAX_TOTAL_EXPANDED_BYTES" "\<not> is_zip_name (zi_filename info)"
    | (deep) "check_entry info = None" "ar_total_expanded_bytes ?r \<le> MAX_TOTAL_EXPANDED_BYTES" "is_zip_name (zi_filename info)" "\<not> k < MAX_ARCHIVE_DEPTH"
    | (unread) e where "check_entry info = None" "ar_total_expanded_bytes ?r \<le> MAX_TOTAL_EXPANDED_BYTES" "is_zip_name (zi_filename info)" "k < MAX_ARCHIVE_DEPTH" "zip_read z data info = Inl e"
    | (nested) b where "check_entry info = None" "ar_total_expanded_bytes ?r \<le> MAX_TOTAL_EXPANDED_BYTES" "is_zip_name (zi_filename info)" "k < MAX_ARCHIVE_DEPTH" "zip_read z data info = Inr b"
    using linorder_not_le by (metis option.exhaust sum.exhaust)
  then show ?thesis
  proof cases
    case large
    then have "\<not> report_ok (extend_report rep m (info # es) d)" for m es d
      using report_ok_extend_firstD [of rep m info es d] by (auto simp: add_entry_def)
    with large show ?thesis by (auto simp: Let_def split: option.splits)
  next
    case plain
    then have "inspect_entries z data k (info # infos) rep = (rep', None) \<longleftrightarrow> accepts ?r ?n ?rest rep'"
      using rest [OF okr kr] by (simp add: Let_def)
    also have "\<dots> \<longleftrightarrow> accepts rep (Suc ?n) (entries_listing z data k (info # infos)) rep'"
      using plain le by (auto simp: Let_def extend_step_plain split: option.splits)
    finally show ?thesis by simp
  next
    case nested
    note ia = inner [OF nested(3-5) okr [OF nested(2)]]
    have "inspect_entries z data k (info # infos) rep = (rep', None) \<longleftrightarrow>
        (\<exists>r1. inspect_archive z b (k + 1) ?r = (r1, None) \<and> inspect_entries z data k infos r1 = (rep', None))"
      using nested by (auto simp: Let_def split: prod.splits option.splits)
    also have "\<dots> \<longleftrightarrow> (\<exists>r1. accepts ?r 0 (archive_listing z b (k + 1)) r1 \<and> accepts r1 ?n ?rest rep')"
      using ia rest kr by (auto simp: extend_report_def)
    also have "\<dots> \<longleftrightarrow> accepts rep (Suc ?n) (entries_listing z data k (info # infos)) rep'"
      using nested le by (auto simp: Let_def extend_step dest: report_ok_extend_innerD split: option.splits)
    finally show ?thesis by simp
  qed (auto simp: Let_def split: option.splits)
qed

lemma inspect_archive_accepts:
    "report_ok rep \<Longrightarrow> inspect_archive z data k rep = (rep', None) \<longleftrightarrow> accepts rep 0 (archive_listing z data k) rep'"
  and inspect_entries_accepts:
    "report_ok rep \<Longrightarrow> k \<le> MAX_ARCHIVE_DEPTH \<Longrightarrow> k \<le> ar_max_depth rep \<Longrightarrow> inspect_entries z data k infos rep = (rep', None) \<longleftrightarrow>
       accepts rep (length infos) (entries_listing z data k infos) rep'"
proof (induction z data k and z data k infos arbitrary: rep rep' and rep rep' rule: archive_listing_entries_listing.induct)
  case (1 z data k)
  have ok: "report_ok (open_layer k rep)" using 1(2) by (simp add: report_ok_def open_layer_def)
  consider "MAX_ARCHIVE_DEPTH < k" | "k \<le> MAX_ARCHIVE_DEPTH" "\<not> looks_like_zip data"
    | e where "k \<le> MAX_ARCHIVE_DEPTH" "looks_like_zip data" "zip_infolist z data = Inl e"
    | infos where "k \<le> MAX_ARCHIVE_DEPTH" "looks_like_zip data" "zip_infolist z data = Inr infos"
    by (metis linorder_not_less sum.exhaust)
  then show ?case
  proof cases
    case 4
    let ?r = "count_entries (length infos) (open_layer k rep)"
    have l: "archive_listing z data k = entries_listing z data k infos" using 4 by (simp add: archive_listing.simps)
    have t: "accepts ?r (length infos) (entries_listing z data k infos) r \<longleftrightarrow> accepts rep 0 (entries_listing z data k infos) r" for r
      using entries_listing_depth [of z data k infos] 4(1) by (metis extend_count zero_le)
    show ?thesis
    proof (cases "ar_entries ?r \<le> MAX_ARCHIVE_ENTRIES")
      case True
      then have "report_ok ?r" "k \<le> ar_max_depth ?r" using ok by (simp_all add: report_ok_def report_ops)
      moreover have "inspect_archive z data k rep = inspect_entries z data k infos ?r"
        using 4 True by (simp add: inspect_archive.simps Let_def)
      ultimately show ?thesis using 1(1) [OF _ _ 4(3)] 4 l t by (simp add: linorder_not_less)
    next
      case False
      then have "inspect_archive z data k rep \<noteq> (rep', None)" using 4 by (simp add: inspect_archive.simps Let_def)
      moreover have "\<not> accepts rep 0 (archive_listing z data k) rep'"
        using False l entries_listing_depth [of z data k infos, OF _ 4(1)]
        by (auto simp: report_ok_def extend_report_def report_ops dest: le_trans)
      ultimately show ?thesis by blast
    qed
  qed (use ok in \<open>auto simp: inspect_archive.simps archive_listing.simps Let_def\<close>)
next
  case (2 z data k)
  then show ?case by (auto simp: inspect_entries.simps entries_listing.simps report_ok_def extend_report_def max.absorb1)
next
  case (3 z data k info infos)
  show ?case
  proof (rule inspect_entries_step [OF 3(3-5)])
    show "\<And>rep rep'. report_ok rep \<Longrightarrow> k \<le> ar_max_depth rep \<Longrightarrow>
      inspect_entries z data k infos rep = (rep', None) \<longleftrightarrow> accepts rep (length infos) (entries_listing z data k infos) rep'"
      using 3(2) [OF refl _ 3(4)] .
    show "\<And>nested rep rep'. is_zip_name (zi_filename info) \<Longrightarrow> k < MAX_ARCHIVE_DEPTH \<Longrightarrow> zip_read z data info = Inr nested \<Longrightarrow> report_ok rep \<Longrightarrow>
      inspect_archive z nested (k + 1) rep = (rep', None) \<longleftrightarrow> accepts rep 0 (archive_listing z nested (k + 1)) rep'"
      using 3(1) by (simp add: linorder_not_le)
  qed
qed


section \<open>A walk is bounded whatever its outcome\<close>

definition entry_name :: "string \<Rightarrow> string" where
  "entry_name f = (let name = rstrip_slash f in if name = [] then ''.'' else name)"

definition names_ok :: "archive_report \<Rightarrow> bool" where
  "names_ok rep \<longleftrightarrow> list_all (\<lambda>p. \<not> isl (normalize_relative (entry_name p))) (ar_paths rep)"

text \<open>\<open>n\<close> counted entries are still to be walked.\<close>

definition pending :: "nat \<Rightarrow> archive_report \<Rightarrow> bool" where
  "pending n rep \<longleftrightarrow> length (ar_paths rep) + n \<le> ar_entries rep \<and> report_ok rep \<and> ar_max_depth rep \<le> MAX_ARCHIVE_DEPTH \<and> names_ok rep"

definition walk_bounded :: "archive_report \<Rightarrow> bool" where
  "walk_bounded rep \<longleftrightarrow> length (ar_paths rep) \<le> MAX_ARCHIVE_ENTRIES \<and>
     ar_total_expanded_bytes rep \<le> MAX_TOTAL_EXPANDED_BYTES + MAX_ENTRY_BYTES \<and> ar_max_depth rep \<le> MAX_ARCHIVE_DEPTH \<and> names_ok rep"

abbreviation walk_result :: "nat \<Rightarrow> archive_report \<times> validation_error option \<Rightarrow> bool" where
  "walk_result n res \<equiv> walk_bounded (fst res) \<and> (snd res = None \<longrightarrow> pending n (fst res))"

lemma pending_bounded: "pending n rep \<Longrightarrow> walk_bounded rep"
  by (auto simp: pending_def walk_bounded_def report_ok_def)

lemma check_entry_None: "check_entry info = None \<Longrightarrow>
   zi_file_size info \<le> MAX_ENTRY_BYTES \<and> \<not> isl (normalize_relative (entry_name (zi_filename info)))"
  by (auto simp: check_entry_def entry_name_def Let_def split: sum.splits if_splits)

lemma pending_add:
  assumes "pending (Suc n) rep" and "check_entry info = None"
  shows "walk_bounded (add_entry info rep)"
    and "ar_total_expanded_bytes (add_entry info rep) \<le> MAX_TOTAL_EXPANDED_BYTES \<Longrightarrow> pending n (add_entry info rep)"
  using assms(1) check_entry_None [OF assms(2)]
  by (auto simp: pending_def walk_bounded_def report_ok_def names_ok_def add_entry_def)

lemma inspect_archive_bounded: "pending m rep \<Longrightarrow> k \<le> MAX_ARCHIVE_DEPTH \<Longrightarrow> walk_result m (inspect_archive z data k rep)"
  and inspect_entries_bounded: "pending (m + length infos) rep \<Longrightarrow> k \<le> MAX_ARCHIVE_DEPTH \<Longrightarrow> walk_result m (inspect_entries z data k infos rep)"
proof (induction z data k and z data k infos arbitrary: m rep and m rep rule: archive_listing_entries_listing.induct)
  case (1 z data k)
  have p: "pending m (open_layer k rep)" using 1(2,3) by (simp add: pending_def report_ok_def names_ok_def open_layer_def)
  have b: "walk_bounded (count_entries n (open_layer k rep))" for n
    using pending_bounded [OF p] by (simp add: walk_bounded_def names_ok_def count_entries_def)
  have c: "pending (m + n) (count_entries n (open_layer k rep))" if "\<not> MAX_ARCHIVE_ENTRIES < ar_entries (count_entries n (open_layer k rep))" for n
    using p that by (simp add: pending_def report_ok_def names_ok_def count_entries_def)
  note ih = 1(1) [OF _ _ _ c 1(3)]
  show ?case
  proof (cases "zip_infolist z data")
    case (Inl e)
    then show ?thesis using p pending_bounded [OF p] by (simp add: inspect_archive.simps Let_def)
  next
    case (Inr infos)
    then show ?thesis using p pending_bounded [OF p] b [of "length infos"] ih [of infos] 1(3)
      by (simp add: inspect_archive.simps Let_def)
  qed
next
  case (2 z data k)
  then show ?case by (simp add: inspect_entries.simps pending_bounded)
next
  case (3 z data k info infos)
  let ?r = "add_entry info rep"
  show ?case
  proof (cases "check_entry info")
    case (Some e)
    then show ?thesis using pending_bounded [OF 3(3)] by (simp add: inspect_entries.simps)
  next
    case None
    note a = pending_add [of "m + length infos" rep info, OF _ None]
    show ?thesis
    proof (cases "ar_total_expanded_bytes ?r \<le> MAX_TOTAL_EXPANDED_BYTES")
      case False
      with None a(1) 3(3) show ?thesis by (simp add: inspect_entries.simps Let_def)
    next
      case True
      have p: "pending (m + length infos) ?r" using a(2) True 3(3) by simp
      note rest = 3(2) [OF refl _ 3(4)]
      show ?thesis
      proof (cases "is_zip_name (zi_filename info) \<and> k < MAX_ARCHIVE_DEPTH")
        case False
        with None True rest [OF p] pending_bounded [OF p] show ?thesis by (auto simp: inspect_entries.simps Let_def)
      next
        case zip: True
        show ?thesis
        proof (cases "zip_read z data info")
          case (Inl e)
          with None True zip pending_bounded [OF p] show ?thesis by (simp add: inspect_entries.simps Let_def)
        next
          case (Inr b)
          obtain r1 res where i: "inspect_archive z b (k + 1) ?r = (r1, res)" by (rule prod.exhaust)
          have w: "walk_result (m + length infos) (r1, res)" using 3(1) [OF _ _ Inr p] zip i by simp
          with None True zip Inr i rest [of m r1] show ?thesis by (cases res) (simp_all add: inspect_entries.simps Let_def)
        qed
      qed
    qed
  qed
qed


text \<open>The encoding of a text is accepted as text by the decoder.\<close>

lemma utf8_decodes_utf8: "utf8_decodes (utf8 s)"
proof (induction s)
  case (Cons c s)
  have lt: "(of_char c :: nat) < 256" by (rule nat_of_char_less_256)
  show ?case
  proof (cases "(of_char c :: nat) < 128")
    case True
    then have "utf8 (c # s) = c # utf8 s" by (simp add: utf8_def utf8_char_def)
    with Cons True show ?thesis by simp
  next
    case False
    let ?n = "of_char c :: nat"
    have u: "utf8 (c # s) = char_of (192 + ?n div 64) # char_of (128 + ?n mod 64) # utf8 s"
      using False by (simp add: utf8_def utf8_char_def Let_def)
    have d: "2 \<le> ?n div 64" "?n div 64 \<le> 3"
      using False div_le_mono [of ?n 255 64] lt by simp_all
    then have m: "(192 + ?n div 64) mod 256 = 192 + ?n div 64" "(128 + ?n mod 64) mod 256 = 128 + ?n mod 64" by simp_all
    show ?thesis using Cons m d by (simp add: u Let_def)
  qed
qed (simp add: utf8_def)

lemma inspect_archive_reference:
  "inspect_archive z data 1 empty_report = (rep, None) \<longleftrightarrow>
     (\<exists>es d. archive_listing z data 1 = Some (es, d) \<and> within_limits es \<and> rep = report_of es d)"
proof -
  have "report_ok empty_report" by (simp add: report_ok_def empty_report_def)
  moreover have "extend_report empty_report 0 es d = report_of es d" for es d
    by (simp add: extend_report_def empty_report_def report_of_def)
  moreover have "report_ok (report_of es d) \<and> list_all (\<lambda>e. check_entry e = None) es \<longleftrightarrow> within_limits es" for es d
    by (auto simp: report_ok_def report_of_def within_limits_def)
  ultimately show ?thesis unfolding inspect_archive_accepts [OF \<open>report_ok empty_report\<close>] by (metis zero_le)
qed

text \<open>The drive-letter check looks at the start of the whole path only: a leading dot component hides the letter.\<close>

lemma normalize_lets_drive_through: "normalize_relative ''./c:/x'' = Inr ''c:/x'' \<and> isl (normalize_relative ''c:/x'')"
  by code_simp

section \<open>Properties\<close>

text \<open>An accepted relative path stays below every directory it is joined to: followed component by component
  it only ever descends, and each component is a plain name: not empty, not a dot or dot-dot, no separator of either
  kind, no NUL and no reserved device name.\<close>

theorem normalized_path_descends:
  assumes "normalize_relative p = Inr q"
  shows "follow base (split_on CHR ''/'' q) = base @ split_on CHR ''/'' q \<and> list_all safe_segment (split_on CHR ''/'' q) \<and>
    \<not> starts_with q ''/''"
proof -
  from assms obtain segs where q: "q = join_with CHR ''/'' segs" "segs \<noteq> []" and s: "\<forall>s\<in>set segs. safe_segment s"
    by (rule normalize_relative_Inr)
  have sp: "split_on CHR ''/'' q = segs" unfolding q(1) by (rule split_join [OF q(2)]) (use s in \<open>simp add: safe_segment_def\<close>)
  have "\<not> starts_with q ''/''"
  proof
    assume "starts_with q ''/''"
    then obtain r where "q = CHR ''/'' # r" by (auto simp: prefix_def)
    then have "[] \<in> set segs" using sp by auto
    with s show False by (auto simp: safe_segment_def)
  qed
  with s sp follow_safe [OF s] show ?thesis by (auto simp: list_all_iff)
qed

theorem normalized_path_descends_witness:
  "normalize_relative ''docs/./2024/a.txt'' = Inr ''docs/2024/a.txt'' \<and>
   follow [''srv'', ''w1''] [''docs'', ''2024'', ''a.txt''] = [''srv'', ''w1'', ''docs'', ''2024'', ''a.txt'']"
proof -
  have n: "normalize_relative ''docs/./2024/a.txt'' = Inr ''docs/2024/a.txt''" by code_simp
  from normalized_path_descends [OF n, of "[''srv'', ''w1'']"] n show ?thesis by simp
qed

text \<open>C26. Whatever the file system answers, a path that staging accepts is the real root of the workspace or below it, and no
  existing component between the two is a symbolic link, a Windows shortcut or a reparse point.\<close>

theorem staged_path_contained:
  assumes "safe_input_path fs base rel = Inr p"
  shows "prefix (fs_realpath fs base) p \<and>
    (\<forall>q. strict_prefix (fs_realpath fs base) q \<and> prefix q p \<and> (fs_exists fs q \<or> fs_is_symlink fs q) \<longrightarrow>
       \<not> fs_is_symlink fs q \<and> casefold (path_suffix q) \<noteq> ''.lnk'' \<and> \<not> is_reparse_point fs q)"
proof -
  have r: "resolve_within fs base rel = Inr p" and c: "check_ancestors fs (fs_realpath fs base) p = None"
    using assms by (auto simp: safe_input_path_def split: sum.splits option.splits)
  have pre: "prefix (fs_realpath fs base) p"
    using r by (auto simp: resolve_within_def Let_def split: sum.splits if_splits)
  moreover have "assert_not_a_link fs q = None"
    if "strict_prefix (fs_realpath fs base) q" "prefix q p" "fs_exists fs q \<or> fs_is_symlink fs q" for q
    by (rule check_ancestors_None [OF c pre that])
  ultimately show ?thesis unfolding assert_not_a_link_None by blast
qed

definition sample_fs :: filesystem where
  "sample_fs = \<lparr>fs_realpath = (\<lambda>p. if take 2 p = [''w'', ''latest''] then [''w'', ''v1''] @ drop 2 p else p), fs_exists = (\<lambda>p. p \<in> {[''w''], [''w'', ''v1''], [''w'', ''latest'']}),
     fs_is_symlink = (\<lambda>p. p = [''w'', ''latest'']), fs_attributes = (\<lambda>_. None)\<rparr>"

lemma sample_fs_simps: "fs_realpath sample_fs p = (if take 2 p = [''w'', ''latest''] then [''w'', ''v1''] @ drop 2 p else p)"
  "fs_is_symlink sample_fs p \<longleftrightarrow> p = [''w'', ''latest'']" "\<not> is_reparse_point sample_fs p"
  by (simp_all add: sample_fs_def is_reparse_point_def)

theorem staged_path_contained_witness:
  "safe_input_path sample_fs [''w''] ''v1'' = Inr [''w'', ''v1''] \<and> prefix (fs_realpath sample_fs [''w'']) [''w'', ''v1'']"
proof -
  have n: "safe_input_path sample_fs [''w''] ''v1'' = Inr [''w'', ''v1'']" by code_simp
  from staged_path_contained [OF n] n show ?thesis by blast
qed

text \<open>Symbolic links inside a workspace are followed, not refused: since the ancestors checked are those of the resolved path, and
  \<open>realpath\<close> leaves no link in its result, a link whose target lies in the workspace is accepted and yields its target.\<close>

theorem inner_link_is_followed:
  assumes "\<And>p q. prefix q (fs_realpath fs p) \<Longrightarrow> \<not> fs_is_symlink fs q"
    and "\<And>q. casefold (path_suffix q) = ''.lnk'' \<or> is_reparse_point fs q \<Longrightarrow> \<not> prefix q t"
    and "normalize_relative rel = Inr n" and "fs_is_symlink fs (fs_realpath fs base @ split_on CHR ''/'' n)"
    and "t = fs_realpath fs (fs_realpath fs base @ split_on CHR ''/'' n)" and "prefix (fs_realpath fs base) t"
  shows "safe_input_path fs base rel = Inr t"
proof -
  have "check_ancestors fs (fs_realpath fs base) t = None"
    using assms(1,2,5) by (intro check_ancestors_clean) (auto simp: assert_not_a_link_None)
  moreover have "resolve_within fs base rel = Inr t"
    using assms(3,5,6) by (auto simp: resolve_within_def Let_def strict_prefix_def)
  ultimately show ?thesis by (simp add: safe_input_path_def)
qed

theorem inner_link_is_followed_witness:
  "fs_is_symlink sample_fs [''w'', ''latest''] \<and> safe_input_path sample_fs [''w''] ''latest'' = Inr [''w'', ''v1'']"
proof -
  have n: "normalize_relative ''latest'' = Inr ''latest''" by code_simp
  have sp: "split_on CHR ''/'' ''latest'' = [''latest'']" by code_simp
  have l: "\<not> prefix q [''w'', ''v1'']" if "casefold (path_suffix q) = ''.lnk'' \<or> is_reparse_point sample_fs q" for q
  proof
    assume "prefix q [''w'', ''v1'']"
    then have "q \<in> {[], [''w''], [''w'', ''v1'']}" by (auto simp: prefix_Cons)
    moreover have "casefold (path_suffix []) \<noteq> ''.lnk''" "casefold (path_suffix [''w'']) \<noteq> ''.lnk''"
      "casefold (path_suffix [''w'', ''v1'']) \<noteq> ''.lnk''" by code_simp+
    ultimately show False using that sample_fs_simps(3) by auto
  qed
  have r: "\<not> fs_is_symlink sample_fs q" if "prefix q (fs_realpath sample_fs p)" for p q
    using that by (auto simp: sample_fs_simps prefix_def split: if_splits)
  have "safe_input_path sample_fs [''w''] ''latest'' = Inr [''w'', ''v1'']"
    by (rule inner_link_is_followed [OF r l n]) (simp_all add: sample_fs_simps sp)
  then show ?thesis by (simp add: sample_fs_simps)
qed


text \<open>C25. A bomb is stopped early: whatever the bytes hold and whether the walk accepts or raises, it has by then walked at most
  10,000 entries, counted at most the total limit plus one entry, gone at most three layers deep, and every name it has
  walked is one that stays below the directory of extraction.\<close>

theorem bomb_is_stopped_early:
  "case inspect_archive z data 1 empty_report of (rep, _) \<Rightarrow>
     length (ar_paths rep) \<le> MAX_ARCHIVE_ENTRIES \<and> ar_total_expanded_bytes rep \<le> MAX_TOTAL_EXPANDED_BYTES + MAX_ENTRY_BYTES \<and>
     ar_max_depth rep \<le> MAX_ARCHIVE_DEPTH \<and> list_all (\<lambda>p. \<not> isl (normalize_relative (entry_name p))) (ar_paths rep)"
proof -
  have "pending 0 empty_report" by (simp add: pending_def empty_report_def report_ok_def names_ok_def)
  then have "walk_bounded (fst (inspect_archive z data 1 empty_report))"
    using inspect_archive_bounded [of 0 empty_report 1 z data] by (simp add: MAX_ARCHIVE_DEPTH_def)
  then show ?thesis by (auto simp: walk_bounded_def names_ok_def split: prod.splits)
qed

text \<open>What the upload gate lets through: exactly non-empty data within the size limit whose hash is the expected one if one was given,
  whose content fits the declared type, and which, if it looks like an archive, lies within the archive limits
  as a whole.\<close>

theorem upload_accepted_iff:
  "validate_upload sha256 z data declared max_bytes expected = None \<longleftrightarrow>
     data \<noteq> [] \<and> length data \<le> max_bytes \<and> (case expected of None \<Rightarrow> True | Some e \<Rightarrow> sha256 data = py_lower e) \<and>
     (if declared \<in> set TEXT_MEDIA_TYPES then utf8_decodes data \<and> CHR 0x00 \<notin> set data
      else \<exists>sigs s. map_of MAGIC_SIGNATURES declared = Some sigs \<and> s \<in> set sigs \<and> prefix s data) \<and>
     (if looks_like_zip data then \<exists>es d. archive_listing z data 1 = Some (es, d) \<and> within_limits es else True)"
proof -
  have a: "snd (inspect_archive z data 1 empty_report) = None \<longleftrightarrow> (\<exists>es d. archive_listing z data 1 = Some (es, d) \<and> within_limits es)"
    by (cases "inspect_archive z data 1 empty_report") (metis inspect_archive_reference snd_conv)
  have m: "(\<exists>t. detect_media_type data declared = Inr t) \<longleftrightarrow> (if declared \<in> set TEXT_MEDIA_TYPES then utf8_decodes data \<and> CHR 0x00 \<notin> set data
      else \<exists>sigs s. map_of MAGIC_SIGNATURES declared = Some sigs \<and> s \<in> set sigs \<and> prefix s data)"
    by (auto simp: detect_media_type_def list_ex_iff split: option.splits)
  show ?thesis unfolding a [symmetric] m [symmetric]
    by (auto simp: validate_upload_def split: sum.splits option.splits)
qed

end
