(* ===== verification/Sandbox_Processors.thy ===== *)
theory Sandbox_Processors
  imports Sandbox_Validation "HOL-Library.List_Lexorder" "HOL-Library.Char_ord"
begin

text \<open>
  The processor registry (\<open>sandbox/processors.py\<close>): an allowlist of images pinned by digest with fixed, inert
  argument vectors. The regular expressions are the predicates \<open>is_slug\<close> and \<open>is_digest_reference\<close>; \<open>$\<close> also matches before
  a final newline.
\<close>

definition SHELL_METACHARACTERS :: string where
  "SHELL_METACHARACTERS = ''|&;<>$`'' @ [CHR 0x5C, CHR 0x22, CHR 0x27] @ ''()*?!{}[]~'' @ [CHR 0x0A, CHR 0x0D]"

definition SHELL_PROGRAMS :: "string list" where
  "SHELL_PROGRAMS = [''sh'', ''bash'', ''zsh'', ''ash'', ''dash'', ''/bin/sh'', ''/bin/bash'']"

definition FORBIDDEN_SUBSTRINGS :: "string list" where
  "FORBIDDEN_SUBSTRINGS = [''://'', ''http'', ''https'', ''ftp'', ''localhost'', ''127.0.0.1'', ''password'', ''secret'', ''token'',
     ''api_key'', ''apikey'', ''authorization'', ''bearer'']"

definition between :: "char \<Rightarrow> char \<Rightarrow> char \<Rightarrow> bool" where
  "between a b c \<longleftrightarrow> (of_char a :: nat) \<le> of_char c \<and> (of_char c :: nat) \<le> of_char b"

definition alnum :: "char \<Rightarrow> bool" where
  "alnum c \<longleftrightarrow> between CHR ''a'' CHR ''z'' c \<or> between CHR ''0'' CHR ''9'' c"

text \<open>\<open>$\<close>: the end, or before a newline that is the last character.\<close>

definition at_dollar :: "string \<Rightarrow> string" where
  "at_dollar s = (if s \<noteq> [] \<and> last s = CHR 0x0A then butlast s else s)"

definition is_slug :: "string \<Rightarrow> bool" where
  "is_slug s \<longleftrightarrow> (case at_dollar s of [] \<Rightarrow> False | c # cs \<Rightarrow> alnum c \<and> list_all (\<lambda>d. alnum d \<or> d \<in> {CHR ''_'', CHR ''-''}) cs)"

definition is_digest_reference :: "string \<Rightarrow> bool" where
  "is_digest_reference s \<longleftrightarrow> (case split_on CHR ''@'' (at_dollar s) of
     [c # repo, digest] \<Rightarrow> alnum c \<and> list_all (\<lambda>d. alnum d \<or> d \<in> {CHR ''.'', CHR ''_'', CHR ''/'', CHR ''-''}) repo \<and>
       starts_with digest ''sha256:'' \<and> length digest = 7 + 64 \<and>
       list_all (\<lambda>d. between CHR ''a'' CHR ''f'' d \<or> between CHR ''0'' CHR ''9'' d) (drop 7 digest)
   | _ \<Rightarrow> False)"

record processor_definition =
  pd_processor_id :: string
  pd_image :: string
  pd_argv :: "string list"
  pd_signature_identity :: string
  pd_description :: string
  pd_env :: "(string \<times> string) list"

definition reject_sensitive :: "string \<Rightarrow> string option" where
  "reject_sensitive v = (if list_ex (contains_str (casefold v)) FORBIDDEN_SUBSTRINGS then Some ''FORBIDDEN_VALUE'' else None)"

fun first_error :: "('a \<Rightarrow> string option) \<Rightarrow> 'a list \<Rightarrow> string option" where
  "first_error f [] = None"
| "first_error f (x # xs) = (case f x of Some e \<Rightarrow> Some e | None \<Rightarrow> first_error f xs)"

definition validate_argv :: "string list \<Rightarrow> string option" where
  "validate_argv argv =
     (let program = hd argv in
      if last (split_on CHR ''/'' program) \<in> set SHELL_PROGRAMS \<or> program \<in> set SHELL_PROGRAMS then Some ''SHELL_FORBIDDEN''
      else if ''-c'' \<in> set argv then Some ''SHELL_FORBIDDEN''
      else first_error (\<lambda>e. if list_ex (\<lambda>c. c \<in> set SHELL_METACHARACTERS) e then Some ''ARGV_METACHARACTER'' else reject_sensitive e) argv)"

text \<open>\<open>__post_init__\<close>: \<open>None\<close> when the definition is constructed.\<close>

definition definition_error :: "processor_definition \<Rightarrow> string option" where
  "definition_error d =
     (if pd_processor_id d = [] \<or> \<not> is_slug (pd_processor_id d) then Some ''PROCESSOR_ID_INVALID''
      else if \<not> is_digest_reference (pd_image d) then Some ''IMAGE_NOT_PINNED''
      else if pd_signature_identity d = [] then Some ''SIGNATURE_REQUIRED''
      else if pd_argv d = [] then Some ''ARGV_REQUIRED''
      else (case validate_argv (pd_argv d) of
          Some e \<Rightarrow> Some e
        | None \<Rightarrow> first_error (\<lambda>(k, v). reject_sensitive v) (pd_env d)))"

section \<open>The registry\<close>

type_synonym processor_registry = "(string \<times> processor_definition) list"

fun register_all :: "processor_registry \<Rightarrow> processor_definition list \<Rightarrow> string + processor_registry" where
  "register_all catalogue [] = Inr catalogue"
| "register_all catalogue (d # ds) =
     (if pd_processor_id d \<in> fst ` set catalogue then Inl ''PROCESSOR_DUPLICATE''
      else register_all (catalogue @ [(pd_processor_id d, d)]) ds)"

definition processor_registry_init :: "processor_definition list \<Rightarrow> string + processor_registry" where
  "processor_registry_init ds = register_all [] ds"

definition processor_get :: "processor_registry \<Rightarrow> string \<Rightarrow> string + processor_definition" where
  "processor_get r i = (case map_of r i of None \<Rightarrow> Inl ''PROCESSOR_UNKNOWN'' | Some d \<Rightarrow> Inr d)"

definition registry_ids :: "processor_registry \<Rightarrow> string list" where
  "registry_ids r = sort (map fst r)"

definition registry_contains :: "processor_registry \<Rightarrow> string \<Rightarrow> bool" where
  "registry_contains r i \<longleftrightarrow> i \<in> fst ` set r"

definition DEFAULT_PROCESSORS :: "processor_definition list" where
  "DEFAULT_PROCESSORS =
    [\<lparr>pd_processor_id = ''reimbursement-fill'',
      pd_image = ''registry.internal/policyflow/reimbursement-fill'' @ ''@sha256:'' @ replicate 64 CHR ''0'',
      pd_argv = [''/usr/local/bin/fill'', ''--manifest'', ''/work/in/manifest.json'', ''--out'', ''/work/out''],
      pd_signature_identity = ''cosign:policyflow-ci@policyflow.internal'',
      pd_description = ''Fill a reimbursement form from a validated input manifest.'',
      pd_env = [(''TZ'', ''UTC'')]\<rparr>,
     \<lparr>pd_processor_id = ''document-diff'',
      pd_image = ''registry.internal/policyflow/document-diff@sha256:'' @ replicate 64 CHR ''0'',
      pd_argv = [''/usr/local/bin/diff'', ''--in'', ''/work/in'', ''--out'', ''/work/out''],
      pd_signature_identity = ''cosign:policyflow-ci@policyflow.internal'',
      pd_description = ''Produce a normalized diff artifact between two versions.'',
      pd_env = []\<rparr>]"

definition default_registry :: "string + processor_registry" where
  "default_registry = processor_registry_init DEFAULT_PROCESSORS"

section \<open>What the registry guarantees\<close>

text \<open>The promise of the module: direct program, no shell, nothing a shell would interpret, no destination and no credential, an
  image named by its digest.\<close>

definition inert_value :: "string \<Rightarrow> bool" where
  "inert_value v \<longleftrightarrow> list_all (\<lambda>n. \<not> sublist n (casefold v)) FORBIDDEN_SUBSTRINGS"

definition inert_processor :: "processor_definition \<Rightarrow> bool" where
  "inert_processor d \<longleftrightarrow> is_slug (pd_processor_id d) \<and> is_digest_reference (pd_image d) \<and> pd_signature_identity d \<noteq> [] \<and> pd_argv d \<noteq> [] \<and>
     last (split_on CHR ''/'' (hd (pd_argv d))) \<notin> set SHELL_PROGRAMS \<and> ''-c'' \<notin> set (pd_argv d) \<and>
     list_all (\<lambda>e. set e \<inter> set SHELL_METACHARACTERS = {} \<and> inert_value e) (pd_argv d) \<and>
     list_all (\<lambda>(k, v). inert_value v) (pd_env d)"

lemma first_error_None: "first_error f xs = None \<longleftrightarrow> list_all (\<lambda>x. f x = None) xs"
  by (induction xs) (auto split: option.splits)

lemma reject_sensitive_None: "reject_sensitive v = None \<longleftrightarrow> inert_value v"
  by (auto simp: reject_sensitive_def inert_value_def contains_str_def list_ex_iff list_all_iff)

lemma constructed_inert: "definition_error d = None \<Longrightarrow> inert_processor d"
  by (auto simp: definition_error_def validate_argv_def inert_processor_def Let_def first_error_None reject_sensitive_None
      list_ex_iff list_all_iff split: if_splits option.splits)

lemma register_all_Inr:
  "register_all c ds = Inr r \<Longrightarrow> distinct (map fst c) \<Longrightarrow>
     r = c @ map (\<lambda>d. (pd_processor_id d, d)) ds \<and> distinct (map fst r)"
proof (induction c ds rule: register_all.induct)
  case (2 c d ds)
  then have "register_all (c @ [(pd_processor_id d, d)]) ds = Inr r" "pd_processor_id d \<notin> fst ` set c" by (simp_all split: if_splits)
  with 2(1) [of] 2(3) have "r = (c @ [(pd_processor_id d, d)]) @ map (\<lambda>d. (pd_processor_id d, d)) ds \<and> distinct (map fst r)" by fastforce
  then show ?case unfolding append_assoc append.simps list.map .
qed simp

lemma register_all_error: "register_all c ds = Inl e \<Longrightarrow> distinct (map fst c) \<Longrightarrow> e = ''PROCESSOR_DUPLICATE'' \<and>
   \<not> distinct (map fst c @ map pd_processor_id ds)"
  by (induction c ds rule: register_all.induct) (auto split: if_splits)

text \<open>C27. A registry of constructed definitions runs nothing else: it is built exactly when no id repeats; a lookup answers precisely the
  definition registered under the id, which is inert, and raises for every other id; the ids are listed in order.\<close>

theorem registry_is_an_allowlist:
  assumes "list_all (\<lambda>d. definition_error d = None) ds"
  shows "case processor_registry_init ds of
      Inl e \<Rightarrow> e = ''PROCESSOR_DUPLICATE'' \<and> \<not> distinct (map pd_processor_id ds)
    | Inr r \<Rightarrow> distinct (map pd_processor_id ds) \<and> registry_ids r = sort (map pd_processor_id ds) \<and>
        (\<forall>i d. processor_get r i = Inr d \<longleftrightarrow> d \<in> set ds \<and> pd_processor_id d = i \<and> inert_processor d) \<and>
        (\<forall>i. registry_contains r i = (processor_get r i \<noteq> Inl ''PROCESSOR_UNKNOWN''))"
proof (cases "processor_registry_init ds")
  case (Inl e)
  then show ?thesis using register_all_error [of "[]" ds e] by (simp add: processor_registry_init_def)
next
  case (Inr r)
  then have "r = map (\<lambda>d. (pd_processor_id d, d)) ds \<and> distinct (map fst r)"
    using register_all_Inr [of "[]" ds r] unfolding processor_registry_init_def by force
  then have r: "r = map (\<lambda>d. (pd_processor_id d, d)) ds" and dist: "distinct (map fst r)" by blast+
  have ids: "map fst r = map pd_processor_id ds" by (simp add: r comp_def)
  have g: "processor_get r i = Inr d \<longleftrightarrow> (i, d) \<in> set r" for i d
    unfolding map_of_eq_Some_iff [OF dist, symmetric] by (simp add: processor_get_def split: option.splits)
  have u: "registry_contains r i = (processor_get r i \<noteq> Inl ''PROCESSOR_UNKNOWN'')" for i
    by (auto simp: processor_get_def registry_contains_def map_of_eq_None_iff split: option.splits)
      (metis map_of_eq_None_iff option.distinct(1))+
  have "processor_get r i = Inr d \<longleftrightarrow> d \<in> set ds \<and> pd_processor_id d = i \<and> inert_processor d" for i d
    unfolding g using assms constructed_inert by (auto simp: r list_all_iff)
  with Inr dist ids u show ?thesis by (simp add: registry_ids_def)
qed

theorem registry_is_an_allowlist_witness:
  "\<exists>r. default_registry = Inr r \<and> registry_ids r = [''document-diff'', ''reimbursement-fill''] \<and>
     processor_get r ''document-diff'' = Inr (DEFAULT_PROCESSORS ! 1) \<and> inert_processor (DEFAULT_PROCESSORS ! 1)"
proof -
  have l: "list_all (\<lambda>d. definition_error d = None) DEFAULT_PROCESSORS" by code_simp
  have d: "distinct (map pd_processor_id DEFAULT_PROCESSORS)"
    and s: "sort (map pd_processor_id DEFAULT_PROCESSORS) = [''document-diff'', ''reimbursement-fill'']"
    and n: "pd_processor_id (DEFAULT_PROCESSORS ! 1) = ''document-diff''" by code_simp+
  have m: "DEFAULT_PROCESSORS ! 1 \<in> set DEFAULT_PROCESSORS" by (rule nth_mem) (simp add: DEFAULT_PROCESSORS_def)
  obtain r where r: "default_registry = Inr r"
    using registry_is_an_allowlist [OF l] d unfolding default_registry_def by (cases "processor_registry_init DEFAULT_PROCESSORS") simp_all
  have i: "inert_processor (DEFAULT_PROCESSORS ! 1)" using constructed_inert l m by (auto simp: list_all_iff)
  from registry_is_an_allowlist [OF l] show ?thesis
    using r s n m i unfolding default_registry_def by simp
qed

text \<open>A trailing newline passes the anchors.\<close>

lemma slug_with_newline: "is_slug (''fill'' @ [CHR 0x0A])"
  by code_simp

end
