(* ===== verification/Vector_Index.thy ===== *)
theory Vector_Index
  imports Py_Text Canonical_Json "HOL-Library.List_Lexorder" "HOL-Library.Char_ord"
begin

text \<open>
  The vector index: the manifest lifecycle of \<open>retrieval/indexer.py\<close> over the shared collection of
  \<open>retrieval/milvus.py\<close>. Manifests are the authoritative rows in PostgreSQL with their check constraints and partial
  unique indexes; the collection is a list of rows. The Milvus client is a parameter \<open>vclient\<close>: for each upsert and delete
  it gives whether the call succeeded and the collection afterwards, for each query whether it is answered.
  Every operation takes the manifests it read (\<open>snap\<close>) beside the world it writes to.
\<close>

section \<open>Manifests\<close>

datatype deletion_state = Ds_retained | Ds_deleting | Ds_deleted

record vector_manifest =
  vm_id :: ident
  vm_tenant_id :: string
  vm_knowledge_base_id :: string
  vm_material_id :: "string option"
  vm_material_version_id :: "string option"
  vm_document_id :: "string option"
  vm_embedding_version_id :: string
  vm_prefix :: string
  vm_chunk_ids :: "string list"
  vm_expected_count :: nat
  vm_indexed_count :: nat
  vm_content_hash :: string
  vm_retrievable :: bool
  vm_activated_at :: "instant option"
  vm_deletion_state :: deletion_state
  vm_deleted_at :: "instant option"
  vm_updated_at :: instant
  vm_version :: int

definition set_vm_version :: "int \<Rightarrow> vector_manifest \<Rightarrow> vector_manifest" where
  "set_vm_version v m = m\<lparr>vm_version := v\<rparr>"

interpretation manifest_table: versioned_table vm_id vm_version set_vm_version
  by unfold_locales (simp_all add: set_vm_version_def)

datatype index_error =
    Manifest_state_error string
  | Index_value_error string
  | Retrieval_unavailable
  | Manifest_integrity_error

text \<open>\<open>ck_vector_manifests_*\<close> and the two partial unique indexes over retrievable rows.\<close>

definition manifest_row_ok :: "vector_manifest \<Rightarrow> bool" where
  "manifest_row_ok m \<longleftrightarrow> ((vm_material_version_id m \<noteq> None) \<noteq> (vm_document_id m \<noteq> None)) \<and>
     (vm_retrievable m \<longrightarrow> vm_indexed_count m = vm_expected_count m \<and> 0 < vm_expected_count m)"

definition same_subject :: "vector_manifest \<Rightarrow> vector_manifest \<Rightarrow> bool" where
  "same_subject a b \<longleftrightarrow> vm_tenant_id a = vm_tenant_id b \<and> vm_knowledge_base_id a = vm_knowledge_base_id b \<and>
     ((vm_material_id a \<noteq> None \<and> vm_material_id a = vm_material_id b) \<or> (vm_document_id a \<noteq> None \<and> vm_document_id a = vm_document_id b))"

definition manifests_ok :: "vector_manifest list \<Rightarrow> bool" where
  "manifests_ok t \<longleftrightarrow> list_all manifest_row_ok t \<and>
     (\<forall>a\<in>set t. \<forall>b\<in>set t. vm_retrievable a \<and> vm_retrievable b \<and> same_subject a b \<longrightarrow> vm_id a = vm_id b)"

section \<open>The collection\<close>

record milvus_row =
  mr_id :: string
  mr_tenant_id :: string
  mr_knowledge_base_id :: string
  mr_subject_kind :: string
  mr_subject_id :: string
  mr_version_id :: string
  mr_chunk_id :: string
  mr_embedding_version_id :: string
  mr_retrievable :: bool
  mr_text :: string
  mr_vector :: "rat list"

type_synonym collection = "milvus_row list"

record vclient =
  vc_upsert :: "milvus_row list \<Rightarrow> collection \<Rightarrow> bool \<times> collection"
  vc_delete :: "string list \<Rightarrow> collection \<Rightarrow> bool \<times> collection"
  vc_query :: "collection \<Rightarrow> bool"

record chunk_payload =
  ck_chunk_id :: string
  ck_text :: string
  ck_vector :: "rat list"

definition QUERY_LIMIT :: nat where "QUERY_LIMIT = 16384"

definition vector_id :: "string \<Rightarrow> string \<Rightarrow> string" where
  "vector_id p chunk_id = p @ '':'' @ chunk_id"

definition in_prefix :: "string \<Rightarrow> string \<Rightarrow> milvus_row \<Rightarrow> bool" where
  "in_prefix tenant p r \<longleftrightarrow> mr_tenant_id r = tenant \<and> starts_with (mr_id r) (p @ '':'')"

definition query_rows :: "vclient \<Rightarrow> collection \<Rightarrow> (milvus_row \<Rightarrow> bool) \<Rightarrow> index_error + milvus_row list" where
  "query_rows c t P = (if vc_query c t then Inr (take QUERY_LIMIT (filter P t)) else Inl Retrieval_unavailable)"

definition query_prefix :: "vclient \<Rightarrow> collection \<Rightarrow> string \<Rightarrow> string \<Rightarrow> index_error + milvus_row list" where
  "query_prefix c t tenant p = query_rows c t (in_prefix tenant p)"

definition count_by_prefix :: "vclient \<Rightarrow> collection \<Rightarrow> string \<Rightarrow> string \<Rightarrow> index_error + nat" where
  "count_by_prefix c t tenant p = res_bind (query_prefix c t tenant p) (\<lambda>rows. Inr (length rows))"

definition call_upsert :: "vclient \<Rightarrow> milvus_row list \<Rightarrow> collection \<Rightarrow> collection \<times> index_error option" where
  "call_upsert c rows t = (case vc_upsert c rows t of (ok, t') \<Rightarrow> (t', if ok then None else Some Retrieval_unavailable))"

definition chunk_row :: "string \<Rightarrow> string \<Rightarrow> string \<Rightarrow> string \<Rightarrow> string \<Rightarrow> string \<Rightarrow> string \<Rightarrow> bool \<Rightarrow> chunk_payload \<Rightarrow> milvus_row" where
  "chunk_row tenant kb kind subject version emb p retrievable ch =
     \<lparr>mr_id = vector_id p (ck_chunk_id ch), mr_tenant_id = tenant, mr_knowledge_base_id = kb, mr_subject_kind = kind,
      mr_subject_id = subject, mr_version_id = version, mr_chunk_id = ck_chunk_id ch, mr_embedding_version_id = emb,
      mr_retrievable = retrievable, mr_text = ck_text ch, mr_vector = ck_vector ch\<rparr>"

definition upsert_chunks :: "vclient \<Rightarrow> collection \<Rightarrow> string \<Rightarrow> string \<Rightarrow> string \<Rightarrow> string \<Rightarrow> string \<Rightarrow> string \<Rightarrow> string \<Rightarrow> chunk_payload list \<Rightarrow> bool
    \<Rightarrow> collection \<times> index_error option" where
  "upsert_chunks c t tenant kb kind subject version emb p chunks retrievable =
     (if kind \<notin> {''material'', ''document''} then (t, Some (Index_value_error ''unknown subject_kind''))
      else let rows = map (chunk_row tenant kb kind subject version emb p retrievable) chunks in
        if rows = [] then (t, None) else call_upsert c rows t)"

definition set_retrievable :: "vclient \<Rightarrow> collection \<Rightarrow> string \<Rightarrow> string \<Rightarrow> bool \<Rightarrow> collection \<times> index_error option" where
  "set_retrievable c t tenant p flag = (case query_prefix c t tenant p of
     Inl e \<Rightarrow> (t, Some e)
   | Inr rows \<Rightarrow> if rows = [] then (t, None) else call_upsert c (map (mr_retrievable_update (\<lambda>_. flag)) rows) t)"

definition delete_ids :: "vclient \<Rightarrow> collection \<Rightarrow> string \<Rightarrow> string list \<Rightarrow> collection \<times> index_error option" where
  "delete_ids c t tenant ids =
     (if ids = [] then (t, None)
      else (case query_rows c t (\<lambda>r. mr_tenant_id r = tenant \<and> mr_id r \<in> set ids) of
          Inl e \<Rightarrow> (t, Some e)
        | Inr owned \<Rightarrow>
            if length owned \<noteq> card (set ids) then (t, Some (Index_value_error ''not owned''))
            else (case vc_delete c ids t of (ok, t') \<Rightarrow> (t', if ok then None else Some Retrieval_unavailable))))"

definition delete_by_prefix :: "vclient \<Rightarrow> collection \<Rightarrow> string \<Rightarrow> string \<Rightarrow> collection \<times> index_error option" where
  "delete_by_prefix c t tenant p = (case query_prefix c t tenant p of
     Inl e \<Rightarrow> (t, Some e)
   | Inr rows \<Rightarrow> if rows = [] then (t, None) else delete_ids c t tenant (map mr_id rows))"

definition chunk_ids_for_prefix :: "vclient \<Rightarrow> collection \<Rightarrow> string \<Rightarrow> string \<Rightarrow> index_error + string list" where
  "chunk_ids_for_prefix c t tenant p = res_bind (query_prefix c t tenant p) (\<lambda>rows. Inr (sort (map mr_chunk_id rows)))"

definition list_version_ids :: "vclient \<Rightarrow> collection \<Rightarrow> string \<Rightarrow> index_error + string list" where
  "list_version_ids c t tenant = res_bind (query_rows c t (\<lambda>r. mr_tenant_id r = tenant)) (\<lambda>rows. Inr (sort (remdups (map mr_version_id rows))))"

section \<open>Scopes and search\<close>

record retrieval_scope =
  rs_tenant_id :: string
  rs_knowledge_base_ids :: "string list"
  rs_embedding_version_id :: string
  rs_version_ids :: "string list"

text \<open>\<open>_quote\<close>: backslashes, then double quotes.\<close>

definition milvus_quote :: "string \<Rightarrow> string" where
  "milvus_quote v = concat (map (\<lambda>c. if c = CHR 0x22 then [CHR 0x5C, CHR 0x22] else [c])
     (concat (map (\<lambda>c. if c = CHR 0x5C then [CHR 0x5C, CHR 0x5C] else [c]) v)))"

definition string_literal :: "string \<Rightarrow> string" where
  "string_literal v = CHR 0x22 # milvus_quote v @ [CHR 0x22]"

fun comma_join :: "string list \<Rightarrow> string" where
  "comma_join [] = []"
| "comma_join [s] = s"
| "comma_join (s # t # ss) = s @ '', '' @ comma_join (t # ss)"

definition literal_list :: "string list \<Rightarrow> string" where
  "literal_list vs = ''['' @ comma_join (map string_literal vs) @ '']''"

text \<open>\<open>filter_expression\<close>: the text, or the refusal of a scope that does not narrow.\<close>

definition filter_expression :: "retrieval_scope \<Rightarrow> index_error + string" where
  "filter_expression s =
     (if rs_tenant_id s = [] then Inl (Index_value_error ''tenant_id'')
      else if rs_knowledge_base_ids s = [] then Inl (Index_value_error ''knowledge_base_ids'')
      else if rs_embedding_version_id s = [] then Inl (Index_value_error ''embedding_version_id'')
      else if rs_version_ids s = [] then Inl (Index_value_error ''version_ids'')
      else Inr (''tenant_id == '' @ string_literal (rs_tenant_id s) @ '' and knowledge_base_id in '' @ literal_list (rs_knowledge_base_ids s) @
        '' and version_id in '' @ literal_list (rs_version_ids s) @
        '' and embedding_version_id == '' @ string_literal (rs_embedding_version_id s) @ '' and retrievable == true''))"

text \<open>What the expression selects.\<close>

definition in_scope :: "retrieval_scope \<Rightarrow> milvus_row \<Rightarrow> bool" where
  "in_scope s r \<longleftrightarrow> mr_tenant_id r = rs_tenant_id s \<and> mr_knowledge_base_id r \<in> set (rs_knowledge_base_ids s) \<and>
     mr_version_id r \<in> set (rs_version_ids s) \<and> mr_embedding_version_id r = rs_embedding_version_id s \<and> mr_retrievable r"

definition retrieval_search :: "vclient \<Rightarrow> (rat list \<Rightarrow> nat \<Rightarrow> milvus_row list \<Rightarrow> milvus_row list) \<Rightarrow> collection \<Rightarrow> retrieval_scope \<Rightarrow> rat list \<Rightarrow> nat
    \<Rightarrow> index_error + milvus_row list" where
  "retrieval_search c ann t s q limit = res_bind (filter_expression s)
     (\<lambda>_. if vc_query c t then Inr (ann q limit (filter (in_scope s) t)) else Inl Retrieval_unavailable)"

definition manifest_version :: "vector_manifest \<Rightarrow> string" where
  "manifest_version m = (case vm_material_version_id m of Some v \<Rightarrow> if v \<noteq> [] then v else (case vm_document_id m of Some d \<Rightarrow> d | None \<Rightarrow> [])
     | None \<Rightarrow> (case vm_document_id m of Some d \<Rightarrow> d | None \<Rightarrow> []))"

definition serves :: "string \<Rightarrow> string list \<Rightarrow> string \<Rightarrow> vector_manifest \<Rightarrow> bool" where
  "serves tenant kbs emb m \<longleftrightarrow> vm_tenant_id m = tenant \<and> vm_knowledge_base_id m \<in> set kbs \<and> vm_embedding_version_id m = emb \<and>
     vm_retrievable m \<and> vm_deletion_state m = Ds_retained"

definition resolve_scope :: "vector_manifest list \<Rightarrow> string \<Rightarrow> string list \<Rightarrow> string \<Rightarrow> retrieval_scope" where
  "resolve_scope t tenant kbs emb =
     \<lparr>rs_tenant_id = tenant, rs_knowledge_base_ids = kbs, rs_embedding_version_id = emb,
      rs_version_ids = sort (remdups (filter (\<lambda>v. v \<noteq> []) (map manifest_version (filter (serves tenant kbs emb) t))))\<rparr>"

section \<open>The indexer\<close>

record vworld =
  vw_manifests :: "vector_manifest list"
  vw_rows :: collection

type_synonym index_result = "vworld \<times> (index_error + vector_manifest)"

text \<open>The separator of the digested fields; the text is hashed in UTF-8.\<close>

definition UNIT_SEPARATOR :: char where "UNIT_SEPARATOR = CHR 0x1F"

definition PREFIX_NAMESPACE :: string where "PREFIX_NAMESPACE = ''policyflow/vectors/v1''"

definition vector_id_prefix :: "(string \<Rightarrow> string) \<Rightarrow> string \<Rightarrow> string \<Rightarrow> string \<Rightarrow> string \<Rightarrow> string \<Rightarrow> string" where
  "vector_id_prefix sha256 tenant kb subject version emb =
     take 32 (sha256 (utf8 (join_with UNIT_SEPARATOR [PREFIX_NAMESPACE, tenant, kb, subject, version, emb])))"

definition content_hash :: "(string \<Rightarrow> string) \<Rightarrow> chunk_payload list \<Rightarrow> string" where
  "content_hash sha256 chunks = sha256 (concat (map (\<lambda>ch. utf8 (ck_chunk_id ch) @ [CHR 0x1F] @ utf8 (ck_text ch) @ [CHR 0x1E]) chunks))"

text \<open>\<open>Some []\<close> and \<open>None\<close> are both falsy.\<close>

definition truthy :: "string option \<Rightarrow> bool" where
  "truthy s \<longleftrightarrow> (case s of None \<Rightarrow> False | Some x \<Rightarrow> x \<noteq> [])"

definition resolve_subject :: "string option \<Rightarrow> string option \<Rightarrow> index_error + string \<times> string" where
  "resolve_subject mv doc =
     (if truthy mv = truthy doc then Inl (Index_value_error ''one subject'')
      else if truthy mv then Inr (''material'', the mv) else Inr (''document'', the doc))"

definition find_manifest :: "vector_manifest list \<Rightarrow> string \<Rightarrow> string \<Rightarrow> string \<Rightarrow> string option \<Rightarrow> string option \<Rightarrow> vector_manifest option" where
  "find_manifest t tenant kb emb mv doc =
     find (\<lambda>m. vm_tenant_id m = tenant \<and> vm_knowledge_base_id m = kb \<and> vm_embedding_version_id m = emb \<and>
        (if mv \<noteq> None then vm_material_version_id m = mv else vm_document_id m = doc)) t"

text \<open>A write through the ORM: the columns of the row with this key, not guarded by its version.\<close>

definition orm_write :: "vector_manifest list \<Rightarrow> vector_manifest \<Rightarrow> (vector_manifest \<Rightarrow> vector_manifest) \<Rightarrow> index_error + vector_manifest list" where
  "orm_write cur m upd =
     (let t = put_row vm_id cur (vm_id m) (\<lambda>r. set_vm_version (vm_version m + 1) (upd r)) in
      if manifests_ok t then Inr t else Inl Manifest_integrity_error)"

definition manifest_cas :: "vector_manifest list \<Rightarrow> vector_manifest \<Rightarrow> instant \<Rightarrow> (vector_manifest \<Rightarrow> vector_manifest) \<Rightarrow> index_error + vector_manifest list" where
  "manifest_cas cur m now upd =
     (case cas_row vm_id vm_version set_vm_version cur (vm_id m) (vm_version m) (\<lambda>r. (upd r)\<lparr>vm_updated_at := now\<rparr>) of
        None \<Rightarrow> Inl (Manifest_state_error ''concurrent modification'')
      | Some t \<Rightarrow> if manifests_ok t then Inr t else Inl Manifest_integrity_error)"

definition load_manifest :: "vector_manifest list \<Rightarrow> ident \<Rightarrow> index_error + vector_manifest" where
  "load_manifest t i = (case get_row vm_id t i of None \<Rightarrow> Inl (Manifest_state_error ''no manifest'') | Some m \<Rightarrow> Inr m)"

text \<open>\<open>commit\<close> and \<open>refresh\<close>: the new table, and the row as it then is.\<close>

definition committed :: "vworld \<Rightarrow> ident \<Rightarrow> index_error + vector_manifest list \<Rightarrow> index_result" where
  "committed w i r = (case r of Inl e \<Rightarrow> (w, Inl e) | Inr t \<Rightarrow> (w\<lparr>vw_manifests := t\<rparr>, load_manifest t i))"

definition stage_manifest :: "(string \<Rightarrow> string) \<Rightarrow> vclient \<Rightarrow> vector_manifest list \<Rightarrow> vworld \<Rightarrow> instant \<Rightarrow> ident \<Rightarrow> string \<Rightarrow> string \<Rightarrow> string \<Rightarrow> chunk_payload list
    \<Rightarrow> string option \<Rightarrow> string option \<Rightarrow> string option \<Rightarrow> index_result" where
  "stage_manifest sha256 c snap w now new_id tenant kb emb chunks material mv doc =
     (case resolve_subject mv doc of
        Inl e \<Rightarrow> (w, Inl e)
      | Inr (kind, subject) \<Rightarrow>
          (let p = vector_id_prefix sha256 tenant kb subject subject emb;
               h = content_hash sha256 chunks;
               owner = (if truthy material then the material else if truthy doc then the doc else subject)
           in case upsert_chunks c (vw_rows w) tenant kb kind owner subject emb p chunks False of
                (rows, Some e) \<Rightarrow> (w\<lparr>vw_rows := rows\<rparr>, Inl e)
              | (rows, None) \<Rightarrow>
                  (let w = w\<lparr>vw_rows := rows\<rparr> in
                   case find_manifest snap tenant kb emb mv doc of
                     Some existing \<Rightarrow>
                       if vm_content_hash existing \<noteq> [] \<and> vm_content_hash existing \<noteq> h then (w, Inl (Manifest_state_error ''different content''))
                       else committed w (vm_id existing) (orm_write (vw_manifests w) existing
                         (\<lambda>m. m\<lparr>vm_expected_count := length chunks, vm_chunk_ids := map ck_chunk_id chunks, vm_content_hash := h, vm_updated_at := now\<rparr>))
                   | None \<Rightarrow>
                       (let m = \<lparr>vm_id = new_id, vm_tenant_id = tenant, vm_knowledge_base_id = kb, vm_material_id = material,
                           vm_material_version_id = mv, vm_document_id = doc, vm_embedding_version_id = emb, vm_prefix = p,
                           vm_chunk_ids = map ck_chunk_id chunks, vm_expected_count = length chunks, vm_indexed_count = 0,
                           vm_content_hash = h, vm_retrievable = False, vm_activated_at = None, vm_deletion_state = Ds_retained,
                           vm_deleted_at = None, vm_updated_at = now, vm_version = 1\<rparr>;
                           t = vw_manifests w @ [m]
                        in if new_id \<in> vm_id ` set (vw_manifests w) \<or> \<not> manifests_ok t then (w, Inl Manifest_integrity_error)
                           else (w\<lparr>vw_manifests := t\<rparr>, Inr m)))))"

definition verify_manifest :: "vclient \<Rightarrow> vector_manifest list \<Rightarrow> vworld \<Rightarrow> instant \<Rightarrow> ident \<Rightarrow> index_result" where
  "verify_manifest c snap w now i =
     (case load_manifest snap i of
        Inl e \<Rightarrow> (w, Inl e)
      | Inr m \<Rightarrow> (case count_by_prefix c (vw_rows w) (vm_tenant_id m) (vm_prefix m) of
            Inl e \<Rightarrow> (w, Inl e)
          | Inr counted \<Rightarrow> committed w i (orm_write (vw_manifests w) m (\<lambda>r. r\<lparr>vm_indexed_count := counted, vm_updated_at := now\<rparr>))))"

definition current_retrievable :: "vector_manifest list \<Rightarrow> vector_manifest \<Rightarrow> vector_manifest option" where
  "current_retrievable t m =
     (if vm_material_id m = None \<and> vm_document_id m = None then None
      else find (\<lambda>r. vm_tenant_id r = vm_tenant_id m \<and> vm_knowledge_base_id r = vm_knowledge_base_id m \<and> vm_retrievable r \<and> vm_id r \<noteq> vm_id m \<and>
        (if vm_material_id m \<noteq> None then vm_material_id r = vm_material_id m else vm_document_id r = vm_document_id m)) t)"

text \<open>The transaction of an activation: the previous manifest is demoted and this one promoted.\<close>

definition promote :: "vector_manifest list \<Rightarrow> instant \<Rightarrow> vector_manifest option \<Rightarrow> vector_manifest \<Rightarrow> index_error + vector_manifest list" where
  "promote cur now previous m =
     res_bind (case previous of None \<Rightarrow> Inr cur | Some q \<Rightarrow> manifest_cas cur q now (vm_retrievable_update (\<lambda>_. False)))
       (\<lambda>t. manifest_cas t m now (\<lambda>r. r\<lparr>vm_retrievable := True, vm_activated_at := Some now\<rparr>))"

definition activate_error :: "vector_manifest \<Rightarrow> index_error option" where
  "activate_error m =
     (if vm_deletion_state m \<noteq> Ds_retained then Some (Manifest_state_error ''deleted'')
      else if vm_expected_count m = 0 then Some (Index_value_error ''expects no chunks'')
      else if vm_indexed_count m \<noteq> vm_expected_count m then Some (Index_value_error ''not verified'')
      else None)"

definition activate_manifest :: "vclient \<Rightarrow> vector_manifest list \<Rightarrow> vworld \<Rightarrow> instant \<Rightarrow> ident \<Rightarrow> index_result" where
  "activate_manifest c snap w now i =
     (case load_manifest snap i of
        Inl e \<Rightarrow> (w, Inl e)
      | Inr m \<Rightarrow> (case activate_error m of
          Some e \<Rightarrow> (w, Inl e)
        | None \<Rightarrow>
          if vm_retrievable m then (w, Inr m)
          else (case set_retrievable c (vw_rows w) (vm_tenant_id m) (vm_prefix m) True of
              (rows, Some e) \<Rightarrow> (w\<lparr>vw_rows := rows\<rparr>, Inl e)
            | (rows, None) \<Rightarrow>
                (let w = w\<lparr>vw_rows := rows\<rparr>; previous = current_retrievable snap m in
                 case promote (vw_manifests w) now previous m of
                   Inl e \<Rightarrow> (w, Inl e)
                 | Inr t \<Rightarrow>
                     (let w = w\<lparr>vw_manifests := t\<rparr> in
                      case previous of
                        None \<Rightarrow> (w, load_manifest t i)
                      | Some q \<Rightarrow> (case set_retrievable c (vw_rows w) (vm_tenant_id q) (vm_prefix q) False of
                            (rows, Some e) \<Rightarrow> (w\<lparr>vw_rows := rows\<rparr>, Inl e)
                          | (rows, None) \<Rightarrow> (w\<lparr>vw_rows := rows\<rparr>, load_manifest t i)))))))"

definition deactivate_manifest :: "vclient \<Rightarrow> vector_manifest list \<Rightarrow> vworld \<Rightarrow> instant \<Rightarrow> ident \<Rightarrow> index_result" where
  "deactivate_manifest c snap w now i =
     (case load_manifest snap i of
        Inl e \<Rightarrow> (w, Inl e)
      | Inr m \<Rightarrow>
          (case (if vm_retrievable m then manifest_cas (vw_manifests w) m now (vm_retrievable_update (\<lambda>_. False)) else Inr (vw_manifests w)) of
             Inl e \<Rightarrow> (w, Inl e)
           | Inr t \<Rightarrow>
               (let w = w\<lparr>vw_manifests := t\<rparr> in
                case set_retrievable c (vw_rows w) (vm_tenant_id m) (vm_prefix m) False of
                  (rows, Some e) \<Rightarrow> (w\<lparr>vw_rows := rows\<rparr>, Inl e)
                | (rows, None) \<Rightarrow> (w\<lparr>vw_rows := rows\<rparr>, load_manifest t i))))"

text \<open>\<open>delete\<close>: withdrawn first, then the rows, then the mark. The second session reads the table as it is by then (\<open>snap2\<close>).\<close>

definition delete_manifest :: "vclient \<Rightarrow> vector_manifest list \<Rightarrow> (vworld \<Rightarrow> vworld) \<Rightarrow> vworld \<Rightarrow> instant \<Rightarrow> ident \<Rightarrow> index_result" where
  "delete_manifest c snap others w now i =
     (case load_manifest snap i of
        Inl e \<Rightarrow> (w, Inl e)
      | Inr m \<Rightarrow>
          if vm_deletion_state m = Ds_deleted then (w, Inr m)
          else (case (if vm_retrievable m \<or> vm_deletion_state m = Ds_retained
                      then manifest_cas (vw_manifests w) m now (\<lambda>r. r\<lparr>vm_retrievable := False, vm_deletion_state := Ds_deleting\<rparr>)
                      else Inr (vw_manifests w)) of
              Inl e \<Rightarrow> (w, Inl e)
            | Inr t \<Rightarrow>
                (case delete_by_prefix c (vw_rows w) (vm_tenant_id m) (vm_prefix m) of
                   (rows, Some e) \<Rightarrow> (w\<lparr>vw_manifests := t, vw_rows := rows\<rparr>, Inl e)
                 | (rows, None) \<Rightarrow>
                     (let w = w\<lparr>vw_manifests := t, vw_rows := rows\<rparr> in
                      case count_by_prefix c rows (vm_tenant_id m) (vm_prefix m) of
                        Inl e \<Rightarrow> (w, Inl e)
                      | Inr remaining \<Rightarrow>
                          if remaining \<noteq> 0 then (w, Inl (Manifest_state_error ''vectors remain''))
                          else let w = others w in
                            (case load_manifest (vw_manifests w) i of
                               Inl e \<Rightarrow> (w, Inl e)
                             | Inr cm \<Rightarrow> committed w i (manifest_cas (vw_manifests w) cm now
                                 (\<lambda>r. r\<lparr>vm_deletion_state := Ds_deleted, vm_deleted_at := Some now, vm_indexed_count := 0\<rparr>)))))))"

end
