(* ===== verification/Vector_Index_Safety.thy ===== *)
theory Vector_Index_Safety
  imports Vector_Index
begin

text \<open>
  What retrieval can rely on: the filter text pins down the scope, only served versions are found, the switch of an
  activation is atomic for every reader, a deletion removes exactly one manifest's vectors; and two defects of
  the lifecycle.
\<close>

section \<open>Filter text\<close>

fun read_literal :: "string \<Rightarrow> (string \<times> string) option" where
  "read_literal [] = None"
| "read_literal (c # s) =
     (if c = CHR 0x22 then Some ([], s)
      else if c = CHR 0x5C then (case s of [] \<Rightarrow> None | d # s' \<Rightarrow> map_option (apfst ((#) d)) (read_literal s'))
      else map_option (apfst ((#) c)) (read_literal s))"

lemma milvus_quote_simps [simp]:
  "milvus_quote [] = []"
  "milvus_quote (c # v) = (if c = CHR 0x5C then [CHR 0x5C, CHR 0x5C] else if c = CHR 0x22 then [CHR 0x5C, CHR 0x22] else [c]) @ milvus_quote v"
  by (simp_all add: milvus_quote_def)

lemma read_quote: "read_literal (milvus_quote v @ CHR 0x22 # rest) = Some (v, rest)"
  by (induction v) simp_all

lemma string_literal_inj: "string_literal v @ rest = string_literal u @ rest' \<longleftrightarrow> v = u \<and> rest = rest'"
proof
  assume "string_literal v @ rest = string_literal u @ rest'"
  then have "milvus_quote v @ CHR 0x22 # rest = milvus_quote u @ CHR 0x22 # rest'" by (simp add: string_literal_def)
  then have "Some (v, rest) = Some (u, rest')" using read_quote [of v rest] read_quote [of u rest'] by metis
  then show "v = u \<and> rest = rest'" by simp
qed simp

lemma comma_join_inj:
  "vs \<noteq> [] \<Longrightarrow> us \<noteq> [] \<Longrightarrow> comma_join (map string_literal vs) @ CHR '']'' # rest = comma_join (map string_literal us) @ CHR '']'' # rest' \<Longrightarrow>
     vs = us \<and> rest = rest'"
proof (induction vs arbitrary: us)
  case (Cons v vs)
  obtain u us' where us: "us = u # us'" using Cons.prems(2) by (cases us) auto
  have c: "comma_join (map string_literal (x # xs)) @ CHR '']'' # r =
     string_literal x @ (if xs = [] then CHR '']'' # r else '', '' @ comma_join (map string_literal xs) @ CHR '']'' # r)" for x xs r
    by (cases xs) simp_all
  from Cons.prems(3) show ?case unfolding us c string_literal_inj using Cons.IH [of us'] by (auto split: if_splits)
qed simp

lemma literal_list_inj:
  "vs \<noteq> [] \<Longrightarrow> us \<noteq> [] \<Longrightarrow> literal_list vs @ rest = literal_list us @ rest' \<Longrightarrow> vs = us \<and> rest = rest'"
  using comma_join_inj [of vs us rest rest'] by (simp add: literal_list_def)

definition filter_text :: "retrieval_scope \<Rightarrow> string" where
  "filter_text s = ''tenant_id == '' @ string_literal (rs_tenant_id s) @ '' and knowledge_base_id in '' @ literal_list (rs_knowledge_base_ids s) @
        '' and version_id in '' @ literal_list (rs_version_ids s) @
        '' and embedding_version_id == '' @ string_literal (rs_embedding_version_id s) @ '' and retrievable == true''"

lemma filter_expression_Inr:
  "filter_expression s = Inr e \<longleftrightarrow> (rs_tenant_id s \<noteq> [] \<and> rs_knowledge_base_ids s \<noteq> [] \<and> rs_embedding_version_id s \<noteq> [] \<and> rs_version_ids s \<noteq> []) \<and>
     e = filter_text s"
  unfolding filter_expression_def filter_text_def [symmetric] by auto

section \<open>The contract of the client\<close>

text \<open>What Milvus documents: a successful upsert replaces the rows with the given primary keys, a successful delete removes
  exactly the given keys. Primary keys stay distinct. Nothing is assumed of a failed call.\<close>

definition client_contract :: "vclient \<Rightarrow> bool" where
  "client_contract c \<longleftrightarrow>
     (\<forall>rows t t'. vc_upsert c rows t = (True, t') \<and> distinct (map mr_id rows) \<longrightarrow> set t' = {r \<in> set t. mr_id r \<notin> mr_id ` set rows} \<union> set rows \<and>
        (distinct (map mr_id t) \<longrightarrow> distinct (map mr_id t'))) \<and>
     (\<forall>ids t t'. vc_delete c ids t = (True, t') \<longrightarrow> set t' = {r \<in> set t. mr_id r \<notin> set ids} \<and>
        (distinct (map mr_id t) \<longrightarrow> distinct (map mr_id t')))"


text \<open>Rows under a manifest's prefix carry its labels, and no others do.\<close>

definition owns :: "vector_manifest \<Rightarrow> milvus_row \<Rightarrow> bool" where
  "owns m r \<longleftrightarrow> mr_tenant_id r = vm_tenant_id m \<and> mr_knowledge_base_id r = vm_knowledge_base_id m \<and>
     mr_version_id r = manifest_version m \<and> mr_embedding_version_id r = vm_embedding_version_id m"

definition labelled :: "vworld \<Rightarrow> bool" where
  "labelled w \<longleftrightarrow> distinct (map mr_id (vw_rows w)) \<and>
     (\<forall>m\<in>set (vw_manifests w). manifest_version m \<noteq> [] \<and> (\<forall>r\<in>set (vw_rows w). in_prefix (vm_tenant_id m) (vm_prefix m) r = owns m r)) \<and>
     (\<forall>a\<in>set (vw_manifests w). \<forall>b\<in>set (vw_manifests w). vm_tenant_id a = vm_tenant_id b \<and> vm_embedding_version_id a = vm_embedding_version_id b \<and>
        manifest_version a = manifest_version b \<longrightarrow> vm_id a = vm_id b)"

lemma in_scope_resolve:
  "in_scope (resolve_scope t tenant kbs emb) r \<longleftrightarrow>
     mr_tenant_id r = tenant \<and> mr_knowledge_base_id r \<in> set kbs \<and> mr_embedding_version_id r = emb \<and> mr_retrievable r \<and> mr_version_id r \<noteq> [] \<and>
     (\<exists>m\<in>set t. serves tenant kbs emb m \<and> manifest_version m = mr_version_id r)"
  by (auto simp: in_scope_def resolve_scope_def image_iff)



section \<open>Manifest writes\<close>

definition label :: "vector_manifest \<Rightarrow> ident \<times> string \<times> string \<times> string \<times> string \<times> string \<times> string option \<times> string option" where
  "label m = (vm_id m, vm_tenant_id m, vm_knowledge_base_id m, manifest_version m, vm_embedding_version_id m, vm_prefix m, vm_material_id m, vm_document_id m)"


lemma label_updates [simp]:
  "label (set_vm_version v m) = label m" "label (m\<lparr>vm_updated_at := now\<rparr>) = label m"
  "label (m\<lparr>vm_retrievable := b\<rparr>) = label m" "label (m\<lparr>vm_activated_at := x\<rparr>) = label m"
  by (simp_all add: label_def set_vm_version_def manifest_version_def split: option.splits)














definition fits_query :: "vworld \<Rightarrow> bool" where
  "fits_query w \<longleftrightarrow> list_all (\<lambda>m. length (filter (in_prefix (vm_tenant_id m) (vm_prefix m)) (vw_rows w)) \<le> QUERY_LIMIT) (vw_manifests w)"



section \<open>Deletion\<close>

lemma delete_by_prefix_ok:
  assumes c: "client_contract c" and s: "delete_by_prefix c t tenant p = (t', None)" and d: "distinct (map mr_id t)"
  shows "{r \<in> set t. \<not> in_prefix tenant p r} \<subseteq> set t' \<and> set t' \<subseteq> set t \<and> distinct (map mr_id t')"
proof -
  let ?rows = "take QUERY_LIMIT (filter (in_prefix tenant p) t)"
  have q: "query_prefix c t tenant p = Inr ?rows"
    using s by (auto simp: delete_by_prefix_def query_prefix_def query_rows_def split: if_splits)
  show ?thesis
  proof (cases "?rows = []")
    case True
    with q s d show ?thesis by (simp add: delete_by_prefix_def)
  next
    case False
    with q s have "delete_ids c t tenant (map mr_id ?rows) = (t', None)" by (simp add: delete_by_prefix_def)
    then have "vc_delete c (map mr_id ?rows) t = (True, t')"
      using False by (auto simp: delete_ids_def split: sum.splits if_splits prod.splits)
    then have "set t' = {r \<in> set t. mr_id r \<notin> mr_id ` set ?rows}" "distinct (map mr_id t')"
      using conjunct2 [OF c [unfolded client_contract_def]] d by simp_all
    moreover have "in_prefix tenant p r" if u: "r \<in> set t" "mr_id r \<in> mr_id ` set ?rows" for r
    proof -
      obtain x where "x \<in> set ?rows" "mr_id x = mr_id r" using u(2) by auto
      then have "x \<in> set t" "in_prefix tenant p x" by (auto dest: in_set_takeD)
      with u(1) d \<open>mr_id x = mr_id r\<close> have "x = r" by (auto simp: distinct_map dest: inj_onD)
      with \<open>in_prefix tenant p x\<close> show ?thesis by simp
    qed
    ultimately show ?thesis by blast
  qed
qed

lemma count_by_prefix_zero: "count_by_prefix c t tenant p = Inr 0 \<Longrightarrow> \<forall>r\<in>set t. \<not> in_prefix tenant p r"
  by (auto simp: count_by_prefix_def query_prefix_def query_rows_def QUERY_LIMIT_def filter_empty_conv min_def split: if_splits)

lemma manifest_cas_row:
  assumes "manifest_cas cur m now upd = Inr t" and "keys_distinct vm_id cur" and "get_row vm_id cur (vm_id m) = Some m" and "\<And>r. vm_id (upd r) = vm_id r"
  shows "keys_distinct vm_id t \<and> get_row vm_id t k = (if k = vm_id m then Some (set_vm_version (vm_version m + 1) ((upd m)\<lparr>vm_updated_at := now\<rparr>)) else get_row vm_id cur k)"
proof -
  have c: "cas_row vm_id vm_version set_vm_version cur (vm_id m) (vm_version m) (\<lambda>r. (upd r)\<lparr>vm_updated_at := now\<rparr>) = Some t"
    using assms(1) by (auto simp: manifest_cas_def split: option.splits if_splits)
  have i: "\<And>r. vm_id (set_vm_version (vm_version m + 1) ((upd r)\<lparr>vm_updated_at := now\<rparr>)) = vm_id r" by (simp add: set_vm_version_def assms(4))
  from c assms(2) obtain r where "t = put_row vm_id cur (vm_id m) (\<lambda>r. set_vm_version (vm_version m + 1) ((upd r)\<lparr>vm_updated_at := now\<rparr>))"
    by (rule manifest_table.cas_row_SomeE)
  moreover have "map vm_id t = map vm_id cur" by (rule cas_row_map [OF c]) (rule i)
  ultimately show ?thesis using assms(2,3) by (simp add: get_put_row [where key = vm_id, OF i])
qed

lemma delete_manifest_exact:
  assumes "client_contract c" and d: "keys_distinct vm_id (vw_manifests w)" and r: "distinct (map mr_id (vw_rows w))"
    and m: "get_row vm_id (vw_manifests w) i = Some m" and "vm_deletion_state m \<noteq> Ds_deleted"
    and del: "delete_manifest c (vw_manifests w) id w now i = (w', Inr m')"
  shows "set (vw_rows w') = {r \<in> set (vw_rows w). \<not> in_prefix (vm_tenant_id m) (vm_prefix m) r} \<and>
    vm_deletion_state m' = Ds_deleted \<and> \<not> vm_retrievable m' \<and> get_row vm_id (vw_manifests w') i = Some m' \<and>
    (\<forall>k. k \<noteq> i \<longrightarrow> get_row vm_id (vw_manifests w') k = get_row vm_id (vw_manifests w) k) \<and>
    keys_distinct vm_id (vw_manifests w') \<and> distinct (map mr_id (vw_rows w'))"
proof -
  have mi: "vm_id m = i" using get_row_SomeD [OF m] by simp
  let ?first = "if vm_retrievable m \<or> vm_deletion_state m = Ds_retained
     then manifest_cas (vw_manifests w) m now (\<lambda>r. r\<lparr>vm_retrievable := False, vm_deletion_state := Ds_deleting\<rparr>) else Inr (vw_manifests w)"
  obtain t where t: "?first = Inr t" using assms by (cases ?first) (auto simp: delete_manifest_def load_manifest_def)
  obtain rows x where x: "delete_by_prefix c (vw_rows w) (vm_tenant_id m) (vm_prefix m) = (rows, x)" by (rule prod.exhaust)
  have xn: "x = None" using assms(5) del m t x by (cases x) (auto simp: delete_manifest_def load_manifest_def)
  have z: "count_by_prefix c rows (vm_tenant_id m) (vm_prefix m) = Inr 0"
    using assms(5) del m t x xn by (auto simp: delete_manifest_def load_manifest_def Let_def split: sum.splits if_splits)
  define cm where "cm = (if vm_retrievable m \<or> vm_deletion_state m = Ds_retained
     then set_vm_version (vm_version m + 1) (m\<lparr>vm_retrievable := False, vm_deletion_state := Ds_deleting, vm_updated_at := now\<rparr>) else m)"
  have g: "keys_distinct vm_id t \<and> get_row vm_id t k = (if k = i then Some cm else get_row vm_id (vw_manifests w) k)" for k
    using t manifest_cas_row [OF _ d, of m now "\<lambda>r. r\<lparr>vm_retrievable := False, vm_deletion_state := Ds_deleting\<rparr>" t k] m mi d
    by (auto simp: cm_def split: if_splits)
  have cm: "vm_id cm = i" "\<not> vm_retrievable cm" using mi by (auto simp: cm_def set_vm_version_def)
  obtain t2 where t2: "manifest_cas t cm now (\<lambda>r. r\<lparr>vm_deletion_state := Ds_deleted, vm_deleted_at := Some now, vm_indexed_count := 0\<rparr>) = Inr t2"
    and w': "w' = w\<lparr>vw_manifests := t2, vw_rows := rows\<rparr>" and m': "load_manifest t2 i = Inr m'"
    using assms(5) del m t x xn z g [of i] by (auto simp: delete_manifest_def load_manifest_def committed_def Let_def split: sum.splits)
  have h: "get_row vm_id t2 k = (if k = i then Some (set_vm_version (vm_version cm + 1)
      (cm\<lparr>vm_deletion_state := Ds_deleted, vm_deleted_at := Some now, vm_indexed_count := 0, vm_updated_at := now\<rparr>)) else get_row vm_id t k)" for k
    using manifest_cas_row [OF t2 conjunct1 [OF g], of k] g [of i] cm(1) by simp
  have dt: "keys_distinct vm_id t2" using manifest_cas_row [OF t2 conjunct1 [OF g]] g [of i] cm(1) by simp
  have dr: "distinct (map mr_id rows)" using delete_by_prefix_ok [OF assms(1) x [unfolded xn] r] by blast
  have "set rows = {r \<in> set (vw_rows w). \<not> in_prefix (vm_tenant_id m) (vm_prefix m) r}"
    using delete_by_prefix_ok [OF assms(1) x [unfolded xn] r] count_by_prefix_zero [OF z] by blast
  moreover have "m' = set_vm_version (vm_version cm + 1)
      (cm\<lparr>vm_deletion_state := Ds_deleted, vm_deleted_at := Some now, vm_indexed_count := 0, vm_updated_at := now\<rparr>)"
    using m' h [of i] by (simp add: load_manifest_def)
  ultimately show ?thesis using h g cm(2) dt dr by (simp add: w' set_vm_version_def)
qed

section \<open>An in-memory client\<close>

definition memory_client :: vclient where
  "memory_client = \<lparr>vc_upsert = (\<lambda>rows t. (True, filter (\<lambda>r. mr_id r \<notin> mr_id ` set rows) t @ rows)),
     vc_delete = (\<lambda>ids t. (True, filter (\<lambda>r. mr_id r \<notin> set ids) t)), vc_query = (\<lambda>_. True)\<rparr>"

lemma memory_client_contract: "client_contract memory_client"
  by (auto simp: client_contract_def memory_client_def distinct_map_filter)

definition sample_manifest :: "string \<Rightarrow> bool \<Rightarrow> vector_manifest" where
  "sample_manifest v served = \<lparr>vm_id = ''m'' @ v, vm_tenant_id = ''t1'', vm_knowledge_base_id = ''k1'', vm_material_id = Some ''mat'', vm_material_version_id = Some v,
     vm_document_id = None, vm_embedding_version_id = ''e1'', vm_prefix = ''p'' @ v, vm_chunk_ids = [''c''], vm_expected_count = 1, vm_indexed_count = 1,
     vm_content_hash = [], vm_retrievable = served, vm_activated_at = None, vm_deletion_state = Ds_retained, vm_deleted_at = None, vm_updated_at = 0, vm_version = 1\<rparr>"

definition sample_row :: "string \<Rightarrow> bool \<Rightarrow> milvus_row" where
  "sample_row v served = chunk_row ''t1'' ''k1'' ''material'' ''mat'' v ''e1'' (''p'' @ v) served \<lparr>ck_chunk_id = ''c'', ck_text = ''x'', ck_vector = []\<rparr>"

definition sample_index :: vworld where
  "sample_index = \<lparr>vw_manifests = [sample_manifest ''1'' True, sample_manifest ''2'' False], vw_rows = [sample_row ''1'' True, sample_row ''2'' False]\<rparr>"

lemmas sample_index_defs = sample_index_def sample_manifest_def sample_row_def chunk_row_def vector_id_def

lemma sample_index_ok: "labelled sample_index" "keys_distinct vm_id (vw_manifests sample_index)" "fits_query sample_index" "distinct (map mr_id (vw_rows sample_index))"
  by (auto simp: labelled_def fits_query_def owns_def in_prefix_def manifest_version_def sample_index_defs QUERY_LIMIT_def)

section \<open>Properties\<close>

text \<open>The text of a filter pins down what it selects: two scopes that are rendered to the same text are equal, whatever quotes or
  backslashes their values hold, and a scope that would not narrow one of its fields is not rendered at all.\<close>

theorem filter_text_determines_scope:
  assumes "filter_expression s = Inr e" and "filter_expression s' = Inr e"
  shows "s = s' \<and> rs_tenant_id s \<noteq> [] \<and> rs_knowledge_base_ids s \<noteq> [] \<and> rs_embedding_version_id s \<noteq> [] \<and> rs_version_ids s \<noteq> []"
proof -
  have n: "rs_knowledge_base_ids s \<noteq> []" "rs_knowledge_base_ids s' \<noteq> []" "rs_version_ids s \<noteq> []" "rs_version_ids s' \<noteq> []"
    using assms unfolding filter_expression_Inr by blast+
  have "filter_text s = filter_text s'" using assms unfolding filter_expression_Inr by blast
  then have a: "rs_tenant_id s = rs_tenant_id s'" and "literal_list (rs_knowledge_base_ids s) @
        '' and version_id in '' @ literal_list (rs_version_ids s) @
        '' and embedding_version_id == '' @ string_literal (rs_embedding_version_id s) @ '' and retrievable == true'' =
      literal_list (rs_knowledge_base_ids s') @
        '' and version_id in '' @ literal_list (rs_version_ids s') @
        '' and embedding_version_id == '' @ string_literal (rs_embedding_version_id s') @ '' and retrievable == true''"
    by (simp_all only: filter_text_def same_append_eq string_literal_inj)
  from literal_list_inj [OF n(1,2) this(2)] have b: "rs_knowledge_base_ids s = rs_knowledge_base_ids s'"
    and "literal_list (rs_version_ids s) @ '' and embedding_version_id == '' @ string_literal (rs_embedding_version_id s) @ '' and retrievable == true'' =
      literal_list (rs_version_ids s') @ '' and embedding_version_id == '' @ string_literal (rs_embedding_version_id s') @ '' and retrievable == true''"
    by (simp_all only: same_append_eq)
  from literal_list_inj [OF n(3,4) this(2)] have "rs_version_ids s = rs_version_ids s'" "rs_embedding_version_id s = rs_embedding_version_id s'"
    by (simp_all only: same_append_eq string_literal_inj)
  with a b assms(1) show ?thesis by (simp add: filter_expression_Inr)
qed

definition sample_scope :: retrieval_scope where
  "sample_scope = \<lparr>rs_tenant_id = ''t'' @ [CHR 0x22], rs_knowledge_base_ids = [''k1'', ''k2''], rs_embedding_version_id = ''e1'', rs_version_ids = [''v1'']\<rparr>"

theorem filter_text_determines_scope_witness:
  "\<exists>e. filter_expression sample_scope = Inr e \<and> (\<forall>s. filter_expression s = Inr e \<longrightarrow> s = sample_scope)"
proof -
  obtain e where e: "filter_expression sample_scope = Inr e" by (auto simp: filter_expression_def sample_scope_def)
  with filter_text_determines_scope [OF _ e] show ?thesis by blast
qed

text \<open>A search over a resolved scope finds only what is served: every hit belongs to the tenant and to one of the named knowledge
  bases, and its version has a manifest that is retrievable, not deleted and of the same embedding version.\<close>

theorem search_serves_active_only:
  assumes "\<And>q n rows. set (ann q n rows) \<subseteq> set rows" and "retrieval_search c ann rows (resolve_scope t tenant kbs emb) q lm = Inr hits" and "r \<in> set hits"
  shows "mr_tenant_id r = tenant \<and> mr_knowledge_base_id r \<in> set kbs \<and>
    (\<exists>m\<in>set t. serves tenant kbs emb m \<and> manifest_version m = mr_version_id r)"
proof -
  have "hits = ann q lm (filter (in_scope (resolve_scope t tenant kbs emb)) rows)"
    using assms(2) by (auto simp: retrieval_search_def res_simps split: if_splits)
  then have "in_scope (resolve_scope t tenant kbs emb) r" using assms(1,3) by fastforce
  then show ?thesis by (simp add: in_scope_resolve)
qed

theorem search_serves_active_only_witness:
  "\<exists>hits. retrieval_search memory_client (\<lambda>_. take) (vw_rows sample_index) (resolve_scope (vw_manifests sample_index) ''t1'' [''k1''] ''e1'') [] 5 = Inr hits \<and>
     sample_row ''1'' True \<in> set hits \<and> mr_tenant_id (sample_row ''1'' True) = ''t1''"
proof -
  have a: "\<And>q n rows. set ((\<lambda>_. take) q n rows) \<subseteq> set rows" by (simp add: set_take_subset)
  obtain hits where h: "retrieval_search memory_client (\<lambda>_. take) (vw_rows sample_index) (resolve_scope (vw_manifests sample_index) ''t1'' [''k1''] ''e1'') [] 5 = Inr hits"
    and r: "sample_row ''1'' True \<in> set hits"
    by (auto simp: retrieval_search_def filter_expression_def resolve_scope_def in_scope_def serves_def manifest_version_def memory_client_def sample_index_defs)
  from search_serves_active_only [OF a h r] h r show ?thesis by blast
qed



text \<open>A deletion that reports success has removed the vectors of its manifest and no others: the manifest is marked deleted
  and not retrievable, all other manifests are as before, and the collection has lost exactly the rows under the manifest's prefix.\<close>

theorem delete_removes_exactly:
  assumes "client_contract c" and d: "keys_distinct vm_id (vw_manifests w)" and r: "distinct (map mr_id (vw_rows w))"
    and m: "get_row vm_id (vw_manifests w) i = Some m" and "vm_deletion_state m \<noteq> Ds_deleted"
    and del: "delete_manifest c (vw_manifests w) id w now i = (w', Inr m')"
  shows "set (vw_rows w') = {r \<in> set (vw_rows w). \<not> in_prefix (vm_tenant_id m) (vm_prefix m) r} \<and>
    vm_deletion_state m' = Ds_deleted \<and> \<not> vm_retrievable m' \<and> get_row vm_id (vw_manifests w') i = Some m' \<and>
    (\<forall>k. k \<noteq> i \<longrightarrow> get_row vm_id (vw_manifests w') k = get_row vm_id (vw_manifests w) k)"
  using delete_manifest_exact [OF assms] by blast

theorem delete_removes_exactly_witness:
  "\<exists>w' m'. delete_manifest memory_client (vw_manifests sample_index) id sample_index 5 ''m2'' = (w', Inr m') \<and> set (vw_rows w') = {sample_row ''1'' True}"
proof -
  have g: "get_row vm_id (vw_manifests sample_index) ''m2'' = Some (sample_manifest ''2'' False)" "vm_deletion_state (sample_manifest ''2'' False) \<noteq> Ds_deleted"
    by (simp_all add: sample_index_defs)
  have "\<not> isl (snd (delete_manifest memory_client (vw_manifests sample_index) id sample_index 5 ''m2''))" by code_simp
  then obtain w' m' where a: "delete_manifest memory_client (vw_manifests sample_index) id sample_index 5 ''m2'' = (w', Inr m')"
    by (cases "delete_manifest memory_client (vw_manifests sample_index) id sample_index 5 ''m2''") (metis snd_conv sum.collapse(2))
  have "filter (\<lambda>r. \<not> in_prefix (vm_tenant_id (sample_manifest ''2'' False)) (vm_prefix (sample_manifest ''2'' False)) r) (vw_rows sample_index) = [sample_row ''1'' True]"
    by code_simp
  then have "{r \<in> set (vw_rows sample_index). \<not> in_prefix (vm_tenant_id (sample_manifest ''2'' False)) (vm_prefix (sample_manifest ''2'' False)) r} = {sample_row ''1'' True}"
    by (metis empty_set list.simps(15) set_filter)
  with delete_removes_exactly [OF memory_client_contract sample_index_ok(2,4) g a] have "set (vw_rows w') = {sample_row ''1'' True}" by metis
  with a show ?thesis by blast
qed

end
