(* ===== verification/Object_Store.thy ===== *)
theory Object_Store
  imports Py_Text Canonical_Json
begin

text \<open>
  The versioned object store (\<open>storage/object_store.py\<close>) over an S3 client. The client (\<open>boto3\<close>) and the HMAC are parameters; \<open>'b\<close> is the
  state of the provider. A fault of the client carries its error code and the name of its exception class.
  The two loops that depend on what the provider answers, over the pages of a listing and over rounds of a deletion, are
  partial: \<open>None\<close> means that they do not return.
\<close>

section \<open>The client\<close>

record s3_fault =
  sf_code :: string
  sf_class :: string

record s3_head =
  sh_version_id :: "string option"
  sh_content_length :: int
  sh_content_type :: "string option"
  sh_encryption :: "string option"

record s3_page =
  pg_versions :: "(string \<times> string) list"
  pg_markers :: "(string \<times> string) list"
  pg_truncated :: bool
  pg_next_key :: string
  pg_next_version :: string

record 'b s3_client =
  s3_head_object :: "string \<Rightarrow> 'b \<Rightarrow> s3_fault + s3_head"
  s3_get_object :: "string \<Rightarrow> string \<Rightarrow> (int \<times> int) option \<Rightarrow> 'b \<Rightarrow> s3_fault + string"
  s3_list_versions :: "string \<Rightarrow> string \<Rightarrow> string \<Rightarrow> 'b \<Rightarrow> s3_fault + s3_page"
  s3_delete_objects :: "(string \<times> string) list \<Rightarrow> 'b \<Rightarrow> (s3_fault + string list) \<times> 'b"
  s3_put_object :: "string \<Rightarrow> string \<Rightarrow> string \<Rightarrow> 'b \<Rightarrow> (s3_fault + string option) \<times> 'b"
  s3_presign :: "string \<Rightarrow> string \<Rightarrow> s3_fault + string"
  s3_versioning :: "'b \<Rightarrow> s3_fault + string option"

text \<open>The exceptions of the module, with the message where the code inspects it.\<close>

datatype store_error =
    Store_unavailable
  | Store_failed string
  | Bucket_contract
  | Upload_verification string
  | Cross_tenant
  | Store_value_error

definition translate :: "s3_fault \<Rightarrow> string \<Rightarrow> store_error" where
  "translate f operation =
     (if sf_code f \<in> {''NoSuchBucket'', ''InvalidBucketState''} then Bucket_contract
      else if sf_class f \<in> {''EndpointConnectionError'', ''ConnectTimeoutError'', ''ReadTimeoutError'', ''ConnectionClosedError'', ''HTTPClientError''} \<or>
        sf_code f \<in> {''500'', ''503'', ''SlowDown'', ''RequestTimeout'', ''InternalError''} then Store_unavailable
      else Store_failed (operation @ '' failed ('' @ (if sf_code f = [] then sf_class f else sf_code f) @ '')''))"

text \<open>\<open>_is_not_found\<close> sees the translated error, which has no response of its own: only the text is left.\<close>

definition is_not_found :: "store_error \<Rightarrow> bool" where
  "is_not_found e = (case e of Store_failed msg \<Rightarrow> contains_str msg ''404'' | _ \<Rightarrow> False)"

section \<open>Keys\<close>

definition KEY_NAMESPACE :: string where "KEY_NAMESPACE = ''policyflow/materials/v1''"
definition BUCKET_ALIAS_MATERIALS :: string where "BUCKET_ALIAS_MATERIALS = ''materials''"

definition derive_object_key :: "(string \<Rightarrow> string \<Rightarrow> string) \<Rightarrow> string \<Rightarrow> string \<Rightarrow> string \<Rightarrow> string" where
  "derive_object_key hmac tenant material version =
     (let digest = hmac (utf8 KEY_NAMESPACE) (utf8 (join_with CHR 0x1F [tenant, material, version]))
      in take 2 digest @ ''/'' @ take 2 (drop 2 digest) @ ''/'' @ digest)"

definition resolve_key :: "(string \<Rightarrow> string \<Rightarrow> string) \<Rightarrow> string \<Rightarrow> string \<Rightarrow> string \<Rightarrow> string option \<Rightarrow> store_error + string" where
  "resolve_key hmac tenant material version object_key =
     (if tenant = [] then Inl Cross_tenant
      else let derived = derive_object_key hmac tenant material version in
        if object_key \<noteq> None \<and> object_key \<noteq> Some derived then Inl Cross_tenant else Inr derived)"

section \<open>Uploads\<close>

record upload_grant =
  ug_tenant_id :: string
  ug_material_id :: string
  ug_material_version_id :: string
  ug_bucket_alias :: string
  ug_object_key :: string
  ug_url :: string
  ug_max_bytes :: int
  ug_media_type :: string

record stored_object =
  so_object_key :: string
  so_bucket_alias :: string
  so_provider_version_id :: string
  so_sha256 :: string
  so_size_bytes :: int
  so_media_type :: string
  so_encryption_algorithm :: string
  so_scan_status :: string

definition verify_bucket_contract :: "'b s3_client \<Rightarrow> bool \<Rightarrow> 'b \<Rightarrow> store_error option" where
  "verify_bucket_contract c versioning_required b =
     (if \<not> versioning_required then None
      else (case s3_versioning c b of
          Inl f \<Rightarrow> Some (translate f ''get_bucket_versioning'')
        | Inr status \<Rightarrow> if status \<noteq> Some ''Enabled'' then Some Bucket_contract else None))"

definition create_upload :: "(string \<Rightarrow> string \<Rightarrow> string) \<Rightarrow> 'b s3_client \<Rightarrow> string \<Rightarrow> string \<Rightarrow> string \<Rightarrow> string \<Rightarrow> int \<Rightarrow> store_error + upload_grant" where
  "create_upload hmac c tenant material version media_type max_bytes =
     (if max_bytes \<le> 0 then Inl Store_value_error
      else let key = derive_object_key hmac tenant material version in
        (case s3_presign c key media_type of
           Inl f \<Rightarrow> Inl (translate f ''generate_presigned_url'')
         | Inr url \<Rightarrow> Inr \<lparr>ug_tenant_id = tenant, ug_material_id = material, ug_material_version_id = version,
             ug_bucket_alias = BUCKET_ALIAS_MATERIALS, ug_object_key = key, ug_url = url, ug_max_bytes = max_bytes, ug_media_type = media_type\<rparr>))"

definition head_object :: "'b s3_client \<Rightarrow> string \<Rightarrow> 'b \<Rightarrow> store_error + s3_head option" where
  "head_object c key b = (case s3_head_object c key b of
     Inr h \<Rightarrow> Inr (Some h)
   | Inl f \<Rightarrow> (let e = translate f ''head_object'' in if is_not_found e then Inr None else Inl e))"

definition sha256_of :: "(string \<Rightarrow> string) \<Rightarrow> 'b s3_client \<Rightarrow> string \<Rightarrow> string \<Rightarrow> 'b \<Rightarrow> store_error + string" where
  "sha256_of sha256 c key version b = (case s3_get_object c key version None b of
     Inl f \<Rightarrow> Inl (translate f ''get_object'')
   | Inr body \<Rightarrow> Inr (sha256 body))"

definition or_empty :: "string option \<Rightarrow> string" where
  "or_empty s = (case s of None \<Rightarrow> [] | Some x \<Rightarrow> x)"

definition verify_upload :: "(string \<Rightarrow> string) \<Rightarrow> 'b s3_client \<Rightarrow> upload_grant \<Rightarrow> string \<Rightarrow> int \<Rightarrow> string \<Rightarrow> 'b \<Rightarrow> store_error + stored_object" where
  "verify_upload sha256 c grant expected_sha256 expected_size expected_media b =
     res_bind (head_object c (ug_object_key grant) b) (\<lambda>head.
       case head of
         None \<Rightarrow> Inl (Upload_verification ''no object'')
       | Some h \<Rightarrow>
           (let version = or_empty (sh_version_id h) in
            if version = [] then Inl Bucket_contract
            else if sh_content_length h \<noteq> expected_size then Inl (Upload_verification ''size mismatch'')
            else if or_empty (sh_content_type h) \<noteq> expected_media then Inl (Upload_verification ''media_type mismatch'')
            else res_bind (sha256_of sha256 c (ug_object_key grant) version b) (\<lambda>actual.
              if actual \<noteq> py_lower expected_sha256 then Inl (Upload_verification ''sha256 mismatch'')
              else Inr \<lparr>so_object_key = ug_object_key grant, so_bucket_alias = ug_bucket_alias grant, so_provider_version_id = version,
                so_sha256 = actual, so_size_bytes = sh_content_length h, so_media_type = or_empty (sh_content_type h),
                so_encryption_algorithm = (if or_empty (sh_encryption h) = [] then ''none'' else or_empty (sh_encryption h)),
                so_scan_status = ''clean''\<rparr>)))"

definition upload_bytes :: "'b s3_client \<Rightarrow> upload_grant \<Rightarrow> string \<Rightarrow> 'b \<Rightarrow> (store_error + string) \<times> 'b" where
  "upload_bytes c grant payload b = (case s3_put_object c (ug_object_key grant) payload (ug_media_type grant) b of
     (Inl f, b') \<Rightarrow> (Inl (translate f ''put_object''), b')
   | (Inr v, b') \<Rightarrow> (Inr (or_empty v), b'))"

section \<open>Reads\<close>

definition read_range :: "(string \<Rightarrow> string \<Rightarrow> string) \<Rightarrow> 'b s3_client \<Rightarrow> string \<Rightarrow> string \<Rightarrow> string \<Rightarrow> string \<Rightarrow> int \<Rightarrow> int \<Rightarrow> string option \<Rightarrow> 'b
    \<Rightarrow> store_error + string" where
  "read_range hmac c tenant material version provider_version offset len object_key b =
     res_bind (resolve_key hmac tenant material version object_key) (\<lambda>key.
       if offset < 0 \<or> len \<le> 0 then Inl Store_value_error
       else (case s3_get_object c key provider_version (Some (offset, offset + len - 1)) b of
           Inr body \<Rightarrow> Inr body
         | Inl f \<Rightarrow> (case translate f ''get_object'' of
               Store_failed msg \<Rightarrow> if contains_str msg ''InvalidRange'' then Inr [] else Inl (Store_failed msg)
             | e \<Rightarrow> Inl e)))"

text \<open>\<open>_list_versions\<close>: the prefix may match other keys, so entries are compared with the whole key.\<close>

partial_function (option) list_pages :: "'b s3_client \<Rightarrow> string \<Rightarrow> 'b \<Rightarrow> string \<Rightarrow> string \<Rightarrow> string list \<Rightarrow> string list
    \<Rightarrow> (store_error + string list \<times> string list) option" where
  "list_pages c key b key_marker version_marker versions markers =
     (case s3_list_versions c key key_marker version_marker b of
        Inl f \<Rightarrow> Some (Inl (translate f ''list_object_versions''))
      | Inr page \<Rightarrow>
          (let versions = versions @ map snd (filter (\<lambda>e. fst e = key) (pg_versions page));
               markers = markers @ map snd (filter (\<lambda>e. fst e = key) (pg_markers page))
           in if \<not> pg_truncated page \<or> (pg_next_key page = [] \<and> pg_next_version page = []) then Some (Inr (versions, markers))
              else list_pages c key b (pg_next_key page) (pg_next_version page) versions markers))"

declare list_pages.simps [code]

definition list_versions :: "'b s3_client \<Rightarrow> string \<Rightarrow> 'b \<Rightarrow> (store_error + string list \<times> string list) option" where
  "list_versions c key b = list_pages c key b [] [] [] []"

definition inventory :: "(string \<Rightarrow> string \<Rightarrow> string) \<Rightarrow> 'b s3_client \<Rightarrow> string \<Rightarrow> string \<Rightarrow> string \<Rightarrow> string option \<Rightarrow> 'b
    \<Rightarrow> (store_error + string list \<times> string list) option" where
  "inventory hmac c tenant material version object_key b = (case resolve_key hmac tenant material version object_key of
     Inl e \<Rightarrow> Some (Inl e)
   | Inr key \<Rightarrow> list_versions c key b)"

definition inventories_are_empty :: "(string list \<times> string list) list \<Rightarrow> bool" where
  "inventories_are_empty invs = list_all (\<lambda>(vs, ms). vs = [] \<and> ms = []) invs"

section \<open>Deletion\<close>

definition DELETE_BATCH :: nat where "DELETE_BATCH = 1000"

text \<open>The batches of one round; the first refusal stops it.\<close>

function delete_batches :: "'b s3_client \<Rightarrow> (string \<times> string) list \<Rightarrow> 'b \<Rightarrow> store_error option \<times> 'b" where
  "delete_batches c ids b =
     (if ids = [] then (None, b)
      else (case s3_delete_objects c (take DELETE_BATCH ids) b of
          (Inl f, b') \<Rightarrow> (Some (translate f ''delete_objects''), b')
        | (Inr errors, b') \<Rightarrow>
            if errors \<noteq> [] then (Some (Store_failed ''the provider refused version deletions''), b')
            else delete_batches c (drop DELETE_BATCH ids) b'))"
  by auto
termination by (relation "measure (\<lambda>(_, ids, _). length ids)") (auto simp: DELETE_BATCH_def)

declare delete_batches.simps [simp del]

partial_function (option) delete_rounds :: "'b s3_client \<Rightarrow> string \<Rightarrow> nat \<Rightarrow> nat \<Rightarrow> 'b \<Rightarrow> ((store_error + nat \<times> nat) \<times> 'b) option" where
  "delete_rounds c key deleted_versions deleted_markers b =
     (case list_versions c key b of
        None \<Rightarrow> None
      | Some (Inl e) \<Rightarrow> Some (Inl e, b)
      | Some (Inr (versions, markers)) \<Rightarrow>
          if versions = [] \<and> markers = [] then Some (Inr (deleted_versions, deleted_markers), b)
          else (case delete_batches c (map (Pair key) (versions @ markers)) b of
              (Some e, b') \<Rightarrow> Some (Inl e, b')
            | (None, b') \<Rightarrow> delete_rounds c key (deleted_versions + length versions) (deleted_markers + length markers) b'))"

declare delete_rounds.simps [code]

definition delete_all_versions :: "(string \<Rightarrow> string \<Rightarrow> string) \<Rightarrow> 'b s3_client \<Rightarrow> string \<Rightarrow> string \<Rightarrow> string \<Rightarrow> string option \<Rightarrow> 'b
    \<Rightarrow> ((store_error + nat \<times> nat) \<times> 'b) option" where
  "delete_all_versions hmac c tenant material version object_key b = (case resolve_key hmac tenant material version object_key of
     Inl e \<Rightarrow> Some (Inl e, b)
   | Inr key \<Rightarrow> delete_rounds c key 0 0 b)"


section \<open>The contract of a versioned bucket\<close>

text \<open>A listing that is read page by page to its end.\<close>

inductive pages :: "'b s3_client \<Rightarrow> string \<Rightarrow> 'b \<Rightarrow> string \<Rightarrow> string \<Rightarrow> (string \<times> string) list \<Rightarrow> (string \<times> string) list \<Rightarrow> bool" for c p b where
  last_page: "s3_list_versions c p k v b = Inr page \<Longrightarrow> \<not> pg_truncated page \<Longrightarrow> pages c p b k v (pg_versions page) (pg_markers page)"
| next_page: "s3_list_versions c p k v b = Inr page \<Longrightarrow> pg_truncated page \<Longrightarrow> pg_next_key page \<noteq> [] \<Longrightarrow>
    pages c p b (pg_next_key page) (pg_next_version page) vs ms \<Longrightarrow> pages c p b k v (pg_versions page @ vs) (pg_markers page @ ms)"

text \<open>What S3 documents: the pages of a listing end and together hold exactly the versions and delete markers under the prefix, and a deletion without
  reported errors removes exactly the named ones.\<close>

definition versioned_bucket :: "'b s3_client \<Rightarrow> ('b \<Rightarrow> (string \<times> string) set) \<Rightarrow> ('b \<Rightarrow> (string \<times> string) set) \<Rightarrow> bool" where
  "versioned_bucket c vers marks \<longleftrightarrow>
     (\<forall>p b. \<exists>vs ms. pages c p b [] [] vs ms \<and> set vs = {e \<in> vers b. starts_with (fst e) p} \<and> set ms = {e \<in> marks b. starts_with (fst e) p}) \<and>
     (\<forall>ids b b'. s3_delete_objects c ids b = (Inr [], b') \<longrightarrow> vers b' = vers b - set ids \<and> marks b' = marks b - set ids)"

lemma list_pages_complete:
  "pages c key b k v vs ms \<Longrightarrow>
     list_pages c key b k v A M = Some (Inr (A @ map snd (filter (\<lambda>e. fst e = key) vs), M @ map snd (filter (\<lambda>e. fst e = key) ms)))"
  by (induction arbitrary: A M rule: pages.induct) (subst list_pages.simps, simp add: Let_def)+

lemma list_versions_exact:
  assumes "versioned_bucket c vers marks"
  obtains vs ms where "list_versions c key b = Some (Inr (vs, ms))" "Pair key ` set vs = {e \<in> vers b. fst e = key}" "Pair key ` set ms = {e \<in> marks b. fst e = key}"
proof -
  from assms obtain vs ms where p: "pages c key b [] [] vs ms" "set vs = {e \<in> vers b. starts_with (fst e) key}" "set ms = {e \<in> marks b. starts_with (fst e) key}"
    unfolding versioned_bucket_def by blast
  have "Pair key ` set (map snd (filter (\<lambda>e. fst e = key) es)) = {e \<in> S. fst e = key}" if "set es = {e \<in> S. starts_with (fst e) key}" for es and S :: "(string \<times> string) set"
    using that by (force simp: image_iff)
  with p that list_pages_complete [OF p(1), of "[]" "[]"] show thesis by (simp add: list_versions_def)
qed

lemma delete_batches_done:
  "versioned_bucket c vers marks \<Longrightarrow> delete_batches c ids b = (None, b') \<Longrightarrow> vers b' = vers b - set ids \<and> marks b' = marks b - set ids"
proof (induction c ids b rule: delete_batches.induct)
  case (1 c ids b)
  show ?case
  proof (cases "ids = []")
    case True
    with 1(3) show ?thesis by (simp add: delete_batches.simps)
  next
    case False
    obtain r b1 where d: "s3_delete_objects c (take DELETE_BATCH ids) b = (r, b1)" by (rule prod.exhaust)
    have r: "r = Inr []" and n: "delete_batches c (drop DELETE_BATCH ids) b1 = (None, b')"
      using 1(3) False d by (simp_all add: delete_batches.simps [of c ids b] split: sum.splits if_splits)
    have "vers b1 = vers b - set (take DELETE_BATCH ids)" "marks b1 = marks b - set (take DELETE_BATCH ids)"
      using 1(2) d r unfolding versioned_bucket_def by blast+
    moreover have "vers b' = vers b1 - set (drop DELETE_BATCH ids) \<and> marks b' = marks b1 - set (drop DELETE_BATCH ids)"
      using 1(1) [OF False d [symmetric] r _ 1(2) n] by simp
    moreover have "set ids = set (take DELETE_BATCH ids) \<union> set (drop DELETE_BATCH ids)" by (metis append_take_drop_id set_append)
    ultimately show ?thesis by auto
  qed
qed

lemma delete_all_versions_exact:
  assumes "versioned_bucket c vers marks" and "tenant \<noteq> []"
  shows "\<exists>r b'. delete_all_versions hmac c tenant m v None b = Some (r, b') \<and>
    (\<not> isl r \<longrightarrow> (\<forall>e. fst e \<noteq> derive_object_key hmac tenant m v \<longrightarrow> (e \<in> vers b') = (e \<in> vers b) \<and> (e \<in> marks b') = (e \<in> marks b)) \<and>
       (\<forall>e. fst e = derive_object_key hmac tenant m v \<longrightarrow> e \<notin> vers b' \<and> e \<notin> marks b') \<and>
       inventory hmac c tenant m v None b' = Some (Inr ([], [])))"
proof -
  let ?k = "derive_object_key hmac tenant m v"
  obtain vs ms where l: "list_versions c ?k b = Some (Inr (vs, ms))" "Pair ?k ` set vs = {e \<in> vers b. fst e = ?k}" "Pair ?k ` set ms = {e \<in> marks b. fst e = ?k}"
    using assms(1) by (rule list_versions_exact)
  have inv: "inventory hmac c tenant m v None x = list_versions c ?k x" for x
    using assms(2) by (simp add: inventory_def resolve_key_def Let_def)
  have del: "delete_all_versions hmac c tenant m v None b = delete_rounds c ?k 0 0 b"
    using assms(2) by (simp add: delete_all_versions_def resolve_key_def Let_def)
  show ?thesis
  proof (cases "vs = [] \<and> ms = []")
    case True
    then have "delete_rounds c ?k 0 0 b = Some (Inr (0, 0), b)" using l by (subst delete_rounds.simps) simp
    with True l show ?thesis unfolding del inv by auto
  next
    case False
    obtain e b1 where d: "delete_batches c (map (Pair ?k) (vs @ ms)) b = (e, b1)" by (rule prod.exhaust)
    show ?thesis
    proof (cases e)
      case (Some x)
      then have "delete_rounds c ?k 0 0 b = Some (Inl x, b1)" using l False d by (subst delete_rounds.simps) auto
      then show ?thesis unfolding del by auto
    next
      case None
      have b1: "vers b1 = vers b - set (map (Pair ?k) (vs @ ms))" "marks b1 = marks b - set (map (Pair ?k) (vs @ ms))"
        using delete_batches_done [OF assms(1) d [unfolded None]] by simp_all
      have ids: "set (map (Pair ?k) (vs @ ms)) = {e \<in> vers b. fst e = ?k} \<union> {e \<in> marks b. fst e = ?k}" using l(2,3) by (simp add: image_Un)
      obtain vs1 ms1 where l1: "list_versions c ?k b1 = Some (Inr (vs1, ms1))" "Pair ?k ` set vs1 = {e \<in> vers b1. fst e = ?k}" "Pair ?k ` set ms1 = {e \<in> marks b1. fst e = ?k}"
        using assms(1) by (rule list_versions_exact)
      have "{e \<in> vers b1. fst e = ?k} = {}" "{e \<in> marks b1. fst e = ?k} = {}" unfolding b1 ids by auto
      then have "vs1 = [] \<and> ms1 = []" using l1(2,3) by (metis image_is_empty set_empty)
      then have "delete_rounds c ?k 0 0 b = Some (Inr (length vs, length ms), b1)"
        using l False d None l1(1) by (subst delete_rounds.simps) (auto simp: delete_rounds.simps [of c ?k "length vs" "length ms" b1])
      moreover have "(x \<in> vers b1) = (x \<in> vers b) \<and> (x \<in> marks b1) = (x \<in> marks b)" if "fst x \<noteq> ?k" for x using that unfolding b1 ids by auto
      moreover have "x \<notin> vers b1 \<and> x \<notin> marks b1" if "fst x = ?k" for x using that unfolding b1 ids by auto
      ultimately show ?thesis unfolding del inv using l1(1) \<open>vs1 = [] \<and> ms1 = []\<close> by auto
    qed
  qed
qed


section \<open>A bucket in memory\<close>

text \<open>Versions and delete markers as two lists; a listing has one page.\<close>

type_synonym memory_bucket = "(string \<times> string) list \<times> (string \<times> string) list"

definition memory_s3 :: "memory_bucket s3_client" where
  "memory_s3 = \<lparr>s3_head_object = (\<lambda>_ _. Inl \<lparr>sf_code = ''404'', sf_class = ''ClientError''\<rparr>), s3_get_object = (\<lambda>_ _ _ _. Inl \<lparr>sf_code = ''NoSuchKey'', sf_class = ''ClientError''\<rparr>),
     s3_list_versions = (\<lambda>p _ _ b. Inr \<lparr>pg_versions = filter (\<lambda>e. starts_with (fst e) p) (fst b), pg_markers = filter (\<lambda>e. starts_with (fst e) p) (snd b),
       pg_truncated = False, pg_next_key = [], pg_next_version = []\<rparr>),
     s3_delete_objects = (\<lambda>ids b. (Inr [], (filter (\<lambda>e. e \<notin> set ids) (fst b), filter (\<lambda>e. e \<notin> set ids) (snd b)))),
     s3_put_object = (\<lambda>k _ _ b. (Inr (Some ''v''), (fst b @ [(k, ''v'')], snd b))), s3_presign = (\<lambda>k _. Inr k), s3_versioning = (\<lambda>_. Inr (Some ''Enabled''))\<rparr>"

lemma memory_s3_versioned: "versioned_bucket memory_s3 (\<lambda>b. set (fst b)) (\<lambda>b. set (snd b))"
proof -
  have "pages memory_s3 p b [] [] (filter (\<lambda>e. starts_with (fst e) p) (fst b)) (filter (\<lambda>e. starts_with (fst e) p) (snd b))" for p b
    using last_page [of memory_s3 p "[]" "[]" b] by (simp add: memory_s3_def)
  moreover have "set (filter (\<lambda>e. starts_with (fst e) p) xs) = {e \<in> set xs. starts_with (fst e) p}" for p and xs :: "(string \<times> string) list" by simp
  ultimately show ?thesis unfolding versioned_bucket_def by (intro conjI) (blast, auto simp: memory_s3_def)
qed

section \<open>Properties\<close>


text \<open>A digest of 64 characters for the witness: the message padded, and cut, to that length.\<close>

definition padded :: "string \<Rightarrow> string" where
  "padded x = take 64 (x @ replicate 64 CHR ''0'')"


text \<open>C28. A physical deletion returns, and success means empty: on a versioned bucket the listing and the rounds end; when the deletion does not raise, no version and no
  delete marker of the key is left and everything under other keys is untouched, also keys the derived one is a prefix of.\<close>

theorem deletion_ends_and_empties:
  assumes "versioned_bucket c vers marks" and "tenant \<noteq> []"
  shows "\<exists>r b'. delete_all_versions hmac c tenant m v None b = Some (r, b') \<and>
    (\<not> isl r \<longrightarrow> (\<forall>e. fst e \<noteq> derive_object_key hmac tenant m v \<longrightarrow> (e \<in> vers b') = (e \<in> vers b) \<and> (e \<in> marks b') = (e \<in> marks b)) \<and>
       (\<forall>e. fst e = derive_object_key hmac tenant m v \<longrightarrow> e \<notin> vers b' \<and> e \<notin> marks b') \<and>
       inventory hmac c tenant m v None b' = Some (Inr ([], [])))"
  using assms by (rule delete_all_versions_exact)

definition sample_bucket :: memory_bucket where
  "sample_bucket = ([(derive_object_key (\<lambda>_. padded) ''t1'' ''m'' ''v'', ''1''), (''other'', ''2'')], [])"

theorem deletion_ends_and_empties_witness:
  "\<exists>r b'. delete_all_versions (\<lambda>_. padded) memory_s3 ''t1'' ''m'' ''v'' None sample_bucket = Some (r, b') \<and>
     (\<not> isl r \<longrightarrow> inventory (\<lambda>_. padded) memory_s3 ''t1'' ''m'' ''v'' None b' = Some (Inr ([], [])))"
proof -
  have "''t1'' \<noteq> []" by simp
  note t = deletion_ends_and_empties [OF memory_s3_versioned this, of "\<lambda>_. padded" "''m''" "''v''" sample_bucket]
  then show ?thesis by (elim exE conjE) (intro exI conjI, assumption, iprover)
qed

end
