(* ===== verification/Material_Saga.thy ===== *)
theory Material_Saga
  imports Outbox Vector_Index Object_Store
begin

text \<open>
  The cross-store material saga (\<open>storage/saga.py\<close>): one material moves through PostgreSQL rows, object-store bytes and vectors, one durable
  step at a time. The world holds the rows, the vector index and the bucket. A step that uses several transactions takes a \<open>gap\<close>:
  what the world has become by its last transaction, as that transaction reads it and as it writes to it.
  The chunker, the hash, the HMAC and the clients are parameters.
\<close>

section \<open>Rows\<close>

datatype material_status = Pending_upload | Scanning | Indexing | Available | Deleting_material | Deleted_material | Error_material

datatype version_status = V_staging | V_scanning | V_indexing | V_available | V_quarantined | V_superseded

definition material_status_name :: "material_status \<Rightarrow> string" where
  "material_status_name s = (case s of
     Pending_upload \<Rightarrow> ''pending_upload''
   | Scanning \<Rightarrow> ''scanning''
   | Indexing \<Rightarrow> ''indexing''
   | Available \<Rightarrow> ''available''
   | Deleting_material \<Rightarrow> ''deleting''
   | Deleted_material \<Rightarrow> ''deleted''
   | Error_material \<Rightarrow> ''error'')"

definition MATERIAL_SAGA_TRANSITIONS :: "material_status \<Rightarrow> material_status list" where
  "MATERIAL_SAGA_TRANSITIONS s = (case s of
     Pending_upload \<Rightarrow> [Scanning, Deleting_material, Error_material]
   | Scanning \<Rightarrow> [Indexing, Deleting_material, Error_material]
   | Indexing \<Rightarrow> [Available, Deleting_material, Error_material]
   | Available \<Rightarrow> [Indexing, Deleting_material, Error_material]
   | Deleting_material \<Rightarrow> [Deleted_material, Error_material]
   | Deleted_material \<Rightarrow> []
   | Error_material \<Rightarrow> [Pending_upload, Scanning, Indexing, Available, Deleting_material])"

definition TERMINAL_STATUSES :: "material_status list" where
  "TERMINAL_STATUSES = [Available, Deleted_material]"

record material =
  mt_id :: ident
  mt_tenant_id :: string
  mt_knowledge_base_id :: "string option"
  mt_name :: string
  mt_source_type :: string
  mt_status :: material_status
  mt_active_version_id :: "ident option"
  mt_read_only :: bool
  mt_attempts :: int
  mt_max_attempts :: int
  mt_next_attempt_at :: "instant option"
  mt_last_error_code :: "string option"
  mt_updated_at :: instant
  mt_version :: int

record material_version =
  mv_id :: ident
  mv_tenant_id :: string
  mv_material_id :: ident
  mv_version_number :: int
  mv_source_version_id :: "ident option"
  mv_object_version_id :: "ident option"
  mv_sha256 :: string
  mv_size_bytes :: int
  mv_media_type :: string
  mv_status :: version_status
  mv_created_by :: string
  mv_updated_at :: instant
  mv_version :: int

record object_version =
  ov_id :: ident
  ov_tenant_id :: string
  ov_material_id :: ident
  ov_material_version_id :: "ident option"
  ov_bucket_alias :: string
  ov_object_key :: string
  ov_provider_version_id :: string
  ov_sha256 :: string
  ov_size_bytes :: int
  ov_media_type :: string
  ov_encryption_algorithm :: string
  ov_scan_status :: string
  ov_deletion_state :: string
  ov_updated_at :: instant
  ov_version :: int

record embedding_version =
  ev_id :: ident
  ev_tenant_id :: string
  ev_knowledge_base_id :: string
  ev_status :: string

record saga_db =
  sd_materials :: "material list"
  sd_versions :: "material_version list"
  sd_objects :: "object_version list"
  sd_embeddings :: "embedding_version list"
  sd_outbox :: "outbox_event list"

definition set_mt_version :: "int \<Rightarrow> material \<Rightarrow> material" where "set_mt_version v m = m\<lparr>mt_version := v\<rparr>"
definition set_mv_version :: "int \<Rightarrow> material_version \<Rightarrow> material_version" where "set_mv_version v m = m\<lparr>mv_version := v\<rparr>"
definition set_ov_version :: "int \<Rightarrow> object_version \<Rightarrow> object_version" where "set_ov_version v m = m\<lparr>ov_version := v\<rparr>"

interpretation material_table: versioned_table mt_id mt_version set_mt_version by unfold_locales (simp_all add: set_mt_version_def)
interpretation material_version_table: versioned_table mv_id mv_version set_mv_version by unfold_locales (simp_all add: set_mv_version_def)
interpretation object_version_table: versioned_table ov_id ov_version set_ov_version by unfold_locales (simp_all add: set_ov_version_def)

section \<open>Errors, reads and guarded writes\<close>

text \<open>\<open>Step_failed\<close> is what \<open>advance_once\<close> parks; everything else leaves it as an exception. \<open>Not_returned\<close>: a call to the store did not return.\<close>

datatype saga_error =
    Saga_state string
  | Step_failed string
  | Saga_index index_error
  | Saga_store store_error
  | Saga_integrity
  | Not_returned

definition load_material :: "saga_db \<Rightarrow> ident \<Rightarrow> string \<Rightarrow> saga_error + material" where
  "load_material db mid tenant = (case get_row mt_id (sd_materials db) mid of
     None \<Rightarrow> Inl (Saga_state ''no material'')
   | Some m \<Rightarrow> if mt_tenant_id m \<noteq> tenant then Inl (Saga_state ''no material'') else Inr m)"

definition material_versions :: "saga_db \<Rightarrow> ident \<Rightarrow> material_version list" where
  "material_versions db mid = sort_key mv_version_number (filter (\<lambda>v. mv_material_id v = mid) (sd_versions db))"

definition material_manifests :: "vworld \<Rightarrow> ident \<Rightarrow> vector_manifest list" where
  "material_manifests ix mid = filter (\<lambda>m. vm_material_id m = Some mid) (vw_manifests ix)"

text \<open>\<open>max(..., key=version_number)\<close>: the first of the largest.\<close>

definition newest :: "material_version list \<Rightarrow> material_version option" where
  "newest vs = (case vs of [] \<Rightarrow> None | v # vs \<Rightarrow> Some (foldl (\<lambda>b x. if mv_version_number b < mv_version_number x then x else b) v vs))"

definition pending_version :: "saga_db \<Rightarrow> material \<Rightarrow> saga_error + material_version" where
  "pending_version db m = (case newest (material_versions db (mt_id m)) of None \<Rightarrow> Inl (Saga_state ''no versions'') | Some v \<Rightarrow> Inr v)"

definition next_version_number :: "int list \<Rightarrow> int" where
  "next_version_number ns = (if ns = [] then 1 else Max (set ns) + 1)"

definition cas_material :: "saga_db \<Rightarrow> material \<Rightarrow> instant \<Rightarrow> (material \<Rightarrow> material) \<Rightarrow> saga_error + saga_db" where
  "cas_material cur m now upd =
     (case cas_row mt_id mt_version set_mt_version (sd_materials cur) (mt_id m) (mt_version m) (\<lambda>r. (upd r)\<lparr>mt_updated_at := now\<rparr>) of
        None \<Rightarrow> Inl (Saga_state ''concurrent modification'')
      | Some t \<Rightarrow> Inr (cur\<lparr>sd_materials := t\<rparr>))"

text \<open>Values with a status and without attempts clear the retry state.\<close>

definition move_to :: "material_status \<Rightarrow> material \<Rightarrow> material" where
  "move_to s m = m\<lparr>mt_status := s, mt_attempts := 0, mt_next_attempt_at := None, mt_last_error_code := None\<rparr>"

definition cas_version :: "saga_db \<Rightarrow> material_version \<Rightarrow> instant \<Rightarrow> (material_version \<Rightarrow> material_version) \<Rightarrow> saga_error + saga_db" where
  "cas_version cur v now upd =
     (case cas_row mv_id mv_version set_mv_version (sd_versions cur) (mv_id v) (mv_version v) (\<lambda>r. (upd r)\<lparr>mv_updated_at := now\<rparr>) of
        None \<Rightarrow> Inl (Saga_state ''concurrent modification'')
      | Some t \<Rightarrow> Inr (cur\<lparr>sd_versions := t\<rparr>))"

definition cas_object :: "saga_db \<Rightarrow> object_version \<Rightarrow> instant \<Rightarrow> (object_version \<Rightarrow> object_version) \<Rightarrow> saga_error + saga_db" where
  "cas_object cur ob now upd =
     (case cas_row ov_id ov_version set_ov_version (sd_objects cur) (ov_id ob) (ov_version ob) (\<lambda>r. (upd r)\<lparr>ov_updated_at := now\<rparr>) of
        None \<Rightarrow> Inl (Saga_state ''concurrent modification'')
      | Some t \<Rightarrow> Inr (cur\<lparr>sd_objects := t\<rparr>))"

definition MATERIAL_AGGREGATE :: string where "MATERIAL_AGGREGATE = ''material''"

text \<open>\<open>_emit\<close> numbers the event one past the version the row object has at that moment.\<close>

definition emit_material :: "saga_db \<Rightarrow> instant \<Rightarrow> ident \<Rightarrow> material \<Rightarrow> int \<Rightarrow> string \<Rightarrow> (string \<times> json) list \<Rightarrow> saga_error + saga_db" where
  "emit_material cur now eid m row_version event_type payload =
     (case outbox_insert (sd_outbox cur)
        \<lparr>ob_id = eid, ob_tenant_id = mt_tenant_id m, ob_aggregate_type = MATERIAL_AGGREGATE, ob_aggregate_id = mt_id m,
         ob_aggregate_version = row_version + 1, ob_event_type = event_type,
         ob_payload = JObj ([(''material_id'', JStr (mt_id m)), (''tenant_id'', JStr (mt_tenant_id m))] @ payload), ob_delivery_state = Pending,
         ob_attempts = 0, ob_max_attempts = 8, ob_available_at = now, ob_delivered_at = None, ob_last_error_code = None,
         ob_created_at = now, ob_updated_at = now, ob_version = 1\<rparr> of
        None \<Rightarrow> Inl Saga_integrity
      | Some t \<Rightarrow> Inr (cur\<lparr>sd_outbox := t\<rparr>))"

definition assert_material_transition :: "material_status \<Rightarrow> material_status \<Rightarrow> saga_error option" where
  "assert_material_transition a b = (if b \<in> set (MATERIAL_SAGA_TRANSITIONS a) then None else Some (Saga_state ''illegal transition''))"

definition object_metadata_error :: "material_version \<Rightarrow> object_version \<Rightarrow> string option" where
  "object_metadata_error v ob =
     (if mv_tenant_id v \<noteq> ov_tenant_id ob then Some ''tenant_id''
      else if mv_material_id v \<noteq> ov_material_id ob then Some ''material_id''
      else if mv_sha256 v \<noteq> ov_sha256 ob then Some ''sha256''
      else if mv_size_bytes v \<noteq> ov_size_bytes ob then Some ''size_bytes''
      else if mv_media_type v \<noteq> ov_media_type ob then Some ''media_type''
      else None)"

section \<open>The world of a step\<close>

record 'b saga_world =
  sw_db :: saga_db
  sw_index :: vworld
  sw_bucket :: 'b

record step_outcome =
  so_from_status :: material_status
  so_to_status :: material_status
  so_event_type :: "string option"
  so_changed :: bool

type_synonym 'b step_result = "'b saga_world \<times> (saga_error + step_outcome)"
type_synonym 'b gap = "'b saga_world \<Rightarrow> 'b saga_world \<times> 'b saga_world"

text \<open>Nothing happens in between.\<close>

definition undisturbed :: "'b gap" where
  "undisturbed w = (w, w)"

record 'b saga =
  sg_sha256 :: "string \<Rightarrow> string"
  sg_hmac :: "string \<Rightarrow> string \<Rightarrow> string"
  sg_s3 :: "'b s3_client"
  sg_vectors :: vclient
  sg_chunker :: "string \<Rightarrow> chunk_payload list"
  sg_retry_backoff :: duration

definition stay :: "material_status \<Rightarrow> step_outcome" where
  "stay s = \<lparr>so_from_status = s, so_to_status = s, so_event_type = None, so_changed = False\<rparr>"

definition moved :: "material_status \<Rightarrow> material_status \<Rightarrow> string \<Rightarrow> step_outcome" where
  "moved a b e = \<lparr>so_from_status = a, so_to_status = b, so_event_type = Some e, so_changed = True\<rparr>"

text \<open>A transaction: its commit is the new database, its exception leaves the old one.\<close>

definition in_session :: "'b saga_world \<Rightarrow> saga_error + saga_db \<times> step_outcome \<Rightarrow> 'b step_result" where
  "in_session w r = (case r of Inl e \<Rightarrow> (w, Inl e) | Inr (db, out) \<Rightarrow> (w\<lparr>sw_db := db\<rparr>, Inr out))"

section \<open>Starting an upload\<close>

definition insert_version :: "saga_db \<Rightarrow> material_version \<Rightarrow> saga_error + saga_db" where
  "insert_version cur v =
     (if mv_id v \<in> mv_id ` set (sd_versions cur) \<or>
         (\<exists>x\<in>set (sd_versions cur). mv_tenant_id x = mv_tenant_id v \<and> mv_material_id x = mv_material_id v \<and> mv_version_number x = mv_version_number v) \<or>
         \<not> (mv_version_number v = 1 \<and> mv_source_version_id v = None \<or> 1 < mv_version_number v \<and> mv_source_version_id v \<noteq> None)
      then Inl Saga_integrity else Inr (cur\<lparr>sd_versions := sd_versions cur @ [v]\<rparr>))"

definition new_version :: "instant \<Rightarrow> ident \<Rightarrow> string \<Rightarrow> ident \<Rightarrow> int \<Rightarrow> ident option \<Rightarrow> string \<Rightarrow> int \<Rightarrow> string \<Rightarrow> string \<Rightarrow> material_version" where
  "new_version now vid tenant mid number parent sha256 nbytes media created_by =
     \<lparr>mv_id = vid, mv_tenant_id = tenant, mv_material_id = mid, mv_version_number = number, mv_source_version_id = parent,
      mv_object_version_id = None, mv_sha256 = py_lower sha256, mv_size_bytes = nbytes, mv_media_type = media, mv_status = V_staging,
      mv_created_by = created_by, mv_updated_at = now, mv_version = 1\<rparr>"

text \<open>The material of the upload with the version its row object then has, the number and the parent of the new version.\<close>

definition upload_target :: "saga_db \<Rightarrow> saga_db \<Rightarrow> instant \<Rightarrow> ident \<Rightarrow> string \<Rightarrow> string \<Rightarrow> string \<Rightarrow> string \<Rightarrow> bool \<Rightarrow> ident option
    \<Rightarrow> saga_error + saga_db \<times> material \<times> int \<times> int \<times> ident option" where
  "upload_target snap cur now new_mid tenant kb name source_type read_only material_id = (case material_id of
     None \<Rightarrow>
       (let m = \<lparr>mt_id = new_mid, mt_tenant_id = tenant, mt_knowledge_base_id = Some kb, mt_name = name, mt_source_type = source_type,
            mt_status = Pending_upload, mt_active_version_id = None, mt_read_only = read_only, mt_attempts = 0, mt_max_attempts = 5,
            mt_next_attempt_at = None, mt_last_error_code = None, mt_updated_at = now, mt_version = 1\<rparr>
        in if new_mid \<in> mt_id ` set (sd_materials cur) then Inl Saga_integrity
           else Inr (cur\<lparr>sd_materials := sd_materials cur @ [m]\<rparr>, m, 1, 1, None))
   | Some mid \<Rightarrow>
       res_bind (load_material snap mid tenant) (\<lambda>m.
         let existing = material_versions snap (mt_id m) in
         case newest existing of
           None \<Rightarrow> Inl (Saga_state ''no version to descend from'')
         | Some parent \<Rightarrow>
             res_bind (cas_material cur m now (move_to Pending_upload)) (\<lambda>db.
               Inr (db, m, mt_version m + 1, next_version_number (map mv_version_number existing), Some (mv_id parent)))))"

definition begin_upload :: "'b saga \<Rightarrow> saga_db \<Rightarrow> 'b saga_world \<Rightarrow> instant \<Rightarrow> ident \<Rightarrow> ident \<Rightarrow> ident \<Rightarrow> string \<Rightarrow> string \<Rightarrow> string \<Rightarrow> string \<Rightarrow> string \<Rightarrow> int \<Rightarrow> string \<Rightarrow> string
    \<Rightarrow> ident option \<Rightarrow> bool \<Rightarrow> 'b saga_world \<times> (saga_error + ident \<times> ident \<times> int \<times> upload_grant)" where
  "begin_upload sg snap w now new_mid vid eid tenant kb name source_type media nbytes sha256 created_by material_id read_only =
     (case res_bind (upload_target snap (sw_db w) now new_mid tenant kb name source_type read_only material_id) (\<lambda>(db, m, row_version, number, parent).
             res_bind (insert_version db (new_version now vid tenant (mt_id m) number parent sha256 nbytes media created_by)) (\<lambda>db.
             res_bind (emit_material db now eid m row_version ''material.upload_requested''
                [(''material_version_id'', JStr vid), (''version_number'', JInt number)]) (\<lambda>db. Inr (db, mt_id m, number)))) of
        Inl e \<Rightarrow> (w, Inl e)
      | Inr (db, mid, number) \<Rightarrow>
          (let w = w\<lparr>sw_db := db\<rparr> in
           case create_upload (sg_hmac sg) (sg_s3 sg) tenant mid vid media nbytes of
             Inl e \<Rightarrow> (w, Inl (Saga_store e))
           | Inr grant \<Rightarrow> (w, Inr (mid, vid, number, grant))))"

section \<open>Steps\<close>

definition transition_session :: "saga_db \<Rightarrow> saga_db \<Rightarrow> instant \<Rightarrow> ident \<Rightarrow> string \<Rightarrow> ident \<Rightarrow> material_status \<Rightarrow> version_status \<Rightarrow> string \<Rightarrow> (string \<times> json) list
    \<Rightarrow> saga_error + saga_db \<times> step_outcome" where
  "transition_session snap cur now eid tenant mid to_status version_status event_type payload =
     res_bind (load_material snap mid tenant) (\<lambda>m.
       if to_status = mt_status m then Inr (cur, \<lparr>so_from_status = mt_status m, so_to_status = to_status, so_event_type = None, so_changed = False\<rparr>)
       else case assert_material_transition (mt_status m) to_status of
           Some e \<Rightarrow> Inl e
         | None \<Rightarrow>
             res_bind (pending_version snap m) (\<lambda>v.
             res_bind (cas_version cur v now (mv_status_update (\<lambda>_. version_status))) (\<lambda>db.
             res_bind (cas_material db m now (move_to to_status)) (\<lambda>db.
             res_bind (emit_material db now eid m (mt_version m + 1) event_type payload) (\<lambda>db.
               Inr (db, moved (mt_status m) to_status event_type))))))"

text \<open>The transaction that records verified bytes.\<close>

definition record_upload :: "saga_db \<Rightarrow> saga_db \<Rightarrow> instant \<Rightarrow> ident \<Rightarrow> ident \<Rightarrow> string \<Rightarrow> ident \<Rightarrow> stored_object \<Rightarrow> saga_error + saga_db \<times> step_outcome" where
  "record_upload snap cur now oid eid tenant mid stored =
     res_bind (load_material snap mid tenant) (\<lambda>m.
     res_bind (pending_version snap m) (\<lambda>v.
       let ob = \<lparr>ov_id = oid, ov_tenant_id = tenant, ov_material_id = mid, ov_material_version_id = Some (mv_id v),
            ov_bucket_alias = so_bucket_alias stored, ov_object_key = so_object_key stored, ov_provider_version_id = so_provider_version_id stored,
            ov_sha256 = so_sha256 stored, ov_size_bytes = so_size_bytes stored, ov_media_type = so_media_type stored,
            ov_encryption_algorithm = so_encryption_algorithm stored, ov_scan_status = ''pending'', ov_deletion_state = ''retained'',
            ov_updated_at = now, ov_version = 1\<rparr>
       in if oid \<in> ov_id ` set (sd_objects cur) \<or> (\<exists>x\<in>set (sd_objects cur). ov_tenant_id x = tenant \<and> ov_bucket_alias x = so_bucket_alias stored \<and>
              ov_object_key x = so_object_key stored \<and> ov_provider_version_id x = so_provider_version_id stored) then Inl Saga_integrity
          else if object_metadata_error v ob \<noteq> None then Inl (Step_failed ''OBJECT_METADATA_MISMATCH'')
          else
            res_bind (cas_version (cur\<lparr>sd_objects := sd_objects cur @ [ob]\<rparr>) v now (\<lambda>r. r\<lparr>mv_object_version_id := Some oid, mv_status := V_scanning\<rparr>)) (\<lambda>db.
            res_bind (cas_material db m now (move_to Scanning)) (\<lambda>db.
            res_bind (emit_material db now eid m (mt_version m + 1) ''material.upload_verified''
               [(''material_version_id'', JStr (mv_id v)), (''object_version_id'', JStr oid)]) (\<lambda>db.
              Inr (db, moved Pending_upload Scanning ''material.upload_verified''))))))"

definition step_verify_upload :: "'b saga \<Rightarrow> 'b gap \<Rightarrow> 'b saga_world \<Rightarrow> instant \<Rightarrow> ident \<Rightarrow> ident \<Rightarrow> string \<Rightarrow> ident \<Rightarrow> 'b step_result" where
  "step_verify_upload sg gap w now oid eid tenant mid =
     (case res_bind (load_material (sw_db w) mid tenant) (pending_version (sw_db w)) of
        Inl e \<Rightarrow> (w, Inl e)
      | Inr v \<Rightarrow>
          if mv_object_version_id v \<noteq> None then
            (case gap w of (r, c) \<Rightarrow> in_session c (transition_session (sw_db r) (sw_db c) now eid tenant mid Scanning V_scanning ''material.upload_verified''
               [(''material_version_id'', JStr (mv_id v))]))
          else (case create_upload (sg_hmac sg) (sg_s3 sg) tenant mid (mv_id v) (mv_media_type v) (max (mv_size_bytes v) 1) of
              Inl e \<Rightarrow> (w, Inl (Saga_store e))
            | Inr grant \<Rightarrow>
                (case verify_upload (sg_sha256 sg) (sg_s3 sg) grant (mv_sha256 v) (mv_size_bytes v) (mv_media_type v) (sw_bucket w) of
                   Inl (Upload_verification _) \<Rightarrow> (w, Inl (Step_failed ''UPLOAD_NOT_VERIFIED''))
                 | Inl Store_value_error \<Rightarrow> (w, Inl (Saga_store Store_value_error))
                 | Inl _ \<Rightarrow> (w, Inl (Step_failed ''OBJECT_STORE_UNAVAILABLE''))
                 | Inr stored \<Rightarrow> (case gap w of (r, c) \<Rightarrow> in_session c (record_upload (sw_db r) (sw_db c) now oid eid tenant mid stored)))))"

definition scan_session :: "saga_db \<Rightarrow> saga_db \<Rightarrow> instant \<Rightarrow> ident \<Rightarrow> string \<Rightarrow> ident \<Rightarrow> saga_error + saga_db \<times> step_outcome" where
  "scan_session snap cur now eid tenant mid =
     res_bind (load_material snap mid tenant) (\<lambda>m.
     res_bind (pending_version snap m) (\<lambda>v.
       case mv_object_version_id v of
         None \<Rightarrow> Inl (Step_failed ''OBJECT_VERSION_MISSING'')
       | Some oid \<Rightarrow> (case get_row ov_id (sd_objects snap) oid of
           None \<Rightarrow> Inl (Step_failed ''OBJECT_VERSION_MISSING'')
         | Some ob \<Rightarrow>
             if ov_scan_status ob = ''infected'' then
               res_bind (cas_version cur v now (mv_status_update (\<lambda>_. V_quarantined))) (\<lambda>db.
               res_bind (cas_material db m now (move_to Error_material)) (\<lambda>db.
               res_bind (emit_material db now eid m (mt_version m + 1) ''material.quarantined'' [(''material_version_id'', JStr (mv_id v))]) (\<lambda>db.
                 Inr (db, moved Scanning Error_material ''material.quarantined''))))
             else
               res_bind (if ov_scan_status ob \<in> {''pending'', ''scanning''} then cas_object cur ob now (ov_scan_status_update (\<lambda>_. ''clean'')) else Inr cur) (\<lambda>db.
               res_bind (cas_version db v now (mv_status_update (\<lambda>_. V_indexing))) (\<lambda>db.
               res_bind (cas_material db m now (move_to Indexing)) (\<lambda>db.
               res_bind (emit_material db now eid m (mt_version m + 1) ''material.scan_passed'' [(''material_version_id'', JStr (mv_id v))]) (\<lambda>db.
                 Inr (db, moved Scanning Indexing ''material.scan_passed''))))))))"

definition step_scan :: "'b gap \<Rightarrow> 'b saga_world \<Rightarrow> instant \<Rightarrow> ident \<Rightarrow> string \<Rightarrow> ident \<Rightarrow> 'b step_result" where
  "step_scan gap w now eid tenant mid = (case gap w of (r, c) \<Rightarrow> in_session c (scan_session (sw_db r) (sw_db c) now eid tenant mid))"

definition active_embedding_version :: "saga_db \<Rightarrow> string \<Rightarrow> string \<Rightarrow> saga_error + ident" where
  "active_embedding_version db tenant kb =
     (case find (\<lambda>e. ev_tenant_id e = tenant \<and> ev_knowledge_base_id e = kb \<and> ev_status e = ''active'') (sd_embeddings db) of
        None \<Rightarrow> Inl (Step_failed ''NO_ACTIVE_EMBEDDING_VERSION'')
      | Some e \<Rightarrow> Inr (ev_id e))"

definition load_chunks :: "'b saga \<Rightarrow> 'b saga_world \<Rightarrow> string \<Rightarrow> ident \<Rightarrow> ident \<Rightarrow> ident \<Rightarrow> saga_error + chunk_payload list" where
  "load_chunks sg w tenant mid vid oid = (case get_row ov_id (sd_objects (sw_db w)) oid of
     None \<Rightarrow> Inl (Step_failed ''OBJECT_VERSION_MISSING'')
   | Some ob \<Rightarrow> (case read_range (sg_hmac sg) (sg_s3 sg) tenant mid vid (ov_provider_version_id ob) 0 (max (ov_size_bytes ob) 1) (Some (ov_object_key ob)) (sw_bucket w) of
       Inl Store_value_error \<Rightarrow> Inl (Saga_store Store_value_error)
     | Inl _ \<Rightarrow> Inl (Step_failed ''OBJECT_STORE_UNAVAILABLE'')
     | Inr payload \<Rightarrow> Inr (sg_chunker sg payload)))"

text \<open>Stage, verify, compare the counts, activate.\<close>

definition index_pass :: "(string \<Rightarrow> string) \<Rightarrow> vclient \<Rightarrow> vworld \<Rightarrow> instant \<Rightarrow> ident \<Rightarrow> string \<Rightarrow> string \<Rightarrow> ident \<Rightarrow> ident \<Rightarrow> ident \<Rightarrow> chunk_payload list
    \<Rightarrow> vworld \<times> (saga_error + vector_manifest)" where
  "index_pass sha256 c ix now nid tenant kb mid vid emb chunks =
     (case stage_manifest sha256 c (vw_manifests ix) ix now nid tenant kb emb chunks (Some mid) (Some vid) None of
        (ix, Inl e) \<Rightarrow> (ix, Inl (Saga_index e))
      | (ix, Inr m) \<Rightarrow> (case verify_manifest c (vw_manifests ix) ix now (vm_id m) of
          (ix, Inl e) \<Rightarrow> (ix, Inl (Saga_index e))
        | (ix, Inr v) \<Rightarrow>
            if vm_indexed_count v \<noteq> vm_expected_count v then (ix, Inl (Step_failed ''INDEX_INCOMPLETE''))
            else (case activate_manifest c (vw_manifests ix) ix now (vm_id m) of
                (ix, Inl e) \<Rightarrow> (ix, Inl (Saga_index e))
              | (ix, Inr _) \<Rightarrow> (ix, Inr m))))"

text \<open>The transaction that makes the version the active one.\<close>

definition make_available :: "saga_db \<Rightarrow> saga_db \<Rightarrow> instant \<Rightarrow> ident \<Rightarrow> string \<Rightarrow> ident \<Rightarrow> ident option \<Rightarrow> vector_manifest
    \<Rightarrow> saga_error + (saga_db \<times> step_outcome) \<times> ident" where
  "make_available snap cur now eid tenant mid previous manifest =
     res_bind (load_material snap mid tenant) (\<lambda>m.
     res_bind (pending_version snap m) (\<lambda>v.
     res_bind (cas_version cur v now (mv_status_update (\<lambda>_. V_available))) (\<lambda>db.
     res_bind (case previous of
         None \<Rightarrow> Inr db
       | Some p \<Rightarrow> if p = mv_id v then Inr db else (case get_row mv_id (sd_versions snap) p of
             None \<Rightarrow> Inr db
           | Some pv \<Rightarrow> if mv_status pv = V_superseded then Inr db else cas_version db pv now (mv_status_update (\<lambda>_. V_superseded)))) (\<lambda>db.
     res_bind (cas_material db m now (\<lambda>r. (move_to Available r)\<lparr>mt_active_version_id := Some (mv_id v)\<rparr>)) (\<lambda>db.
     res_bind (emit_material db now eid m (mt_version m + 1) ''material.available''
        [(''material_version_id'', JStr (mv_id v)), (''vector_manifest_id'', JStr (vm_id manifest)),
         (''superseded_version_id'', (case previous of None \<Rightarrow> JNull | Some p \<Rightarrow> JStr p))]) (\<lambda>db.
       Inr ((db, moved Indexing Available ''material.available''), mv_id v)))))))"

fun delete_manifests :: "vclient \<Rightarrow> vworld \<Rightarrow> instant \<Rightarrow> vector_manifest list \<Rightarrow> vworld \<times> index_error option" where
  "delete_manifests c ix now [] = (ix, None)"
| "delete_manifests c ix now (m # ms) = (case delete_manifest c (vw_manifests ix) id ix now (vm_id m) of
     (ix, Inl e) \<Rightarrow> (ix, Some e)
   | (ix, Inr _) \<Rightarrow> delete_manifests c ix now ms)"

definition retire_manifests :: "vclient \<Rightarrow> vworld \<Rightarrow> instant \<Rightarrow> string \<Rightarrow> ident \<Rightarrow> vworld \<times> index_error option" where
  "retire_manifests c ix now tenant vid = delete_manifests c ix now
     (filter (\<lambda>m. vm_tenant_id m = tenant \<and> vm_material_version_id m = Some vid \<and> vm_deletion_state m \<noteq> Ds_deleted) (vw_manifests ix))"

definition step_index :: "'b saga \<Rightarrow> 'b gap \<Rightarrow> 'b saga_world \<Rightarrow> instant \<Rightarrow> ident \<Rightarrow> ident \<Rightarrow> string \<Rightarrow> ident \<Rightarrow> 'b step_result" where
  "step_index sg gap w now nid eid tenant mid =
     (case res_bind (load_material (sw_db w) mid tenant) (\<lambda>m. res_bind (pending_version (sw_db w) m) (\<lambda>v.
             case mt_knowledge_base_id m of
               None \<Rightarrow> Inl (Step_failed ''KNOWLEDGE_BASE_MISSING'')
             | Some kb \<Rightarrow> (case mv_object_version_id v of
                   None \<Rightarrow> Inl (Step_failed ''OBJECT_VERSION_MISSING'')
                 | Some oid \<Rightarrow> res_bind (active_embedding_version (sw_db w) tenant kb) (\<lambda>emb.
                     res_bind (load_chunks sg w tenant mid (mv_id v) oid) (\<lambda>chunks.
                       if chunks = [] then Inl (Step_failed ''NO_CHUNKS'') else Inr (m, v, kb, emb, chunks)))))) of
        Inl e \<Rightarrow> (w, Inl e)
      | Inr (m, v, kb, emb, chunks) \<Rightarrow>
          (case index_pass (sg_sha256 sg) (sg_vectors sg) (sw_index w) now nid tenant kb mid (mv_id v) emb chunks of
             (ix, Inl e) \<Rightarrow> (w\<lparr>sw_index := ix\<rparr>, Inl e)
           | (ix, Inr manifest) \<Rightarrow>
               (case gap (w\<lparr>sw_index := ix\<rparr>) of (r, c) \<Rightarrow>
                 (case make_available (sw_db r) (sw_db c) now eid tenant mid (mt_active_version_id m) manifest of
                    Inl e \<Rightarrow> (c, Inl e)
                  | Inr ((db, out), vid) \<Rightarrow>
                      (let c = c\<lparr>sw_db := db\<rparr> in
                       case mt_active_version_id m of
                         None \<Rightarrow> (c, Inr out)
                       | Some p \<Rightarrow> if p = vid then (c, Inr out)
                           else (case retire_manifests (sg_vectors sg) (sw_index c) now tenant p of
                               (ix, Some e) \<Rightarrow> (c\<lparr>sw_index := ix\<rparr>, Inl (Saga_index e))
                             | (ix, None) \<Rightarrow> (c\<lparr>sw_index := ix\<rparr>, Inr out)))))))"

section \<open>Deletion\<close>

fun delete_objects :: "'b saga \<Rightarrow> string \<Rightarrow> ident \<Rightarrow> material_version list \<Rightarrow> 'b \<Rightarrow> 'b \<times> saga_error option" where
  "delete_objects sg tenant mid [] b = (b, None)"
| "delete_objects sg tenant mid (v # vs) b =
     (case delete_all_versions (sg_hmac sg) (sg_s3 sg) tenant mid (mv_id v) None b of
        None \<Rightarrow> (b, Some Not_returned)
      | Some (Inl Store_value_error, b) \<Rightarrow> (b, Some (Saga_store Store_value_error))
      | Some (Inl _, b) \<Rightarrow> (b, Some (Step_failed ''OBJECT_DELETE_FAILED''))
      | Some (Inr _, b) \<Rightarrow> (case inventory (sg_hmac sg) (sg_s3 sg) tenant mid (mv_id v) None b of
            None \<Rightarrow> (b, Some Not_returned)
          | Some (Inl e) \<Rightarrow> (b, Some (Saga_store e))
          | Some (Inr (versions, markers)) \<Rightarrow>
              if versions \<noteq> [] \<or> markers \<noteq> [] then (b, Some (Step_failed ''OBJECT_NOT_EMPTY'')) else delete_objects sg tenant mid vs b))"

definition tombstone :: "saga_db \<Rightarrow> saga_db \<Rightarrow> instant \<Rightarrow> ident \<Rightarrow> string \<Rightarrow> ident \<Rightarrow> nat \<Rightarrow> nat \<Rightarrow> saga_error + saga_db" where
  "tombstone snap cur now eid tenant mid n k =
     res_bind (load_material snap mid tenant) (\<lambda>m.
     res_bind (emit_material cur now eid m (mt_version m) ''material.deleted'' [(''versions'', JInt (int n)), (''manifests'', JInt (int k))]) (\<lambda>db.
       cas_material db m now (\<lambda>r. (move_to Deleted_material r)\<lparr>mt_active_version_id := None\<rparr>)))"

definition purge_sql :: "'b saga_world \<Rightarrow> string \<Rightarrow> ident \<Rightarrow> 'b saga_world" where
  "purge_sql w tenant mid = w\<lparr>
     sw_index := (sw_index w)\<lparr>vw_manifests := filter (\<lambda>m. \<not> (vm_tenant_id m = tenant \<and> vm_material_id m = Some mid)) (vw_manifests (sw_index w))\<rparr>,
     sw_db := (sw_db w)\<lparr>sd_versions := filter (\<lambda>v. \<not> (mv_tenant_id v = tenant \<and> mv_material_id v = mid)) (sd_versions (sw_db w)),
       sd_objects := filter (\<lambda>ob. \<not> (ov_tenant_id ob = tenant \<and> ov_material_id ob = mid)) (sd_objects (sw_db w))\<rparr>\<rparr>"

definition step_delete :: "'b saga \<Rightarrow> 'b gap \<Rightarrow> 'b saga_world \<Rightarrow> instant \<Rightarrow> ident \<Rightarrow> string \<Rightarrow> ident \<Rightarrow> 'b step_result" where
  "step_delete sg gap w now eid tenant mid =
     (case load_material (sw_db w) mid tenant of
        Inl e \<Rightarrow> (w, Inl e)
      | Inr m \<Rightarrow>
          (let versions = material_versions (sw_db w) mid; manifests = material_manifests (sw_index w) mid in
           case delete_manifests (sg_vectors sg) (sw_index w) now (filter (\<lambda>m. vm_deletion_state m \<noteq> Ds_deleted) manifests) of
             (ix, Some e) \<Rightarrow> (w\<lparr>sw_index := ix\<rparr>, Inl (Step_failed ''VECTOR_DELETE_FAILED''))
           | (ix, None) \<Rightarrow>
               (case delete_objects sg tenant mid versions (sw_bucket w) of
                  (b, Some e) \<Rightarrow> (w\<lparr>sw_index := ix, sw_bucket := b\<rparr>, Inl e)
                | (b, None) \<Rightarrow>
                    (case gap (w\<lparr>sw_index := ix, sw_bucket := b\<rparr>) of (r, c) \<Rightarrow>
                      (case tombstone (sw_db r) (sw_db c) now eid tenant mid (length versions) (length manifests) of
                         Inl e \<Rightarrow> (c, Inl e)
                       | Inr db \<Rightarrow> (purge_sql (c\<lparr>sw_db := db\<rparr>) tenant mid, Inr (moved Deleting_material Deleted_material ''material.deleted'')))))))"

definition request_delete_session :: "saga_db \<Rightarrow> saga_db \<Rightarrow> instant \<Rightarrow> ident \<Rightarrow> string \<Rightarrow> ident \<Rightarrow> saga_error + saga_db \<times> step_outcome" where
  "request_delete_session snap cur now eid tenant mid =
     res_bind (load_material snap mid tenant) (\<lambda>m.
       if mt_status m = Deleted_material then Inr (cur, stay Deleted_material)
       else case assert_material_transition (mt_status m) Deleting_material of
           Some e \<Rightarrow> Inl e
         | None \<Rightarrow>
             res_bind (cas_material cur m now (\<lambda>r. (move_to Deleting_material r)\<lparr>mt_active_version_id := None\<rparr>)) (\<lambda>db.
             res_bind (emit_material db now eid m (mt_version m + 1) ''material.delete_requested'' [(''from_status'', JStr (material_status_name (mt_status m)))]) (\<lambda>db.
               Inr (db, moved (mt_status m) Deleting_material ''material.delete_requested''))))"

fun deactivate_all :: "vclient \<Rightarrow> vworld \<Rightarrow> instant \<Rightarrow> vector_manifest list \<Rightarrow> vworld \<times> index_error option" where
  "deactivate_all c ix now [] = (ix, None)"
| "deactivate_all c ix now (m # ms) =
     (if \<not> vm_retrievable m then deactivate_all c ix now ms
      else (case deactivate_manifest c (vw_manifests ix) ix now (vm_id m) of
          (ix, Inl e) \<Rightarrow> (ix, Some e)
        | (ix, Inr _) \<Rightarrow> deactivate_all c ix now ms))"

definition request_delete :: "'b saga \<Rightarrow> saga_db \<Rightarrow> 'b saga_world \<Rightarrow> instant \<Rightarrow> ident \<Rightarrow> string \<Rightarrow> ident \<Rightarrow> 'b step_result" where
  "request_delete sg snap w now eid tenant mid =
     (case request_delete_session snap (sw_db w) now eid tenant mid of
        Inl e \<Rightarrow> (w, Inl e)
      | Inr (db, out) \<Rightarrow>
          (let w = w\<lparr>sw_db := db\<rparr> in
           if \<not> so_changed out then (w, Inr out)
           else (case deactivate_all (sg_vectors sg) (sw_index w) now (material_manifests (sw_index w) mid) of
               (ix, Some e) \<Rightarrow> (w\<lparr>sw_index := ix\<rparr>, Inl (Saga_index e))
             | (ix, None) \<Rightarrow> (w\<lparr>sw_index := ix\<rparr>, Inr out))))"

section \<open>Recovery, parking and the driver\<close>

definition resume_status :: "bool \<Rightarrow> bool \<Rightarrow> material_status" where
  "resume_status has_object has_active_manifest =
     (if has_active_manifest then Available else if has_object then Indexing else Pending_upload)"

definition recover :: "saga_db \<Rightarrow> 'b saga_world \<Rightarrow> instant \<Rightarrow> ident \<Rightarrow> string \<Rightarrow> ident \<Rightarrow> 'b step_result" where
  "recover snap w now eid tenant mid = in_session w
     (res_bind (load_material snap mid tenant) (\<lambda>m.
        if mt_status m \<noteq> Error_material then Inr (sw_db w, stay (mt_status m))
        else case newest (material_versions snap mid) of
            None \<Rightarrow> Inl (Saga_state ''no versions to recover'')
          | Some v \<Rightarrow>
              if mv_status v = V_quarantined then Inl (Saga_state ''quarantined'')
              else let resumed = resume_status (mv_object_version_id v \<noteq> None)
                         (list_ex (\<lambda>x. vm_retrievable x \<and> vm_deletion_state x = Ds_retained) (material_manifests (sw_index w) mid)) in
                res_bind (cas_material (sw_db w) m now (move_to resumed)) (\<lambda>db.
                res_bind (emit_material db now eid m (mt_version m + 1) ''material.recovered'' [(''resumed_at'', JStr (material_status_name resumed))]) (\<lambda>db.
                  Inr (db, moved Error_material resumed ''material.recovered'')))))"

definition park :: "'b saga \<Rightarrow> saga_db \<Rightarrow> 'b saga_world \<Rightarrow> instant \<Rightarrow> ident \<Rightarrow> string \<Rightarrow> ident \<Rightarrow> string \<Rightarrow> 'b step_result" where
  "park sg snap w now eid tenant mid error_code = in_session w
     (res_bind (load_material snap mid tenant) (\<lambda>m.
        let attempts = mt_attempts m + 1;
            exhausted = (mt_max_attempts m \<le> attempts \<and> mt_status m \<noteq> Deleting_material)
        in res_bind (if exhausted then emit_material (sw_db w) now eid m (mt_version m) ''material.failed''
               [(''error_code'', JStr error_code), (''attempts'', JInt attempts)] else Inr (sw_db w)) (\<lambda>db.
           res_bind (cas_material db m now (\<lambda>r. (if exhausted then r\<lparr>mt_status := Error_material\<rparr> else r)
               \<lparr>mt_attempts := attempts, mt_last_error_code := Some error_code, mt_next_attempt_at := Some (now + sg_retry_backoff sg * of_int attempts)\<rparr>)) (\<lambda>db.
             Inr (db, \<lparr>so_from_status = mt_status m, so_to_status = (if exhausted then Error_material else mt_status m),
               so_event_type = (if exhausted then Some ''material.failed'' else None), so_changed = exhausted\<rparr>)))))"

definition saga_handler :: "'b saga \<Rightarrow> 'b gap \<Rightarrow> 'b saga_world \<Rightarrow> instant \<Rightarrow> ident \<Rightarrow> ident \<Rightarrow> string \<Rightarrow> ident \<Rightarrow> material_status \<Rightarrow> 'b step_result option" where
  "saga_handler sg gap w now nid eid tenant mid status = (case status of
     Pending_upload \<Rightarrow> Some (step_verify_upload sg gap w now nid eid tenant mid)
   | Scanning \<Rightarrow> Some (step_scan gap w now eid tenant mid)
   | Indexing \<Rightarrow> Some (step_index sg gap w now nid eid tenant mid)
   | Deleting_material \<Rightarrow> Some (step_delete sg gap w now eid tenant mid)
   | _ \<Rightarrow> None)"

text \<open>\<open>snap\<close> is what the parking transaction reads.\<close>

definition advance_once :: "'b saga \<Rightarrow> 'b gap \<Rightarrow> 'b gap \<Rightarrow> 'b saga_world \<Rightarrow> instant \<Rightarrow> ident \<Rightarrow> ident \<Rightarrow> string \<Rightarrow> ident \<Rightarrow> 'b step_result" where
  "advance_once sg gap gap2 w now nid eid tenant mid =
     (case load_material (sw_db w) mid tenant of
        Inl e \<Rightarrow> (w, Inl e)
      | Inr m \<Rightarrow>
          if mt_status m \<in> set TERMINAL_STATUSES then (w, Inr (stay (mt_status m)))
          else (case saga_handler sg gap w now nid eid tenant mid (mt_status m) of
              None \<Rightarrow> (w, Inr (stay (mt_status m)))
            | Some (w', Inl (Step_failed code)) \<Rightarrow> (case gap2 w' of (r, c) \<Rightarrow> park sg (sw_db r) c now eid tenant mid code)
            | Some res \<Rightarrow> res))"

text \<open>\<open>drain\<close>: at most \<open>max_steps\<close> steps; \<open>fresh\<close> gives the clock and the identifiers of each.\<close>

fun drain_material :: "'b saga \<Rightarrow> 'b gap \<Rightarrow> (nat \<Rightarrow> instant \<times> ident \<times> ident) \<Rightarrow> nat \<Rightarrow> 'b saga_world \<Rightarrow> string \<Rightarrow> ident \<Rightarrow> 'b saga_world \<times> (saga_error + step_outcome list)" where
  "drain_material sg gap fresh 0 w tenant mid = (w, Inr [])"
| "drain_material sg gap fresh (Suc n) w tenant mid =
     (case fresh n of (now, nid, eid) \<Rightarrow>
       (case advance_once sg gap gap w now nid eid tenant mid of
          (w, Inl e) \<Rightarrow> (w, Inl e)
        | (w, Inr out) \<Rightarrow>
            if \<not> so_changed out \<or> so_to_status out \<in> set TERMINAL_STATUSES then (w, Inr [out])
            else (case drain_material sg gap fresh n w tenant mid of
                (w, Inl e) \<Rightarrow> (w, Inl e)
              | (w, Inr outs) \<Rightarrow> (w, Inr (out # outs)))))"

end
