(* ===== verification/Material_Saga_Safety.thy ===== *)
theory Material_Saga_Safety
  imports Material_Saga Vector_Index_Safety
begin

text \<open>
  What the material saga guarantees. Every transaction writes one material row, and what it may write is collected in \<open>writes_material\<close>;
  the properties of the steps, of the sequential system of all operations and of deletion rest on it.
\<close>

section \<open>What a transaction may write\<close>

definition version_key :: "material_version \<Rightarrow> ident \<times> string \<times> ident \<times> int \<times> ident option" where
  "version_key v = (mv_id v, mv_tenant_id v, mv_material_id v, mv_version_number v, mv_source_version_id v)"

definition writes_material :: "saga_db \<Rightarrow> material \<Rightarrow> (material \<Rightarrow> bool) \<Rightarrow> saga_db \<Rightarrow> bool" where
  "writes_material db m P db' \<longleftrightarrow> map version_key (sd_versions db') = map version_key (sd_versions db) \<and>
     (\<exists>m'. sd_materials db' = put_row mt_id (sd_materials db) (mt_id m) (\<lambda>_. m') \<and> mt_id m' = mt_id m \<and> mt_tenant_id m' = mt_tenant_id m \<and>
        mt_max_attempts m' = mt_max_attempts m \<and> mt_version m' = mt_version m + 1 \<and> P m')"

lemma writes_material_mono: "writes_material db m P db' \<Longrightarrow> (\<And>x. P x \<Longrightarrow> Q x) \<Longrightarrow> writes_material db m Q db'"
  unfolding writes_material_def by blast

lemma load_material_Inr: "load_material db mid tenant = Inr m \<longleftrightarrow> get_row mt_id (sd_materials db) mid = Some m \<and> mt_tenant_id m = tenant"
  by (auto simp: load_material_def split: option.splits)

lemma load_material_id: "load_material db mid tenant = Inr m \<Longrightarrow> mt_id m = mid"
  by (auto simp: load_material_Inr dest: get_row_SomeD)

lemma emit_material_Inr:
  "emit_material cur now eid m rv et pl = Inr db \<Longrightarrow> sd_materials db = sd_materials cur \<and> sd_versions db = sd_versions cur \<and> sd_objects db = sd_objects cur"
  by (auto simp: emit_material_def split: option.splits)

lemma cas_version_Inr:
  assumes "cas_version cur v now upd = Inr db" and "\<And>r. version_key (upd r) = version_key r"
  shows "sd_materials db = sd_materials cur \<and> map version_key (sd_versions db) = map version_key (sd_versions cur)"
proof -
  have k: "version_key (set_mv_version n (r\<lparr>mv_updated_at := x\<rparr>)) = version_key r" for n r x by (simp add: version_key_def set_mv_version_def)
  from assms(1) obtain t where t: "cas_row mv_id mv_version set_mv_version (sd_versions cur) (mv_id v) (mv_version v) (\<lambda>r. (upd r)\<lparr>mv_updated_at := now\<rparr>) = Some t"
    "db = cur\<lparr>sd_versions := t\<rparr>" by (auto simp: cas_version_def split: option.splits)
  from t(1) have "map version_key t = map version_key (sd_versions cur)" by (rule cas_row_map) (simp add: k assms(2))
  with t(2) show ?thesis by simp
qed

lemma version_key_updates [simp]:
  "version_key (mv_status_update f v) = version_key v"
  "version_key (mv_object_version_id_update g v) = version_key v"
  by (simp_all add: version_key_def)

lemma cas_object_Inr: "cas_object cur ob now upd = Inr db \<Longrightarrow> sd_materials db = sd_materials cur \<and> sd_versions db = sd_versions cur"
  by (auto simp: cas_object_def split: option.splits)

lemma cas_material_Inr:
  assumes "cas_material cur m now upd = Inr db" and "keys_distinct mt_id (sd_materials cur)" and "get_row mt_id (sd_materials cur) (mt_id m) = Some m"
  shows "sd_materials db = put_row mt_id (sd_materials cur) (mt_id m) (\<lambda>_. set_mt_version (mt_version m + 1) ((upd m)\<lparr>mt_updated_at := now\<rparr>)) \<and>
    sd_versions db = sd_versions cur"
  using assms(1) unfolding cas_material_def material_table.cas_row_current_Some [OF assms(2,3)] by auto

lemma move_to_simps [simp]:
  "mt_id (move_to s m) = mt_id m" "mt_tenant_id (move_to s m) = mt_tenant_id m" "mt_max_attempts (move_to s m) = mt_max_attempts m"
  "mt_status (move_to s m) = s" "mt_attempts (move_to s m) = 0"
  by (simp_all add: move_to_def)

lemma set_mt_version_simps [simp]:
  "mt_id (set_mt_version n m) = mt_id m" "mt_tenant_id (set_mt_version n m) = mt_tenant_id m" "mt_max_attempts (set_mt_version n m) = mt_max_attempts m"
  "mt_status (set_mt_version n m) = mt_status m" "mt_attempts (set_mt_version n m) = mt_attempts m" "mt_version (set_mt_version n m) = n"
  by (simp_all add: set_mt_version_def)

text \<open>A material moved to a status starts that status with a fresh budget.\<close>

abbreviation reaches :: "material_status \<Rightarrow> material \<Rightarrow> bool" where
  "reaches s m \<equiv> mt_status m = s \<and> mt_attempts m = 0"

lemma cas_material_writes:
  assumes "cas_material cur m now upd = Inr db" and "keys_distinct mt_id (sd_materials cur)" and "get_row mt_id (sd_materials cur) (mt_id m) = Some m"
    and "\<And>r. mt_id (upd r) = mt_id r \<and> mt_tenant_id (upd r) = mt_tenant_id r \<and> mt_max_attempts (upd r) = mt_max_attempts r"
    and "P (set_mt_version (mt_version m + 1) ((upd m)\<lparr>mt_updated_at := now\<rparr>))"
  shows "writes_material cur m P db"
  using cas_material_Inr [OF assms(1-3)] assms(4) [of m] assms(5) unfolding writes_material_def
  by (intro conjI exI [of _ "set_mt_version (mt_version m + 1) ((upd m)\<lparr>mt_updated_at := now\<rparr>)"]) simp_all

lemma writes_material_cong:
  "sd_materials a = sd_materials b \<Longrightarrow> map version_key (sd_versions a) = map version_key (sd_versions b) \<Longrightarrow> sd_materials a' = sd_materials b' \<Longrightarrow>
     map version_key (sd_versions a') = map version_key (sd_versions b') \<Longrightarrow> writes_material a m P a' = writes_material b m P b'"
  by (simp add: writes_material_def)

section \<open>The transactions\<close>

text \<open>The common tail: the version row, the material row and the event.\<close>

lemma commit_tail:
  assumes r: "res_bind (cas_version cur v now upd) (\<lambda>db. res_bind (cas_material db m now (move_to s)) (\<lambda>db. res_bind (emit_material db now eid m rv et pl) (\<lambda>db. Inr (db, out)))) = Inr (db', out')"
    and d: "keys_distinct mt_id (sd_materials cur)" and m: "get_row mt_id (sd_materials cur) (mt_id m) = Some m" and u: "\<And>r. version_key (upd r) = version_key r"
  shows "writes_material cur m (reaches s) db' \<and> out' = out"
proof -
  from r obtain a b where a: "cas_version cur v now upd = Inr a" and b: "cas_material a m now (move_to s) = Inr b" and e: "emit_material b now eid m rv et pl = Inr db'" "out' = out"
    by (auto simp: res_bind_Inr_iff)
  note va = cas_version_Inr [OF a u]
  have "writes_material a m (reaches s) b" using b by (rule cas_material_writes) (use va d m in auto)
  also have "writes_material a m (reaches s) b = writes_material cur m (reaches s) db'"
    using va emit_material_Inr [OF e(1)] by (intro writes_material_cong) simp_all
  finally show ?thesis using e(2) by simp
qed

lemma pending_version_Inr: "pending_version db m = Inr v \<Longrightarrow> newest (material_versions db (mt_id m)) = Some v"
  by (auto simp: pending_version_def split: option.splits)

lemma transition_session_effect:
  assumes "transition_session db db now eid tenant mid s vs et pl = Inr (db', out)" and "keys_distinct mt_id (sd_materials db)" and m: "load_material db mid tenant = Inr m"
  shows "(mt_status m = s \<and> db' = db \<and> out = stay s) \<or> (s \<in> set (MATERIAL_SAGA_TRANSITIONS (mt_status m)) \<and> s \<noteq> mt_status m \<and> writes_material db m (reaches s) db' \<and> out = moved (mt_status m) s et)"
proof (cases "s = mt_status m")
  case True
  with assms show ?thesis by (auto simp: transition_session_def stay_def)
next
  case False
  with assms(1) m have g: "s \<in> set (MATERIAL_SAGA_TRANSITIONS (mt_status m))" by (auto simp: transition_session_def assert_material_transition_def split: if_splits)
  with assms(1) m False obtain v where "res_bind (cas_version db v now (mv_status_update (\<lambda>_. vs))) (\<lambda>db. res_bind (cas_material db m now (move_to s)) (\<lambda>db.
      res_bind (emit_material db now eid m (mt_version m + 1) et pl) (\<lambda>db. Inr (db, moved (mt_status m) s et)))) = Inr (db', out)"
    by (auto simp: transition_session_def assert_material_transition_def res_bind_Inr_iff)
  from commit_tail [OF this assms(2)] m g False show ?thesis by (simp add: load_material_Inr load_material_id [OF m])
qed

lemma record_upload_effect:
  assumes r: "record_upload db db now oid eid tenant mid stored = Inr (db', out)" and d: "keys_distinct mt_id (sd_materials db)" and m: "load_material db mid tenant = Inr m"
  shows "writes_material db m (reaches Scanning) db' \<and> out = moved Pending_upload Scanning ''material.upload_verified''"
proof -
  from r m obtain v ob et pl where "res_bind (cas_version (db\<lparr>sd_objects := sd_objects db @ [ob]\<rparr>) v now (\<lambda>r. r\<lparr>mv_object_version_id := Some oid, mv_status := V_scanning\<rparr>)) (\<lambda>db.
      res_bind (cas_material db m now (move_to Scanning)) (\<lambda>db. res_bind (emit_material db now eid m (mt_version m + 1) et pl) (\<lambda>db.
      Inr (db, moved Pending_upload Scanning ''material.upload_verified'')))) = Inr (db', out)"
    unfolding record_upload_def Let_def by (auto simp: res_bind_Inr_iff split: if_splits) blast
  from commit_tail [OF this] d m have "writes_material (db\<lparr>sd_objects := sd_objects db @ [ob]\<rparr>) m (reaches Scanning) db' \<and> out = moved Pending_upload Scanning ''material.upload_verified''"
    by (simp add: load_material_Inr load_material_id [OF m])
  then show ?thesis by (simp add: writes_material_def)
qed

lemma scan_session_effect:
  assumes r: "scan_session db db now eid tenant mid = Inr (db', out)" and d: "keys_distinct mt_id (sd_materials db)" and m: "load_material db mid tenant = Inr m"
  shows "\<exists>s et. s \<in> {Indexing, Error_material} \<and> writes_material db m (reaches s) db' \<and> out = moved Scanning s et"
proof -
  from r m obtain v oid ob where v: "mv_object_version_id v = Some oid" "get_row ov_id (sd_objects db) oid = Some ob" "pending_version db m = Inr v"
    unfolding scan_session_def by (auto simp: res_bind_Inr_iff split: option.splits)
  have g: "get_row mt_id (sd_materials db) (mt_id m) = Some m" using m load_material_id [OF m] by (simp add: load_material_Inr)
  show ?thesis
  proof (cases "ov_scan_status ob = ''infected''")
    case True
    with r m v have "res_bind (cas_version db v now (mv_status_update (\<lambda>_. V_quarantined))) (\<lambda>db. res_bind (cas_material db m now (move_to Error_material)) (\<lambda>db.
       res_bind (emit_material db now eid m (mt_version m + 1) ''material.quarantined'' [(''material_version_id'', JStr (mv_id v))]) (\<lambda>db.
       Inr (db, moved Scanning Error_material ''material.quarantined'')))) = Inr (db', out)" by (simp add: scan_session_def)
    from commit_tail [OF this d g] show ?thesis by fastforce
  next
    case False
    with r m v obtain a where a: "(if ov_scan_status ob \<in> {''pending'', ''scanning''} then cas_object db ob now (ov_scan_status_update (\<lambda>_. ''clean'')) else Inr db) = Inr a"
      and c: "res_bind (cas_version a v now (mv_status_update (\<lambda>_. V_indexing))) (\<lambda>db. res_bind (cas_material db m now (move_to Indexing)) (\<lambda>db.
       res_bind (emit_material db now eid m (mt_version m + 1) ''material.scan_passed'' [(''material_version_id'', JStr (mv_id v))]) (\<lambda>db.
       Inr (db, moved Scanning Indexing ''material.scan_passed'')))) = Inr (db', out)"
      by (auto simp: scan_session_def res_bind_Inr_iff [of "if _ then _ else _"])
    have s: "sd_materials a = sd_materials db" "sd_versions a = sd_versions db" using a cas_object_Inr by (auto split: if_splits)
    from commit_tail [OF c] d g s have "writes_material a m (reaches Indexing) db' \<and> out = moved Scanning Indexing ''material.scan_passed''" by simp
    then show ?thesis using s by (auto simp: writes_material_def)
  qed
qed

lemma make_available_effect:
  assumes r: "make_available db db now eid tenant mid previous manifest = Inr ((db', out), vid)" and d: "keys_distinct mt_id (sd_materials db)" and m: "load_material db mid tenant = Inr m"
  shows "writes_material db m (reaches Available) db' \<and> out = moved Indexing Available ''material.available''"
proof -
  have g: "get_row mt_id (sd_materials db) (mt_id m) = Some m" using m load_material_id [OF m] by (simp add: load_material_Inr)
  from r m obtain v a b c where a: "cas_version db v now (mv_status_update (\<lambda>_. V_available)) = Inr a"
    and b: "b = a \<or> (\<exists>pv. cas_version a pv now (mv_status_update (\<lambda>_. V_superseded)) = Inr b)"
    and c: "cas_material b m now (\<lambda>r. (move_to Available r)\<lparr>mt_active_version_id := Some (mv_id v)\<rparr>) = Inr c"
    and e: "\<exists>et pl. emit_material c now eid m (mt_version m + 1) et pl = Inr db'" and o: "out = moved Indexing Available ''material.available''"
    unfolding make_available_def by (auto simp: res_bind_Inr_iff split: option.splits if_splits) blast+
  have va: "sd_materials a = sd_materials db \<and> map version_key (sd_versions a) = map version_key (sd_versions db)" using a by (rule cas_version_Inr) simp
  have vb: "sd_materials b = sd_materials a \<and> map version_key (sd_versions b) = map version_key (sd_versions a)"
    using b cas_version_Inr [where upd = "mv_status_update (\<lambda>_. V_superseded)"] by auto
  have "writes_material b m (reaches Available) c" using c by (rule cas_material_writes) (use va vb d g in auto)
  also have "writes_material b m (reaches Available) c = writes_material db m (reaches Available) db'"
    using va vb e emit_material_Inr by (intro writes_material_cong) auto
  finally show ?thesis using o by simp
qed

lemma tombstone_effect:
  assumes r: "tombstone db db now eid tenant mid n k = Inr db'" and d: "keys_distinct mt_id (sd_materials db)" and m: "load_material db mid tenant = Inr m"
  shows "writes_material db m (reaches Deleted_material) db'"
proof -
  have g: "get_row mt_id (sd_materials db) (mt_id m) = Some m" using m load_material_id [OF m] by (simp add: load_material_Inr)
  from r m obtain a where a: "\<exists>et pl. emit_material db now eid m (mt_version m) et pl = Inr a"
    and c: "cas_material a m now (\<lambda>r. (move_to Deleted_material r)\<lparr>mt_active_version_id := None\<rparr>) = Inr db'"
    unfolding tombstone_def by (auto simp: res_bind_Inr_iff)
  from a have e: "sd_materials a = sd_materials db \<and> sd_versions a = sd_versions db" using emit_material_Inr by blast
  have "writes_material a m (reaches Deleted_material) db'" using c by (rule cas_material_writes) (use e d g in auto)
  with e show ?thesis by (simp add: writes_material_def)
qed

lemma request_delete_session_effect:
  assumes r: "request_delete_session db db now eid tenant mid = Inr (db', out)" and d: "keys_distinct mt_id (sd_materials db)" and m: "load_material db mid tenant = Inr m"
  shows "(mt_status m = Deleted_material \<and> db' = db \<and> out = stay Deleted_material) \<or>
    (Deleting_material \<in> set (MATERIAL_SAGA_TRANSITIONS (mt_status m)) \<and> writes_material db m (reaches Deleting_material) db' \<and> out = moved (mt_status m) Deleting_material ''material.delete_requested'')"
proof (cases "mt_status m = Deleted_material")
  case True
  with r m show ?thesis by (simp add: request_delete_session_def)
next
  case False
  have g: "get_row mt_id (sd_materials db) (mt_id m) = Some m" using m load_material_id [OF m] by (simp add: load_material_Inr)
  from r m False obtain a where t: "Deleting_material \<in> set (MATERIAL_SAGA_TRANSITIONS (mt_status m))"
    and c: "cas_material db m now (\<lambda>r. (move_to Deleting_material r)\<lparr>mt_active_version_id := None\<rparr>) = Inr a"
    and e: "\<exists>et pl. emit_material a now eid m (mt_version m + 1) et pl = Inr db'" and o: "out = moved (mt_status m) Deleting_material ''material.delete_requested''"
    unfolding request_delete_session_def by (auto simp: res_bind_Inr_iff assert_material_transition_def split: if_splits)
  have "writes_material db m (reaches Deleting_material) a" using c by (rule cas_material_writes) (use d g in auto)
  with e have "writes_material db m (reaches Deleting_material) db'" using emit_material_Inr by (auto simp: writes_material_def)
  with t o show ?thesis by simp
qed

text \<open>Parking counts the failure; past the budget a material other than a doomed one goes to \<open>error\<close>.\<close>

definition parked :: "material \<Rightarrow> material \<Rightarrow> bool" where
  "parked m m' \<longleftrightarrow> mt_attempts m' = mt_attempts m + 1 \<and>
     mt_status m' = (if mt_max_attempts m \<le> mt_attempts m + 1 \<and> mt_status m \<noteq> Deleting_material then Error_material else mt_status m)"

lemma park_effect:
  assumes r: "park sg (sw_db w) w now eid tenant mid code = (w', res)" and d: "keys_distinct mt_id (sd_materials (sw_db w))" and m: "load_material (sw_db w) mid tenant = Inr m"
  shows "sw_index w' = sw_index w \<and> sw_bucket w' = sw_bucket w \<and>
    ((\<exists>e. res = Inl e) \<and> w' = w \<or> (\<exists>out. res = Inr out \<and> writes_material (sw_db w) m (parked m) (sw_db w') \<and> so_from_status out = mt_status m \<and>
      so_to_status out = (if mt_max_attempts m \<le> mt_attempts m + 1 \<and> mt_status m \<noteq> Deleting_material then Error_material else mt_status m) \<and>
      so_changed out = (mt_max_attempts m \<le> mt_attempts m + 1 \<and> mt_status m \<noteq> Deleting_material)))"
proof -
  let ?x = "mt_max_attempts m \<le> mt_attempts m + 1 \<and> mt_status m \<noteq> Deleting_material"
  let ?upd = "\<lambda>r. (if ?x then r\<lparr>mt_status := Error_material\<rparr> else r)\<lparr>mt_attempts := mt_attempts m + 1, mt_last_error_code := Some code,
     mt_next_attempt_at := Some (now + sg_retry_backoff sg * of_int (mt_attempts m + 1))\<rparr>"
  let ?out = "\<lparr>so_from_status = mt_status m, so_to_status = (if ?x then Error_material else mt_status m), so_event_type = (if ?x then Some ''material.failed'' else None), so_changed = ?x\<rparr>"
  have g: "get_row mt_id (sd_materials (sw_db w)) (mt_id m) = Some m" using m load_material_id [OF m] by (simp add: load_material_Inr)
  obtain first where f: "park sg (sw_db w) w now eid tenant mid code = in_session w (res_bind first (\<lambda>db. res_bind (cas_material db m now ?upd) (\<lambda>db. Inr (db, ?out))))"
    and ff: "\<And>a. first = Inr a \<Longrightarrow> sd_materials a = sd_materials (sw_db w) \<and> sd_versions a = sd_versions (sw_db w)"
  proof
    show "park sg (sw_db w) w now eid tenant mid code = in_session w (res_bind (if ?x then emit_material (sw_db w) now eid m (mt_version m) ''material.failed''
       [(''error_code'', JStr code), (''attempts'', JInt (mt_attempts m + 1))] else Inr (sw_db w)) (\<lambda>db. res_bind (cas_material db m now ?upd) (\<lambda>db. Inr (db, ?out))))"
      using m by (simp add: park_def Let_def)
  qed (use emit_material_Inr in \<open>auto split: if_splits\<close>)
  show ?thesis
  proof (cases "res_bind first (\<lambda>db. res_bind (cas_material db m now ?upd) (\<lambda>db. Inr (db, ?out)))")
    case (Inl e)
    then have "w' = w \<and> res = Inl e" using r f by (auto simp: in_session_def)
    then show ?thesis by blast
  next
    case (Inr p)
    then obtain a b where a: "first = Inr a" and b: "cas_material a m now ?upd = Inr b" and p: "p = (b, ?out)" by (auto simp only: res_bind_Inr_iff sum.inject)
    note fa = ff [OF a]
    have "writes_material a m (parked m) b" using b by (rule cas_material_writes) (use fa d g in \<open>auto simp: parked_def\<close>)
    with fa have wr: "writes_material (sw_db w) m (parked m) b" by (simp add: writes_material_def)
    have "(w', res) = (w\<lparr>sw_db := b\<rparr>, Inr ?out)" using r f Inr p by (simp add: in_session_def)
    with wr show ?thesis by simp
  qed
qed

section \<open>The steps, undisturbed\<close>

text \<open>A step that returns has moved the material along the table; a step that raises has left the rows, or has committed the move before it raised
  and then does not raise what is parked.\<close>

definition stepped :: "saga_db \<Rightarrow> material \<Rightarrow> (saga_error + step_outcome) \<Rightarrow> (material_status \<Rightarrow> bool) \<Rightarrow> bool" where
  "stepped db m r committed_to \<longleftrightarrow> (case r of
     Inr out \<Rightarrow> so_from_status out = mt_status m \<and> so_changed out \<and> so_to_status out \<in> set (MATERIAL_SAGA_TRANSITIONS (mt_status m)) \<and> committed_to (so_to_status out)
   | Inl e \<Rightarrow> (\<forall>code. e \<noteq> Step_failed code) \<and> (\<exists>s\<in>set (MATERIAL_SAGA_TRANSITIONS (mt_status m)). committed_to s))"

abbreviation commits :: "saga_db \<Rightarrow> material \<Rightarrow> saga_db \<Rightarrow> material_status \<Rightarrow> bool" where
  "commits db m db' s \<equiv> writes_material db m (reaches s) db'"

lemma transitions_simps [simp]:
  "MATERIAL_SAGA_TRANSITIONS Pending_upload = [Scanning, Deleting_material, Error_material]"
  "MATERIAL_SAGA_TRANSITIONS Scanning = [Indexing, Deleting_material, Error_material]"
  "MATERIAL_SAGA_TRANSITIONS Indexing = [Available, Deleting_material, Error_material]"
  "MATERIAL_SAGA_TRANSITIONS Available = [Indexing, Deleting_material, Error_material]"
  "MATERIAL_SAGA_TRANSITIONS Deleting_material = [Deleted_material, Error_material]"
  "MATERIAL_SAGA_TRANSITIONS Deleted_material = []"
  "MATERIAL_SAGA_TRANSITIONS Error_material = [Pending_upload, Scanning, Indexing, Available, Deleting_material]"
  by (simp_all add: MATERIAL_SAGA_TRANSITIONS_def)

lemma outcome_simps [simp]:
  "so_from_status (moved a b e) = a" "so_to_status (moved a b e) = b" "so_changed (moved a b e)"
  "so_from_status (stay a) = a" "so_to_status (stay a) = a" "\<not> so_changed (stay a)"
  by (simp_all add: moved_def stay_def)

lemma in_session_effect:
  assumes "in_session w r = (w', res)" and "\<And>db out. r = Inr (db, out) \<Longrightarrow> stepped (sw_db w) m (Inr out) (commits (sw_db w) m db)"
  shows "(w' = w \<and> isl res) \<or> stepped (sw_db w) m res (commits (sw_db w) m (sw_db w'))"
  using assms by (cases r) (auto simp: in_session_def)

lemma step_verify_upload_effect:
  assumes r: "step_verify_upload sg undisturbed w now oid eid tenant mid = (w', res)" and d: "keys_distinct mt_id (sd_materials (sw_db w))"
    and m: "load_material (sw_db w) mid tenant = Inr m" and s: "mt_status m = Pending_upload"
  shows "(w' = w \<and> isl res) \<or> stepped (sw_db w) m res (commits (sw_db w) m (sw_db w'))"
proof (cases "pending_version (sw_db w) m")
  case (Inl e)
  with r m show ?thesis by (auto simp: step_verify_upload_def)
next
  case (Inr v)
  show ?thesis
  proof (cases "mv_object_version_id v = None")
    case False
    with Inr r m have "in_session w (transition_session (sw_db w) (sw_db w) now eid tenant mid Scanning V_scanning ''material.upload_verified''
       [(''material_version_id'', JStr (mv_id v))]) = (w', res)" by (simp add: step_verify_upload_def undisturbed_def)
    then show ?thesis by (rule in_session_effect) (use transition_session_effect [OF _ d m] s in \<open>fastforce simp: stepped_def\<close>)
  next
    case True
    have "w' = w \<and> isl res \<or> (\<exists>stored. in_session w (record_upload (sw_db w) (sw_db w) now oid eid tenant mid stored) = (w', res))"
      using True Inr r m by (auto simp: step_verify_upload_def undisturbed_def split: sum.splits store_error.splits)
    then show ?thesis
    proof
      assume "\<exists>stored. in_session w (record_upload (sw_db w) (sw_db w) now oid eid tenant mid stored) = (w', res)"
      then obtain stored where "in_session w (record_upload (sw_db w) (sw_db w) now oid eid tenant mid stored) = (w', res)" ..
      then show ?thesis by (rule in_session_effect) (use record_upload_effect [OF _ d m] s in \<open>fastforce simp: stepped_def\<close>)
    qed simp
  qed
qed

lemma step_scan_effect:
  assumes r: "step_scan undisturbed w now eid tenant mid = (w', res)" and d: "keys_distinct mt_id (sd_materials (sw_db w))"
    and m: "load_material (sw_db w) mid tenant = Inr m" and s: "mt_status m = Scanning"
  shows "(w' = w \<and> isl res) \<or> stepped (sw_db w) m res (commits (sw_db w) m (sw_db w'))"
proof -
  from r have "in_session w (scan_session (sw_db w) (sw_db w) now eid tenant mid) = (w', res)" by (simp add: step_scan_def undisturbed_def)
  then show ?thesis by (rule in_session_effect) (use scan_session_effect [OF _ d m] s in \<open>fastforce simp: stepped_def\<close>)
qed

lemma step_index_effect:
  assumes r: "step_index sg undisturbed w now nid eid tenant mid = (w', res)" and d: "keys_distinct mt_id (sd_materials (sw_db w))"
    and m: "load_material (sw_db w) mid tenant = Inr m" and s: "mt_status m = Indexing"
  shows "(sw_db w' = sw_db w \<and> isl res) \<or> stepped (sw_db w) m res (commits (sw_db w) m (sw_db w'))"
proof -
  have "(sw_db w' = sw_db w \<and> isl res) \<or> (\<exists>v manifest out vid. make_available (sw_db w) (sw_db w) now eid tenant mid v manifest = Inr ((sw_db w', out), vid) \<and>
     (res = Inr out \<or> (\<exists>e. res = Inl (Saga_index e))))"
    using r unfolding step_index_def undisturbed_def
    by (auto simp: Let_def split: sum.splits prod.splits option.splits if_splits)
  then show ?thesis using make_available_effect [OF _ d m] s by (fastforce simp: stepped_def)
qed

section \<open>Deletion\<close>



lemma step_delete_cases:
  assumes r: "step_delete sg undisturbed w now eid tenant mid = (w', res)" and m: "load_material (sw_db w) mid tenant = Inr m"
  shows "(sw_db w' = sw_db w \<and> isl res) \<or>
    (\<exists>ix b db. delete_manifests (sg_vectors sg) (sw_index w) now (filter (\<lambda>m. vm_deletion_state m \<noteq> Ds_deleted) (material_manifests (sw_index w) mid)) = (ix, None) \<and>
       delete_objects sg tenant mid (material_versions (sw_db w) mid) (sw_bucket w) = (b, None) \<and>
       tombstone (sw_db w) (sw_db w) now eid tenant mid (length (material_versions (sw_db w) mid)) (length (material_manifests (sw_index w) mid)) = Inr db \<and>
       w' = purge_sql (w\<lparr>sw_index := ix, sw_bucket := b, sw_db := db\<rparr>) tenant mid \<and> res = Inr (moved Deleting_material Deleted_material ''material.deleted''))"
  using r m unfolding step_delete_def undisturbed_def Let_def
  by (auto split: sum.splits prod.splits option.splits)

lemma purge_sql_simps:
  "sd_materials (sw_db (purge_sql w tenant mid)) = sd_materials (sw_db w)"
  "sd_versions (sw_db (purge_sql w tenant mid)) = filter (\<lambda>v. \<not> (mv_tenant_id v = tenant \<and> mv_material_id v = mid)) (sd_versions (sw_db w))"
  "sd_objects (sw_db (purge_sql w tenant mid)) = filter (\<lambda>ob. \<not> (ov_tenant_id ob = tenant \<and> ov_material_id ob = mid)) (sd_objects (sw_db w))"
  "vw_manifests (sw_index (purge_sql w tenant mid)) = filter (\<lambda>m. \<not> (vm_tenant_id m = tenant \<and> vm_material_id m = Some mid)) (vw_manifests (sw_index w))"
  "vw_rows (sw_index (purge_sql w tenant mid)) = vw_rows (sw_index w)"
  "sw_bucket (purge_sql w tenant mid) = sw_bucket w"
  by (simp_all add: purge_sql_def)

definition deletes :: "saga_db \<Rightarrow> material \<Rightarrow> saga_db \<Rightarrow> material_status \<Rightarrow> bool" where
  "deletes db m db' s \<longleftrightarrow> s = Deleted_material \<and> (\<exists>db1. commits db m db1 s \<and> sd_materials db' = sd_materials db1 \<and>
     sd_versions db' = filter (\<lambda>v. \<not> (mv_tenant_id v = mt_tenant_id m \<and> mv_material_id v = mt_id m)) (sd_versions db1))"

lemma step_delete_effect:
  assumes r: "step_delete sg undisturbed w now eid tenant mid = (w', res)" and d: "keys_distinct mt_id (sd_materials (sw_db w))"
    and m: "load_material (sw_db w) mid tenant = Inr m" and s: "mt_status m = Deleting_material"
  shows "(sw_db w' = sw_db w \<and> isl res) \<or> (\<exists>out. res = Inr out \<and> stepped (sw_db w) m res (deletes (sw_db w) m (sw_db w')))"
proof -
  have i: "mt_id m = mid" "mt_tenant_id m = tenant" using m load_material_id [OF m] by (simp_all add: load_material_Inr)
  have "deletes (sw_db w) m (sw_db (purge_sql (w\<lparr>sw_index := ix, sw_bucket := b, sw_db := db\<rparr>) tenant mid)) Deleted_material"
    if "tombstone (sw_db w) (sw_db w) now eid tenant mid n k = Inr db" for ix b db n k
    using tombstone_effect [OF that d m] unfolding deletes_def i by (intro conjI refl exI [of _ db]) (simp_all add: purge_sql_simps)
  with step_delete_cases [OF r m] s show ?thesis by (fastforce simp: stepped_def)
qed

section \<open>One call of the driver\<close>

lemma advance_once_effect:
  assumes r: "advance_once sg undisturbed undisturbed w now nid eid tenant mid = (w', res)" and d: "keys_distinct mt_id (sd_materials (sw_db w))"
    and m: "load_material (sw_db w) mid tenant = Inr m"
  obtains (unchanged) "sw_db w' = sw_db w" "isl res \<or> res = Inr (stay (mt_status m))"
    | (committed) "stepped (sw_db w) m res (commits (sw_db w) m (sw_db w'))" "mt_status m \<in> {Pending_upload, Scanning, Indexing}"
    | (deleted) out where "res = Inr out" "stepped (sw_db w) m res (deletes (sw_db w) m (sw_db w'))" "mt_status m = Deleting_material"
    | (parking) out where "res = Inr out" "writes_material (sw_db w) m (parked m) (sw_db w')" "mt_status m \<in> {Pending_upload, Scanning, Indexing, Deleting_material}"
        "so_from_status out = mt_status m" "so_to_status out = (if mt_max_attempts m \<le> mt_attempts m + 1 \<and> mt_status m \<noteq> Deleting_material then Error_material else mt_status m)"
        "so_changed out = (mt_max_attempts m \<le> mt_attempts m + 1 \<and> mt_status m \<noteq> Deleting_material)"
proof (cases "saga_handler sg undisturbed w now nid eid tenant mid (mt_status m)")
  case None
  then have "(w', res) = (w, Inr (stay (mt_status m)))" using r m by (auto simp: advance_once_def split: if_splits)
  then show thesis using unchanged by simp
next
  case (Some q)
  obtain w1 r1 where q: "q = (w1, r1)" by (rule prod.exhaust)
  have live: "mt_status m \<in> {Pending_upload, Scanning, Indexing, Deleting_material}" using Some by (auto simp: saga_handler_def split: material_status.splits)
  then have nt: "mt_status m \<notin> set TERMINAL_STATUSES" by (auto simp: TERMINAL_STATUSES_def)
  have e: "(sw_db w1 = sw_db w \<and> isl r1) \<or> (stepped (sw_db w) m r1 (commits (sw_db w) m (sw_db w1)) \<and> mt_status m \<in> {Pending_upload, Scanning, Indexing}) \<or>
     (\<exists>out. r1 = Inr out \<and> stepped (sw_db w) m r1 (deletes (sw_db w) m (sw_db w1)) \<and> mt_status m = Deleting_material)"
    using live Some q step_verify_upload_effect [OF _ d m, of sg now nid eid w1 r1] step_scan_effect [OF _ d m, of now eid w1 r1]
      step_index_effect [OF _ d m, of sg now nid eid w1 r1] step_delete_effect [OF _ d m, of sg now eid w1 r1]
    by (auto simp: saga_handler_def)
  show thesis
  proof (cases "\<exists>code. r1 = Inl (Step_failed code)")
    case True
    then obtain code where c: "r1 = Inl (Step_failed code)" ..
    with e have db: "sw_db w1 = sw_db w" by (auto simp: stepped_def)
    have "park sg (sw_db w1) w1 now eid tenant mid code = (w', res)" using r m nt Some q c by (simp add: advance_once_def undisturbed_def)
    from park_effect [OF this] d m have "((\<exists>e. res = Inl e) \<and> w' = w1) \<or> (\<exists>out. res = Inr out \<and> writes_material (sw_db w) m (parked m) (sw_db w') \<and> so_from_status out = mt_status m \<and>
      so_to_status out = (if mt_max_attempts m \<le> mt_attempts m + 1 \<and> mt_status m \<noteq> Deleting_material then Error_material else mt_status m) \<and>
      so_changed out = (mt_max_attempts m \<le> mt_attempts m + 1 \<and> mt_status m \<noteq> Deleting_material))" unfolding db by simp
    then show thesis using unchanged parking live db by (elim disjE exE conjE) auto
  next
    case False
    then have "(w', res) = (w1, r1)" using r m nt Some q by (auto simp: advance_once_def split: sum.splits saga_error.splits)
    then show thesis using e unchanged committed deleted by auto
  qed
qed

lemma written_row:
  assumes "writes_material db m P db'" and "get_row mt_id (sd_materials db) (mt_id m) = Some m"
  obtains m' where "get_row mt_id (sd_materials db') (mt_id m) = Some m'" "mt_tenant_id m' = mt_tenant_id m" "P m'" "mt_version m' = mt_version m + 1"
    "\<forall>k. k \<noteq> mt_id m \<longrightarrow> get_row mt_id (sd_materials db') k = get_row mt_id (sd_materials db) k"
proof -
  from assms(1) obtain m' where m': "sd_materials db' = put_row mt_id (sd_materials db) (mt_id m) (\<lambda>_. m')" "mt_id m' = mt_id m" "mt_tenant_id m' = mt_tenant_id m" "P m'"
    "mt_version m' = mt_version m + 1" unfolding writes_material_def by blast
  show thesis by (rule that [of m']) (use m' assms(2) in \<open>simp_all add: get_put_row_const [where key = mt_id]\<close>)
qed

section \<open>The sequential system\<close>

text \<open>Every public operation, by any tenant, with any clock and any identifiers; one at a time.\<close>

inductive saga_op :: "'b saga \<Rightarrow> 'b saga_world \<Rightarrow> 'b saga_world \<Rightarrow> bool" for sg where
  op_begin: "begin_upload sg (sw_db w) w now new_mid vid eid tenant kb name source_type media nbytes sha256 created_by material_id read_only = (w', r) \<Longrightarrow> saga_op sg w w'"
| op_advance: "advance_once sg undisturbed undisturbed w now nid eid tenant mid = (w', r2) \<Longrightarrow> saga_op sg w w'"
| op_delete: "request_delete sg (sw_db w) w now eid tenant mid = (w', r2) \<Longrightarrow> saga_op sg w w'"
| op_recover: "recover (sw_db w) w now eid tenant mid = (w', r2) \<Longrightarrow> saga_op sg w w'"

inductive_cases saga_opE: "saga_op sg w w'"

definition saga_init :: "'b saga_world \<Rightarrow> bool" where
  "saga_init w \<longleftrightarrow> sd_materials (sw_db w) = [] \<and> sd_versions (sw_db w) = []"

text \<open>Version numbers are unique in a material; the first version has no parent, any other descends from an older version of the same material.\<close>

definition parent_ok :: "(ident \<times> string \<times> ident \<times> int \<times> ident option) set \<Rightarrow> ident \<times> string \<times> ident \<times> int \<times> ident option \<Rightarrow> bool" where
  "parent_ok K k \<longleftrightarrow> (case k of (i, t, m, n, s) \<Rightarrow> (case s of None \<Rightarrow> n = 1 | Some p \<Rightarrow> 1 < n \<and> (\<exists>(i', t', m', n', s')\<in>K. i' = p \<and> m' = m \<and> n' < n)))"

definition chain_ok :: "(ident \<times> string \<times> ident \<times> int \<times> ident option) list \<Rightarrow> bool" where
  "chain_ok ks \<longleftrightarrow> distinct (map (\<lambda>(i, t, m, n, s). (m, n)) ks) \<and> (\<forall>k\<in>set ks. parent_ok (set ks) k)"

definition budget_ok :: "material \<Rightarrow> bool" where
  "budget_ok m \<longleftrightarrow> 1 \<le> mt_max_attempts m \<and> 0 \<le> mt_attempts m \<and> (mt_status m \<notin> {Error_material, Deleting_material} \<longrightarrow> mt_attempts m < mt_max_attempts m)"

definition owned_by :: "material list \<Rightarrow> ident \<times> string \<times> ident \<times> int \<times> ident option \<Rightarrow> bool" where
  "owned_by ms k \<longleftrightarrow> (case k of (i, t, mid, n, s) \<Rightarrow> \<exists>m\<in>set ms. mt_id m = mid \<and> mt_tenant_id m = t \<and> mt_status m \<noteq> Deleted_material)"

definition db_ok :: "saga_db \<Rightarrow> bool" where
  "db_ok db \<longleftrightarrow> keys_distinct mt_id (sd_materials db) \<and> (\<forall>m\<in>set (sd_materials db). budget_ok m) \<and> chain_ok (map version_key (sd_versions db)) \<and>
     (\<forall>k\<in>set (map version_key (sd_versions db)). owned_by (sd_materials db) k)"

lemma writes_db_ok:
  assumes ok: "db_ok db" and w: "writes_material db m P db'" and g: "get_row mt_id (sd_materials db) (mt_id m) = Some m"
    and b: "\<And>m'. P m' \<Longrightarrow> mt_max_attempts m' = mt_max_attempts m \<Longrightarrow> budget_ok m'" and nd: "\<And>m'. P m' \<Longrightarrow> mt_status m' \<noteq> Deleted_material"
  shows "db_ok db'"
proof -
  from w obtain m' where m': "sd_materials db' = put_row mt_id (sd_materials db) (mt_id m) (\<lambda>_. m')" "mt_id m' = mt_id m" "mt_tenant_id m' = mt_tenant_id m" "P m'"
    "mt_max_attempts m' = mt_max_attempts m" and v: "map version_key (sd_versions db') = map version_key (sd_versions db)" unfolding writes_material_def by blast
  have d: "keys_distinct mt_id (sd_materials db)" using ok by (simp add: db_ok_def)
  have s: "set (sd_materials db') = insert m' (set (sd_materials db) - {m})" unfolding m'(1) using d g by (rule set_put_row_const)
  have "keys_distinct mt_id (sd_materials db')" using d m'(2) by (simp add: m'(1) map_key_put_row_const)
  moreover have "\<forall>x\<in>set (sd_materials db'). budget_ok x" using ok b [OF m'(4,5)] by (auto simp: s db_ok_def)
  moreover have "owned_by (sd_materials db') k" if "owned_by (sd_materials db) k" for k
  proof -
    obtain i t mid n sv where k: "k = (i, t, mid, n, sv)" by (cases k)
    from that obtain x where x: "x \<in> set (sd_materials db)" "mt_id x = mid" "mt_tenant_id x = t" "mt_status x \<noteq> Deleted_material" by (auto simp: k owned_by_def)
    show ?thesis
    proof (cases "x = m")
      case True
      with x m'(2,3) nd [OF m'(4)] show ?thesis by (auto simp: k owned_by_def s)
    qed (use x in \<open>auto simp: k owned_by_def s\<close>)
  qed
  ultimately show ?thesis using ok unfolding db_ok_def v by blast
qed

lemma reaches_budget: "budget_ok m \<Longrightarrow> reaches s m' \<Longrightarrow> mt_max_attempts m' = mt_max_attempts m \<Longrightarrow> budget_ok m'"
  by (auto simp: budget_ok_def)

lemma parked_budget: "budget_ok m \<Longrightarrow> parked m m' \<Longrightarrow> mt_max_attempts m' = mt_max_attempts m \<Longrightarrow> budget_ok m'"
  by (auto simp: budget_ok_def parked_def split: if_splits)

lemma chain_ok_filter:
  assumes "chain_ok ks"
  shows "chain_ok (filter (\<lambda>(i, t, m, n, s). m \<noteq> mid) ks)"
proof -
  have "parent_ok (set (filter (\<lambda>(i, t, m, n, s). m \<noteq> mid) ks)) k" if "parent_ok (set ks) k" "fst (snd (snd k)) \<noteq> mid" for k
    using that by (fastforce simp: parent_ok_def split: option.splits)
  with assms show ?thesis by (auto simp: chain_ok_def distinct_map_filter)
qed

lemma parent_ok_mono: "parent_ok K k \<Longrightarrow> K \<subseteq> L \<Longrightarrow> parent_ok L k"
  unfolding parent_ok_def by (cases k) (fastforce split: option.splits)

lemma chain_ok_snoc:
  assumes "chain_ok ks" and "\<forall>(i', t', m', n', s')\<in>set ks. m' = m \<longrightarrow> n' < n" and "parent_ok (set ks) (i, t, m, n, s)"
  shows "chain_ok (ks @ [(i, t, m, n, s)])"
proof -
  have "(m, n) \<notin> (\<lambda>(i, t, m, n, s). (m, n)) ` set ks" using assms(2) by fastforce
  moreover have "parent_ok (set (ks @ [(i, t, m, n, s)])) k" if "k \<in> set (ks @ [(i, t, m, n, s)])" for k
  proof (rule parent_ok_mono)
    show "parent_ok (set ks) k" using that assms(1,3) by (auto simp: chain_ok_def)
  qed auto
  ultimately show ?thesis using assms(1) by (simp add: chain_ok_def)
qed

lemma deletes_db_ok:
  assumes ok: "db_ok db" and del: "deletes db m db' s" and g: "get_row mt_id (sd_materials db) (mt_id m) = Some m"
  shows "db_ok db'"
proof -
  from del obtain db1 where w: "commits db m db1 Deleted_material" and e: "sd_materials db' = sd_materials db1"
    "sd_versions db' = filter (\<lambda>v. \<not> (mv_tenant_id v = mt_tenant_id m \<and> mv_material_id v = mt_id m)) (sd_versions db1)" unfolding deletes_def by blast
  from w obtain m' where m': "sd_materials db1 = put_row mt_id (sd_materials db) (mt_id m) (\<lambda>_. m')" "mt_id m' = mt_id m" "mt_tenant_id m' = mt_tenant_id m" "reaches Deleted_material m'"
    "mt_max_attempts m' = mt_max_attempts m" and v: "map version_key (sd_versions db1) = map version_key (sd_versions db)" unfolding writes_material_def by blast
  have d: "keys_distinct mt_id (sd_materials db)" and mm: "m \<in> set (sd_materials db)" using ok get_row_SomeD [OF g] by (simp_all add: db_ok_def)
  have s: "set (sd_materials db') = insert m' (set (sd_materials db) - {m})" unfolding e m'(1) using d g by (rule set_put_row_const)
  let ?ks = "map version_key (sd_versions db)"
  have own: "owned_by (sd_materials db) k" if "k \<in> set ?ks" for k using ok that unfolding db_ok_def by blast
  have one: "x = m" if "x \<in> set (sd_materials db)" "mt_id x = mt_id m" for x using that mm d by (auto simp: distinct_map dest: inj_onD)
  have "map version_key (sd_versions db') = filter (\<lambda>(i, t, x, n, sv). \<not> (t = mt_tenant_id m \<and> x = mt_id m)) (map version_key (sd_versions db1))"
    by (simp add: e(2) filter_map version_key_def comp_def)
  also have "\<dots> = filter (\<lambda>(i, t, x, n, sv). x \<noteq> mt_id m) ?ks" unfolding v
    by (rule filter_cong) (use own one in \<open>fastforce simp: owned_by_def\<close>)+
  finally have ks: "map version_key (sd_versions db') = filter (\<lambda>(i, t, x, n, sv). x \<noteq> mt_id m) ?ks" .
  have "keys_distinct mt_id (sd_materials db')" using d m'(2) by (simp add: e m'(1) map_key_put_row_const)
  moreover have "\<forall>x\<in>set (sd_materials db'). budget_ok x" using ok reaches_budget [OF _ m'(4,5)] mm by (auto simp: s db_ok_def)
  moreover have "chain_ok (map version_key (sd_versions db'))" unfolding ks using ok by (intro chain_ok_filter) (simp add: db_ok_def)
  moreover have "owned_by (sd_materials db') k" if k: "k \<in> set (map version_key (sd_versions db'))" for k
  proof -
    obtain i t x n sv where kk: "k = (i, t, x, n, sv)" by (cases k)
    have "k \<in> set ?ks" "x \<noteq> mt_id m" using k unfolding ks kk by auto
    with own [of k] show ?thesis by (auto simp: kk owned_by_def s)
  qed
  ultimately show ?thesis unfolding db_ok_def by blast
qed

text \<open>An upload appends one version: the first of a new material, or one more of a material it sends back to the start.\<close>

lemma begin_upload_effect:
  assumes r: "begin_upload sg (sw_db w) w now new_mid vid eid tenant kb name source_type media nbytes sha256 created_by material_id read_only = (w', res)"
    and d: "keys_distinct mt_id (sd_materials (sw_db w))"
  obtains (refused) "sw_db w' = sw_db w"
    | (created) m where "sd_materials (sw_db w') = sd_materials (sw_db w) @ [m]" "map version_key (sd_versions (sw_db w')) = map version_key (sd_versions (sw_db w)) @ [(vid, tenant, new_mid, 1, None)]"
        "mt_id m = new_mid" "new_mid \<notin> mt_id ` set (sd_materials (sw_db w))" "mt_tenant_id m = tenant" "reaches Pending_upload m" "mt_max_attempts m = 5"
    | (extended) mid m db1 parent where "material_id = Some mid" "load_material (sw_db w) mid tenant = Inr m" "commits (sw_db w) m db1 Pending_upload" "sd_materials (sw_db w') = sd_materials db1"
        "newest (material_versions (sw_db w) mid) = Some parent" "map version_key (sd_versions (sw_db w')) = map version_key (sd_versions (sw_db w)) @
          [(vid, tenant, mid, next_version_number (map mv_version_number (material_versions (sw_db w) mid)), Some (mv_id parent))]"
proof (cases "res_bind (upload_target (sw_db w) (sw_db w) now new_mid tenant kb name source_type read_only material_id) (\<lambda>(db, m, row_version, number, parent).
     res_bind (insert_version db (new_version now vid tenant (mt_id m) number parent sha256 nbytes media created_by)) (\<lambda>db.
     res_bind (emit_material db now eid m row_version ''material.upload_requested'' [(''material_version_id'', JStr vid), (''version_number'', JInt number)]) (\<lambda>db. Inr (db, mt_id m, number))))")
  case (Inl e)
  with r have "w' = w" by (simp add: begin_upload_def)
  with refused show thesis by simp
next
  case (Inr p)
  then obtain a m rv number parent b where t: "upload_target (sw_db w) (sw_db w) now new_mid tenant kb name source_type read_only material_id = Inr (a, m, rv, number, parent)"
    and i: "insert_version a (new_version now vid tenant (mt_id m) number parent sha256 nbytes media created_by) = Inr b"
    and e: "\<exists>et pl. emit_material b now eid m rv et pl = Inr (fst p)"
    by (auto simp: res_bind_Inr_iff) blast
  have db: "sw_db w' = fst p" using r Inr by (cases p) (auto simp: begin_upload_def Let_def split: sum.splits)
  have mats: "sd_materials (sw_db w') = sd_materials a"
    and vers: "map version_key (sd_versions (sw_db w')) = map version_key (sd_versions a) @ [(vid, tenant, mt_id m, number, parent)]"
    using e emit_material_Inr i unfolding db by (fastforce simp: insert_version_def new_version_def version_key_def split: if_splits)+
  show thesis
  proof (cases material_id)
    case None
    with t have "sd_materials a = sd_materials (sw_db w) @ [m] \<and> sd_versions a = sd_versions (sw_db w) \<and> mt_id m = new_mid \<and> new_mid \<notin> mt_id ` set (sd_materials (sw_db w)) \<and>
       mt_tenant_id m = tenant \<and> reaches Pending_upload m \<and> mt_max_attempts m = 5 \<and> number = 1 \<and> parent = None"
      by (auto simp: upload_target_def Let_def split: if_splits)
    with mats vers show thesis by (intro created [of m]) auto
  next
    case (Some mid)
    with t obtain v where l: "load_material (sw_db w) mid tenant = Inr m" and v: "newest (material_versions (sw_db w) mid) = Some v" "parent = Some (mv_id v)"
      "number = next_version_number (map mv_version_number (material_versions (sw_db w) mid))" and c: "cas_material (sw_db w) m now (move_to Pending_upload) = Inr a"
      using load_material_id by (fastforce simp: upload_target_def res_bind_Inr_iff Let_def split: option.splits)
    have g: "get_row mt_id (sd_materials (sw_db w)) (mt_id m) = Some m" using l load_material_id [OF l] by (simp add: load_material_Inr)
    have wr: "commits (sw_db w) m a Pending_upload" using c by (rule cas_material_writes) (use d g in auto)
    then have "map version_key (sd_versions a) = map version_key (sd_versions (sw_db w))" by (simp add: writes_material_def)
    with vers v load_material_id [OF l] show thesis by (intro extended [OF Some l wr mats v(1)]) simp
  qed
qed

lemma newest_in_set: "newest vs = Some v \<Longrightarrow> v \<in> set vs"
proof -
  have "foldl (\<lambda>b x. if mv_version_number b < mv_version_number x then x else b) a xs \<in> insert a (set xs)" for a xs by (induction xs arbitrary: a) auto
  then show "newest vs = Some v \<Longrightarrow> v \<in> set vs" by (cases vs) (auto simp: newest_def)
qed

lemma material_versions_set: "set (material_versions db mid) = {v \<in> set (sd_versions db). mv_material_id v = mid}"
  by (auto simp: material_versions_def)

lemma next_version_number_above: "n \<in> set ns \<Longrightarrow> n < next_version_number ns"
proof -
  assume n: "n \<in> set ns"
  then have "n \<le> Max (set ns)" by (intro Max_ge) simp_all
  with n show "n < next_version_number ns" by (auto simp: next_version_number_def)
qed

lemma owned_by_append: "owned_by ms k \<Longrightarrow> owned_by (ms @ [m]) k"
  by (cases k) (auto simp: owned_by_def)

lemma db_ok_versions:
  assumes "db_ok db" and "sd_materials db' = sd_materials db" and "map version_key (sd_versions db') = map version_key (sd_versions db) @ [k]"
    and "chain_ok (map version_key (sd_versions db) @ [k])" and "owned_by (sd_materials db) k"
  shows "db_ok db'"
  using assms unfolding db_ok_def by auto

lemma begin_upload_db_ok:
  assumes ok: "db_ok (sw_db w)"
    and r: "begin_upload sg (sw_db w) w now new_mid vid eid tenant kb name source_type media nbytes sha256 created_by material_id read_only = (w', res)"
  shows "db_ok (sw_db w')"
proof -
  have d: "keys_distinct mt_id (sd_materials (sw_db w))" using ok by (simp add: db_ok_def)
  let ?ks = "map version_key (sd_versions (sw_db w))"
  have own: "owned_by (sd_materials (sw_db w)) k" if "k \<in> set ?ks" for k using ok that unfolding db_ok_def by blast
  from r d show ?thesis
  proof (cases rule: begin_upload_effect)
    case refused
    with ok show ?thesis by simp
  next
    case (created m)
    have "\<forall>(i', t', m', n', s')\<in>set ?ks. m' = new_mid \<longrightarrow> n' < 1" using own created(4) by (fastforce simp: owned_by_def)
    then have "chain_ok (?ks @ [(vid, tenant, new_mid, 1, None)])" using ok by (intro chain_ok_snoc) (auto simp: db_ok_def parent_ok_def)
    moreover have "owned_by (sd_materials (sw_db w) @ [m]) k" if "k \<in> set (?ks @ [(vid, tenant, new_mid, 1, None)])" for k
    proof (cases "k \<in> set ?ks")
      case True
      then show ?thesis by (rule own [THEN owned_by_append])
    next
      case False
      with that created(3,5,6) show ?thesis by (auto simp: owned_by_def)
    qed
    moreover have "budget_ok m" using created by (simp add: budget_ok_def)
    ultimately show ?thesis using ok created unfolding db_ok_def created(1,2) by auto
  next
    case (extended mid m db1 parent)
    have i: "mt_id m = mid" "mt_tenant_id m = tenant" and g: "get_row mt_id (sd_materials (sw_db w)) (mt_id m) = Some m"
      using extended(2) load_material_id [OF extended(2)] by (simp_all add: load_material_Inr)
    have mm: "m \<in> set (sd_materials (sw_db w))" using get_row_SomeD [OF g] by simp
    have ok1: "db_ok db1" using ok extended(3) g by (rule writes_db_ok) (use ok mm reaches_budget in \<open>auto simp: db_ok_def\<close>)
    have k1: "map version_key (sd_versions db1) = ?ks" using extended(3) by (simp add: writes_material_def)
    let ?n = "next_version_number (map mv_version_number (material_versions (sw_db w) mid))"
    have above: "n' < ?n" if "(i', t', mid, n', s') \<in> set ?ks" for i' t' n' s'
      using that by (intro next_version_number_above) (force simp: version_key_def material_versions_set)
    have p: "parent \<in> set (sd_versions (sw_db w))" "mv_material_id parent = mid" using newest_in_set [OF extended(5)] by (simp_all add: material_versions_set)
    then have pk: "(mv_id parent, mv_tenant_id parent, mid, mv_version_number parent, mv_source_version_id parent) \<in> set ?ks" by (force simp: version_key_def)
    then have "1 \<le> mv_version_number parent" using ok by (auto simp: db_ok_def chain_ok_def parent_ok_def split: option.splits)
    with above [OF pk] pk have "parent_ok (set ?ks) (vid, tenant, mid, ?n, Some (mv_id parent))" unfolding parent_ok_def prod.case option.case by (intro conjI bexI [OF _ pk]) simp_all
    moreover have "\<forall>(i', t', m', n', s')\<in>set ?ks. m' = mid \<longrightarrow> n' < ?n" using above by blast
    ultimately have "chain_ok (?ks @ [(vid, tenant, mid, ?n, Some (mv_id parent))])" using ok by (intro chain_ok_snoc) (simp_all add: db_ok_def)
    moreover have "owned_by (sd_materials db1) (vid, tenant, mid, ?n, Some (mv_id parent))"
    proof -
      from extended(3) g obtain m' where "get_row mt_id (sd_materials db1) (mt_id m) = Some m'" "mt_tenant_id m' = mt_tenant_id m" "reaches Pending_upload m'" by (rule written_row)
      then show ?thesis using i by (auto simp: owned_by_def dest!: get_row_SomeD intro!: bexI [of _ m'])
    qed
    ultimately show ?thesis using extended(4,6) unfolding k1 [symmetric] by (intro db_ok_versions [OF ok1]) simp_all
  qed
qed

text \<open>A request to delete and a recovery write the material row through \<open>writes_material\<close>, or nothing.\<close>

lemma request_delete_effect:
  assumes r: "request_delete sg (sw_db w) w now eid tenant mid = (w', res)" and d: "keys_distinct mt_id (sd_materials (sw_db w))"
  obtains (refused) "sw_db w' = sw_db w"
    | (doomed) m where "load_material (sw_db w) mid tenant = Inr m" "mt_status m \<noteq> Deleted_material" "commits (sw_db w) m (sw_db w') Deleting_material"
proof (cases "request_delete_session (sw_db w) (sw_db w) now eid tenant mid")
  case (Inl e)
  with r refused show thesis by (simp add: request_delete_def)
next
  case (Inr p)
  obtain db out where p: "p = (db, out)" by (rule prod.exhaust)
  obtain m where m: "load_material (sw_db w) mid tenant = Inr m" using Inr by (auto simp: request_delete_session_def res_bind_Inr_iff)
  have db: "sw_db w' = db" using r Inr p by (auto simp: request_delete_def Let_def split: if_splits prod.splits option.splits)
  from request_delete_session_effect [OF Inr [unfolded p] d m] show thesis
  proof (elim disjE conjE)
    assume "Deleting_material \<in> set (MATERIAL_SAGA_TRANSITIONS (mt_status m))" "commits (sw_db w) m db Deleting_material"
    then show thesis unfolding db [symmetric] by (intro doomed [OF m]) auto
  qed (use refused db in simp)
qed

lemma recover_effect:
  assumes r: "recover (sw_db w) w now eid tenant mid = (w', res)" and d: "keys_distinct mt_id (sd_materials (sw_db w))"
  obtains (refused) "sw_db w' = sw_db w"
    | (resumed) m s where "load_material (sw_db w) mid tenant = Inr m" "mt_status m = Error_material" "s \<in> {Available, Indexing, Pending_upload}" "commits (sw_db w) m (sw_db w') s"
proof (cases "load_material (sw_db w) mid tenant")
  case (Inl e)
  with r refused show thesis by (simp add: recover_def in_session_def)
next
  case (Inr m)
  have g: "get_row mt_id (sd_materials (sw_db w)) (mt_id m) = Some m" using Inr load_material_id [OF Inr] by (simp add: load_material_Inr)
  have "sw_db w' = sw_db w \<or> (mt_status m = Error_material \<and> (\<exists>o1 o2 a et pl. cas_material (sw_db w) m now (move_to (resume_status o1 o2)) = Inr a \<and>
     emit_material a now eid m (mt_version m + 1) et pl = Inr (sw_db w')))"
    using r Inr by (auto simp: recover_def in_session_def res_bind_def Let_def split: sum.splits if_splits option.splits prod.splits)
  then show thesis
  proof (elim disjE conjE exE)
    fix o1 o2 a et pl assume e: "mt_status m = Error_material" "cas_material (sw_db w) m now (move_to (resume_status o1 o2)) = Inr a" "emit_material a now eid m (mt_version m + 1) et pl = Inr (sw_db w')"
    have "commits (sw_db w) m a (resume_status o1 o2)" using e(2) by (rule cas_material_writes) (use d g in auto)
    then have "commits (sw_db w) m (sw_db w') (resume_status o1 o2)" using emit_material_Inr [OF e(3)] by (simp add: writes_material_def)
    then show thesis using e(1) by (intro resumed [OF Inr]) (auto simp: resume_status_def)
  qed (use refused in simp)
qed

lemma commits_db_ok:
  assumes "db_ok db" and "load_material db mid tenant = Inr m" and "commits db m db' s" and "s \<noteq> Deleted_material"
  shows "db_ok db'"
proof -
  have g: "get_row mt_id (sd_materials db) (mt_id m) = Some m" using assms(2) load_material_id [OF assms(2)] by (simp add: load_material_Inr)
  then have "budget_ok m" using assms(1) get_row_SomeD [OF g] by (simp add: db_ok_def)
  with assms(4) show ?thesis by (intro writes_db_ok [OF assms(1,3) g]) (auto intro: reaches_budget)
qed

lemma advance_db_ok:
  assumes ok: "db_ok (sw_db w)" and r: "advance_once sg undisturbed undisturbed w now nid eid tenant mid = (w', res)"
  shows "db_ok (sw_db w')"
proof (cases "load_material (sw_db w) mid tenant")
  case (Inl e)
  with r ok show ?thesis by (simp add: advance_once_def)
next
  case (Inr m)
  have g: "get_row mt_id (sd_materials (sw_db w)) (mt_id m) = Some m" using Inr load_material_id [OF Inr] by (simp add: load_material_Inr)
  have b: "budget_ok m" and d: "keys_distinct mt_id (sd_materials (sw_db w))" using ok get_row_SomeD [OF g] by (simp_all add: db_ok_def)
  from r d Inr show ?thesis
  proof (cases rule: advance_once_effect)
    case unchanged
    with ok show ?thesis by simp
  next
    case committed
    then obtain s where "s \<in> set (MATERIAL_SAGA_TRANSITIONS (mt_status m))" "commits (sw_db w) m (sw_db w') s" by (auto simp: stepped_def split: sum.splits)
    with committed(2) show ?thesis by (intro commits_db_ok [OF ok Inr]) auto
  next
    case (deleted out)
    then show ?thesis by (intro deletes_db_ok [OF ok _ g]) (auto simp: stepped_def)
  next
    case (parking out)
    have nd: "mt_status m' \<noteq> Deleted_material" if "parked m m'" for m' using that parking(3) by (auto simp: parked_def split: if_splits)
    show ?thesis using ok parking(2) g by (rule writes_db_ok) (use parked_budget [OF b] nd in blast)+
  qed
qed

lemma saga_op_db_ok: "db_ok (sw_db w) \<Longrightarrow> saga_op sg w w' \<Longrightarrow> db_ok (sw_db w')"
proof (erule saga_opE, goal_cases)
  case 1 then show ?case by (rule begin_upload_db_ok)
next
  case 2 then show ?case by (rule advance_db_ok)
next
  case (3 now eid tenant mid r)
  have d: "keys_distinct mt_id (sd_materials (sw_db w))" using 3(1) by (simp add: db_ok_def)
  from 3(2) d show ?case by (cases rule: request_delete_effect) (use 3(1) commits_db_ok in auto)
next
  case (4 now eid tenant mid r)
  have d: "keys_distinct mt_id (sd_materials (sw_db w))" using 4(1) by (simp add: db_ok_def)
  from 4(2) d show ?case by (cases rule: recover_effect) (use 4(1) commits_db_ok in auto)
qed

interpretation saga_system: invariant_system saga_init "saga_op sg" "\<lambda>w. db_ok (sw_db w)" for sg :: "'b saga"
proof
  show "db_ok (sw_db w)" if "saga_init w" for w :: "'b saga_world" using that by (simp add: saga_init_def db_ok_def chain_ok_def)
  show "db_ok (sw_db w')" if "db_ok (sw_db w)" "saga_op sg w w'" for w w' :: "'b saga_world" using that by (rule saga_op_db_ok)
qed

lemma other_row_kept:
  assumes "writes_material db x P db'" and "load_material db k t = Inr x" and "load_material db mid tenant = Inr m" and "mt_status x \<noteq> mt_status m"
  shows "load_material db' mid tenant = Inr m"
proof -
  have i: "mt_id x = k" "get_row mt_id (sd_materials db) (mt_id x) = Some x" using assms(2) load_material_id [OF assms(2)] by (simp_all add: load_material_Inr)
  have "mid \<noteq> k" using assms(2-4) by (auto simp: load_material_Inr)
  moreover from assms(1) i(2) obtain x' where "\<forall>j. j \<noteq> mt_id x \<longrightarrow> get_row mt_id (sd_materials db') j = get_row mt_id (sd_materials db) j" by (rule written_row)
  ultimately show ?thesis using assms(3) i(1) by (simp add: load_material_def)
qed

text \<open>No operation touches a tombstone: no version is left to extend it from.\<close>

lemma tombstone_kept:
  assumes ok: "db_ok (sw_db w)" and m: "load_material (sw_db w) mid tenant = Inr m" "mt_status m = Deleted_material" and op: "saga_op sg w w'"
  shows "load_material (sw_db w') mid tenant = Inr m"
proof -
  have d: "keys_distinct mt_id (sd_materials (sw_db w))" using ok by (simp add: db_ok_def)
  have same: "load_material (sw_db w') mid tenant = Inr m" if "sd_materials (sw_db w') = sd_materials (sw_db w)" using that m(1) by (simp add: load_material_def)
  from op show ?thesis
  proof (cases rule: saga_op.cases)
    case (op_begin now new_mid vid eid t kb name source_type media nbytes sha256 created_by material_id read_only r)
    from op_begin d show ?thesis
    proof (cases rule: begin_upload_effect)
      case (created x)
      with m(1) show ?thesis by (auto simp: load_material_Inr get_row_append)
    next
      case (extended k x db1 parent)
      have "mv_material_id parent = k" "parent \<in> set (sd_versions (sw_db w))" using newest_in_set [OF extended(5)] by (simp_all add: material_versions_set)
      then have "owned_by (sd_materials (sw_db w)) (version_key parent)" using ok by (simp add: db_ok_def)
      then obtain y where "y \<in> set (sd_materials (sw_db w))" "mt_id y = k" "mt_status y \<noteq> Deleted_material"
        using \<open>mv_material_id parent = k\<close> by (auto simp: owned_by_def version_key_def)
      then have "mt_status x \<noteq> mt_status m" using extended(2) m(2) get_row_in_set [OF d] by (fastforce simp: load_material_Inr)
      from other_row_kept [OF extended(3,2) m(1) this] extended(4) show ?thesis by (simp add: load_material_def)
    qed (use same in simp)
  next
    case (op_advance now nid eid t k r)
    show ?thesis
    proof (cases "load_material (sw_db w) k t")
      case (Inl e)
      with op_advance same show ?thesis by (simp add: advance_once_def)
    next
      case (Inr x)
      from op_advance d Inr show ?thesis
      proof (cases rule: advance_once_effect)
        case committed
        then obtain s where "commits (sw_db w) x (sw_db w') s" by (auto simp: stepped_def split: sum.splits)
        from other_row_kept [OF this Inr m(1)] committed(2) m(2) show ?thesis by auto
      next
        case (deleted out)
        then obtain db1 where c: "commits (sw_db w) x db1 Deleted_material" "sd_materials (sw_db w') = sd_materials db1" by (auto simp: stepped_def deletes_def)
        from other_row_kept [OF c(1) Inr m(1)] deleted(3) m(2) c(2) show ?thesis by (simp add: load_material_def)
      next
        case (parking out)
        from other_row_kept [OF parking(2) Inr m(1)] parking(3) m(2) show ?thesis by auto
      qed (use same in simp)
    qed
  next
    case (op_delete now eid t k r)
    from op_delete d show ?thesis by (cases rule: request_delete_effect) (use same other_row_kept [OF _ _ m(1)] m(2) in auto)
  next
    case (op_recover now eid t k r)
    from op_recover d show ?thesis by (cases rule: recover_effect) (use same other_row_kept [OF _ _ m(1)] m(2) in auto)
  qed
qed

section \<open>A sample world\<close>

definition sample_material :: "material_status \<Rightarrow> material" where
  "sample_material s = \<lparr>mt_id = ''mat'', mt_tenant_id = ''t1'', mt_knowledge_base_id = Some ''k1'', mt_name = ''n'', mt_source_type = ''upload'', mt_status = s,
     mt_active_version_id = None, mt_read_only = False, mt_attempts = 0, mt_max_attempts = 5, mt_next_attempt_at = None, mt_last_error_code = None, mt_updated_at = 0, mt_version = 3\<rparr>"

definition sample_version :: "string \<Rightarrow> int \<Rightarrow> ident option \<Rightarrow> material_version" where
  "sample_version i n parent = \<lparr>mv_id = i, mv_tenant_id = ''t1'', mv_material_id = ''mat'', mv_version_number = n, mv_source_version_id = parent, mv_object_version_id = Some (''o'' @ i),
     mv_sha256 = ''ab'', mv_size_bytes = 1, mv_media_type = ''text/plain'', mv_status = V_scanning, mv_created_by = ''u'', mv_updated_at = 0, mv_version = 1\<rparr>"

definition sample_object :: "string \<Rightarrow> object_version" where
  "sample_object i = \<lparr>ov_id = ''o'' @ i, ov_tenant_id = ''t1'', ov_material_id = ''mat'', ov_material_version_id = Some i, ov_bucket_alias = ''materials'', ov_object_key = ''key'' @ i,
     ov_provider_version_id = ''1'', ov_sha256 = ''ab'', ov_size_bytes = 1, ov_media_type = ''text/plain'', ov_encryption_algorithm = ''AES256'', ov_scan_status = ''pending'',
     ov_deletion_state = ''retained'', ov_updated_at = 0, ov_version = 1\<rparr>"

definition sample_db :: "material_status \<Rightarrow> saga_db" where
  "sample_db s = \<lparr>sd_materials = [sample_material s], sd_versions = [sample_version ''1'' 1 None, sample_version ''2'' 2 (Some ''1'')],
     sd_objects = [sample_object ''1'', sample_object ''2''], sd_embeddings = [], sd_outbox = []\<rparr>"

definition sample_world :: "material_status \<Rightarrow> memory_bucket saga_world" where
  "sample_world s = \<lparr>sw_db = sample_db s, sw_index = \<lparr>vw_manifests = [sample_manifest ''1'' True], vw_rows = [sample_row ''1'' True, sample_row ''2'' False]\<rparr>, sw_bucket = ([(derive_object_key (\<lambda>_. padded) ''t1'' ''mat'' ''1'', ''1''), (''other'', ''9'')], [])\<rparr>"

definition sample_saga :: "memory_bucket saga" where
  "sample_saga = \<lparr>sg_sha256 = id, sg_hmac = (\<lambda>_. padded), sg_s3 = memory_s3, sg_vectors = memory_client, sg_chunker = (\<lambda>_. []), sg_retry_backoff = 30\<rparr>"

lemmas sample_saga_defs = sample_material_def sample_version_def sample_object_def sample_db_def sample_world_def sample_saga_def

section \<open>Properties\<close>

text \<open>C14. One undisturbed call of the driver moves a material along the table of legal transitions or leaves its status: a material that is being deleted can only become deleted,
  whatever fails and however often; what the call reports is what happened to the row; and no other material changes.\<close>

theorem step_follows_table:
  assumes d: "keys_distinct mt_id (sd_materials (sw_db w))" and m: "load_material (sw_db w) mid tenant = Inr m"
    and r: "advance_once sg undisturbed undisturbed w now nid eid tenant mid = (w', res)"
  shows "\<exists>m'. load_material (sw_db w') mid tenant = Inr m' \<and>
    (mt_status m' = mt_status m \<or> (mt_status m' \<in> set (MATERIAL_SAGA_TRANSITIONS (mt_status m)) \<and> mt_version m' = mt_version m + 1)) \<and>
    (mt_status m = Deleting_material \<longrightarrow> mt_status m' \<in> {Deleting_material, Deleted_material}) \<and>
    (\<forall>out. res = Inr out \<longrightarrow> so_from_status out = mt_status m \<and> so_to_status out = mt_status m' \<and> so_changed out = (mt_status m' \<noteq> mt_status m)) \<and>
    (\<forall>k. k \<noteq> mid \<longrightarrow> get_row mt_id (sd_materials (sw_db w')) k = get_row mt_id (sd_materials (sw_db w)) k)"
proof -
  have i: "mt_id m = mid" "mt_tenant_id m = tenant" and g: "get_row mt_id (sd_materials (sw_db w)) (mt_id m) = Some m"
    using m load_material_id [OF m] by (simp_all add: load_material_Inr)
  have irr: "s \<in> set (MATERIAL_SAGA_TRANSITIONS (mt_status m)) \<Longrightarrow> s \<noteq> mt_status m" for s by (cases "mt_status m") auto
  from r d m show ?thesis
  proof (cases rule: advance_once_effect)
    case unchanged
    with m show ?thesis by (auto simp: load_material_def)
  next
    case committed
    then obtain s where s: "s \<in> set (MATERIAL_SAGA_TRANSITIONS (mt_status m))" "commits (sw_db w) m (sw_db w') s" "\<forall>out. res = Inr out \<longrightarrow> so_from_status out = mt_status m \<and> so_to_status out = s \<and> so_changed out"
      by (auto simp: stepped_def split: sum.splits)
    from s(2) g obtain m' where "get_row mt_id (sd_materials (sw_db w')) (mt_id m) = Some m'" "mt_tenant_id m' = mt_tenant_id m" "reaches s m'" "mt_version m' = mt_version m + 1"
      "\<forall>k. k \<noteq> mt_id m \<longrightarrow> get_row mt_id (sd_materials (sw_db w')) k = get_row mt_id (sd_materials (sw_db w)) k" by (rule written_row)
    then show ?thesis using s irr i committed(2) by (intro exI [of _ m']) (auto simp: load_material_Inr)
  next
    case (deleted out)
    then obtain db1 where "commits (sw_db w) m db1 Deleted_material" and e: "sd_materials (sw_db w') = sd_materials db1" and o: "so_from_status out = mt_status m" "so_changed out" "so_to_status out = Deleted_material"
      by (auto simp: stepped_def deletes_def)
    from this(1) g obtain m' where "get_row mt_id (sd_materials (sw_db w')) (mt_id m) = Some m'" "mt_tenant_id m' = mt_tenant_id m" "reaches Deleted_material m'" "mt_version m' = mt_version m + 1"
      "\<forall>k. k \<noteq> mt_id m \<longrightarrow> get_row mt_id (sd_materials (sw_db w')) k = get_row mt_id (sd_materials (sw_db w)) k" unfolding e by (rule written_row)
    then show ?thesis using o deleted(1,3) i by (intro exI [of _ m']) (auto simp: load_material_Inr)
  next
    case (parking out)
    from parking(2) g obtain m' where "get_row mt_id (sd_materials (sw_db w')) (mt_id m) = Some m'" "mt_tenant_id m' = mt_tenant_id m" "parked m m'" "mt_version m' = mt_version m + 1"
      "\<forall>k. k \<noteq> mt_id m \<longrightarrow> get_row mt_id (sd_materials (sw_db w')) k = get_row mt_id (sd_materials (sw_db w)) k" by (rule written_row)
    then show ?thesis using parking(1,3-6) i by (intro exI [of _ m']) (auto simp: load_material_Inr parked_def)
  qed
qed

theorem step_follows_table_witness:
  "\<exists>m'. load_material (sw_db (fst (advance_once sample_saga undisturbed undisturbed (sample_world Deleting_material) 5 ''n'' ''e'' ''t1'' ''mat''))) ''mat'' ''t1'' = Inr m' \<and>
     mt_status m' \<in> {Deleting_material, Deleted_material}"
proof -
  have "keys_distinct mt_id (sd_materials (sw_db (sample_world Deleting_material)))" "load_material (sw_db (sample_world Deleting_material)) ''mat'' ''t1'' = Inr (sample_material Deleting_material)"
    by (simp_all add: sample_saga_defs load_material_def)
  from step_follows_table [OF this prod.collapse [symmetric], of sample_saga 5 "''n''" "''e''"] show ?thesis
    by (auto simp: sample_material_def)
qed

text \<open>C29. In every history of uploads, steps, deletions and recoveries, one operation at a time: a material that is neither parked in \<open>error\<close> nor being deleted has budget left;
  version numbers never repeat in a material; a first version has number 1 and every other one descends from an older version of the same material;
  and a version row always belongs to a material of its tenant that is not deleted.\<close>

theorem histories_are_sound:
  assumes "reach saga_init (saga_op sg) w"
  shows "(\<forall>m\<in>set (sd_materials (sw_db w)). mt_status m \<notin> {Error_material, Deleting_material} \<longrightarrow> mt_attempts m < mt_max_attempts m) \<and>
    distinct (map (\<lambda>v. (mv_material_id v, mv_version_number v)) (sd_versions (sw_db w))) \<and>
    (\<forall>v\<in>set (sd_versions (sw_db w)). (case mv_source_version_id v of None \<Rightarrow> mv_version_number v = 1
       | Some p \<Rightarrow> \<exists>u\<in>set (sd_versions (sw_db w)). mv_id u = p \<and> mv_material_id u = mv_material_id v \<and> mv_version_number u < mv_version_number v) \<and>
       (\<exists>m\<in>set (sd_materials (sw_db w)). mt_id m = mv_material_id v \<and> mt_tenant_id m = mv_tenant_id v \<and> mt_status m \<noteq> Deleted_material))"
proof -
  have ok: "db_ok (sw_db w)" using assms by (rule saga_system.reach_inv)
  have "distinct (map (\<lambda>v. (mv_material_id v, mv_version_number v)) (sd_versions (sw_db w)))"
    using ok by (simp add: db_ok_def chain_ok_def comp_def version_key_def)
  moreover have "case mv_source_version_id v of None \<Rightarrow> mv_version_number v = 1
       | Some p \<Rightarrow> \<exists>u\<in>set (sd_versions (sw_db w)). mv_id u = p \<and> mv_material_id u = mv_material_id v \<and> mv_version_number u < mv_version_number v" if "v \<in> set (sd_versions (sw_db w))" for v
  proof -
    have "parent_ok (version_key ` set (sd_versions (sw_db w))) (version_key v)" using ok that by (simp add: db_ok_def chain_ok_def)
    then show ?thesis by (auto simp: parent_ok_def version_key_def split: option.splits)
  qed
  moreover have "\<exists>m\<in>set (sd_materials (sw_db w)). mt_id m = mv_material_id v \<and> mt_tenant_id m = mv_tenant_id v \<and> mt_status m \<noteq> Deleted_material" if "v \<in> set (sd_versions (sw_db w))" for v
    using ok that by (force simp: db_ok_def owned_by_def version_key_def)
  ultimately show ?thesis using ok by (auto simp: db_ok_def budget_ok_def)
qed

definition empty_world :: "memory_bucket saga_world" where
  "empty_world = \<lparr>sw_db = \<lparr>sd_materials = [], sd_versions = [], sd_objects = [], sd_embeddings = [], sd_outbox = []\<rparr>, sw_index = \<lparr>vw_manifests = [], vw_rows = []\<rparr>, sw_bucket = ([], [])\<rparr>"

definition uploaded_world :: "memory_bucket saga_world" where
  "uploaded_world = fst (begin_upload sample_saga (sw_db empty_world) empty_world 1 ''m1'' ''v1'' ''e1'' ''t1'' ''k1'' ''n'' ''upload'' ''text/plain'' 3 ''AB'' ''u'' None False)"

lemma uploaded_world_reach: "reach saga_init (saga_op sample_saga) uploaded_world"
proof -
  have "saga_op sample_saga empty_world uploaded_world" unfolding uploaded_world_def by (rule op_begin [OF prod.collapse [symmetric]])
  then show ?thesis using reach_init [of saga_init empty_world "saga_op sample_saga"] by (auto simp: saga_init_def empty_world_def)
qed

theorem histories_are_sound_witness:
  "distinct (map (\<lambda>v. (mv_material_id v, mv_version_number v)) (sd_versions (sw_db uploaded_world))) \<and> length (sd_versions (sw_db uploaded_world)) = 1"
  using histories_are_sound [OF uploaded_world_reach] by (intro conjI) (simp, code_simp)

text \<open>A tombstone is final: once a material is \<open>deleted\<close>, no sequence of uploads, steps, deletions and recoveries changes its row again.\<close>

theorem tombstone_is_final:
  assumes "reach saga_init (saga_op sg) w" and "(saga_op sg)\<^sup>*\<^sup>* w w'" and "load_material (sw_db w) mid tenant = Inr m" and "mt_status m = Deleted_material"
  shows "load_material (sw_db w') mid tenant = Inr m"
  using assms(2)
proof (induction rule: rtranclp_induct)
  case base
  show ?case by (rule assms(3))
next
  case (step y z)
  have "db_ok (sw_db w)" using assms(1) by (rule saga_system.reach_inv)
  then have "db_ok (sw_db y)" using saga_system.steps_inv [OF step(1)] by simp
  then show ?case using step(3) assms(4) step(2) by (rule tombstone_kept)
qed

definition doomed_world :: "memory_bucket saga_world" where
  "doomed_world = fst (request_delete sample_saga (sw_db uploaded_world) uploaded_world 2 ''e2'' ''t1'' ''m1'')"

definition deleted_world :: "memory_bucket saga_world" where
  "deleted_world = fst (advance_once sample_saga undisturbed undisturbed doomed_world 3 ''n'' ''e3'' ''t1'' ''m1'')"

definition retried_world :: "memory_bucket saga_world" where
  "retried_world = fst (begin_upload sample_saga (sw_db deleted_world) deleted_world 4 ''m2'' ''v2'' ''e4'' ''t1'' ''k1'' ''n'' ''upload'' ''text/plain'' 3 ''AB'' ''u'' (Some ''m1'') False)"

theorem tombstone_is_final_witness:
  "\<exists>m. load_material (sw_db deleted_world) ''m1'' ''t1'' = Inr m \<and> mt_status m = Deleted_material \<and> load_material (sw_db retried_world) ''m1'' ''t1'' = Inr m"
proof -
  have "saga_op sample_saga uploaded_world doomed_world" unfolding doomed_world_def by (rule op_delete [OF prod.collapse [symmetric]])
  moreover have "saga_op sample_saga doomed_world deleted_world" unfolding deleted_world_def by (rule op_advance [OF prod.collapse [symmetric]])
  ultimately have r: "reach saga_init (saga_op sample_saga) deleted_world" using uploaded_world_reach by blast
  have s: "(saga_op sample_saga)\<^sup>*\<^sup>* deleted_world retried_world" unfolding retried_world_def by (rule r_into_rtranclp, rule op_begin [OF prod.collapse [symmetric]])
  have "case load_material (sw_db deleted_world) ''m1'' ''t1'' of Inr m \<Rightarrow> mt_status m = Deleted_material | Inl _ \<Rightarrow> False" by code_simp
  then obtain m where "load_material (sw_db deleted_world) ''m1'' ''t1'' = Inr m" "mt_status m = Deleted_material" by (auto split: sum.splits)
  with tombstone_is_final [OF r s this] show ?thesis by blast
qed



text \<open>A deletion that is requested after the driver has read \<open>scanning\<close> and before the scan's transaction starts is overwritten: the transaction does not look at the status it finds,
  so when it commits, the material that was being deleted is in \<open>indexing\<close> (or in \<open>error\<close>) and the caller is told it moved from \<open>scanning\<close>.\<close>

theorem scan_overrides_deletion:
  assumes "load_material (sw_db w) mid tenant = Inr m" and "mt_status m = Scanning" and "gap w = (wd, wd)" and d: "keys_distinct mt_id (sd_materials (sw_db wd))"
    and md: "load_material (sw_db wd) mid tenant = Inr md" and "mt_status md = Deleting_material" and s: "scan_session (sw_db wd) (sw_db wd) now eid tenant mid = Inr (db, out)"
  shows "advance_once sg gap gap2 w now nid eid tenant mid = (wd\<lparr>sw_db := db\<rparr>, Inr out) \<and> so_from_status out = Scanning \<and>
    (\<exists>m'. load_material db mid tenant = Inr m' \<and> mt_status m' = so_to_status out \<and> mt_status m' \<in> {Indexing, Error_material})"
proof -
  have g: "get_row mt_id (sd_materials (sw_db wd)) (mt_id md) = Some md" "mt_id md = mid" "mt_tenant_id md = tenant" using md load_material_id [OF md] by (simp_all add: load_material_Inr)
  from scan_session_effect [OF s d md] obtain q et where q: "q \<in> {Indexing, Error_material}" "commits (sw_db wd) md db q" "out = moved Scanning q et" by blast
  from q(2) g(1) obtain m' where "get_row mt_id (sd_materials db) (mt_id md) = Some m'" "mt_tenant_id m' = mt_tenant_id md" "reaches q m'" by (rule written_row)
  moreover have "advance_once sg gap gap2 w now nid eid tenant mid = (wd\<lparr>sw_db := db\<rparr>, Inr out)"
    using assms(1-3) s by (simp add: advance_once_def TERMINAL_STATUSES_def saga_handler_def step_scan_def in_session_def)
  ultimately show ?thesis using q g by (auto simp: load_material_Inr)
qed

definition requested_world :: "memory_bucket saga_world" where
  "requested_world = fst (request_delete sample_saga (sw_db (sample_world Scanning)) (sample_world Scanning) 4 ''e1'' ''t1'' ''mat'')"

theorem scan_overrides_deletion_witness:
  "\<exists>w' out m'. request_delete sample_saga (sw_db (sample_world Scanning)) (sample_world Scanning) 4 ''e1'' ''t1'' ''mat'' = (requested_world, Inr (moved Scanning Deleting_material ''material.delete_requested'')) \<and>
     advance_once sample_saga (\<lambda>_. (requested_world, requested_world)) undisturbed (sample_world Scanning) 5 ''n'' ''e2'' ''t1'' ''mat'' = (w', Inr out) \<and>
     load_material (sw_db w') ''mat'' ''t1'' = Inr m' \<and> mt_status m' \<in> {Indexing, Error_material}"
proof -
  let ?s = "scan_session (sw_db requested_world) (sw_db requested_world) 5 ''e2'' ''t1'' ''mat''"
  have "snd (request_delete sample_saga (sw_db (sample_world Scanning)) (sample_world Scanning) 4 ''e1'' ''t1'' ''mat'') = Inr (moved Scanning Deleting_material ''material.delete_requested'')"
    by code_simp
  then have rq: "request_delete sample_saga (sw_db (sample_world Scanning)) (sample_world Scanning) 4 ''e1'' ''t1'' ''mat'' = (requested_world, Inr (moved Scanning Deleting_material ''material.delete_requested''))"
    by (metis prod.collapse requested_world_def)
  have a: "load_material (sw_db (sample_world Scanning)) ''mat'' ''t1'' = Inr (sample_material Scanning)" "mt_status (sample_material Scanning) = Scanning"
    by (simp_all add: sample_saga_defs load_material_def)
  have d: "keys_distinct mt_id (sd_materials (sw_db requested_world))" by code_simp
  have "case load_material (sw_db requested_world) ''mat'' ''t1'' of Inr m \<Rightarrow> mt_status m = Deleting_material | Inl _ \<Rightarrow> False" by code_simp
  then obtain md where md: "load_material (sw_db requested_world) ''mat'' ''t1'' = Inr md" "mt_status md = Deleting_material" by (auto split: sum.splits)
  have "\<not> isl ?s" by code_simp
  then obtain db out where s: "?s = Inr (db, out)" by (cases ?s) auto
  from scan_overrides_deletion [OF a refl d md s, of sample_saga undisturbed "''n''"] rq show ?thesis by fastforce
qed

end
