(* ===== verification/Reconciliation.thy ===== *)
theory Reconciliation
  imports Material_Saga
begin

text \<open>
  Cross-store reconciliation (\<open>storage/reconciliation.py\<close>): a sweep compares the rows of PostgreSQL with the bucket and with the collection,
  records what disagrees as issues and, when asked to, repairs it. The world is that of the saga with the table of issues beside it. Sweeps run alone,
  except that the correction of a pointer takes the \<open>gap\<close> between its read and its write.
\<close>

section \<open>Issues and reports\<close>

datatype issue_state = Issue_open | Issue_repairing | Issue_repaired | Issue_manual_required

record recon_issue =
  rc_id :: ident
  rc_tenant_id :: string
  rc_store_pair :: string
  rc_issue_kind :: string
  rc_resource_kind :: string
  rc_resource_id :: string
  rc_version_id :: string
  rc_observed_fingerprint :: string
  rc_expected_fingerprint :: string
  rc_severity :: string
  rc_state :: issue_state
  rc_attempts :: int
  rc_max_attempts :: int
  rc_next_attempt_at :: "instant option"
  rc_last_error_code :: "string option"
  rc_resolution :: "string option"
  rc_updated_at :: instant
  rc_resolved_at :: "instant option"
  rc_version :: int

definition PAIR_OBJECT :: string where "PAIR_OBJECT = ''postgres_object''"
definition PAIR_MILVUS :: string where "PAIR_MILVUS = ''postgres_milvus''"
definition PAIR_CROSS :: string where "PAIR_CROSS = ''object_milvus''"
definition NO_VERSION_SENTINEL :: string where "NO_VERSION_SENTINEL = []"

definition ISSUE_SEVERITY :: "string \<Rightarrow> string" where
  "ISSUE_SEVERITY k = (if k = ''orphan_object'' then ''warning'' else ''critical'')"

definition LIVE_VERSION_STATUSES :: "version_status list" where
  "LIVE_VERSION_STATUSES = [V_scanning, V_indexing, V_available, V_superseded]"

record sweep_report =
  sr_tenant_id :: string
  sr_checked_versions :: nat
  sr_checked_manifests :: nat
  sr_opened :: "string list"
  sr_reopened :: "string list"
  sr_repaired :: "string list"
  sr_escalated :: "string list"

definition report_findings :: "sweep_report \<Rightarrow> nat" where
  "report_findings r = length (sr_opened r) + length (sr_reopened r)"

definition report_kinds :: "sweep_report \<Rightarrow> string set" where
  "report_kinds r = takeWhile (\<lambda>c. c \<noteq> CHR '':'') ` set (sr_opened r @ sr_reopened r)"

text \<open>What ends a sweep: a store that cannot be reached, an error that is not turned into one, a duplicate row, a call that does not return.\<close>

datatype recon_error = Recon_unavailable | Recon_index index_error | Recon_integrity | Recon_not_returned

record 'b recon_world =
  rw_saga :: "'b saga_world"
  rw_issues :: "recon_issue list"

record 'b reconciler =
  rl_hmac :: "string \<Rightarrow> string \<Rightarrow> string"
  rl_s3 :: "'b s3_client"
  rl_vectors :: vclient
  rl_max_attempts :: int
  rl_retry_backoff :: duration

type_synonym 'b recon_step = "'b recon_world \<Rightarrow> sweep_report \<Rightarrow> 'b recon_world \<times> (recon_error + sweep_report)"

text \<open>A loop whose body may end the sweep.\<close>

fun each :: "('a \<Rightarrow> 'b recon_step) \<Rightarrow> 'a list \<Rightarrow> 'b recon_step" where
  "each f [] w rep = (w, Inr rep)"
| "each f (x # xs) w rep = (case f x w rep of
     (w, Inl e) \<Rightarrow> (w, Inl e)
   | (w, Inr rep) \<Rightarrow> each f xs w rep)"

definition and_then :: "'b recon_step \<Rightarrow> 'b recon_step \<Rightarrow> 'b recon_step" where
  "and_then f g w rep = (case f w rep of (w, Inl e) \<Rightarrow> (w, Inl e) | (w, Inr rep) \<Rightarrow> g w rep)"

section \<open>The table of issues\<close>

record finding =
  fd_store_pair :: string
  fd_issue_kind :: string
  fd_resource_kind :: string
  fd_resource_id :: string
  fd_version_id :: string
  fd_expected :: string
  fd_observed :: string

definition natural_key :: "recon_issue \<Rightarrow> string list" where
  "natural_key i = [rc_tenant_id i, rc_store_pair i, rc_issue_kind i, rc_resource_kind i, rc_resource_id i, rc_version_id i]"

definition finding_key :: "string \<Rightarrow> finding \<Rightarrow> string list" where
  "finding_key tenant f = [tenant, fd_store_pair f, fd_issue_kind f, fd_resource_kind f, fd_resource_id f, fd_version_id f]"

definition entry_of :: "finding \<Rightarrow> string" where
  "entry_of f = fd_issue_kind f @ '':'' @ fd_resource_id f"

definition reopen :: "instant \<Rightarrow> finding \<Rightarrow> recon_issue \<Rightarrow> recon_issue" where
  "reopen now f i = i\<lparr>rc_state := Issue_open, rc_observed_fingerprint := fd_observed f, rc_expected_fingerprint := fd_expected f,
     rc_severity := ISSUE_SEVERITY (fd_issue_kind f), rc_updated_at := now, rc_resolved_at := None, rc_version := rc_version i + 1\<rparr>"

definition new_issue :: "int \<Rightarrow> instant \<Rightarrow> ident \<Rightarrow> string \<Rightarrow> finding \<Rightarrow> recon_issue" where
  "new_issue max_attempts now i tenant f =
     \<lparr>rc_id = i, rc_tenant_id = tenant, rc_store_pair = fd_store_pair f, rc_issue_kind = fd_issue_kind f, rc_resource_kind = fd_resource_kind f,
      rc_resource_id = fd_resource_id f, rc_version_id = fd_version_id f, rc_observed_fingerprint = fd_observed f,
      rc_expected_fingerprint = fd_expected f, rc_severity = ISSUE_SEVERITY (fd_issue_kind f), rc_state = Issue_open, rc_attempts = 0,
      rc_max_attempts = max_attempts, rc_next_attempt_at = None, rc_last_error_code = None, rc_resolution = None, rc_updated_at = now,
      rc_resolved_at = None, rc_version = 1\<rparr>"

text \<open>The id of the issue that now stands for the finding. \<open>fresh\<close> gives the generated ids.\<close>

definition upsert_issue :: "int \<Rightarrow> instant \<Rightarrow> (nat \<Rightarrow> ident) \<Rightarrow> string \<Rightarrow> finding \<Rightarrow> recon_issue list \<Rightarrow> sweep_report \<Rightarrow> recon_issue list \<times> (recon_error + ident \<times> sweep_report)" where
  "upsert_issue max_attempts now fresh tenant f t rep = (case find (\<lambda>i. natural_key i = finding_key tenant f) t of
     Some i \<Rightarrow>
       (let rep = (if rc_state i \<in> {Issue_repaired, Issue_manual_required} then rep\<lparr>sr_reopened := sr_reopened rep @ [entry_of f]\<rparr>
                   else rep\<lparr>sr_opened := sr_opened rep @ [entry_of f]\<rparr>)
        in (put_row rc_id t (rc_id i) (reopen now f), Inr (rc_id i, rep)))
   | None \<Rightarrow>
       (let i = new_issue max_attempts now (fresh (length t)) tenant f in
        if rc_id i \<in> rc_id ` set t then (t, Inl Recon_integrity)
        else (t @ [i], Inr (rc_id i, rep\<lparr>sr_opened := sr_opened rep @ [entry_of f]\<rparr>))))"

definition resolve_issue :: "instant \<Rightarrow> recon_issue list \<Rightarrow> ident \<Rightarrow> string \<Rightarrow> recon_issue list" where
  "resolve_issue now t i resolution = put_row rc_id t i (\<lambda>r. r\<lparr>rc_state := Issue_repaired, rc_resolution := Some (take 500 resolution),
     rc_resolved_at := Some now, rc_updated_at := now, rc_next_attempt_at := None, rc_last_error_code := None, rc_version := rc_version r + 1\<rparr>)"

definition escalate_issue :: "instant \<Rightarrow> recon_issue list \<Rightarrow> ident \<Rightarrow> string \<Rightarrow> recon_issue list" where
  "escalate_issue now t i reason = put_row rc_id t i (\<lambda>r. r\<lparr>rc_state := Issue_manual_required, rc_resolution := Some (take 500 reason),
     rc_resolved_at := Some now, rc_updated_at := now, rc_next_attempt_at := None, rc_version := rc_version r + 1\<rparr>)"

definition fail_attempt :: "duration \<Rightarrow> instant \<Rightarrow> recon_issue list \<Rightarrow> ident \<Rightarrow> string \<Rightarrow> recon_issue list" where
  "fail_attempt backoff now t i error_code = put_row rc_id t i (\<lambda>r.
     let r = r\<lparr>rc_attempts := rc_attempts r + 1, rc_last_error_code := Some (take 80 error_code), rc_updated_at := now, rc_version := rc_version r + 1\<rparr> in
     if rc_max_attempts r \<le> rc_attempts r
     then r\<lparr>rc_state := Issue_manual_required,
       rc_resolution := Some (take 500 (''automatic repair failed '' @ show_int (rc_attempts r) @ '' times ('' @ error_code @ ''); manual intervention required'')),
       rc_resolved_at := Some now, rc_next_attempt_at := None\<rparr>
     else r\<lparr>rc_state := Issue_open, rc_next_attempt_at := Some (now + backoff * of_int (rc_attempts r))\<rparr>)"

section \<open>Recording a finding\<close>

text \<open>A repair ends with a resolution, with \<open>ManualRepairRequired\<close>, with another exception (its class name), or not at all.\<close>

datatype repair_fault = Manual_repair_required string | Repair_failed string | Repair_not_returned

type_synonym 'b repair = "'b saga_world \<Rightarrow> 'b saga_world \<times> (repair_fault + string)"

definition record_finding :: "'b reconciler \<Rightarrow> instant \<Rightarrow> (nat \<Rightarrow> ident) \<Rightarrow> string \<Rightarrow> finding \<Rightarrow> 'b repair option \<Rightarrow> 'b recon_step" where
  "record_finding rl now fresh tenant f repair w rep = (case upsert_issue (rl_max_attempts rl) now fresh tenant f (rw_issues w) rep of
     (t, Inl e) \<Rightarrow> (w\<lparr>rw_issues := t\<rparr>, Inl e)
   | (t, Inr (i, rep)) \<Rightarrow> (case repair of
        None \<Rightarrow> (w\<lparr>rw_issues := t\<rparr>, Inr rep)
      | Some r \<Rightarrow> (case r (rw_saga w) of
           (sw, Inr resolution) \<Rightarrow> (w\<lparr>rw_saga := sw, rw_issues := resolve_issue now t i resolution\<rparr>, Inr (rep\<lparr>sr_repaired := sr_repaired rep @ [entry_of f]\<rparr>))
         | (sw, Inl (Manual_repair_required reason)) \<Rightarrow>
             (w\<lparr>rw_saga := sw, rw_issues := escalate_issue now t i reason\<rparr>, Inr (rep\<lparr>sr_escalated := sr_escalated rep @ [entry_of f]\<rparr>))
         | (sw, Inl (Repair_failed code)) \<Rightarrow> (w\<lparr>rw_saga := sw, rw_issues := fail_attempt (rl_retry_backoff rl) now t i code\<rparr>, Inr rep)
         | (sw, Inl Repair_not_returned) \<Rightarrow> (w\<lparr>rw_saga := sw, rw_issues := t\<rparr>, Inl Recon_not_returned))))"

section \<open>Repairs\<close>

definition index_error_name :: "index_error \<Rightarrow> string" where
  "index_error_name e = (case e of
     Manifest_state_error _ \<Rightarrow> ''ManifestStateError''
   | Index_value_error _ \<Rightarrow> ''ValueError''
   | Retrieval_unavailable \<Rightarrow> ''RetrievalUnavailable''
   | Manifest_integrity_error \<Rightarrow> ''IntegrityError'')"

definition store_error_name :: "store_error \<Rightarrow> string" where
  "store_error_name e = (case e of
     Store_unavailable \<Rightarrow> ''ObjectStoreUnavailable''
   | Store_failed _ \<Rightarrow> ''ObjectStoreError''
   | Bucket_contract \<Rightarrow> ''BucketContractError''
   | Upload_verification _ \<Rightarrow> ''UploadVerificationError''
   | Cross_tenant \<Rightarrow> ''CrossTenantObjectAccess''
   | Store_value_error \<Rightarrow> ''ValueError'')"

text \<open>\<open>material_versions.object_version_id\<close> is a foreign key: a row that is referenced cannot be deleted.\<close>

definition delete_object_row :: "ident \<Rightarrow> 'b repair" where
  "delete_object_row oid w =
     (if Some oid \<in> mv_object_version_id ` set (sd_versions (sw_db w)) \<and> oid \<in> ov_id ` set (sd_objects (sw_db w)) then (w, Inl (Repair_failed ''IntegrityError''))
      else (w\<lparr>sw_db := (sw_db w)\<lparr>sd_objects := filter (\<lambda>ob. ov_id ob \<noteq> oid) (sd_objects (sw_db w))\<rparr>\<rparr>, Inr ''orphaned object versions and row removed''))"

definition repair_orphan_object :: "'b reconciler \<Rightarrow> string \<Rightarrow> ident \<Rightarrow> 'b repair" where
  "repair_orphan_object rl tenant oid w = (case get_row ov_id (sd_objects (sw_db w)) oid of
     None \<Rightarrow> (w, Inr ''already absent'')
   | Some ob \<Rightarrow>
       if ov_tenant_id ob \<noteq> tenant then (w, Inr ''already absent'')
       else if \<not> truthy (ov_material_version_id ob) then delete_object_row oid w
       else (case delete_all_versions (rl_hmac rl) (rl_s3 rl) tenant (ov_material_id ob) (the (ov_material_version_id ob)) None (sw_bucket w) of
           None \<Rightarrow> (w, Inl Repair_not_returned)
         | Some (Inl e, b) \<Rightarrow> (w\<lparr>sw_bucket := b\<rparr>, Inl (Repair_failed (store_error_name e)))
         | Some (Inr _, b) \<Rightarrow> delete_object_row oid (w\<lparr>sw_bucket := b\<rparr>)))"

definition repair_withdraw_manifest :: "'b reconciler \<Rightarrow> instant \<Rightarrow> ident \<Rightarrow> 'b repair" where
  "repair_withdraw_manifest rl now i w = (case deactivate_manifest (rl_vectors rl) (vw_manifests (sw_index w)) (sw_index w) now i of
     (ix, Inl e) \<Rightarrow> (w\<lparr>sw_index := ix\<rparr>, Inl (Repair_failed (index_error_name e)))
   | (ix, Inr _) \<Rightarrow> (w\<lparr>sw_index := ix\<rparr>, Inr ''manifest withdrawn from retrieval pending re-index''))"

text \<open>\<open>removed\<close> counts the rows each call lists and deletes.\<close>

fun remove_prefixes :: "vclient \<Rightarrow> string \<Rightarrow> vector_manifest list \<Rightarrow> nat \<Rightarrow> collection \<Rightarrow> collection \<times> (index_error + nat)" where
  "remove_prefixes c tenant [] removed t = (t, Inr removed)"
| "remove_prefixes c tenant (m # ms) removed t =
     (let n = (case query_prefix c t tenant (vm_prefix m) of Inl _ \<Rightarrow> 0 | Inr rows \<Rightarrow> length rows) in
      case delete_by_prefix c t tenant (vm_prefix m) of
        (t, Some e) \<Rightarrow> (t, Inl e)
      | (t, None) \<Rightarrow> remove_prefixes c tenant ms (removed + n) t)"

definition repair_orphan_vectors :: "'b reconciler \<Rightarrow> string \<Rightarrow> string \<Rightarrow> 'b repair" where
  "repair_orphan_vectors rl tenant vid w =
     (let manifests = filter (\<lambda>m. vm_tenant_id m = tenant \<and> vm_material_version_id m = Some vid) (vw_manifests (sw_index w)) in
      case remove_prefixes (rl_vectors rl) tenant manifests 0 (vw_rows (sw_index w)) of
        (t, Inl e) \<Rightarrow> (w\<lparr>sw_index := (sw_index w)\<lparr>vw_rows := t\<rparr>\<rparr>, Inl (Repair_failed (index_error_name e)))
      | (t, Inr removed) \<Rightarrow>
          (w\<lparr>sw_index := (sw_index w)\<lparr>vw_rows := t\<rparr>\<rparr>,
           if manifests = [] then Inl (Manual_repair_required ''vectors exist for a version with no manifest; the id prefix is unknown so they cannot be removed safely'')
           else Inr (show_nat removed @ '' orphaned vectors removed'')))"

definition text_or_null :: "string option \<Rightarrow> string" where
  "text_or_null s = (if truthy s then the s else ''null'')"

definition repair_active_pointer :: "'b gap \<Rightarrow> instant \<Rightarrow> string \<Rightarrow> ident \<Rightarrow> ident option \<Rightarrow> 'b repair" where
  "repair_active_pointer gap now tenant mid served w = (case gap w of (r, c) \<Rightarrow>
     (case get_row mt_id (sd_materials (sw_db r)) mid of
        None \<Rightarrow> (c, Inr ''material absent'')
      | Some m \<Rightarrow>
          if mt_tenant_id m \<noteq> tenant then (c, Inr ''material absent'')
          else (case cas_row mt_id mt_version set_mt_version (sd_materials (sw_db c)) mid (mt_version m) (\<lambda>x. x\<lparr>mt_active_version_id := served, mt_updated_at := now\<rparr>) of
              None \<Rightarrow> (c, Inl (Manual_repair_required ''the material changed while the pointer was being corrected''))
            | Some t \<Rightarrow> (c\<lparr>sw_db := (sw_db c)\<lparr>sd_materials := t\<rparr>\<rparr>, Inr (''active_version_id corrected to '' @ text_or_null served)))))"

section \<open>The checks\<close>

subsection \<open>PostgreSQL and the object store\<close>

definition missing_object :: "material_version \<Rightarrow> finding" where
  "missing_object v = \<lparr>fd_store_pair = PAIR_OBJECT, fd_issue_kind = ''missing_object'', fd_resource_kind = ''material_version'', fd_resource_id = mv_id v,
     fd_version_id = (if truthy (mv_object_version_id v) then the (mv_object_version_id v) else NO_VERSION_SENTINEL),
     fd_expected = ''one or more object versions'', fd_observed = ''no object versions''\<rparr>"

definition check_version :: "'b reconciler \<Rightarrow> instant \<Rightarrow> (nat \<Rightarrow> ident) \<Rightarrow> string \<Rightarrow> material_version \<Rightarrow> 'b recon_step" where
  "check_version rl now fresh tenant v w rep =
     (if mv_status v \<notin> set LIVE_VERSION_STATUSES then (w, Inr rep)
      else (case inventory (rl_hmac rl) (rl_s3 rl) tenant (mv_material_id v) (mv_id v) None (sw_bucket (rw_saga w)) of
          None \<Rightarrow> (w, Inl Recon_not_returned)
        | Some (Inl _) \<Rightarrow> (w, Inl Recon_unavailable)
        | Some (Inr (versions, _)) \<Rightarrow> if versions = [] then record_finding rl now fresh tenant (missing_object v) None w rep else (w, Inr rep)))"

definition claimed_object_ids :: "material_version list \<Rightarrow> ident list" where
  "claimed_object_ids versions = List.map_filter mv_object_version_id (filter (\<lambda>v. mv_status v \<in> set LIVE_VERSION_STATUSES) versions)"

definition orphan_object :: "object_version \<Rightarrow> finding" where
  "orphan_object ob = \<lparr>fd_store_pair = PAIR_OBJECT, fd_issue_kind = ''orphan_object'', fd_resource_kind = ''object_version'', fd_resource_id = ov_id ob,
     fd_version_id = ov_provider_version_id ob, fd_expected = ''a live material version claiming this object'',
     fd_observed = ''no material_versions row references it (back-pointer says '' @ text_or_null (ov_material_version_id ob) @ '')''\<rparr>"

definition check_object :: "'b reconciler \<Rightarrow> instant \<Rightarrow> (nat \<Rightarrow> ident) \<Rightarrow> string \<Rightarrow> bool \<Rightarrow> ident list \<Rightarrow> object_version \<Rightarrow> 'b recon_step" where
  "check_object rl now fresh tenant repair claimed ob w rep =
     (if ov_id ob \<in> set claimed \<or> ov_deletion_state ob = ''deleted'' then (w, Inr rep)
      else record_finding rl now fresh tenant (orphan_object ob) (if repair then Some (repair_orphan_object rl tenant (ov_id ob)) else None) w rep)"

definition check_objects :: "'b reconciler \<Rightarrow> instant \<Rightarrow> (nat \<Rightarrow> ident) \<Rightarrow> string \<Rightarrow> bool \<Rightarrow> 'b recon_step" where
  "check_objects rl now fresh tenant repair w rep =
     (let versions = filter (\<lambda>v. mv_tenant_id v = tenant) (sd_versions (sw_db (rw_saga w)));
          objects = filter (\<lambda>ob. ov_tenant_id ob = tenant) (sd_objects (sw_db (rw_saga w)))
      in and_then (each (check_version rl now fresh tenant) versions) (each (check_object rl now fresh tenant repair (claimed_object_ids versions)) objects)
           w (rep\<lparr>sr_checked_versions := length versions\<rparr>))"

subsection \<open>PostgreSQL and the collection\<close>

definition missing_vector :: "vector_manifest \<Rightarrow> finding" where
  "missing_vector m = \<lparr>fd_store_pair = PAIR_MILVUS, fd_issue_kind = ''missing_vector'', fd_resource_kind = ''vector_manifest'', fd_resource_id = vm_id m,
     fd_version_id = manifest_version m, fd_expected = show_nat (vm_expected_count m) @ '' vectors'', fd_observed = ''no vectors''\<rparr>"

definition missing_chunk :: "vector_manifest \<Rightarrow> string list \<Rightarrow> finding" where
  "missing_chunk m held = \<lparr>fd_store_pair = PAIR_MILVUS, fd_issue_kind = ''missing_chunk'', fd_resource_kind = ''vector_manifest'', fd_resource_id = vm_id m,
     fd_version_id = manifest_version m, fd_expected = show_nat (length (vm_chunk_ids m)) @ '' chunks'',
     fd_observed = show_nat (length held) @ '' chunks, missing '' @ show_nat (length (filter (\<lambda>i. i \<notin> set held) (remdups (vm_chunk_ids m))))\<rparr>"

definition check_manifest :: "'b reconciler \<Rightarrow> instant \<Rightarrow> (nat \<Rightarrow> ident) \<Rightarrow> string \<Rightarrow> bool \<Rightarrow> vector_manifest \<Rightarrow> 'b recon_step" where
  "check_manifest rl now fresh tenant repair m w rep =
     (if vm_deletion_state m = Ds_deleted then (w, Inr rep)
      else (case chunk_ids_for_prefix (rl_vectors rl) (vw_rows (sw_index (rw_saga w))) tenant (vm_prefix m) of
          Inl e \<Rightarrow> (w, Inl (Recon_index e))
        | Inr held \<Rightarrow>
            if vm_retrievable m \<and> held = []
            then record_finding rl now fresh tenant (missing_vector m) (if repair then Some (repair_withdraw_manifest rl now (vm_id m)) else None) w rep
            else if held \<noteq> [] \<and> vm_chunk_ids m \<noteq> [] \<and> set held \<noteq> set (vm_chunk_ids m)
            then record_finding rl now fresh tenant (missing_chunk m held)
              (if repair \<and> vm_retrievable m then Some (repair_withdraw_manifest rl now (vm_id m)) else None) w rep
            else (w, Inr rep)))"

definition orphan_vector :: "string \<Rightarrow> finding" where
  "orphan_vector vid = \<lparr>fd_store_pair = PAIR_CROSS, fd_issue_kind = ''orphan_vector'', fd_resource_kind = ''milvus_version'', fd_resource_id = vid,
     fd_version_id = vid, fd_expected = ''a live manifest and material version'', fd_observed = ''vectors with no owning manifest''\<rparr>"

definition subject_version :: "vector_manifest \<Rightarrow> string option" where
  "subject_version m = (if truthy (vm_material_version_id m) then vm_material_version_id m else vm_document_id m)"

definition version_owned :: "vector_manifest list \<Rightarrow> ident list \<Rightarrow> string \<Rightarrow> bool" where
  "version_owned manifests known vid \<longleftrightarrow>
     Some vid \<in> subject_version ` set (filter (\<lambda>m. vm_deletion_state m \<noteq> Ds_deleted) manifests) \<and> vid \<in> set known"

definition check_present_version :: "'b reconciler \<Rightarrow> instant \<Rightarrow> (nat \<Rightarrow> ident) \<Rightarrow> string \<Rightarrow> bool \<Rightarrow> vector_manifest list \<Rightarrow> ident list \<Rightarrow> string \<Rightarrow> 'b recon_step" where
  "check_present_version rl now fresh tenant repair manifests known vid w rep =
     (if version_owned manifests known vid then (w, Inr rep)
      else record_finding rl now fresh tenant (orphan_vector vid) (if repair then Some (repair_orphan_vectors rl tenant vid) else None) w rep)"

definition check_vectors :: "'b reconciler \<Rightarrow> instant \<Rightarrow> (nat \<Rightarrow> ident) \<Rightarrow> string \<Rightarrow> bool \<Rightarrow> 'b recon_step" where
  "check_vectors rl now fresh tenant repair w rep =
     (let manifests = filter (\<lambda>m. vm_tenant_id m = tenant) (vw_manifests (sw_index (rw_saga w)));
          known = map mv_id (filter (\<lambda>v. mv_tenant_id v = tenant) (sd_versions (sw_db (rw_saga w))));
          rep = rep\<lparr>sr_checked_manifests := length manifests\<rparr>
      in case list_version_ids (rl_vectors rl) (vw_rows (sw_index (rw_saga w))) tenant of
           Inl _ \<Rightarrow> (w, Inl Recon_unavailable)
         | Inr present \<Rightarrow> and_then (each (check_manifest rl now fresh tenant repair) manifests)
             (each (check_present_version rl now fresh tenant repair manifests known) present) w rep)"

subsection \<open>The active pointer\<close>

text \<open>\<open>retrievable\<close>: the version served for each material; a later manifest of a material overwrites an earlier one.\<close>

definition served_versions :: "string \<Rightarrow> vector_manifest list \<Rightarrow> (ident \<times> ident) list" where
  "served_versions tenant manifests = rev (map (\<lambda>m. (the (vm_material_id m), the (vm_material_version_id m)))
     (filter (\<lambda>m. vm_tenant_id m = tenant \<and> vm_retrievable m \<and> vm_deletion_state m = Ds_retained \<and> vm_material_id m \<noteq> None \<and> truthy (vm_material_version_id m)) manifests))"

definition version_drift :: "material \<Rightarrow> ident option \<Rightarrow> finding" where
  "version_drift m served = \<lparr>fd_store_pair = PAIR_MILVUS, fd_issue_kind = ''version_drift'', fd_resource_kind = ''material'', fd_resource_id = mt_id m,
     fd_version_id = (if truthy (mt_active_version_id m) then the (mt_active_version_id m) else NO_VERSION_SENTINEL),
     fd_expected = ''active_version_id='' @ text_or_null served @ '' (the served version)'', fd_observed = ''active_version_id='' @ text_or_null (mt_active_version_id m)\<rparr>"

definition check_pointer :: "'b reconciler \<Rightarrow> 'b gap \<Rightarrow> instant \<Rightarrow> (nat \<Rightarrow> ident) \<Rightarrow> string \<Rightarrow> bool \<Rightarrow> (ident \<times> ident) list \<Rightarrow> material \<Rightarrow> 'b recon_step" where
  "check_pointer rl gap now fresh tenant repair served m w rep =
     (if mt_status m \<noteq> Available \<or> mt_active_version_id m = map_of served (mt_id m) then (w, Inr rep)
      else record_finding rl now fresh tenant (version_drift m (map_of served (mt_id m)))
        (if repair then Some (repair_active_pointer gap now tenant (mt_id m) (map_of served (mt_id m))) else None) w rep)"

definition check_active_pointer :: "'b reconciler \<Rightarrow> 'b gap \<Rightarrow> instant \<Rightarrow> (nat \<Rightarrow> ident) \<Rightarrow> string \<Rightarrow> bool \<Rightarrow> 'b recon_step" where
  "check_active_pointer rl gap now fresh tenant repair w rep =
     each (check_pointer rl gap now fresh tenant repair (served_versions tenant (vw_manifests (sw_index (rw_saga w)))))
       (filter (\<lambda>m. mt_tenant_id m = tenant \<and> mt_status m \<noteq> Deleted_material) (sd_materials (sw_db (rw_saga w)))) w rep"

section \<open>The sweep\<close>

definition new_report :: "string \<Rightarrow> sweep_report" where
  "new_report tenant = \<lparr>sr_tenant_id = tenant, sr_checked_versions = 0, sr_checked_manifests = 0, sr_opened = [], sr_reopened = [], sr_repaired = [], sr_escalated = []\<rparr>"

definition sweep :: "'b reconciler \<Rightarrow> 'b gap \<Rightarrow> instant \<Rightarrow> (nat \<Rightarrow> ident) \<Rightarrow> string \<Rightarrow> bool \<Rightarrow> 'b recon_world \<Rightarrow> 'b recon_world \<times> (recon_error + sweep_report)" where
  "sweep rl gap now fresh tenant repair w =
     and_then (check_objects rl now fresh tenant repair)
       (and_then (check_vectors rl now fresh tenant repair) (check_active_pointer rl gap now fresh tenant repair)) w (new_report tenant)"

section \<open>Queries\<close>

definition open_issues :: "recon_issue list \<Rightarrow> string \<Rightarrow> string list \<Rightarrow> recon_issue list" where
  "open_issues t tenant kinds = filter (\<lambda>i. rc_tenant_id i = tenant \<and> rc_state i \<in> {Issue_open, Issue_repairing} \<and> (kinds = [] \<or> rc_issue_kind i \<in> set kinds)) t"

datatype confirm_error = Confirm_store store_error | Confirm_index index_error | Confirm_not_returned

fun object_reasons :: "'b reconciler \<Rightarrow> string \<Rightarrow> ident \<Rightarrow> 'b \<Rightarrow> material_version list \<Rightarrow> confirm_error + string list" where
  "object_reasons rl tenant mid b [] = Inr []"
| "object_reasons rl tenant mid b (v # vs) = (case inventory (rl_hmac rl) (rl_s3 rl) tenant mid (mv_id v) None b of
     None \<Rightarrow> Inl Confirm_not_returned
   | Some (Inl e) \<Rightarrow> Inl (Confirm_store e)
   | Some (Inr (versions, markers)) \<Rightarrow> res_bind (object_reasons rl tenant mid b vs) (\<lambda>reasons.
       Inr ((if versions = [] \<and> markers = [] then []
             else [''version '' @ mv_id v @ '' still has '' @ show_nat (length versions) @ '' object versions and '' @ show_nat (length markers) @ '' delete markers'']) @ reasons)))"

fun vector_reasons :: "'b reconciler \<Rightarrow> string \<Rightarrow> collection \<Rightarrow> vector_manifest list \<Rightarrow> confirm_error + string list" where
  "vector_reasons rl tenant t [] = Inr []"
| "vector_reasons rl tenant t (m # ms) = (case count_by_prefix (rl_vectors rl) t tenant (vm_prefix m) of
     Inl e \<Rightarrow> Inl (Confirm_index e)
   | Inr held \<Rightarrow> res_bind (vector_reasons rl tenant t ms) (\<lambda>reasons.
       Inr ((if held = 0 then [] else [''manifest '' @ vm_id m @ '' still has '' @ show_nat held @ '' vectors'']) @ reasons)))"

definition rows_remain :: "'a list \<Rightarrow> string \<Rightarrow> string list" where
  "rows_remain xs table = (if xs = [] then [] else [show_nat (length xs) @ '' '' @ table @ '' rows remain''])"

definition confirm_physically_deleted :: "'b reconciler \<Rightarrow> 'b saga_world \<Rightarrow> string \<Rightarrow> ident \<Rightarrow> confirm_error + string list" where
  "confirm_physically_deleted rl w tenant mid =
     (let versions = filter (\<lambda>v. mv_tenant_id v = tenant \<and> mv_material_id v = mid) (sd_versions (sw_db w));
          objects = filter (\<lambda>ob. ov_tenant_id ob = tenant \<and> ov_material_id ob = mid) (sd_objects (sw_db w));
          manifests = filter (\<lambda>m. vm_tenant_id m = tenant \<and> vm_material_id m = Some mid) (vw_manifests (sw_index w))
      in res_bind (object_reasons rl tenant mid (sw_bucket w) versions) (\<lambda>os.
         res_bind (vector_reasons rl tenant (vw_rows (sw_index w)) manifests) (\<lambda>vs.
           Inr (rows_remain versions ''material_versions'' @ rows_remain objects ''object_versions'' @ rows_remain manifests ''vector_manifests'' @ os @ vs))))"

end
