(* ===== verification/Audit_Events.thy ===== *)
theory Audit_Events
  imports Repo_Core
begin

text \<open>
  The audit table (\<open>AuditEvent\<close> in \<open>db/models.py\<close>) and \<open>AuditEventRepository\<close> of \<open>db/repositories.py\<close>: rows are appended, never changed, and appending is
  idempotent by \<open>event_id\<close>. The worker of the reconciler and the administration append through it.
\<close>

record audit_event =
  au_id :: ident
  au_event_id :: ident
  au_tenant_id :: string
  au_run_id :: "string option"
  au_request_id :: "string option"
  au_trace_id :: "string option"
  au_actor_ref :: string
  au_authorization_version :: int
  au_action :: string
  au_resource_kind :: string
  au_resource_id :: "string option"
  au_outcome :: string
  au_reason_code :: "string option"
  au_redacted_metadata :: "(string \<times> json) list"
  au_occurred_at :: instant

definition find_by_event_id :: "audit_event list \<Rightarrow> string \<Rightarrow> string \<Rightarrow> audit_event option" where
  "find_by_event_id t tenant event_id = find (\<lambda>x. au_event_id x = event_id \<and> au_tenant_id x = tenant) t"

text \<open>
  The argument carries the row as the caller asked for it. \<open>event_id\<close> is unique over all tenants but looked up within one, so an id another tenant
  has used is an integrity error that no winner explains.
\<close>

definition append_audit :: "audit_event list \<Rightarrow> audit_event \<Rightarrow> audit_event list \<times> (repo_error + audit_event \<times> bool)" where
  "append_audit t a =
     (case require_tenant (au_tenant_id a) ''AuditEventRepository.append'' of Inl e \<Rightarrow> (t, Inl e) | Inr tenant \<Rightarrow>
      case require_text ''event_id'' (au_event_id a) of Inl e \<Rightarrow> (t, Inl e) | Inr identifier \<Rightarrow>
      case find_by_event_id t tenant identifier of Some x \<Rightarrow> (t, Inr (x, False)) | None \<Rightarrow>
      if au_authorization_version a < 0 then (t, Inl (Repo_value_error ''authorization_version'')) else
      case require_text ''actor_ref'' (au_actor_ref a) of Inl e \<Rightarrow> (t, Inl e) | Inr actor \<Rightarrow>
      case require_text ''action'' (au_action a) of Inl e \<Rightarrow> (t, Inl e) | Inr action \<Rightarrow>
      case require_text ''outcome'' (au_outcome a) of Inl e \<Rightarrow> (t, Inl e) | Inr outcome \<Rightarrow>
      let row = a\<lparr>au_tenant_id := tenant, au_event_id := identifier, au_actor_ref := actor, au_action := action, au_outcome := outcome\<rparr> in
      if list_ex (\<lambda>x. au_event_id x = identifier \<or> au_id x = au_id a) t
      then (case find_by_event_id t tenant identifier of None \<Rightarrow> (t, Inl Repo_integrity_error) | Some x \<Rightarrow> (t, Inr (x, False)))
      else (t @ [row], Inr (row, True)))"

text \<open>\<open>append_audit_event\<close>: the event id is generated when the caller gives none.\<close>

definition append_audit_event :: "audit_event list \<Rightarrow> ident \<Rightarrow> string option \<Rightarrow> audit_event \<Rightarrow> audit_event list \<times> (repo_error + audit_event)" where
  "append_audit_event t new_id event_id a =
     (case require_tenant (au_tenant_id a) ''append_audit_event'' of Inl e \<Rightarrow> (t, Inl e) | Inr tenant \<Rightarrow>
      case append_audit t (a\<lparr>au_tenant_id := tenant, au_event_id := (case event_id of None \<Rightarrow> new_id | Some e \<Rightarrow> if e = [] then new_id else e)\<rparr>) of
        (t', r) \<Rightarrow> (t', map_sum id fst r))"

text \<open>\<open>get\<close> compares the event id it is given with the primary key of the row.\<close>

definition audit_get :: "audit_event list \<Rightarrow> string \<Rightarrow> string \<Rightarrow> repo_error + audit_event" where
  "audit_get t tenant_id event_id =
     res_bind (require_tenant tenant_id ''AuditEventRepository.get'') (\<lambda>tn.
     res_bind (require_text ''event_id'' event_id) (\<lambda>i. fetch_one au_id (\<lambda>r. Some (au_tenant_id r)) ''audit_event'' t i (Some tn)))"

definition audit_list_for_run :: "audit_event list \<Rightarrow> string \<Rightarrow> string \<Rightarrow> int \<Rightarrow> repo_error + audit_event list" where
  "audit_list_for_run t tenant_id run_id limit =
     res_bind (require_tenant tenant_id ''AuditEventRepository.list_for_run'') (\<lambda>tn.
     res_bind (require_text ''run_id'' run_id) (\<lambda>run.
     res_bind (require_limit limit) (\<lambda>n.
       Inr (take (nat n) (sort_key (\<lambda>r. (au_occurred_at r, au_id r)) (filter (\<lambda>r. au_tenant_id r = tn \<and> au_run_id r = Some run) t))))))"

lemma append_audit_adds:
  "append_audit t a = (t', r) \<Longrightarrow> x \<in> set t' \<Longrightarrow> x \<in> set t \<or> au_action x = py_strip (au_action a)"
  by (auto simp: append_audit_def require_tenant_def require_text_def Let_def split: if_splits sum.splits option.splits)

text \<open>A row that was appended stays, and an append that reports a new row added it at the end.\<close>

lemma append_audit_cases:
  assumes "append_audit t a = (t', r)"
  shows "t' = t \<or> (\<exists>row. t' = t @ [row] \<and> r = Inr (row, True) \<and> au_tenant_id row = py_strip (au_tenant_id a) \<and> au_action row = py_strip (au_action a) \<and>
    au_outcome row = py_strip (au_outcome a) \<and> au_resource_id row = au_resource_id a \<and> au_actor_ref row = py_strip (au_actor_ref a))"
  using assms by (auto simp: append_audit_def require_tenant_def require_text_def Let_def split: if_splits sum.splits option.splits)

end
