(* ===== verification/Reconciliation_Worker.thy ===== *)
theory Reconciliation_Worker
  imports Reconciliation Audit_Events
begin

text \<open>
  The scheduled reconciliation (\<open>jobs/reconciliation_worker.py\<close>): one sweep per active tenant, with an audit row per transition and per sweep.
  Audit rows are appended through \<open>AuditEventRepository\<close>; \<open>uuid5\<close> (over the URL namespace) and the primary key of a row (by its event) are parameters.
\<close>

datatype worker_error = Sweep_failed recon_error | Audit_failed repo_error

section \<open>The worker\<close>

record tenant_row =
  tn_id :: ident
  tn_status :: string
  tn_created_at :: instant

record 'b worker_world =
  ww_recon :: "'b recon_world"
  ww_tenants :: "tenant_row list"
  ww_audit :: "audit_event list"

record recon_cycle =
  cy_reports :: "sweep_report list"
  cy_unavailable_tenants :: "string list"
  cy_audited_transitions :: nat
  cy_audited_summaries :: nat

definition cycle_findings :: "recon_cycle \<Rightarrow> nat" where
  "cycle_findings c = sum_list (map report_findings (cy_reports c))"

record 'b recon_worker =
  wk_reconciler :: "'b reconciler"
  wk_repair :: bool
  wk_max_tenants :: nat
  wk_uuid5 :: "string \<Rightarrow> ident"
  wk_new_id :: "string \<Rightarrow> ident"

definition active_tenants :: "nat \<Rightarrow> tenant_row list \<Rightarrow> ident list" where
  "active_tenants max_tenants t = map tn_id (take max_tenants (sort_key (\<lambda>r. (tn_created_at r, tn_id r)) (filter (\<lambda>r. tn_status r = ''active'') t)))"

definition ACTOR_REF :: string where "ACTOR_REF = ''system:reconciliation-worker''"

definition worker_audit :: "(string \<Rightarrow> ident) \<Rightarrow> (string \<Rightarrow> ident) \<Rightarrow> instant \<Rightarrow> string \<Rightarrow> string \<Rightarrow> string \<Rightarrow> string \<Rightarrow> string \<Rightarrow> (string \<times> json) list \<Rightarrow> string option \<Rightarrow> string option
    \<Rightarrow> audit_event list \<Rightarrow> audit_event list \<times> (worker_error + bool)" where
  "worker_audit uuid5 nid now tenant action outcome kind rid metadata event_id reason t =
     (case require_tenant tenant ''set_tenant_context'' of Inl e \<Rightarrow> (t, Inl (Audit_failed e)) | Inr _ \<Rightarrow>
      let eid = (if truthy event_id then the event_id else uuid5 (tenant @ '':'' @ action @ '':'' @ rid));
          (t', r) = append_audit t \<lparr>au_id = nid eid, au_event_id = eid, au_tenant_id = tenant, au_run_id = None, au_request_id = None, au_trace_id = None,
            au_actor_ref = ACTOR_REF, au_authorization_version = 1, au_action = action, au_resource_kind = kind, au_resource_id = Some rid,
            au_outcome = outcome, au_reason_code = reason, au_redacted_metadata = metadata, au_occurred_at = now\<rparr>
      in (t', map_sum Audit_failed snd r))"

definition get_issue :: "recon_issue list \<Rightarrow> string \<Rightarrow> ident \<Rightarrow> recon_issue option" where
  "get_issue t tenant i = find (\<lambda>r. rc_tenant_id r = tenant \<and> rc_id r = i) t"

text \<open>\<open>entry.split(":", 1)[1]\<close>.\<close>

definition after_colon :: "string \<Rightarrow> string" where
  "after_colon entry = (if CHR '':'' \<in> set entry then tl (dropWhile (\<lambda>c. c \<noteq> CHR '':'') entry) else entry)"

definition issue_state_name :: "issue_state \<Rightarrow> string" where
  "issue_state_name s = (case s of Issue_open \<Rightarrow> ''open'' | Issue_repairing \<Rightarrow> ''repairing'' | Issue_repaired \<Rightarrow> ''repaired'' | Issue_manual_required \<Rightarrow> ''manual_required'')"

text \<open>\<open>TRANSITION_AUDIT_ACTIONS\<close> with the entries of each bucket and the outcome of its rows.\<close>

definition buckets :: "sweep_report \<Rightarrow> (string \<times> string \<times> string \<times> string list) list" where
  "buckets rep = [(''opened'', ''reconciliation.issue.detected'', ''allowed'', sr_opened rep), (''reopened'', ''reconciliation.issue.reopened'', ''allowed'', sr_reopened rep),
     (''repaired'', ''reconciliation.issue.repaired'', ''succeeded'', sr_repaired rep), (''escalated'', ''reconciliation.issue.escalated'', ''blocked'', sr_escalated rep)]"

definition audit_entry :: "(string \<Rightarrow> ident) \<Rightarrow> (string \<Rightarrow> ident) \<Rightarrow> instant \<Rightarrow> recon_issue list \<Rightarrow> string \<Rightarrow> string \<times> string \<times> string \<Rightarrow> string \<Rightarrow> audit_event list \<Rightarrow> nat
    \<Rightarrow> audit_event list \<times> (worker_error + nat)" where
  "audit_entry uuid5 nid now issues tenant = (\<lambda>(bucket, action, outcome) entry t audited.
     case get_issue issues tenant (after_colon entry) of
       None \<Rightarrow> (t, Inr audited)
     | Some i \<Rightarrow> (case worker_audit uuid5 nid now tenant action outcome ''reconciliation_issue'' (rc_id i)
          [(''issue_kind'', JStr (rc_issue_kind i)), (''store_pair'', JStr (rc_store_pair i)), (''state'', JStr (issue_state_name (rc_state i))),
           (''attempts'', JInt (rc_attempts i)), (''severity'', JStr (rc_severity i)), (''bucket'', JStr bucket)]
          (Some (uuid5 (''reconciliation:'' @ tenant @ '':'' @ rc_id i @ '':'' @ issue_state_name (rc_state i) @ '':'' @ show_int (rc_attempts i))))
          (rc_last_error_code i) t of
            (t, Inl e) \<Rightarrow> (t, Inl e)
          | (t, Inr created) \<Rightarrow> (t, Inr (audited + (if created then 1 else 0)))))"

fun audit_entries :: "(string \<Rightarrow> ident) \<Rightarrow> (string \<Rightarrow> ident) \<Rightarrow> instant \<Rightarrow> recon_issue list \<Rightarrow> string \<Rightarrow> (string \<times> string \<times> string \<times> string) list \<Rightarrow> audit_event list \<Rightarrow> nat
    \<Rightarrow> audit_event list \<times> (worker_error + nat)" where
  "audit_entries uuid5 nid now issues tenant [] t audited = (t, Inr audited)"
| "audit_entries uuid5 nid now issues tenant ((bucket, action, outcome, entry) # es) t audited =
     (case audit_entry uuid5 nid now issues tenant (bucket, action, outcome) entry t audited of
        (t, Inl e) \<Rightarrow> (t, Inl e)
      | (t, Inr audited) \<Rightarrow> audit_entries uuid5 nid now issues tenant es t audited)"

definition audit_transitions :: "(string \<Rightarrow> ident) \<Rightarrow> (string \<Rightarrow> ident) \<Rightarrow> instant \<Rightarrow> recon_issue list \<Rightarrow> string \<Rightarrow> sweep_report \<Rightarrow> audit_event list \<Rightarrow> audit_event list \<times> (worker_error + nat)" where
  "audit_transitions uuid5 nid now issues tenant rep t =
     audit_entries uuid5 nid now issues tenant (concat (map (\<lambda>(bucket, action, outcome, entries). map (\<lambda>e. (bucket, action, outcome, e)) entries) (buckets rep))) t 0"

definition audit_sweep_summary :: "(string \<Rightarrow> ident) \<Rightarrow> (string \<Rightarrow> ident) \<Rightarrow> instant \<Rightarrow> bool \<Rightarrow> string \<Rightarrow> sweep_report \<Rightarrow> audit_event list \<Rightarrow> audit_event list \<times> (worker_error + nat)" where
  "audit_sweep_summary uuid5 nid now repair tenant rep t =
     (let digest = join_with CHR ''|'' (sort (sr_opened rep @ sr_reopened rep @ sr_repaired rep @ sr_escalated rep)) in
      case worker_audit uuid5 nid now tenant ''reconciliation.sweep.completed'' ''succeeded'' ''tenant'' tenant
        [(''checked_versions'', JInt (int (sr_checked_versions rep))), (''checked_manifests'', JInt (int (sr_checked_manifests rep))),
         (''opened'', JInt (int (length (sr_opened rep)))), (''reopened'', JInt (int (length (sr_reopened rep)))),
         (''repaired'', JInt (int (length (sr_repaired rep)))), (''escalated'', JInt (int (length (sr_escalated rep)))), (''repair'', JBool repair)]
        (Some (uuid5 (''reconciliation-sweep:'' @ tenant @ '':'' @ digest))) None t of
          (t, Inl e) \<Rightarrow> (t, Inl e)
        | (t, Inr created) \<Rightarrow> (t, Inr (if created then 1 else 0)))"

text \<open>One tenant of a pass. \<open>get_issue\<close> needs a tenant as well; a blank one fails before anything is audited.\<close>

definition run_tenant :: "'b recon_worker \<Rightarrow> 'b gap \<Rightarrow> instant \<Rightarrow> (nat \<Rightarrow> ident) \<Rightarrow> string \<Rightarrow> 'b worker_world \<Rightarrow> recon_cycle \<Rightarrow> 'b worker_world \<times> (worker_error + recon_cycle)" where
  "run_tenant wk gap now fresh tenant w cy = (case sweep (wk_reconciler wk) gap now fresh tenant (wk_repair wk) (ww_recon w) of
     (rw, Inl Recon_unavailable) \<Rightarrow>
       (let w = w\<lparr>ww_recon := rw\<rparr>; cy = cy\<lparr>cy_unavailable_tenants := cy_unavailable_tenants cy @ [tenant]\<rparr> in
        case worker_audit (wk_uuid5 wk) (wk_new_id wk) now tenant ''reconciliation.sweep.unavailable'' ''blocked'' ''tenant'' tenant
          [(''reason'', JStr ''ReconciliationUnavailable''), (''repair'', JBool (wk_repair wk))] None None (ww_audit w) of
            (t, Inl e) \<Rightarrow> (w\<lparr>ww_audit := t\<rparr>, Inl e)
          | (t, Inr _) \<Rightarrow> (w\<lparr>ww_audit := t\<rparr>, Inr cy))
   | (rw, Inl e) \<Rightarrow> (w\<lparr>ww_recon := rw\<rparr>, Inl (Sweep_failed e))
   | (rw, Inr rep) \<Rightarrow>
       (let w = w\<lparr>ww_recon := rw\<rparr>; cy = cy\<lparr>cy_reports := cy_reports cy @ [rep]\<rparr> in
        case audit_transitions (wk_uuid5 wk) (wk_new_id wk) now (rw_issues rw) tenant rep (ww_audit w) of
          (t, Inl e) \<Rightarrow> (w\<lparr>ww_audit := t\<rparr>, Inl e)
        | (t, Inr n) \<Rightarrow> (case audit_sweep_summary (wk_uuid5 wk) (wk_new_id wk) now (wk_repair wk) tenant rep t of
             (t, Inl e) \<Rightarrow> (w\<lparr>ww_audit := t\<rparr>, Inl e)
           | (t, Inr k) \<Rightarrow> (w\<lparr>ww_audit := t\<rparr>,
               Inr (cy\<lparr>cy_audited_transitions := cy_audited_transitions cy + n, cy_audited_summaries := cy_audited_summaries cy + k\<rparr>)))))"

fun run_tenants :: "'b recon_worker \<Rightarrow> 'b gap \<Rightarrow> instant \<Rightarrow> (nat \<Rightarrow> ident) \<Rightarrow> string list \<Rightarrow> 'b worker_world \<Rightarrow> recon_cycle \<Rightarrow> 'b worker_world \<times> (worker_error + recon_cycle)" where
  "run_tenants wk gap now fresh [] w cy = (w, Inr cy)"
| "run_tenants wk gap now fresh (tenant # ts) w cy = (case run_tenant wk gap now fresh tenant w cy of
     (w, Inl e) \<Rightarrow> (w, Inl e)
   | (w, Inr cy) \<Rightarrow> run_tenants wk gap now fresh ts w cy)"

definition run_once :: "'b recon_worker \<Rightarrow> 'b gap \<Rightarrow> instant \<Rightarrow> (nat \<Rightarrow> ident) \<Rightarrow> string list option \<Rightarrow> 'b worker_world \<Rightarrow> 'b worker_world \<times> (worker_error + recon_cycle)" where
  "run_once wk gap now fresh tenant_ids w =
     run_tenants wk gap now fresh (case tenant_ids of Some ts \<Rightarrow> ts | None \<Rightarrow> active_tenants (wk_max_tenants wk) (ww_tenants w)) w
       \<lparr>cy_reports = [], cy_unavailable_tenants = [], cy_audited_transitions = 0, cy_audited_summaries = 0\<rparr>"

end
