(* ===== verification/Reconciliation_Safety.thy ===== *)
theory Reconciliation_Safety
  imports Reconciliation_Worker Vector_Index_Safety
begin

text \<open>
  What a sweep guarantees. Drift is specified by what the stores hold; a sweep that only detects reports exactly the drift, keeps the
  stores and the natural keys, and repeated it adds no row. Repairs keep the metadata, and the correction of pointers converges.
\<close>

section \<open>The specification of drift\<close>

definition live_versions :: "string \<Rightarrow> 'b saga_world \<Rightarrow> material_version set" where
  "live_versions tenant s = {v \<in> set (sd_versions (sw_db s)). mv_tenant_id v = tenant \<and> mv_status v \<in> set LIVE_VERSION_STATUSES}"

definition tenant_manifests :: "string \<Rightarrow> 'b saga_world \<Rightarrow> vector_manifest set" where
  "tenant_manifests tenant s = {m \<in> set (vw_manifests (sw_index s)). vm_tenant_id m = tenant \<and> vm_deletion_state m \<noteq> Ds_deleted}"

definition held_chunks :: "string \<Rightarrow> 'b saga_world \<Rightarrow> vector_manifest \<Rightarrow> string list" where
  "held_chunks tenant s m = sort (map mr_chunk_id (filter (in_prefix tenant (vm_prefix m)) (vw_rows (sw_index s))))"

definition drift :: "(string \<Rightarrow> string \<Rightarrow> string) \<Rightarrow> ('b \<Rightarrow> (string \<times> string) set) \<Rightarrow> string \<Rightarrow> 'b saga_world \<Rightarrow> finding set" where
  "drift hmac vers tenant s =
     {missing_object v | v. v \<in> live_versions tenant s \<and> derive_object_key hmac tenant (mv_material_id v) (mv_id v) \<notin> fst ` vers (sw_bucket s)}
   \<union> {orphan_object ob | ob. ob \<in> set (sd_objects (sw_db s)) \<and> ov_tenant_id ob = tenant \<and> ov_deletion_state ob \<noteq> ''deleted'' \<and>
        Some (ov_id ob) \<notin> mv_object_version_id ` live_versions tenant s}
   \<union> {missing_vector m | m. m \<in> tenant_manifests tenant s \<and> vm_retrievable m \<and> held_chunks tenant s m = []}
   \<union> {missing_chunk m (held_chunks tenant s m) | m. m \<in> tenant_manifests tenant s \<and> held_chunks tenant s m \<noteq> [] \<and> vm_chunk_ids m \<noteq> [] \<and>
        set (held_chunks tenant s m) \<noteq> set (vm_chunk_ids m)}
   \<union> {orphan_vector vid | vid. (\<exists>r\<in>set (vw_rows (sw_index s)). mr_tenant_id r = tenant \<and> mr_version_id r = vid) \<and>
        \<not> (Some vid \<in> subject_version ` tenant_manifests tenant s \<and> (\<exists>v\<in>set (sd_versions (sw_db s)). mv_tenant_id v = tenant \<and> mv_id v = vid))}
   \<union> {version_drift m served | m served. m \<in> set (sd_materials (sw_db s)) \<and> mt_tenant_id m = tenant \<and> mt_status m = Available \<and>
        served = map_of (served_versions tenant (vw_manifests (sw_index s))) (mt_id m) \<and> mt_active_version_id m \<noteq> served}"

section \<open>Recording without repair\<close>

text \<open>Ids of issues are unique, and so are the generated ones.\<close>

definition id_supply :: "(nat \<Rightarrow> ident) \<Rightarrow> recon_issue list \<Rightarrow> bool" where
  "id_supply fresh t \<longleftrightarrow> keys_distinct rc_id t \<and> (\<forall>n\<ge>length t. fresh n \<notin> rc_id ` set t) \<and> inj fresh"

definition reported :: "sweep_report \<Rightarrow> string set" where
  "reported rep = set (sr_opened rep) \<union> set (sr_reopened rep)"

definition has_open :: "recon_issue list \<Rightarrow> string list \<Rightarrow> bool" where
  "has_open t k \<longleftrightarrow> (\<exists>i\<in>set t. natural_key i = k \<and> rc_state i = Issue_open)"

text \<open>The table after these findings, the report after them, and a step that only records them.\<close>

definition table_ok :: "(nat \<Rightarrow> ident) \<Rightarrow> recon_issue list \<Rightarrow> bool" where
  "table_ok fresh t \<longleftrightarrow> id_supply fresh t \<and> distinct (map natural_key t)"

definition grown :: "(nat \<Rightarrow> ident) \<Rightarrow> string \<Rightarrow> finding set \<Rightarrow> recon_issue list \<Rightarrow> recon_issue list \<Rightarrow> bool" where
  "grown fresh tenant fs t t' \<longleftrightarrow> table_ok fresh t' \<and> (\<forall>k. has_open t k \<or> k \<in> finding_key tenant ` fs \<longrightarrow> has_open t' k) \<and>
     natural_key ` set t' = natural_key ` set t \<union> finding_key tenant ` fs \<and>
     (finding_key tenant ` fs \<subseteq> natural_key ` set t \<longrightarrow> map natural_key t' = map natural_key t) \<and> rc_id ` set t' \<subseteq> rc_id ` set t \<union> range fresh"

definition noted :: "finding set \<Rightarrow> sweep_report \<Rightarrow> sweep_report \<Rightarrow> bool" where
  "noted fs rep rep' \<longleftrightarrow> reported rep' = reported rep \<union> entry_of ` fs \<and> sr_repaired rep' = sr_repaired rep \<and> sr_escalated rep' = sr_escalated rep"

definition detects :: "(nat \<Rightarrow> ident) \<Rightarrow> string \<Rightarrow> 'b saga_world \<Rightarrow> finding set \<Rightarrow> 'b recon_step \<Rightarrow> bool" where
  "detects fresh tenant s fs step \<longleftrightarrow> (\<forall>t rep. table_ok fresh t \<longrightarrow> (\<exists>t' rep'.
     step \<lparr>rw_saga = s, rw_issues = t\<rparr> rep = (\<lparr>rw_saga = s, rw_issues = t'\<rparr>, Inr rep') \<and> grown fresh tenant fs t t' \<and> noted fs rep rep'))"

lemma detectsE:
  assumes "detects fresh tenant s fs step" and "table_ok fresh t"
  obtains t' rep' where "step \<lparr>rw_saga = s, rw_issues = t\<rparr> rep = (\<lparr>rw_saga = s, rw_issues = t'\<rparr>, Inr rep')" "grown fresh tenant fs t t'" "noted fs rep rep'"
  using assms unfolding detects_def by blast

lemma grown_trans:
  assumes "grown fresh tenant fs t t1" and "grown fresh tenant gs t1 t2"
  shows "grown fresh tenant (fs \<union> gs) t t2"
proof -
  have g1: "finding_key tenant ` fs \<subseteq> natural_key ` set t \<Longrightarrow> map natural_key t1 = map natural_key t" using assms(1) by (simp only: grown_def)
  have g2: "finding_key tenant ` gs \<subseteq> natural_key ` set t1 \<Longrightarrow> map natural_key t2 = map natural_key t1" using assms(2) by (simp only: grown_def)
  have "map natural_key t2 = map natural_key t" if "finding_key tenant ` (fs \<union> gs) \<subseteq> natural_key ` set t"
  proof -
    from that have "finding_key tenant ` fs \<subseteq> natural_key ` set t" "finding_key tenant ` gs \<subseteq> natural_key ` set t" by blast+
    moreover from g1 [OF this(1)] have "natural_key ` set t1 = natural_key ` set t" by (metis list.set_map)
    ultimately show ?thesis using g1 g2 by simp
  qed
  moreover have "\<forall>k. has_open t k \<or> k \<in> finding_key tenant ` (fs \<union> gs) \<longrightarrow> has_open t2 k"
  proof (intro allI impI)
    fix k assume "has_open t k \<or> k \<in> finding_key tenant ` (fs \<union> gs)"
    then consider "has_open t k \<or> k \<in> finding_key tenant ` fs" | "k \<in> finding_key tenant ` gs" by (auto simp: image_Un)
    then have "has_open t1 k \<or> k \<in> finding_key tenant ` gs" using assms(1) by cases (auto simp only: grown_def)
    then show "has_open t2 k" using assms(2) by (auto simp only: grown_def)
  qed
  moreover have "natural_key ` set t2 = natural_key ` set t \<union> finding_key tenant ` (fs \<union> gs)"
    using assms by (simp add: grown_def image_Un Un_assoc)
  moreover have "rc_id ` set t2 \<subseteq> rc_id ` set t \<union> range fresh"
  proof -
    have "rc_id ` set t2 \<subseteq> rc_id ` set t1 \<union> range fresh" "rc_id ` set t1 \<subseteq> rc_id ` set t \<union> range fresh" using assms by (simp_all add: grown_def)
    then show ?thesis by blast
  qed
  moreover have "table_ok fresh t2" using assms(2) by (simp add: grown_def)
  ultimately show ?thesis unfolding grown_def by simp
qed

lemma grown_refl: "table_ok fresh t \<Longrightarrow> grown fresh tenant {} t t"
  by (simp add: grown_def)

lemma noted_trans: "noted fs rep rep1 \<Longrightarrow> noted gs rep1 rep2 \<Longrightarrow> noted (fs \<union> gs) rep rep2"
  unfolding noted_def by auto

lemma natural_key_reopen [simp]: "natural_key (reopen now f i) = natural_key i" "rc_id (reopen now f i) = rc_id i" "rc_state (reopen now f i) = Issue_open"
  by (simp_all add: natural_key_def reopen_def)

lemma natural_key_new [simp]: "natural_key (new_issue n now i tenant f) = finding_key tenant f" "rc_id (new_issue n now i tenant f) = i" "rc_state (new_issue n now i tenant f) = Issue_open"
  by (simp_all add: natural_key_def new_issue_def finding_key_def)

lemma map_natural_key_put [simp]: "map natural_key (put_row rc_id t i (reopen now f)) = map natural_key t"
  "map rc_id (put_row rc_id t i (reopen now f)) = map rc_id t"
  by (simp_all add: put_row_def)

lemma find_natural:
  assumes "find (\<lambda>i. natural_key i = k) t = Some i" shows "i \<in> set t" "natural_key i = k"
  using assms by (induction t) (auto split: if_splits)

lemma has_open_reopen:
  assumes "has_open t k" shows "has_open (put_row rc_id t i (reopen now f)) k"
proof -
  from assms obtain r where r: "r \<in> set t" "natural_key r = k" "rc_state r = Issue_open" unfolding has_open_def by blast
  let ?r = "if rc_id r = i then reopen now f r else r"
  from r have "?r \<in> set (put_row rc_id t i (reopen now f))" "natural_key ?r = k" "rc_state ?r = Issue_open" by (auto simp: put_row_def)
  then show ?thesis unfolding has_open_def by blast
qed

lemma grown_new:
  assumes "table_ok fresh t" and "finding_key tenant f \<notin> natural_key ` set t"
  shows "grown fresh tenant {f} t (t @ [new_issue n now (fresh (length t)) tenant f])"
  using assms by (auto simp: grown_def table_ok_def id_supply_def inj_eq has_open_def)

lemma grown_reopen:
  assumes t: "table_ok fresh t" and i: "i \<in> set t" "natural_key i = finding_key tenant f"
  shows "grown fresh tenant {f} t (put_row rc_id t (rc_id i) (reopen now f))"
proof -
  let ?t = "put_row rc_id t (rc_id i) (reopen now f)"
  have ids: "map rc_id ?t = map rc_id t" and keys: "map natural_key ?t = map natural_key t" by simp_all
  have sets: "rc_id ` set ?t = rc_id ` set t" "natural_key ` set ?t = natural_key ` set t" using ids keys by (metis list.set_map)+
  have "reopen now f i \<in> set ?t" using i(1) by (force simp: put_row_def)
  then have "has_open ?t (finding_key tenant f)" unfolding has_open_def using i(2) by (metis natural_key_reopen(1,3))
  moreover have "table_ok fresh ?t" using t by (simp add: table_ok_def id_supply_def sets ids keys)
  moreover have "finding_key tenant f \<in> natural_key ` set t" using i by (metis image_eqI)
  ultimately show ?thesis using has_open_reopen by (auto simp: grown_def sets keys)
qed

lemma detects_record: "detects fresh tenant s {f} (record_finding rl now fresh tenant f None)"
  unfolding detects_def
proof (intro allI impI)
  fix t rep assume t: "table_ok fresh t"
  show "\<exists>t' rep'. record_finding rl now fresh tenant f None \<lparr>rw_saga = s, rw_issues = t\<rparr> rep = (\<lparr>rw_saga = s, rw_issues = t'\<rparr>, Inr rep')
     \<and> grown fresh tenant {f} t t' \<and> noted {f} rep rep'"
  proof (cases "find (\<lambda>i. natural_key i = finding_key tenant f) t")
    case None
    then have "finding_key tenant f \<notin> natural_key ` set t" by (auto simp: find_None_iff)
    moreover have "fresh (length t) \<notin> rc_id ` set t" using t by (simp add: table_ok_def id_supply_def)
    ultimately show ?thesis using None grown_new [OF t]
      by (intro exI [of _ "t @ [new_issue (rl_max_attempts rl) now (fresh (length t)) tenant f]"] exI [of _ "rep\<lparr>sr_opened := sr_opened rep @ [entry_of f]\<rparr>"])
        (simp add: record_finding_def upsert_issue_def Let_def noted_def reported_def)
  next
    case (Some i)
    let ?rep = "if rc_state i \<in> {Issue_repaired, Issue_manual_required} then rep\<lparr>sr_reopened := sr_reopened rep @ [entry_of f]\<rparr>
                   else rep\<lparr>sr_opened := sr_opened rep @ [entry_of f]\<rparr>"
    have "noted {f} rep ?rep" by (simp add: noted_def reported_def)
    then show ?thesis using Some grown_reopen [OF t find_natural [OF Some]]
      by (intro exI [of _ "put_row rc_id t (rc_id i) (reopen now f)"] exI [of _ ?rep]) (simp add: record_finding_def upsert_issue_def Let_def)
  qed
qed

lemma detects_skip: "detects fresh tenant s {} (\<lambda>w rep. (w, Inr rep))"
  unfolding detects_def by (auto simp: grown_refl noted_def)

lemma detects_then:
  assumes f: "detects fresh tenant s fs f" and g: "detects fresh tenant s gs g"
  shows "detects fresh tenant s (fs \<union> gs) (and_then f g)"
  unfolding detects_def
proof (intro allI impI)
  fix t rep assume t: "table_ok fresh t"
  obtain t1 rep1 where 1: "f \<lparr>rw_saga = s, rw_issues = t\<rparr> rep = (\<lparr>rw_saga = s, rw_issues = t1\<rparr>, Inr rep1)" "grown fresh tenant fs t t1" "noted fs rep rep1"
    by (rule detectsE [OF f t])
  then have "table_ok fresh t1" by (simp add: grown_def)
  from detectsE [OF g this] obtain t2 rep2 where 2: "g \<lparr>rw_saga = s, rw_issues = t1\<rparr> rep1 = (\<lparr>rw_saga = s, rw_issues = t2\<rparr>, Inr rep2)"
    "grown fresh tenant gs t1 t2" "noted gs rep1 rep2" .
  have "and_then f g \<lparr>rw_saga = s, rw_issues = t\<rparr> rep = (\<lparr>rw_saga = s, rw_issues = t2\<rparr>, Inr rep2)" by (simp add: and_then_def 1(1) 2(1))
  with grown_trans [OF 1(2) 2(2)] noted_trans [OF 1(3) 2(3)] show "\<exists>t' rep'. and_then f g \<lparr>rw_saga = s, rw_issues = t\<rparr> rep = (\<lparr>rw_saga = s, rw_issues = t'\<rparr>, Inr rep') \<and>
    grown fresh tenant (fs \<union> gs) t t' \<and> noted (fs \<union> gs) rep rep'" by blast
qed

lemma each_Cons: "each f (x # xs) = and_then (f x) (each f xs)"
  by (intro ext) (simp add: and_then_def)

lemma detects_each:
  "(\<And>x. x \<in> set xs \<Longrightarrow> detects fresh tenant s (fs x) (f x)) \<Longrightarrow> detects fresh tenant s (\<Union> (fs ` set xs)) (each f xs)"
proof (induction xs)
  case Nil
  have "each f [] = (\<lambda>w rep. (w, Inr rep))" by (intro ext) simp
  then show ?case using detects_skip by simp
next
  case (Cons x xs)
  have "detects fresh tenant s (fs x \<union> \<Union> (fs ` set xs)) (and_then (f x) (each f xs))"
    by (rule detects_then) (use Cons in simp_all)
  then show ?case unfolding each_Cons by simp
qed

text \<open>A step is judged by what it does on these stores.\<close>

lemma detects_cong:
  assumes "\<And>t rep. table_ok fresh t \<Longrightarrow> f \<lparr>rw_saga = s, rw_issues = t\<rparr> rep = g \<lparr>rw_saga = s, rw_issues = t\<rparr> rep"
    and "detects fresh tenant s fs g"
  shows "detects fresh tenant s fs f"
  using assms unfolding detects_def by simp

lemma detects_counting:
  assumes "detects fresh tenant s fs f" and "\<And>rep. reported (h rep) = reported rep \<and> sr_repaired (h rep) = sr_repaired rep \<and> sr_escalated (h rep) = sr_escalated rep"
  shows "detects fresh tenant s fs (\<lambda>w rep. f w (h rep))"
  unfolding detects_def
proof (intro allI impI)
  fix t rep assume "table_ok fresh t"
  from detectsE [OF assms(1) this] obtain t' rep' where "f \<lparr>rw_saga = s, rw_issues = t\<rparr> (h rep) = (\<lparr>rw_saga = s, rw_issues = t'\<rparr>, Inr rep')"
    "grown fresh tenant fs t t'" "noted fs (h rep) rep'" .
  with assms(2) [of rep] show "\<exists>t' rep'. f \<lparr>rw_saga = s, rw_issues = t\<rparr> (h rep) = (\<lparr>rw_saga = s, rw_issues = t'\<rparr>, Inr rep') \<and> grown fresh tenant fs t t' \<and> noted fs rep rep'"
    by (auto simp: noted_def)
qed

lemma detects_if: "detects fresh tenant s (if P then {f} else {}) (\<lambda>w rep. if P then record_finding rl now fresh tenant f None w rep else (w, Inr rep))"
  using detects_record detects_skip by (cases P) (simp_all add: eta_contract_eq)

section \<open>Detection is exact\<close>

text \<open>The stores answer: the bucket keeps the contract of a versioned one, queries succeed and the rows of a tenant fit one query.\<close>

definition stores_answer :: "'b reconciler \<Rightarrow> ('b \<Rightarrow> (string \<times> string) set) \<Rightarrow> ('b \<Rightarrow> (string \<times> string) set) \<Rightarrow> string \<Rightarrow> 'b saga_world \<Rightarrow> bool" where
  "stores_answer rl vers marks tenant s \<longleftrightarrow> versioned_bucket (rl_s3 rl) vers marks \<and> tenant \<noteq> [] \<and> vc_query (rl_vectors rl) (vw_rows (sw_index s)) \<and>
     length (filter (\<lambda>r. mr_tenant_id r = tenant) (vw_rows (sw_index s))) \<le> QUERY_LIMIT"

lemma length_filter_mono: "(\<And>x. P x \<Longrightarrow> Q x) \<Longrightarrow> length (filter P xs) \<le> length (filter Q xs)"
  by (induction xs) (auto simp: le_SucI)

lemma query_answered:
  assumes "stores_answer rl vers marks tenant s"
  shows "chunk_ids_for_prefix (rl_vectors rl) (vw_rows (sw_index s)) tenant (vm_prefix m) = Inr (held_chunks tenant s m)"
    and "list_version_ids (rl_vectors rl) (vw_rows (sw_index s)) tenant = Inr (sort (remdups (map mr_version_id (filter (\<lambda>r. mr_tenant_id r = tenant) (vw_rows (sw_index s))))))"
proof -
  let ?rows = "vw_rows (sw_index s)"
  have "length (filter (in_prefix tenant (vm_prefix m)) ?rows) \<le> length (filter (\<lambda>r. mr_tenant_id r = tenant) ?rows)"
    by (rule length_filter_mono) (simp add: in_prefix_def)
  with assms have "take QUERY_LIMIT (filter (in_prefix tenant (vm_prefix m)) ?rows) = filter (in_prefix tenant (vm_prefix m)) ?rows"
    by (simp add: stores_answer_def)
  with assms show "chunk_ids_for_prefix (rl_vectors rl) ?rows tenant (vm_prefix m) = Inr (held_chunks tenant s m)"
    by (simp add: chunk_ids_for_prefix_def query_prefix_def query_rows_def stores_answer_def held_chunks_def)
  from assms show "list_version_ids (rl_vectors rl) ?rows tenant = Inr (sort (remdups (map mr_version_id (filter (\<lambda>r. mr_tenant_id r = tenant) ?rows))))"
    by (simp add: list_version_ids_def query_rows_def stores_answer_def)
qed

lemma inventory_answered:
  assumes "stores_answer rl vers marks tenant s"
  obtains vs ms where "inventory (rl_hmac rl) (rl_s3 rl) tenant mid vid None (sw_bucket s) = Some (Inr (vs, ms))"
    "vs = [] \<longleftrightarrow> derive_object_key (rl_hmac rl) tenant mid vid \<notin> fst ` vers (sw_bucket s)"
proof -
  let ?key = "derive_object_key (rl_hmac rl) tenant mid vid"
  from assms have b: "versioned_bucket (rl_s3 rl) vers marks" and t: "tenant \<noteq> []" by (simp_all add: stores_answer_def)
  obtain vs ms where l: "list_versions (rl_s3 rl) ?key (sw_bucket s) = Some (Inr (vs, ms))" "Pair ?key ` set vs = {e \<in> vers (sw_bucket s). fst e = ?key}"
    by (rule list_versions_exact [OF b])
  have "vs = [] \<longleftrightarrow> ?key \<notin> fst ` vers (sw_bucket s)"
  proof
    assume "vs = []"
    with l(2) have "{e \<in> vers (sw_bucket s). fst e = ?key} = {}" by simp
    then show "?key \<notin> fst ` vers (sw_bucket s)" by force
  next
    assume "?key \<notin> fst ` vers (sw_bucket s)"
    then have "{e \<in> vers (sw_bucket s). fst e = ?key} = {}" by force
    with l(2) show "vs = []" by simp
  qed
  with l(1) t that show thesis by (simp add: inventory_def resolve_key_def Let_def)
qed

lemma detects_check_version:
  assumes "stores_answer rl vers marks tenant s"
  shows "detects fresh tenant s
    (if mv_status v \<in> set LIVE_VERSION_STATUSES \<and> derive_object_key (rl_hmac rl) tenant (mv_material_id v) (mv_id v) \<notin> fst ` vers (sw_bucket s) then {missing_object v} else {})
    (check_version rl now fresh tenant v)"
proof -
  obtain vs ms where "inventory (rl_hmac rl) (rl_s3 rl) tenant (mv_material_id v) (mv_id v) None (sw_bucket s) = Some (Inr (vs, ms))"
    "vs = [] \<longleftrightarrow> derive_object_key (rl_hmac rl) tenant (mv_material_id v) (mv_id v) \<notin> fst ` vers (sw_bucket s)"
    by (rule inventory_answered [OF assms])
  then show ?thesis by (intro detects_cong [OF _ detects_if [where rl = rl and now = now]]) (simp add: check_version_def)
qed

lemma detects_check_object:
  "detects fresh tenant s (if ov_id ob \<notin> set claimed \<and> ov_deletion_state ob \<noteq> ''deleted'' then {orphan_object ob} else {}) (check_object rl now fresh tenant False claimed ob)"
  by (intro detects_cong [OF _ detects_if [where rl = rl and now = now]]) (simp add: check_object_def)

lemma detects_check_manifest:
  assumes "stores_answer rl vers marks tenant s"
  shows "detects fresh tenant s
    (if vm_deletion_state m = Ds_deleted then {} else if vm_retrievable m \<and> held_chunks tenant s m = [] then {missing_vector m}
     else if held_chunks tenant s m \<noteq> [] \<and> vm_chunk_ids m \<noteq> [] \<and> set (held_chunks tenant s m) \<noteq> set (vm_chunk_ids m) then {missing_chunk m (held_chunks tenant s m)} else {})
    (check_manifest rl now fresh tenant False m)"
proof (cases "vm_deletion_state m = Ds_deleted")
  case True
  have "detects fresh tenant s {} (check_manifest rl now fresh tenant False m)"
    by (rule detects_cong [OF _ detects_skip]) (simp add: check_manifest_def True)
  with True show ?thesis by simp
next
  case False
  note a = query_answered(1) [OF assms, of m]
  show ?thesis
  proof (cases "vm_retrievable m \<and> held_chunks tenant s m = []")
    case True
    with False show ?thesis by (auto intro!: detects_cong [OF _ detects_record [where rl = rl and now = now]] simp: check_manifest_def a)
  next
    case no: False
    with False show ?thesis
      by (simp only: if_False if_True) (rule detects_cong [OF _ detects_if [where rl = rl and now = now]], simp only: check_manifest_def, simp add: a)
  qed
qed

lemma detects_check_present:
  "detects fresh tenant s (if \<not> version_owned manifests known vid then {orphan_vector vid} else {}) (check_present_version rl now fresh tenant False manifests known vid)"
  by (intro detects_cong [OF _ detects_if [where rl = rl and now = now]]) (simp add: check_present_version_def)

lemma detects_check_pointer:
  "detects fresh tenant s (if mt_status m = Available \<and> mt_active_version_id m \<noteq> map_of served (mt_id m) then {version_drift m (map_of served (mt_id m))} else {})
     (check_pointer rl gap now fresh tenant False served m)"
  by (intro detects_cong [OF _ detects_if [where rl = rl and now = now]]) (simp add: check_pointer_def)

lemma set_claimed: "set (claimed_object_ids (filter (\<lambda>v. mv_tenant_id v = tenant) vs)) =
    {oid. \<exists>v\<in>set vs. mv_tenant_id v = tenant \<and> mv_status v \<in> set LIVE_VERSION_STATUSES \<and> mv_object_version_id v = Some oid}"
  by (force simp: claimed_object_ids_def List.map_filter_def image_iff)

text \<open>What each check finds.\<close>

definition drifting_objects :: "(string \<Rightarrow> string \<Rightarrow> string) \<Rightarrow> ('b \<Rightarrow> (string \<times> string) set) \<Rightarrow> string \<Rightarrow> 'b saga_world \<Rightarrow> finding set" where
  "drifting_objects hmac vers tenant s =
     {missing_object v | v. v \<in> live_versions tenant s \<and> derive_object_key hmac tenant (mv_material_id v) (mv_id v) \<notin> fst ` vers (sw_bucket s)}
   \<union> {orphan_object ob | ob. ob \<in> set (sd_objects (sw_db s)) \<and> ov_tenant_id ob = tenant \<and> ov_deletion_state ob \<noteq> ''deleted'' \<and>
        Some (ov_id ob) \<notin> mv_object_version_id ` live_versions tenant s}"

definition drifting_vectors :: "string \<Rightarrow> 'b saga_world \<Rightarrow> finding set" where
  "drifting_vectors tenant s =
     {missing_vector m | m. m \<in> tenant_manifests tenant s \<and> vm_retrievable m \<and> held_chunks tenant s m = []}
   \<union> {missing_chunk m (held_chunks tenant s m) | m. m \<in> tenant_manifests tenant s \<and> held_chunks tenant s m \<noteq> [] \<and> vm_chunk_ids m \<noteq> [] \<and>
        set (held_chunks tenant s m) \<noteq> set (vm_chunk_ids m)}
   \<union> {orphan_vector vid | vid. (\<exists>r\<in>set (vw_rows (sw_index s)). mr_tenant_id r = tenant \<and> mr_version_id r = vid) \<and>
        \<not> (Some vid \<in> subject_version ` tenant_manifests tenant s \<and> (\<exists>v\<in>set (sd_versions (sw_db s)). mv_tenant_id v = tenant \<and> mv_id v = vid))}"

definition drifting_pointers :: "string \<Rightarrow> 'b saga_world \<Rightarrow> finding set" where
  "drifting_pointers tenant s =
     {version_drift m served | m served. m \<in> set (sd_materials (sw_db s)) \<and> mt_tenant_id m = tenant \<and> mt_status m = Available \<and>
        served = map_of (served_versions tenant (vw_manifests (sw_index s))) (mt_id m) \<and> mt_active_version_id m \<noteq> served}"

lemma drift_parts: "drift hmac vers tenant s = drifting_objects hmac vers tenant s \<union> drifting_vectors tenant s \<union> drifting_pointers tenant s"
  unfolding drift_def drifting_objects_def drifting_vectors_def drifting_pointers_def by blast

lemma reported_counts [simp]:
  "reported (rep\<lparr>sr_checked_versions := n\<rparr>) = reported rep" "reported (rep\<lparr>sr_checked_manifests := n\<rparr>) = reported rep"
  by (simp_all add: reported_def)

lemma UN_if: "\<Union> ((\<lambda>x. if P x then {a x} else {}) ` A) = {a x | x. x \<in> A \<and> P x}"
  by auto

lemma UN_if_if: "\<Union> ((\<lambda>x. if P x then {} else if Q x then {a x} else if R x then {b x} else {}) ` A) =
    {a x | x. x \<in> A \<and> \<not> P x \<and> Q x} \<union> {b x | x. x \<in> A \<and> \<not> P x \<and> \<not> Q x \<and> R x}"
  by auto

lemma claimed_live:
  "oid \<in> set (claimed_object_ids (filter (\<lambda>v. mv_tenant_id v = tenant) (sd_versions (sw_db s)))) \<longleftrightarrow> Some oid \<in> mv_object_version_id ` live_versions tenant s"
  unfolding set_claimed live_versions_def by (auto simp: image_iff)

lemma detects_check_objects:
  assumes "stores_answer rl vers marks tenant s"
  shows "detects fresh tenant s (drifting_objects (rl_hmac rl) vers tenant s) (check_objects rl now fresh tenant False)"
proof -
  let ?vs = "filter (\<lambda>v. mv_tenant_id v = tenant) (sd_versions (sw_db s))"
  let ?os = "filter (\<lambda>ob. ov_tenant_id ob = tenant) (sd_objects (sw_db s))"
  let ?body = "and_then (each (check_version rl now fresh tenant) ?vs) (each (check_object rl now fresh tenant False (claimed_object_ids ?vs)) ?os)"
  let ?f = "\<lambda>v. if mv_status v \<in> set LIVE_VERSION_STATUSES \<and> derive_object_key (rl_hmac rl) tenant (mv_material_id v) (mv_id v) \<notin> fst ` vers (sw_bucket s) then {missing_object v} else {}"
  let ?g = "\<lambda>ob. if ov_id ob \<notin> set (claimed_object_ids ?vs) \<and> ov_deletion_state ob \<noteq> ''deleted'' then {orphan_object ob} else {}"
  have "detects fresh tenant s (\<Union> (?f ` set ?vs) \<union> \<Union> (?g ` set ?os)) ?body"
    by (intro detects_then detects_each detects_check_version [OF assms] detects_check_object)
  then have "detects fresh tenant s (\<Union> (?f ` set ?vs) \<union> \<Union> (?g ` set ?os)) (\<lambda>w rep. ?body w (rep\<lparr>sr_checked_versions := length ?vs\<rparr>))"
    by (rule detects_counting) simp
  then have "detects fresh tenant s (\<Union> (?f ` set ?vs) \<union> \<Union> (?g ` set ?os)) (check_objects rl now fresh tenant False)"
    by (rule detects_cong [rotated]) (simp only: check_objects_def Let_def recon_world.simps)
  moreover have "\<Union> (?f ` set ?vs) \<union> \<Union> (?g ` set ?os) = drifting_objects (rl_hmac rl) vers tenant s"
    unfolding claimed_live UN_if drifting_objects_def by (simp add: live_versions_def conj_ac)
  ultimately show ?thesis by simp
qed

lemma detects_check_vectors:
  assumes "stores_answer rl vers marks tenant s"
  shows "detects fresh tenant s (drifting_vectors tenant s) (check_vectors rl now fresh tenant False)"
proof -
  let ?ms = "filter (\<lambda>m. vm_tenant_id m = tenant) (vw_manifests (sw_index s))"
  let ?known = "map mv_id (filter (\<lambda>v. mv_tenant_id v = tenant) (sd_versions (sw_db s)))"
  let ?present = "sort (remdups (map mr_version_id (filter (\<lambda>r. mr_tenant_id r = tenant) (vw_rows (sw_index s)))))"
  let ?body = "and_then (each (check_manifest rl now fresh tenant False) ?ms) (each (check_present_version rl now fresh tenant False ?ms ?known) ?present)"
  let ?f = "\<lambda>m. if vm_deletion_state m = Ds_deleted then {} else if vm_retrievable m \<and> held_chunks tenant s m = [] then {missing_vector m}
     else if held_chunks tenant s m \<noteq> [] \<and> vm_chunk_ids m \<noteq> [] \<and> set (held_chunks tenant s m) \<noteq> set (vm_chunk_ids m) then {missing_chunk m (held_chunks tenant s m)} else {}"
  let ?g = "\<lambda>vid. if \<not> version_owned ?ms ?known vid then {orphan_vector vid} else {}"
  have "detects fresh tenant s (\<Union> (?f ` set ?ms) \<union> \<Union> (?g ` set ?present)) ?body"
    by (intro detects_then detects_each detects_check_manifest [OF assms] detects_check_present)
  then have "detects fresh tenant s (\<Union> (?f ` set ?ms) \<union> \<Union> (?g ` set ?present)) (\<lambda>w rep. ?body w (rep\<lparr>sr_checked_manifests := length ?ms\<rparr>))"
    by (rule detects_counting) simp
  then have "detects fresh tenant s (\<Union> (?f ` set ?ms) \<union> \<Union> (?g ` set ?present)) (check_vectors rl now fresh tenant False)"
    by (rule detects_cong [rotated]) (simp only: check_vectors_def Let_def recon_world.simps query_answered(2) [OF assms] sum.case)
  moreover have "\<Union> (?f ` set ?ms) = {missing_vector m | m. m \<in> tenant_manifests tenant s \<and> vm_retrievable m \<and> held_chunks tenant s m = []}
   \<union> {missing_chunk m (held_chunks tenant s m) | m. m \<in> tenant_manifests tenant s \<and> held_chunks tenant s m \<noteq> [] \<and> vm_chunk_ids m \<noteq> [] \<and>
        set (held_chunks tenant s m) \<noteq> set (vm_chunk_ids m)}"
    unfolding UN_if_if by (rule arg_cong2 [where f = "(\<union>)"]) (auto simp: tenant_manifests_def)
  moreover have "version_owned ?ms ?known vid \<longleftrightarrow> Some vid \<in> subject_version ` tenant_manifests tenant s \<and> (\<exists>v\<in>set (sd_versions (sw_db s)). mv_tenant_id v = tenant \<and> mv_id v = vid)" for vid
    by (auto simp: version_owned_def tenant_manifests_def)
  then have "\<Union> (?g ` set ?present) = {orphan_vector vid | vid. (\<exists>r\<in>set (vw_rows (sw_index s)). mr_tenant_id r = tenant \<and> mr_version_id r = vid) \<and>
        \<not> (Some vid \<in> subject_version ` tenant_manifests tenant s \<and> (\<exists>v\<in>set (sd_versions (sw_db s)). mv_tenant_id v = tenant \<and> mv_id v = vid))}"
    unfolding UN_if by (auto intro!: Collect_cong)
  ultimately show ?thesis unfolding drifting_vectors_def by simp
qed

lemma detects_check_active_pointer:
  "detects fresh tenant s (drifting_pointers tenant s) (check_active_pointer rl gap now fresh tenant False)"
proof -
  let ?served = "served_versions tenant (vw_manifests (sw_index s))"
  let ?ms = "filter (\<lambda>m. mt_tenant_id m = tenant \<and> mt_status m \<noteq> Deleted_material) (sd_materials (sw_db s))"
  let ?f = "\<lambda>m. if mt_status m = Available \<and> mt_active_version_id m \<noteq> map_of ?served (mt_id m) then {version_drift m (map_of ?served (mt_id m))} else {}"
  have "detects fresh tenant s (\<Union> (?f ` set ?ms)) (each (check_pointer rl gap now fresh tenant False ?served) ?ms)"
    by (intro detects_each detects_check_pointer)
  then have "detects fresh tenant s (\<Union> (?f ` set ?ms)) (check_active_pointer rl gap now fresh tenant False)"
    by (intro detects_cong [OF _ \<open>detects fresh tenant s (\<Union> (?f ` set ?ms)) _\<close>]) (simp add: check_active_pointer_def)
  moreover have "\<Union> (?f ` set ?ms) = drifting_pointers tenant s" by (auto simp: drifting_pointers_def split: if_splits)
  ultimately show ?thesis by simp
qed

lemma detects_sweep:
  assumes "stores_answer rl vers marks tenant s"
  shows "detects fresh tenant s (drift (rl_hmac rl) vers tenant s)
    (and_then (check_objects rl now fresh tenant False) (and_then (check_vectors rl now fresh tenant False) (check_active_pointer rl gap now fresh tenant False)))"
  unfolding drift_parts Un_assoc by (intro detects_then detects_check_objects [OF assms] detects_check_vectors [OF assms] detects_check_active_pointer)

lemma sweep_detects:
  assumes "stores_answer rl vers marks tenant (rw_saga w)" and "table_ok fresh (rw_issues w)"
  obtains t rep where "sweep rl gap now fresh tenant False w = (\<lparr>rw_saga = rw_saga w, rw_issues = t\<rparr>, Inr rep)"
    "grown fresh tenant (drift (rl_hmac rl) vers tenant (rw_saga w)) (rw_issues w) t" "noted (drift (rl_hmac rl) vers tenant (rw_saga w)) (new_report tenant) rep"
proof -
  have "w = \<lparr>rw_saga = rw_saga w, rw_issues = rw_issues w\<rparr>" by simp
  with detectsE [OF detects_sweep [OF assms(1), of fresh now gap] assms(2), of "new_report tenant"] that show thesis
    unfolding sweep_def by metis
qed

lemma table_ok_unfold: "table_ok fresh t \<longleftrightarrow> inj fresh \<and> distinct (map rc_id t) \<and> distinct (map natural_key t) \<and> (\<forall>n\<ge>length t. fresh n \<notin> rc_id ` set t)"
  by (auto simp: table_ok_def id_supply_def)


text \<open>C35. Detection is idempotent: over unchanged stores a second sweep, at any later time, leaves the same issues under the same natural keys and
  reports the same entries.\<close>

theorem detection_is_idempotent:
  assumes "stores_answer rl vers marks tenant (rw_saga w)" and "table_ok fresh (rw_issues w)"
    and "sweep rl gap now fresh tenant False w = (w1, Inr rep1)" and "sweep rl gap' now' fresh tenant False w1 = (w2, Inr rep2)"
  shows "map natural_key (rw_issues w2) = map natural_key (rw_issues w1) \<and> rw_saga w2 = rw_saga w
    \<and> set (sr_opened rep2) \<union> set (sr_reopened rep2) = set (sr_opened rep1) \<union> set (sr_reopened rep1)"
proof -
  let ?d = "drift (rl_hmac rl) vers tenant (rw_saga w)"
  obtain t1 r1 where 1: "sweep rl gap now fresh tenant False w = (\<lparr>rw_saga = rw_saga w, rw_issues = t1\<rparr>, Inr r1)"
    "grown fresh tenant ?d (rw_issues w) t1" "noted ?d (new_report tenant) r1"
    by (rule sweep_detects [OF assms(1,2)])
  from 1(1) assms(3) have w1: "w1 = \<lparr>rw_saga = rw_saga w, rw_issues = t1\<rparr>" "rep1 = r1" by simp_all
  have "stores_answer rl vers marks tenant (rw_saga w1)" "table_ok fresh (rw_issues w1)" using assms(1) 1(2) by (simp_all add: w1 grown_def)
  from sweep_detects [OF this] obtain t2 r2 where 2: "sweep rl gap' now' fresh tenant False w1 = (\<lparr>rw_saga = rw_saga w1, rw_issues = t2\<rparr>, Inr r2)"
    "grown fresh tenant (drift (rl_hmac rl) vers tenant (rw_saga w1)) (rw_issues w1) t2" "noted (drift (rl_hmac rl) vers tenant (rw_saga w1)) (new_report tenant) r2" .
  from 2(1) assms(4) have w2: "w2 = \<lparr>rw_saga = rw_saga w, rw_issues = t2\<rparr>" "rep2 = r2" by (simp_all add: w1)
  have "finding_key tenant ` ?d \<subseteq> natural_key ` set t1" using 1(2) by (simp only: grown_def) blast
  moreover have "finding_key tenant ` ?d \<subseteq> natural_key ` set t1 \<longrightarrow> map natural_key t2 = map natural_key t1"
    using 2(2) unfolding grown_def w1 recon_world.simps by (elim conjE)
  ultimately have "map natural_key t2 = map natural_key t1" by blast
  with 1(3) 2(3) show ?thesis by (simp add: w1 w2 noted_def reported_def)
qed

section \<open>Confirming a deletion\<close>


section \<open>What repairs leave alone\<close>

definition moves :: "('b saga_world \<Rightarrow> 'b saga_world \<Rightarrow> bool) \<Rightarrow> 'b recon_step \<Rightarrow> bool" where
  "moves R f \<longleftrightarrow> (\<forall>w rep. R (rw_saga w) (rw_saga (fst (f w rep))))"

lemma moves_then:
  assumes "\<And>a b c. R a b \<Longrightarrow> R b c \<Longrightarrow> R a c" and "moves R f" and "moves R g"
  shows "moves R (and_then f g)"
  unfolding moves_def
proof (intro allI)
  fix w rep
  obtain w1 r where f: "f w rep = (w1, r)" by (cases "f w rep")
  then have 1: "R (rw_saga w) (rw_saga w1)" using assms(2) unfolding moves_def by (metis fst_conv)
  show "R (rw_saga w) (rw_saga (fst (and_then f g w rep)))"
  proof (cases r)
    case (Inl e)
    with f 1 show ?thesis by (simp add: and_then_def)
  next
    case (Inr rep1)
    then have "and_then f g w rep = g w1 rep1" by (simp add: and_then_def f)
    moreover have "R (rw_saga w1) (rw_saga (fst (g w1 rep1)))" using assms(3) unfolding moves_def by blast
    ultimately show ?thesis using assms(1) 1 by metis
  qed
qed

lemma moves_each:
  assumes "\<And>a. R a a" and "\<And>a b c. R a b \<Longrightarrow> R b c \<Longrightarrow> R a c" and "\<And>x. moves R (f x)"
  shows "moves R (each f xs)"
proof (induction xs)
  case Nil
  show ?case using assms(1) by (simp add: moves_def)
next
  case (Cons x xs)
  show ?case unfolding each_Cons by (rule moves_then [OF assms(2) assms(3) Cons])
qed

lemma moves_record:
  fixes repair :: "'b repair option"
  assumes "\<And>a. R a a" and "\<And>r s. repair = Some r \<Longrightarrow> R s (fst (r s))"
  shows "moves R (record_finding rl now fresh tenant f repair)"
  unfolding moves_def
proof (intro allI)
  fix w :: "'b recon_world" and rep
  obtain t res where u: "upsert_issue (rl_max_attempts rl) now fresh tenant f (rw_issues w) rep = (t, res)" by fastforce
  show "R (rw_saga w) (rw_saga (fst (record_finding rl now fresh tenant f repair w rep)))"
  proof (cases repair)
    case None
    then show ?thesis using assms(1) by (auto simp: record_finding_def u split: sum.splits)
  next
    case (Some r)
    obtain sw out where r: "r (rw_saga w) = (sw, out)" by fastforce
    with assms(2) [OF Some, of "rw_saga w"] have "R (rw_saga w) sw" by simp
    with assms(1) show ?thesis by (auto simp: record_finding_def u Some r split: sum.splits repair_fault.splits)
  qed
qed

text \<open>Versions stay as they are, materials up to the pointer, manifests up to the flag; object rows may go, but none a version refers to.\<close>

definition metadata_kept :: "'b saga_world \<Rightarrow> 'b saga_world \<Rightarrow> bool" where
  "metadata_kept s s' \<longleftrightarrow> sd_versions (sw_db s') = sd_versions (sw_db s) \<and>
     map (\<lambda>m. m\<lparr>mt_active_version_id := None, mt_updated_at := 0, mt_version := 0\<rparr>) (sd_materials (sw_db s')) =
     map (\<lambda>m. m\<lparr>mt_active_version_id := None, mt_updated_at := 0, mt_version := 0\<rparr>) (sd_materials (sw_db s)) \<and>
     map (\<lambda>m. m\<lparr>vm_retrievable := False, vm_updated_at := 0, vm_version := 0\<rparr>) (vw_manifests (sw_index s')) =
     map (\<lambda>m. m\<lparr>vm_retrievable := False, vm_updated_at := 0, vm_version := 0\<rparr>) (vw_manifests (sw_index s)) \<and>
     set (sd_objects (sw_db s')) \<subseteq> set (sd_objects (sw_db s)) \<and>
     {ob \<in> set (sd_objects (sw_db s)). Some (ov_id ob) \<in> mv_object_version_id ` set (sd_versions (sw_db s))} \<subseteq> set (sd_objects (sw_db s'))"

lemma metadata_kept_refl [simp]: "metadata_kept s s"
  by (auto simp: metadata_kept_def)

lemma metadata_kept_trans: "metadata_kept a b \<Longrightarrow> metadata_kept b c \<Longrightarrow> metadata_kept a c"
  unfolding metadata_kept_def by (intro conjI; force)

lemma kept_ids:
  assumes "metadata_kept s s'" shows "map mt_id (sd_materials (sw_db s')) = map mt_id (sd_materials (sw_db s))"
proof -
  let ?f = "\<lambda>m :: material. m\<lparr>mt_active_version_id := None, mt_updated_at := 0, mt_version := 0\<rparr>"
  have "map mt_id (map ?f ms) = map mt_id ms" for ms by simp
  moreover from assms have "map ?f (sd_materials (sw_db s')) = map ?f (sd_materials (sw_db s))" unfolding metadata_kept_def by (elim conjE)
  ultimately show ?thesis by metis
qed

lemma kept_delete_row: "metadata_kept s (fst (delete_object_row oid s))"
  by (auto simp: delete_object_row_def metadata_kept_def)

lemma kept_bucket [simp]: "metadata_kept s (s\<lparr>sw_bucket := b\<rparr>)"
  by (auto simp: metadata_kept_def)

lemma kept_rows [simp]: "metadata_kept s (s\<lparr>sw_index := (sw_index s)\<lparr>vw_rows := t\<rparr>\<rparr>)"
  by (auto simp: metadata_kept_def)

lemma kept_orphan_object: "metadata_kept s (fst (repair_orphan_object rl tenant oid s))"
  using kept_delete_row metadata_kept_trans [OF kept_bucket kept_delete_row]
  by (auto simp: repair_orphan_object_def split: option.splits prod.splits sum.splits)

lemma manifests_deactivate:
  "map (\<lambda>m. m\<lparr>vm_retrievable := False, vm_updated_at := 0, vm_version := 0\<rparr>) (vw_manifests (fst (deactivate_manifest c t w now i))) =
   map (\<lambda>m. m\<lparr>vm_retrievable := False, vm_updated_at := 0, vm_version := 0\<rparr>) (vw_manifests w)"
  by (auto simp: deactivate_manifest_def manifest_cas_def cas_row_def set_vm_version_def Let_def split: sum.splits option.splits prod.splits if_splits)

lemma kept_withdraw: "metadata_kept s (fst (repair_withdraw_manifest rl now i s))"
  using manifests_deactivate [of "rl_vectors rl" "vw_manifests (sw_index s)" "sw_index s" now i]
  by (auto simp: repair_withdraw_manifest_def metadata_kept_def split: prod.splits sum.splits)

lemma kept_orphan_vectors: "metadata_kept s (fst (repair_orphan_vectors rl tenant vid s))"
  by (auto simp: repair_orphan_vectors_def Let_def split: prod.splits sum.splits)

lemma kept_pointer: "metadata_kept s (fst (repair_active_pointer undisturbed now tenant mid served s))"
  by (auto simp: repair_active_pointer_def undisturbed_def metadata_kept_def cas_row_def set_mt_version_def split: option.splits if_splits)

lemma moves_checks:
  "moves metadata_kept (check_version rl now fresh tenant v)"
  "moves metadata_kept (check_object rl now fresh tenant repair claimed ob)"
  "moves metadata_kept (check_manifest rl now fresh tenant repair m)"
  "moves metadata_kept (check_present_version rl now fresh tenant repair ms known vid)"
  "moves metadata_kept (check_pointer rl undisturbed now fresh tenant repair served mt)"
proof -
  have rec: "metadata_kept (rw_saga w) (rw_saga (fst (record_finding rl now fresh tenant f r w rep)))"
    if "\<And>x s. r = Some x \<Longrightarrow> metadata_kept s (fst (x s))" for f r w rep
    using moves_record [of metadata_kept r rl now fresh tenant f] that unfolding moves_def by simp
  show "moves metadata_kept (check_version rl now fresh tenant v)"
    unfolding moves_def check_version_def by (auto intro!: rec split: option.splits sum.splits)
  show "moves metadata_kept (check_object rl now fresh tenant repair claimed ob)"
    unfolding moves_def check_object_def by (auto intro!: rec kept_orphan_object split: if_splits)
  show "moves metadata_kept (check_manifest rl now fresh tenant repair m)"
    unfolding moves_def check_manifest_def by (auto intro!: rec kept_withdraw split: sum.splits if_splits)
  show "moves metadata_kept (check_present_version rl now fresh tenant repair ms known vid)"
    unfolding moves_def check_present_version_def by (auto intro!: rec kept_orphan_vectors split: if_splits)
  show "moves metadata_kept (check_pointer rl undisturbed now fresh tenant repair served mt)"
    unfolding moves_def check_pointer_def by (auto intro!: rec kept_pointer split: if_splits)
qed

lemmas moves_loop = moves_each [of metadata_kept, OF metadata_kept_refl metadata_kept_trans]
lemmas moves_seq = moves_then [of metadata_kept, OF metadata_kept_trans]

lemma moves_sweep_parts:
  "moves metadata_kept (check_objects rl now fresh tenant repair)"
  "moves metadata_kept (check_vectors rl now fresh tenant repair)"
  "moves metadata_kept (check_active_pointer rl undisturbed now fresh tenant repair)"
proof -
  have run: "metadata_kept (rw_saga w) (rw_saga (fst (f w rep)))" if "moves metadata_kept f" for f w rep
    using that unfolding moves_def by blast
  show "moves metadata_kept (check_objects rl now fresh tenant repair)"
    unfolding moves_def check_objects_def Let_def by (intro allI run moves_seq moves_loop moves_checks)
  show "moves metadata_kept (check_active_pointer rl undisturbed now fresh tenant repair)"
    unfolding moves_def check_active_pointer_def by (intro allI run moves_loop moves_checks)
  have "metadata_kept (rw_saga w) (rw_saga (fst (check_vectors rl now fresh tenant repair w rep)))" for w rep
  proof (cases "list_version_ids (rl_vectors rl) (vw_rows (sw_index (rw_saga w))) tenant")
    case (Inr present)
    show ?thesis unfolding check_vectors_def Let_def Inr sum.case by (intro run moves_seq moves_loop moves_checks)
  qed (simp add: check_vectors_def Let_def)
  then show "moves metadata_kept (check_vectors rl now fresh tenant repair)" unfolding moves_def by blast
qed

text \<open>C36. No repair touches the metadata that records what is missing: whatever a sweep does and however it ends, versions stay as they are, materials
  change in their pointer only, manifests in their flag only, and every object row a version refers to is still there.\<close>

theorem repairs_keep_metadata: "metadata_kept (rw_saga w) (rw_saga (fst (sweep rl undisturbed now fresh tenant repair w)))"
proof -
  have "moves metadata_kept (and_then (check_objects rl now fresh tenant repair) (and_then (check_vectors rl now fresh tenant repair) (check_active_pointer rl undisturbed now fresh tenant repair)))"
    by (intro moves_seq moves_sweep_parts)
  then show ?thesis unfolding moves_def sweep_def by blast
qed

section \<open>The correction of pointers\<close>

definition corrected :: "instant \<Rightarrow> string \<Rightarrow> (ident \<times> ident) list \<Rightarrow> material \<Rightarrow> material" where
  "corrected now tenant served m =
     (if mt_tenant_id m = tenant \<and> mt_status m = Available \<and> mt_active_version_id m \<noteq> map_of served (mt_id m)
      then set_mt_version (mt_version m + 1) (m\<lparr>mt_active_version_id := map_of served (mt_id m), mt_updated_at := now\<rparr>) else m)"

lemma corrected_fields [simp]: "mt_id (corrected now tenant served m) = mt_id m" "mt_status (corrected now tenant served m) = mt_status m"
  "mt_tenant_id (corrected now tenant served m) = mt_tenant_id m"
  by (simp_all add: corrected_def set_mt_version_def)

lemma record_saga:
  "record_finding rl now fresh tenant f (Some r) w rep = (w', Inr rep') \<Longrightarrow> rw_saga w' = fst (r (rw_saga w))"
  by (auto simp: record_finding_def split: prod.splits sum.splits repair_fault.splits)

text \<open>One pointer: the row of the material is corrected, everything else stays.\<close>

lemma check_pointer_corrects:
  assumes "check_pointer rl undisturbed now fresh tenant True served m w rep = (w', Inr rep')"
    and d: "keys_distinct mt_id (sd_materials (sw_db (rw_saga w)))" and m: "m \<in> set (sd_materials (sw_db (rw_saga w)))" "mt_tenant_id m = tenant"
  shows "sd_materials (sw_db (rw_saga w')) = put_row mt_id (sd_materials (sw_db (rw_saga w))) (mt_id m) (\<lambda>_. corrected now tenant served m) \<and> sw_index (rw_saga w') = sw_index (rw_saga w)"
proof (cases "mt_status m \<noteq> Available \<or> mt_active_version_id m = map_of served (mt_id m)")
  case True
  then have "w' = w" "corrected now tenant served m = m" using assms(1) by (auto simp: check_pointer_def corrected_def)
  moreover have "put_row mt_id (sd_materials (sw_db (rw_saga w))) (mt_id m) (\<lambda>_. m) = sd_materials (sw_db (rw_saga w))"
    unfolding put_row_def by (rule map_idI) (metis d get_row_in_set m(1) option.inject)
  ultimately show ?thesis by simp
next
  case False
  note g = get_row_in_set [OF d m(1)]
  have saga: "rw_saga w' = fst (repair_active_pointer undisturbed now tenant (mt_id m) (map_of served (mt_id m)) (rw_saga w))"
    using assms(1) False by (auto simp: check_pointer_def intro: record_saga)
  show ?thesis
    unfolding saga using False m(2)
    by (simp add: repair_active_pointer_def undisturbed_def g corrected_def material_table.cas_row_current_Some [OF d g])
qed

lemma check_pointers_correct:
  assumes "each (check_pointer rl undisturbed now fresh tenant True served) ms w rep = (w', Inr rep')"
    and "keys_distinct mt_id base" and "set ms \<subseteq> {m \<in> set base. mt_tenant_id m = tenant}" and "distinct (map mt_id ms)" and "mt_id ` set ms \<inter> ids = {}"
    and "sd_materials (sw_db (rw_saga w)) = map (\<lambda>m. if mt_id m \<in> ids then corrected now tenant served m else m) base"
  shows "sd_materials (sw_db (rw_saga w')) = map (\<lambda>m. if mt_id m \<in> ids \<union> mt_id ` set ms then corrected now tenant served m else m) base \<and> sw_index (rw_saga w') = sw_index (rw_saga w)"
  using assms
proof (induction ms arbitrary: w rep ids)
  case (Cons m ms)
  let ?t = "\<lambda>ids. map (\<lambda>m. if mt_id m \<in> ids then corrected now tenant served m else m) base"
  from Cons.prems(1) obtain w1 rep1 where 1: "check_pointer rl undisturbed now fresh tenant True served m w rep = (w1, Inr rep1)"
    and rest: "each (check_pointer rl undisturbed now fresh tenant True served) ms w1 rep1 = (w', Inr rep')"
    by (auto split: prod.splits sum.splits)
  have ids: "map mt_id (?t J) = map mt_id base" for J by simp
  have m: "m \<in> set base" "mt_tenant_id m = tenant" "mt_id m \<notin> ids" using Cons.prems(3,5) by auto
  have "sd_materials (sw_db (rw_saga w1)) = put_row mt_id (?t ids) (mt_id m) (\<lambda>_. corrected now tenant served m) \<and> sw_index (rw_saga w1) = sw_index (rw_saga w)"
  proof -
    have "m \<in> set (?t ids)" using m by force
    moreover have "keys_distinct mt_id (?t ids)" using Cons.prems(2) unfolding ids .
    ultimately show ?thesis using check_pointer_corrects [OF 1] m(2) unfolding Cons.prems(6) by blast
  qed
  moreover have "put_row mt_id (?t ids) (mt_id m) (\<lambda>_. corrected now tenant served m) = ?t (insert (mt_id m) ids)"
  proof -
    have "x = m" if "x \<in> set base" "mt_id x = mt_id m" for x using that m(1) Cons.prems(2) by (meson inj_on_eq_iff distinct_map)
    then show ?thesis unfolding put_row_def map_map by (intro map_cong) auto
  qed
  ultimately have w1: "sd_materials (sw_db (rw_saga w1)) = ?t (insert (mt_id m) ids)" "sw_index (rw_saga w1) = sw_index (rw_saga w)" by simp_all
  from Cons.IH [OF rest Cons.prems(2) _ _ _ w1(1)] Cons.prems(3-5) w1(2) show ?case by simp
qed simp

text \<open>C37. Pointers converge: after a sweep that repairs and returns, every available material of the tenant points at the version that is served, or
  nowhere when none is.\<close>

theorem pointers_converge:
  assumes "sweep rl undisturbed now fresh tenant True w = (w', Inr rep)" and "keys_distinct mt_id (sd_materials (sw_db (rw_saga w)))"
    and "m \<in> set (sd_materials (sw_db (rw_saga w')))" and "mt_tenant_id m = tenant" and "mt_status m = Available"
  shows "mt_active_version_id m = map_of (served_versions tenant (vw_manifests (sw_index (rw_saga w')))) (mt_id m)"
proof -
  from assms(1) obtain w1 rep1 w2 rep2 where c: "check_objects rl now fresh tenant True w (new_report tenant) = (w1, Inr rep1)"
    "check_vectors rl now fresh tenant True w1 rep1 = (w2, Inr rep2)" "check_active_pointer rl undisturbed now fresh tenant True w2 rep2 = (w', Inr rep)"
    by (auto simp: sweep_def and_then_def split: prod.splits sum.splits)
  have "metadata_kept (rw_saga w) (rw_saga w1)" "metadata_kept (rw_saga w1) (rw_saga w2)"
    using moves_sweep_parts(1) [of rl now fresh tenant True] moves_sweep_parts(2) [of rl now fresh tenant True] c(1,2) unfolding moves_def by (metis fst_conv)+
  then have "metadata_kept (rw_saga w) (rw_saga w2)" by (rule metadata_kept_trans)
  then have "map mt_id (sd_materials (sw_db (rw_saga w2))) = map mt_id (sd_materials (sw_db (rw_saga w)))"
    by (rule kept_ids)
  with assms(2) have d: "keys_distinct mt_id (sd_materials (sw_db (rw_saga w2)))" by simp
  let ?served = "served_versions tenant (vw_manifests (sw_index (rw_saga w2)))"
  let ?ms = "filter (\<lambda>m. mt_tenant_id m = tenant \<and> mt_status m \<noteq> Deleted_material) (sd_materials (sw_db (rw_saga w2)))"
  have fin: "sd_materials (sw_db (rw_saga w')) = map (\<lambda>m. if mt_id m \<in> {} \<union> mt_id ` set ?ms then corrected now tenant ?served m else m) (sd_materials (sw_db (rw_saga w2)))
      \<and> sw_index (rw_saga w') = sw_index (rw_saga w2)"
    by (rule check_pointers_correct [OF c(3) [unfolded check_active_pointer_def] d]) (use d in \<open>auto simp: distinct_map_filter\<close>)
  then obtain m0 where m0: "m0 \<in> set (sd_materials (sw_db (rw_saga w2)))" "m = (if mt_id m0 \<in> mt_id ` set ?ms then corrected now tenant ?served m0 else m0)"
    using assms(3) by auto
  then have "mt_tenant_id m0 = tenant" "mt_status m0 = Available" using assms(4,5) by (auto split: if_splits)
  with m0 have "m = corrected now tenant ?served m0" by auto
  then show ?thesis using \<open>mt_tenant_id m0 = tenant\<close> \<open>mt_status m0 = Available\<close> fin by (simp add: corrected_def set_mt_version_def)
qed

section \<open>A world in memory\<close>

text \<open>An available material whose version lost its bytes and is not served.\<close>

definition lost_version :: material_version where
  "lost_version = \<lparr>mv_id = ''v'', mv_tenant_id = ''t1'', mv_material_id = ''m'', mv_version_number = 1, mv_source_version_id = None, mv_object_version_id = None,
     mv_sha256 = [], mv_size_bytes = 1, mv_media_type = [], mv_status = V_available, mv_created_by = ''u'', mv_updated_at = 0, mv_version = 1\<rparr>"

definition drifted_world :: "memory_bucket recon_world" where
  "drifted_world = \<lparr>rw_saga = \<lparr>sw_db = \<lparr>sd_materials = [\<lparr>mt_id = ''m'', mt_tenant_id = ''t1'', mt_knowledge_base_id = None, mt_name = [], mt_source_type = [],
     mt_status = Available, mt_active_version_id = Some ''v'', mt_read_only = False, mt_attempts = 0, mt_max_attempts = 5, mt_next_attempt_at = None,
     mt_last_error_code = None, mt_updated_at = 0, mt_version = 1\<rparr>], sd_versions = [lost_version], sd_objects = [], sd_embeddings = [], sd_outbox = []\<rparr>,
     sw_index = \<lparr>vw_manifests = [], vw_rows = []\<rparr>, sw_bucket = ([], [])\<rparr>, rw_issues = []\<rparr>"

definition memory_reconciler :: "memory_bucket reconciler" where
  "memory_reconciler = \<lparr>rl_hmac = (\<lambda>_ s. s), rl_s3 = memory_s3, rl_vectors = memory_client, rl_max_attempts = 3, rl_retry_backoff = 300\<rparr>"

definition unary_id :: "nat \<Rightarrow> ident" where
  "unary_id n = replicate n CHR ''i''"

lemma inj_unary_id: "inj unary_id"
  by (rule injI) (metis unary_id_def length_replicate)

lemma memory_answers: "stores_answer memory_reconciler (\<lambda>b. set (fst b)) (\<lambda>b. set (snd b)) ''t1'' (rw_saga drifted_world)"
  using memory_s3_versioned by (simp add: stores_answer_def memory_reconciler_def drifted_world_def memory_client_def)

lemma memory_table: "table_ok unary_id (rw_issues drifted_world)"
  by (simp add: table_ok_unfold inj_unary_id drifted_world_def)


theorem detection_is_idempotent_witness:
  "\<exists>w1 rep1 w2 rep2. sweep memory_reconciler undisturbed 5 unary_id ''t1'' False drifted_world = (w1, Inr rep1)
     \<and> sweep memory_reconciler undisturbed 9 unary_id ''t1'' False w1 = (w2, Inr rep2) \<and> map natural_key (rw_issues w2) = map natural_key (rw_issues w1)"
proof -
  obtain w1 rep1 where 1: "sweep memory_reconciler undisturbed 5 unary_id ''t1'' False drifted_world = (w1, Inr rep1)"
    "rw_saga w1 = rw_saga drifted_world" "table_ok unary_id (rw_issues w1)"
    by (rule sweep_detects [OF memory_answers memory_table, of undisturbed 5]) (auto simp: grown_def)
  obtain w2 rep2 where 2: "sweep memory_reconciler undisturbed 9 unary_id ''t1'' False w1 = (w2, Inr rep2)"
    by (rule sweep_detects [OF memory_answers [folded 1(2)] 1(3), of undisturbed 9]) auto
  from detection_is_idempotent [OF memory_answers memory_table 1(1) 2] 1(1) 2 show ?thesis by blast
qed

text \<open>The same material without version rows: only its pointer drifts.\<close>

definition pointer_world :: "memory_bucket recon_world" where
  "pointer_world = drifted_world\<lparr>rw_saga := (rw_saga drifted_world)\<lparr>sw_db := (sw_db (rw_saga drifted_world))\<lparr>sd_versions := []\<rparr>\<rparr>\<rparr>"

lemma pointer_world_repaired:
  "\<exists>w' rep m. sweep memory_reconciler undisturbed 5 unary_id ''t1'' True pointer_world = (w', Inr rep) \<and> sd_materials (sw_db (rw_saga w')) = [m]
     \<and> mt_status m = Available \<and> mt_tenant_id m = ''t1'' \<and> vw_manifests (sw_index (rw_saga w')) = []"
  by (simp add: sweep_def and_then_def check_objects_def check_vectors_def check_active_pointer_def check_pointer_def pointer_world_def drifted_world_def
      memory_reconciler_def memory_client_def list_version_ids_def query_rows_def served_versions_def record_finding_def upsert_issue_def Let_def
      repair_active_pointer_def undisturbed_def cas_row_def set_mt_version_def)

theorem pointers_converge_witness:
  "\<exists>w' rep m. sweep memory_reconciler undisturbed 5 unary_id ''t1'' True pointer_world = (w', Inr rep) \<and> sd_materials (sw_db (rw_saga w')) = [m] \<and> mt_active_version_id m = None"
proof -
  obtain w' rep m where m: "sweep memory_reconciler undisturbed 5 unary_id ''t1'' True pointer_world = (w', Inr rep)" "sd_materials (sw_db (rw_saga w')) = [m]"
    "mt_status m = Available" "mt_tenant_id m = ''t1''" "vw_manifests (sw_index (rw_saga w')) = []"
    using pointer_world_repaired by blast
  have "keys_distinct mt_id (sd_materials (sw_db (rw_saga pointer_world)))" by (simp add: pointer_world_def drifted_world_def)
  from pointers_converge [OF m(1) this _ m(4,3)] m show ?thesis by (auto simp: served_versions_def)
qed

section \<open>The audit trail of a scheduled pass\<close>





















end
