(* ===== verification/Evidence_Gates.thy ===== *)
theory Evidence_Gates
  imports Py_Text
begin

text \<open>
  The gates retrieved material passes before it may ground an answer: the candidate gate every entrypoint shares (\<open>graph/evidence_gate.py\<close>),
  the cross-encoder gate with its lexical fallback (\<open>agents/grounding.py\<close>) and the quality verdict with its one retry
  (\<open>retrieval/evidence_gate.py\<close>). Scores are rationals; the lexical verdict is a parameter.
\<close>

section \<open>The candidate gate\<close>

definition RELEVANCE_THRESHOLD :: rat where "RELEVANCE_THRESHOLD = 1 / 2"

definition POLICY_SOURCE_TYPES :: "string list" where "POLICY_SOURCE_TYPES = [''knowledge_base'']"

record evidence_candidate =
  ec_evidence_id :: ident
  ec_tenant_id :: string
  ec_relevance_score :: rat
  ec_retrievable :: bool
  ec_source_type :: string

datatype gate_decision = Supported | Insufficient_evidence

record gate_result =
  gr_decision :: gate_decision
  gr_accepted_evidence_ids :: "ident list"
  gr_reason :: string

definition is_acceptable :: "string \<Rightarrow> evidence_candidate \<Rightarrow> bool" where
  "is_acceptable tenant c =
     (if ec_tenant_id c \<noteq> tenant then False
      else if \<not> ec_retrievable c then False
      else if ec_source_type c \<notin> set POLICY_SOURCE_TYPES then False
      else RELEVANCE_THRESHOLD \<le> ec_relevance_score c)"

definition evaluate_evidence_gate :: "string \<Rightarrow> evidence_candidate list \<Rightarrow> bool \<Rightarrow> gate_result" where
  "evaluate_evidence_gate tenant candidates retrieval_available =
     (if \<not> retrieval_available
      then \<lparr>gr_decision = Insufficient_evidence, gr_accepted_evidence_ids = [], gr_reason = ''retrieval_unavailable''\<rparr>
      else let accepted = map ec_evidence_id (filter (is_acceptable tenant) candidates) in
        if accepted \<noteq> [] then \<lparr>gr_decision = Supported, gr_accepted_evidence_ids = accepted, gr_reason = ''supported''\<rparr>
        else \<lparr>gr_decision = Insufficient_evidence, gr_accepted_evidence_ids = [], gr_reason = ''insufficient_evidence''\<rparr>)"

section \<open>Relevance of evidence\<close>

text \<open>A score of the metadata may be absent, a number, or something \<open>float\<close> refuses. \<open>ev_rest\<close> stands for the columns that are only copied.\<close>

datatype meta_score = No_score | Score rat | Not_a_number

record 'r evidence =
  ev_knowledge_base_id :: string
  ev_document_id :: "string option"
  ev_chunk_id :: "string option"
  ev_snippet :: string
  ev_rank :: nat
  ev_rerank_score :: "rat option"
  ev_rerank_method :: "string option"
  ev_meta_rerank_score :: meta_score
  ev_rest :: 'r

definition SCORE_GATE_RERANK_METHODS :: "string list" where "SCORE_GATE_RERANK_METHODS = [''cross_encoder'']"

definition item_score :: "'r evidence \<Rightarrow> rat option" where
  "item_score e =
     (case ev_rerank_method e of
        None \<Rightarrow> None
      | Some method \<Rightarrow>
          if method \<notin> set SCORE_GATE_RERANK_METHODS then None
          else (case ev_rerank_score e of
              Some x \<Rightarrow> Some x
            | None \<Rightarrow> (case ev_meta_rerank_score e of Score x \<Rightarrow> Some x | _ \<Rightarrow> None)))"

definition cross_encoder_top_score :: "'r evidence list \<Rightarrow> rat option" where
  "cross_encoder_top_score es = (let scores = List.map_filter item_score es in if scores = [] then None else Some (Max (set scores)))"

record relevance =
  rl_supported :: bool
  rl_gate :: string
  rl_lexical_supported :: bool

definition question_evidence_relevance :: "(string \<Rightarrow> 'r evidence list \<Rightarrow> bool) \<Rightarrow> rat option \<Rightarrow> string \<Rightarrow> 'r evidence list \<Rightarrow> relevance" where
  "question_evidence_relevance lexical threshold question es =
     (case (cross_encoder_top_score es, threshold) of
        (Some best, Some t) \<Rightarrow>
          if es \<noteq> [] then \<lparr>rl_supported = (t \<le> best), rl_gate = ''cross_encoder_score'', rl_lexical_supported = lexical question es\<rparr>
          else \<lparr>rl_supported = lexical question es, rl_gate = ''lexical_overlap'', rl_lexical_supported = lexical question es\<rparr>
      | _ \<Rightarrow> \<lparr>rl_supported = lexical question es, rl_gate = ''lexical_overlap'', rl_lexical_supported = lexical question es\<rparr>)"

section \<open>The quality verdict\<close>

datatype quality_decision = Accept | Retry | Refuse

record quality =
  ql_decision :: quality_decision
  ql_reason_codes :: "string list"
  ql_off_topic :: bool

definition assess_retrieval_quality :: "(string \<Rightarrow> 'r evidence list \<Rightarrow> bool) \<Rightarrow> rat option \<Rightarrow> string \<Rightarrow> 'r evidence list \<Rightarrow> string option \<Rightarrow> nat \<Rightarrow> quality" where
  "assess_retrieval_quality lexical threshold question es rewritten attempt =
     (let support = question_evidence_relevance lexical threshold question es;
          drift = (case rewritten of None \<Rightarrow> False | Some q \<Rightarrow> py_strip q \<noteq> [] \<and> \<not> rl_supported support);
          off_topic = (es \<noteq> [] \<and> \<not> rl_supported support);
          reasons = (if es = [] then [''NO_RELIABLE_EVIDENCE''] else []) @
            (if off_topic then [if rl_gate support = ''cross_encoder_score'' then ''RETRIEVAL_SCORE_BELOW_THRESHOLD'' else ''RETRIEVAL_LOW_QUALITY''] else []) @
            (if drift then [''QUERY_REWRITE_DRIFT''] else [])
      in \<lparr>ql_decision = (if reasons = [] then Accept else if attempt < 2 then Retry else Refuse), ql_reason_codes = reasons, ql_off_topic = off_topic\<rparr>)"

end
