(* ===== verification/Plan_Executor.thy ===== *)
theory Plan_Executor
  imports Evidence_Gates
begin

text \<open>
  The plan executor (\<open>agents/plan_executor.py\<close>): dependencies are inferred, steps are scheduled in waves, and the waves are run one after
  the other. The agents of the constructor, the lexical verdict, the skill resolver and SHA-1 are parameters; texts shown to the user are left out.
\<close>

section \<open>Steps\<close>

datatype step_kind = Retrieve | Skill | Answer | Tool | Verify

datatype step_status = Step_pending | Step_running | Step_success | Step_skipped | Step_error

record plan_step =
  ps_id :: ident
  ps_kind :: step_kind
  ps_query :: "string option"
  ps_skill_hint :: "string option"
  ps_depends_on :: "ident list"
  ps_status :: step_status

definition PARALLELIZABLE :: "step_kind list" where "PARALLELIZABLE = [Retrieve, Skill]"
definition SERIAL_KINDS :: "step_kind list" where "SERIAL_KINDS = [Answer, Tool, Verify]"

definition text_of :: "string option \<Rightarrow> string" where
  "text_of s = (case s of None \<Rightarrow> [] | Some t \<Rightarrow> py_strip t)"

text \<open>The dictionary of the steps by id: the last step of an id is its value.\<close>

definition step_of :: "plan_step list \<Rightarrow> ident \<Rightarrow> plan_step option" where
  "step_of steps i = find (\<lambda>s. ps_id s = i) (rev steps)"

definition kind_of :: "plan_step list \<Rightarrow> ident \<Rightarrow> step_kind" where
  "kind_of steps i = (case step_of steps i of None \<Rightarrow> Answer | Some s \<Rightarrow> ps_kind s)"

section \<open>Dependencies\<close>

record deps_state =
  dp_prior :: "ident list"
  dp_retrieves :: "ident list"
  dp_queries :: "(ident \<times> string) list"

text \<open>A dictionary keeps the place of a key that is assigned again.\<close>

definition dict_put :: "('k \<times> 'v) list \<Rightarrow> 'k \<Rightarrow> 'v \<Rightarrow> ('k \<times> 'v) list" where
  "dict_put d k v = (if k \<in> fst ` set d then map (\<lambda>(j, w). if j = k then (j, v) else (j, w)) d else d @ [(k, v)])"

definition last_of :: "'a list \<Rightarrow> 'a list" where
  "last_of xs = (if xs = [] then [] else [last xs])"

definition inferred_deps :: "plan_step list \<Rightarrow> deps_state \<Rightarrow> plan_step \<Rightarrow> ident list" where
  "inferred_deps steps st s =
     (let deps = filter (\<lambda>d. d \<in> ps_id ` set steps \<and> d \<noteq> ps_id s) (ps_depends_on s) in
      if deps \<noteq> [] then deps
      else (case ps_kind s of
          Retrieve \<Rightarrow>
            (let q = py_lower (text_of (ps_query s)) in
             if q = [] then last_of (dp_retrieves st)
             else (case find (\<lambda>(_, rq). rq = q) (dp_queries st) of None \<Rightarrow> [] | Some (rid, _) \<Rightarrow> [rid]))
        | k \<Rightarrow>
            if k \<in> {Answer, Verify}
            then (let productive = filter (\<lambda>i. kind_of steps i \<in> {Retrieve, Skill, Tool}) (dp_prior st)
                  in if productive \<noteq> [] then productive else last_of (dp_prior st))
            else (if dp_retrieves st \<noteq> [] then dp_retrieves st else last_of (dp_prior st))))"

definition deps_advance :: "deps_state \<Rightarrow> plan_step \<Rightarrow> deps_state" where
  "deps_advance st s =
     (let st = st\<lparr>dp_prior := dp_prior st @ [ps_id s]\<rparr> in
      if ps_kind s = Retrieve
      then st\<lparr>dp_retrieves := dp_retrieves st @ [ps_id s], dp_queries := dict_put (dp_queries st) (ps_id s) (py_lower (text_of (ps_query s)))\<rparr>
      else st)"

fun infer_from :: "plan_step list \<Rightarrow> deps_state \<Rightarrow> plan_step list \<Rightarrow> plan_step list" where
  "infer_from steps st [] = []"
| "infer_from steps st (s # ss) = s\<lparr>ps_depends_on := inferred_deps steps st s\<rparr> # infer_from steps (deps_advance st s) ss"

definition infer_dependencies :: "plan_step list \<Rightarrow> plan_step list" where
  "infer_dependencies steps = infer_from steps \<lparr>dp_prior = [], dp_retrieves = [], dp_queries = []\<rparr> steps"

section \<open>Waves\<close>

definition deps_of :: "plan_step list \<Rightarrow> ident \<Rightarrow> ident list" where
  "deps_of steps i = (case step_of steps i of None \<Rightarrow> [] | Some s \<Rightarrow> ps_depends_on s)"

text \<open>\<open>order\<close>: the last position of an id.\<close>

fun last_index :: "ident list \<Rightarrow> ident \<Rightarrow> nat" where
  "last_index [] i = 0"
| "last_index (j # js) i = (if i \<in> set js then Suc (last_index js i) else 0)"

text \<open>The ready steps of one round in waves: serial kinds alone, runs of parallel ones together.\<close>

fun split_ready :: "(ident \<Rightarrow> step_kind) \<Rightarrow> ident list \<Rightarrow> ident list \<Rightarrow> ident list list" where
  "split_ready kind batch [] = (if batch = [] then [] else [batch])"
| "split_ready kind batch (i # ready) =
     (if kind i \<in> set SERIAL_KINDS then (if batch = [] then [] else [batch]) @ [i] # split_ready kind [] ready
      else if kind i \<in> set PARALLELIZABLE then split_ready kind (batch @ [i]) ready
      else (if batch = [] then [] else [batch]) @ [i] # split_ready kind [] ready)"

fun waves_loop :: "plan_step list \<Rightarrow> bool \<Rightarrow> nat \<Rightarrow> ident list \<Rightarrow> ident list \<Rightarrow> ident list list" where
  "waves_loop steps par 0 remaining completed = []"
| "waves_loop steps par (Suc safety) remaining completed =
     (if remaining = [] then []
      else let ready = sort_key (last_index (map ps_id steps)) (filter (\<lambda>i. set (deps_of steps i) \<subseteq> set completed) remaining) in
        if ready = [] then map (\<lambda>i. [i]) remaining
        else (if par then split_ready (kind_of steps) [] ready else map (\<lambda>i. [i]) ready) @
          waves_loop steps par safety (filter (\<lambda>i. i \<notin> set ready) remaining) (completed @ ready))"

text \<open>The ids in the order of the dictionary: the order of their first steps.\<close>

definition first_ids :: "plan_step list \<Rightarrow> ident list" where
  "first_ids steps = rev (remdups (rev (map ps_id steps)))"

definition build_execution_waves :: "bool \<Rightarrow> plan_step list \<Rightarrow> ident list list" where
  "build_execution_waves par steps = waves_loop steps par (length steps + 5) (first_ids steps) []"

definition should_use_plan_executor :: "plan_step list \<Rightarrow> bool \<Rightarrow> bool" where
  "should_use_plan_executor steps enabled =
     (if \<not> enabled \<or> steps = [] then False
      else let retrieve_n = length (filter (\<lambda>s. ps_kind s = Retrieve) steps); skill_n = length (filter (\<lambda>s. ps_kind s = Skill) steps) in
        if 2 \<le> retrieve_n \<or> 2 \<le> skill_n then True
        else if 1 \<le> retrieve_n \<and> 1 \<le> skill_n then True
        else 2 \<le> length (filter (\<lambda>s. ps_kind s \<notin> {Answer, Verify}) steps))"

section \<open>Evidence\<close>

definition nonempty :: "string option \<Rightarrow> bool" where
  "nonempty s \<longleftrightarrow> s \<noteq> None \<and> s \<noteq> Some []"

definition evidence_key :: "(string \<Rightarrow> string) \<Rightarrow> 'r evidence \<Rightarrow> string" where
  "evidence_key sha1 e =
     (if nonempty (ev_chunk_id e) then ''chunk:'' @ the (ev_chunk_id e)
      else if nonempty (ev_document_id e) \<and> ev_snippet e \<noteq> []
      then ''doc:'' @ the (ev_document_id e) @ '':'' @ take 12 (sha1 (py_strip (ev_snippet e)))
      else ''snip:'' @ take 16 (sha1 (ev_knowledge_base_id e @ ''|'' @ ev_snippet e)))"

fun dedup :: "('a \<Rightarrow> 'k) \<Rightarrow> 'k set \<Rightarrow> 'a list \<Rightarrow> 'a list" where
  "dedup key seen [] = []"
| "dedup key seen (x # xs) = (if key x \<in> seen then dedup key seen xs else x # dedup key (insert (key x) seen) xs)"

fun renumber :: "nat \<Rightarrow> 'r evidence list \<Rightarrow> 'r evidence list" where
  "renumber n [] = []"
| "renumber n (e # es) = (if ev_rank e \<noteq> n then e\<lparr>ev_rank := n\<rparr> else e) # renumber (Suc n) es"

definition merge_evidence :: "(string \<Rightarrow> string) \<Rightarrow> 'r evidence list \<Rightarrow> 'r evidence list \<Rightarrow> 'r evidence list" where
  "merge_evidence sha1 existing incoming = renumber 1 (dedup (evidence_key sha1) {} (existing @ incoming))"

section \<open>The turn ledger\<close>

datatype severity = Sev_info | Sev_warning | Sev_error

record turn_error =
  te_code :: string
  te_step_id :: "ident option"
  te_severity :: severity
  te_kind :: "step_kind option"

record turn_state =
  ts_errors :: "turn_error list"
  ts_warnings :: "string list"
  ts_plan :: "plan_step list"
  ts_waves :: "ident list list"
  ts_parallel_used :: bool
  ts_used_l2 :: bool

definition record_error :: "turn_state \<Rightarrow> string \<Rightarrow> ident option \<Rightarrow> severity \<Rightarrow> step_kind option \<Rightarrow> turn_state \<times> turn_error" where
  "record_error t code step_id sev kind =
     (let err = \<lparr>te_code = take 64 (if code = [] then ''UNKNOWN'' else code),
            te_step_id = (case step_id of None \<Rightarrow> None | Some i \<Rightarrow> if i = [] then None else Some (take 32 i)), te_severity = sev, te_kind = kind\<rparr>;
          t = t\<lparr>ts_errors := ts_errors t @ [err]\<rparr>
      in (if sev \<in> {Sev_warning, Sev_info} \<and> te_code err \<notin> set (ts_warnings t) then t\<lparr>ts_warnings := ts_warnings t @ [te_code err]\<rparr> else t, err))"

definition kind_upper :: "step_kind \<Rightarrow> string" where
  "kind_upper k = (case k of Retrieve \<Rightarrow> ''RETRIEVE'' | Skill \<Rightarrow> ''SKILL'' | Answer \<Rightarrow> ''ANSWER'' | Tool \<Rightarrow> ''TOOL'' | Verify \<Rightarrow> ''VERIFY'')"

definition status_upper :: "step_status \<Rightarrow> string" where
  "status_upper s = (case s of Step_pending \<Rightarrow> ''PENDING'' | Step_running \<Rightarrow> ''RUNNING'' | Step_success \<Rightarrow> ''SUCCESS'' | Step_skipped \<Rightarrow> ''SKIPPED'' | Step_error \<Rightarrow> ''ERROR'')"

definition record_step_outcome :: "turn_state \<Rightarrow> ident \<Rightarrow> step_kind \<Rightarrow> step_status \<Rightarrow> turn_state \<times> turn_error option" where
  "record_step_outcome t i kind status =
     (if status = Step_success then (t, None)
      else let (code, sev) =
             (if status = Step_skipped then (''STEP_SKIPPED_'' @ kind_upper kind, Sev_info)
              else if status = Step_error then (''STEP_ERROR_'' @ kind_upper kind, Sev_error)
              else (''STEP_'' @ status_upper status @ ''_'' @ kind_upper kind, Sev_warning));
             (t, err) = record_error t code (Some i) sev (Some kind)
           in (t, Some err))"

definition has_blocking_errors :: "turn_state \<Rightarrow> bool" where
  "has_blocking_errors t = list_ex (\<lambda>e. te_severity e = Sev_error) (ts_errors t)"

section \<open>Running one step\<close>

record 'r retrieval_result =
  rr_evidence :: "'r evidence list"
  rr_latency_ms :: int
  rr_rerank_applied :: bool

datatype skill_status = Skill_success | Skill_skipped | Skill_failed

text \<open>The agents change a state of their own (\<open>'w\<close>) and may raise (\<open>'x\<close>).\<close>

record ('w, 'x, 'r, 's) executor =
  ex_retrieve :: "string \<Rightarrow> 'w \<Rightarrow> 'w \<times> ('x + 'r retrieval_result)"
  ex_suggest :: "string \<Rightarrow> (string \<times> string) list"
  ex_execute_skill :: "string \<Rightarrow> string \<Rightarrow> 'r evidence list \<Rightarrow> ident \<Rightarrow> 'w \<Rightarrow> 'w \<times> skill_status \<times> 's"
  ex_resolve_skill_name :: "string option \<Rightarrow> string option"
  ex_lexical :: "string \<Rightarrow> 'r evidence list \<Rightarrow> bool"
  ex_threshold :: "rat option"
  ex_sha1 :: "string \<Rightarrow> string"
  ex_parallel_enabled :: bool

text \<open>The arguments of \<open>run\<close>: \<open>ri_retrieval\<close> is whether there are a request and a knowledge base, \<open>ri_identity\<close> whether there are a session and a user.\<close>

record run_input =
  ri_question :: string
  ri_rewrite_query :: "string option"
  ri_fallback_query :: string
  ri_retrieval :: bool
  ri_enable_skill :: bool
  ri_execute_skills :: bool
  ri_identity :: bool

record ('r, 's) side_effects =
  sf_evidence :: "'r evidence list"
  sf_skill_results :: "'s list"
  sf_suggested :: "(string \<times> string) list"
  sf_latency_ms :: int
  sf_rerank_applied :: bool
  sf_warnings :: "string list"

definition no_side_effects :: "('r, 's) side_effects" where
  "no_side_effects = \<lparr>sf_evidence = [], sf_skill_results = [], sf_suggested = [], sf_latency_ms = 0, sf_rerank_applied = False, sf_warnings = []\<rparr>"

fun first_nonempty :: "string list \<Rightarrow> string" where
  "first_nonempty [] = []"
| "first_nonempty [s] = s"
| "first_nonempty (s # t # ss) = (if s \<noteq> [] then s else first_nonempty (t # ss))"

abbreviation ex_assess :: "('w, 'x, 'r, 's) executor \<Rightarrow> string \<Rightarrow> 'r evidence list \<Rightarrow> string option \<Rightarrow> nat \<Rightarrow> quality" where
  "ex_assess ex \<equiv> assess_retrieval_quality (ex_lexical ex) (ex_threshold ex)"

text \<open>What the quality verdict leaves of the evidence of a retrieval.\<close>

definition kept_evidence :: "quality \<Rightarrow> 'r evidence list \<Rightarrow> 'r evidence list \<times> string list" where
  "kept_evidence q es = (if es \<noteq> [] \<and> ql_off_topic q then ([], [''OFF_TOPIC_RETRIEVAL_DROPPED'']) else (es, []))"

definition run_retrieve :: "('w, 'x, 'r, 's) executor \<Rightarrow> run_input \<Rightarrow> plan_step \<Rightarrow> 'w \<Rightarrow> 'w \<times> ('x + step_status \<times> ('r, 's) side_effects)" where
  "run_retrieve ex inp s w =
     (if \<not> ri_retrieval inp then (w, Inr (Step_error, no_side_effects))
      else let question = ri_question inp;
               query = first_nonempty [text_of (ps_query s), text_of (ri_rewrite_query inp), ri_fallback_query inp, question] in
        (case ex_retrieve ex (take 4000 query) w of
           (w, Inl e) \<Rightarrow> (w, Inl e)
         | (w, Inr res) \<Rightarrow>
             (let side = no_side_effects\<lparr>sf_latency_ms := rr_latency_ms res, sf_rerank_applied := rr_rerank_applied res\<rparr>;
                  finish = (\<lambda>q es. case kept_evidence q es of (es, ws) \<Rightarrow>
                    Inr (if es \<noteq> [] then Step_success else Step_error, side\<lparr>sf_evidence := es, sf_warnings := ws\<rparr>));
                  q1 = ex_assess ex question (rr_evidence res) (if query \<noteq> question then Some query else None) 1
              in if ql_decision q1 = Retry \<and> query \<noteq> question
                 then (case ex_retrieve ex (take 4000 question) w of
                     (w, Inl e) \<Rightarrow> (w, Inl e)
                   | (w, Inr res2) \<Rightarrow> (w, finish (ex_assess ex question (rr_evidence res2) None 2) (rr_evidence res2)))
                 else if ql_decision q1 = Retry then (w, finish (ex_assess ex question (rr_evidence res) None 2) (rr_evidence res))
                 else (w, finish q1 (rr_evidence res)))))"

definition run_skill :: "('w, 'x, 'r, 's) executor \<Rightarrow> run_input \<Rightarrow> 'r evidence list \<Rightarrow> plan_step \<Rightarrow> 'w \<Rightarrow> 'w \<times> ('x + step_status \<times> ('r, 's) side_effects)" where
  "run_skill ex inp bag s w =
     (if \<not> ri_enable_skill inp then (w, Inr (Step_skipped, no_side_effects))
      else let question = (if nonempty (ps_query s) then the (ps_query s) else ri_question inp);
               resolved = (case ex_resolve_skill_name ex (ps_skill_hint s) of None \<Rightarrow> [] | Some n \<Rightarrow> n);
               hints = (if resolved = [] then ex_suggest ex question else [(resolved, resolved)]);
               name = (if resolved \<noteq> [] then resolved else if hints = [] then [] else fst (hd hints));
               side = no_side_effects\<lparr>sf_suggested := hints\<rparr>
           in if name = [] then (w, Inr (Step_skipped, side))
              else if \<not> ri_execute_skills inp \<or> \<not> ri_identity inp then (w, Inr (Step_success, side))
              else if bag = [] then (w, Inr (Step_error, side))
              else (case ex_execute_skill ex name question bag (ps_id s) w of
                  (w, status, result) \<Rightarrow>
                    (w, Inr ((case status of Skill_success \<Rightarrow> Step_success | Skill_skipped \<Rightarrow> Step_skipped | Skill_failed \<Rightarrow> Step_error),
                       side\<lparr>sf_skill_results := [result]\<rparr>))))"

definition run_step :: "('w, 'x, 'r, 's) executor \<Rightarrow> run_input \<Rightarrow> 'r evidence list \<Rightarrow> plan_step \<Rightarrow> 'w \<Rightarrow> 'w \<times> ('x + step_status \<times> ('r, 's) side_effects)" where
  "run_step ex inp bag s w = (case ps_kind s of
     Retrieve \<Rightarrow> run_retrieve ex inp s w
   | Skill \<Rightarrow> run_skill ex inp bag s w
   | Tool \<Rightarrow> (w, Inr (Step_skipped, no_side_effects))
   | Verify \<Rightarrow> (w, Inr (if bag = [] then Step_error else Step_success, no_side_effects))
   | Answer \<Rightarrow> (w, Inr (Step_success, no_side_effects)))"

section \<open>Running the waves\<close>

record ('r, 's) exec_state =
  xs_steps :: "plan_step list"
  xs_bag :: "'r evidence list"
  xs_skill_results :: "'s list"
  xs_suggested :: "(string \<times> string) list"
  xs_latency_ms :: int
  xs_rerank_applied :: bool
  xs_warnings :: "string list"
  xs_errors :: "turn_error list"
  xs_turn :: "turn_state option"

definition set_step :: "ident \<Rightarrow> step_status \<Rightarrow> plan_step list \<Rightarrow> plan_step list" where
  "set_step i status steps = map (\<lambda>s. if ps_id s = i then s\<lparr>ps_status := status\<rparr> else s) steps"

definition add_warning :: "ident \<Rightarrow> string \<Rightarrow> ('r, 's) exec_state \<Rightarrow> ('r, 's) exec_state" where
  "add_warning i code st = st\<lparr>xs_warnings := xs_warnings st @ [code],
     xs_turn := map_option (\<lambda>t. fst (record_error t code (Some i) Sev_warning None)) (xs_turn st)\<rparr>"

definition add_suggestion :: "string \<times> string \<Rightarrow> ('r, 's) exec_state \<Rightarrow> ('r, 's) exec_state" where
  "add_suggestion h st = (if h \<in> set (xs_suggested st) then st else st\<lparr>xs_suggested := xs_suggested st @ [h]\<rparr>)"

text \<open>The ledger entry of an outcome other than success.\<close>

definition add_outcome :: "ident \<Rightarrow> step_kind \<Rightarrow> step_status \<Rightarrow> ('r, 's) exec_state \<Rightarrow> ('r, 's) exec_state" where
  "add_outcome i kind status st =
     (if status = Step_success then st
      else (case xs_turn st of
          Some t \<Rightarrow> (case record_step_outcome t i kind status of
              (t, None) \<Rightarrow> st\<lparr>xs_turn := Some t\<rparr>
            | (t, Some err) \<Rightarrow> st\<lparr>xs_turn := Some t, xs_errors := xs_errors st @ [err]\<rparr>)
        | None \<Rightarrow> st\<lparr>xs_errors := xs_errors st @
            [\<lparr>te_code = (if status = Step_skipped then ''STEP_SKIPPED_'' else ''STEP_ERROR_'') @ kind_upper kind, te_step_id = Some i,
              te_severity = (if status = Step_skipped then Sev_info else Sev_error), te_kind = Some kind\<rparr>]\<rparr>))"

definition apply_outcome :: "(string \<Rightarrow> string) \<Rightarrow> plan_step list \<Rightarrow> ident \<Rightarrow> step_status \<times> ('r, 's) side_effects \<Rightarrow> ('r, 's) exec_state \<Rightarrow> ('r, 's) exec_state" where
  "apply_outcome sha1 steps i outcome st = (case outcome of (status, side) \<Rightarrow>
     (let st = (if sf_evidence side \<noteq> [] then st\<lparr>xs_bag := merge_evidence sha1 (xs_bag st) (sf_evidence side)\<rparr> else st);
          st = st\<lparr>xs_skill_results := xs_skill_results st @ sf_skill_results side\<rparr>;
          st = fold add_suggestion (sf_suggested side) st;
          st = st\<lparr>xs_latency_ms := xs_latency_ms st + sf_latency_ms side, xs_rerank_applied := (xs_rerank_applied st \<or> sf_rerank_applied side)\<rparr>;
          st = fold (add_warning i) (sf_warnings side) st;
          st = st\<lparr>xs_steps := set_step i status (xs_steps st)\<rparr>
      in add_outcome i (kind_of steps i) status st))"

text \<open>The outcomes of the steps of a wave, over the evidence as it is when the wave starts. An exception ends the run; the tasks of a parallel
  wave that are still running then only change the state of the agents.\<close>

fun run_steps :: "('w, 'x, 'r, 's) executor \<Rightarrow> run_input \<Rightarrow> 'r evidence list \<Rightarrow> plan_step list \<Rightarrow> 'w
    \<Rightarrow> 'w \<times> ('x + (ident \<times> step_status \<times> ('r, 's) side_effects) list)" where
  "run_steps ex inp bag [] w = (w, Inr [])"
| "run_steps ex inp bag (s # ss) w = (case run_step ex inp bag s w of
     (w, Inl e) \<Rightarrow> (w, Inl e)
   | (w, Inr out) \<Rightarrow> (case run_steps ex inp bag ss w of
        (w, Inl e) \<Rightarrow> (w, Inl e)
      | (w, Inr outs) \<Rightarrow> (w, Inr ((ps_id s, out) # outs))))"

text \<open>\<open>outcomes_by_id\<close>: of two steps with one id the later outcome is used, for both.\<close>

definition apply_wave :: "(string \<Rightarrow> string) \<Rightarrow> plan_step list \<Rightarrow> plan_step list \<Rightarrow> (ident \<times> step_status \<times> ('r, 's) side_effects) list
    \<Rightarrow> ('r, 's) exec_state \<Rightarrow> ('r, 's) exec_state" where
  "apply_wave sha1 steps wave_steps outs st =
     fold (\<lambda>s st. case map_of (rev outs) (ps_id s) of None \<Rightarrow> st | Some out \<Rightarrow> apply_outcome sha1 steps (ps_id s) out st) wave_steps st"

definition run_wave :: "('w, 'x, 'r, 's) executor \<Rightarrow> run_input \<Rightarrow> ident list \<Rightarrow> ('r, 's) exec_state \<Rightarrow> 'w \<Rightarrow> 'w \<times> ('x + ('r, 's) exec_state)" where
  "run_wave ex inp wave st w =
     (let wave_steps = filter (\<lambda>s. ps_id s \<in> set wave) (xs_steps st);
          st = st\<lparr>xs_steps := fold (\<lambda>s. set_step (ps_id s) Step_running) wave_steps (xs_steps st)\<rparr>
      in case run_steps ex inp (xs_bag st) wave_steps w of
           (w, Inl e) \<Rightarrow> (w, Inl e)
         | (w, Inr outs) \<Rightarrow> (w, Inr (apply_wave (ex_sha1 ex) (xs_steps st) wave_steps outs st)))"

fun run_waves :: "('w, 'x, 'r, 's) executor \<Rightarrow> run_input \<Rightarrow> ident list list \<Rightarrow> ('r, 's) exec_state \<Rightarrow> 'w \<Rightarrow> 'w \<times> ('x + ('r, 's) exec_state)" where
  "run_waves ex inp [] st w = (w, Inr st)"
| "run_waves ex inp (wave # waves) st w = (case run_wave ex inp wave st w of
     (w, Inl e) \<Rightarrow> (w, Inl e)
   | (w, Inr st) \<Rightarrow> run_waves ex inp waves st w)"

record ('r, 's) executor_result =
  xr_plan_steps :: "plan_step list"
  xr_evidence :: "'r evidence list"
  xr_skill_results :: "'s list"
  xr_suggested_skills :: "(string \<times> string) list"
  xr_waves :: "ident list list"
  xr_parallel_used :: bool
  xr_warnings :: "string list"
  xr_latency_ms :: int
  xr_rerank_applied :: bool
  xr_errors :: "turn_error list"

definition initial_state :: "plan_step list \<Rightarrow> turn_state option \<Rightarrow> ('r, 's) exec_state" where
  "initial_state steps turn = \<lparr>xs_steps = steps, xs_bag = [], xs_skill_results = [], xs_suggested = [], xs_latency_ms = 0, xs_rerank_applied = False,
     xs_warnings = [], xs_errors = [], xs_turn = turn\<rparr>"

definition publish_turn :: "plan_step list \<Rightarrow> ident list list \<Rightarrow> bool \<Rightarrow> string list \<Rightarrow> turn_state \<Rightarrow> turn_state" where
  "publish_turn steps waves parallel_used warnings t =
     (let t = t\<lparr>ts_plan := steps, ts_waves := waves, ts_parallel_used := parallel_used, ts_used_l2 := True\<rparr>
      in fold (\<lambda>c t. if c \<in> set (ts_warnings t) then t else t\<lparr>ts_warnings := ts_warnings t @ [c]\<rparr>) warnings t)"

definition run_plan :: "('w, 'x, 'r, 's) executor \<Rightarrow> run_input \<Rightarrow> plan_step list \<Rightarrow> turn_state option \<Rightarrow> 'w
    \<Rightarrow> 'w \<times> ('x + ('r, 's) executor_result \<times> turn_state option)" where
  "run_plan ex inp plan turn w =
     (let steps = infer_dependencies plan;
          waves = build_execution_waves (ex_parallel_enabled ex) steps;
          parallel_used = list_ex (\<lambda>v. 1 < length v) waves
      in case run_waves ex inp waves (initial_state steps turn) w of
           (w, Inl e) \<Rightarrow> (w, Inl e)
         | (w, Inr st) \<Rightarrow>
             (let turn = map_option (publish_turn (xs_steps st) waves parallel_used (xs_warnings st)) (xs_turn st) in
              (w, Inr (\<lparr>xr_plan_steps = xs_steps st, xr_evidence = xs_bag st, xr_skill_results = xs_skill_results st, xr_suggested_skills = xs_suggested st,
                 xr_waves = waves, xr_parallel_used = parallel_used, xr_warnings = xs_warnings st, xr_latency_ms = xs_latency_ms st,
                 xr_rerank_applied = xs_rerank_applied st, xr_errors = (case turn of None \<Rightarrow> xs_errors st | Some t \<Rightarrow> ts_errors t)\<rparr>, turn))))"

end
