(* ===== verification/Plan_Executor_Safety.thy ===== *)
theory Plan_Executor_Safety
  imports Plan_Executor "HOL-Library.Multiset"
begin

text \<open>
  What the plan executor guarantees: the waves run every step exactly once and after its dependencies, the evidence of a run is relevant and
  without duplicates, and a step that did not succeed is in the ledger of errors.
\<close>

section \<open>Waves\<close>

lemma concat_split_ready: "concat (split_ready kind batch ready) = batch @ ready"
  by (induction kind batch ready rule: split_ready.induct) auto

lemma split_ready_nonempty: "[] \<notin> set (split_ready kind batch ready)"
  by (induction kind batch ready rule: split_ready.induct) auto

lemma split_ready_parallel:
  "v \<in> set (split_ready kind batch ready) \<Longrightarrow> 1 < length v \<Longrightarrow> kind ` set batch \<subseteq> set PARALLELIZABLE \<Longrightarrow>
   kind ` set v \<subseteq> set PARALLELIZABLE"
proof (induction kind batch ready rule: split_ready.induct)
  case (1 kind batch)
  then show ?case by (simp split: if_splits)
next
  case (2 kind batch i ready)
  consider (serial) "kind i \<in> set SERIAL_KINDS" | (par) "kind i \<notin> set SERIAL_KINDS" "kind i \<in> set PARALLELIZABLE"
    | (other) "kind i \<notin> set SERIAL_KINDS" "kind i \<notin> set PARALLELIZABLE" by blast
  then show ?case
  proof cases
    case serial
    with 2 show ?thesis by (cases "v = batch"; cases "v = [i]") (simp_all split: if_splits)
  next
    case par
    with 2 show ?thesis by simp
  next
    case other
    with 2 show ?thesis by (cases "v = batch"; cases "v = [i]") (simp_all split: if_splits)
  qed
qed

lemma concat_singletons: "concat (map (\<lambda>i. [i]) xs) = xs"
  by (induction xs) auto

text \<open>One round: the ready ids leave \<open>remaining\<close>.\<close>

definition ready_ids :: "plan_step list \<Rightarrow> ident list \<Rightarrow> ident list \<Rightarrow> ident list" where
  "ready_ids steps completed remaining = sort_key (last_index (map ps_id steps)) (filter (\<lambda>i. set (deps_of steps i) \<subseteq> set completed) remaining)"

lemma mset_ready_ids: "mset (ready_ids steps completed remaining) = filter_mset (\<lambda>i. set (deps_of steps i) \<subseteq> set completed) (mset remaining)"
  by (simp add: ready_ids_def)

lemma set_ready_ids: "set (ready_ids steps completed remaining) = {i \<in> set remaining. set (deps_of steps i) \<subseteq> set completed}"
  by (simp add: ready_ids_def)

lemma waves_loop_round:
  assumes "remaining \<noteq> []"
  shows "waves_loop steps par (Suc n) remaining completed =
    (if ready_ids steps completed remaining = [] then map (\<lambda>i. [i]) remaining
     else (if par then split_ready (kind_of steps) [] (ready_ids steps completed remaining) else map (\<lambda>i. [i]) (ready_ids steps completed remaining)) @
       waves_loop steps par n (filter (\<lambda>i. \<not> set (deps_of steps i) \<subseteq> set completed) remaining) (completed @ ready_ids steps completed remaining))"
proof -
  have "filter (\<lambda>i. i \<notin> set (ready_ids steps completed remaining)) remaining = filter (\<lambda>i. \<not> set (deps_of steps i) \<subseteq> set completed) remaining"
    unfolding set_ready_ids by (rule filter_cong) auto
  then show ?thesis by (subst waves_loop.simps(2)) (simp add: assms Let_def flip: ready_ids_def)
qed

lemma waves_loop_done: "waves_loop steps par n [] completed = []"
  by (cases n) simp_all

lemma filter_shrinks: "filter P xs \<noteq> [] \<Longrightarrow> length (filter (\<lambda>x. \<not> P x) xs) < length xs"
  using sum_length_filter_compl [of P xs] by (cases "filter P xs") auto

declare waves_loop.simps(2) [simp del]

lemma mset_waves_loop:
  "length remaining \<le> n \<Longrightarrow> mset (concat (waves_loop steps par n remaining completed)) = mset remaining"
proof (induction n arbitrary: remaining completed)
  case (Suc n)
  let ?P = "\<lambda>i. set (deps_of steps i) \<subseteq> set completed"
  show ?case
  proof (cases "remaining = [] \<or> ready_ids steps completed remaining = []")
    case True
    then show ?thesis
      by (cases "remaining = []") (simp_all add: waves_loop_round waves_loop_done concat_singletons)
  next
    case False
    then have "filter ?P remaining \<noteq> []" by (metis length_0_conv length_sort ready_ids_def)
    then have "length (filter (\<lambda>i. \<not> ?P i) remaining) \<le> n" using filter_shrinks [of ?P remaining] Suc.prems by simp
    note IH = Suc.IH [OF this]
    have "mset (concat (waves_loop steps par (Suc n) remaining completed)) = mset (ready_ids steps completed remaining) + filter_mset (\<lambda>i. \<not> ?P i) (mset remaining)"
      using False IH by (simp add: waves_loop_round concat_split_ready concat_singletons)
    then show ?thesis by (simp only: mset_ready_ids multiset_partition [symmetric])
  qed
qed simp

lemma concat_waves_loop_par:
  "concat (waves_loop steps par n remaining completed) = concat (waves_loop steps False n remaining completed)"
proof (induction n arbitrary: remaining completed)
  case (Suc n)
  show ?case
    by (cases "remaining = []") (simp_all add: waves_loop_round Suc.IH [of _ "completed @ _"] concat_split_ready concat_singletons waves_loop_done)
qed simp

lemma waves_loop_nonempty: "[] \<notin> set (waves_loop steps par n remaining completed)"
proof (induction n arbitrary: remaining completed)
  case (Suc n)
  then show ?case
    by (cases "remaining = []") (auto simp: waves_loop_round split_ready_nonempty waves_loop_done)
qed simp

lemma waves_loop_parallel:
  "v \<in> set (waves_loop steps par n remaining completed) \<Longrightarrow> 1 < length v \<Longrightarrow> par \<and> kind_of steps ` set v \<subseteq> set PARALLELIZABLE"
proof (induction n arbitrary: remaining completed)
  case (Suc n)
  then show ?case
    by (cases "remaining = []")
      (auto simp: waves_loop_round waves_loop_done split: if_splits dest!: split_ready_parallel)
qed simp

lemma set_first_ids: "set (first_ids steps) = ps_id ` set steps"
  by (simp add: first_ids_def)

lemma distinct_first_ids: "distinct (first_ids steps)"
  by (simp add: first_ids_def)

lemma length_first_ids: "length (first_ids steps) \<le> length steps"
  unfolding first_ids_def by (metis length_map length_remdups_leq length_rev)

lemma mset_waves: "mset (concat (build_execution_waves par steps)) = mset (first_ids steps)"
  using length_first_ids [of steps] by (simp add: build_execution_waves_def mset_waves_loop)

lemma set_waves: "set (concat (build_execution_waves par steps)) = ps_id ` set steps"
  using mset_waves [of par steps] set_first_ids by (metis set_mset_mset)

lemma distinct_waves: "distinct (concat (build_execution_waves par steps))"
  using mset_waves [of par steps] distinct_first_ids by (metis mset_eq_imp_distinct_iff)

text \<open>C30. The waves run every step of the plan exactly once, in the same order whether or not waves may be parallel; no wave is empty, and only
  retrievals and skills share one, when that is enabled. The bound \<open>len(steps) + 5\<close> on the rounds is never reached.\<close>

theorem waves_run_every_step_once:
  "distinct (concat (build_execution_waves par steps)) \<and> set (concat (build_execution_waves par steps)) = ps_id ` set steps
   \<and> concat (build_execution_waves par steps) = concat (build_execution_waves False steps) \<and> [] \<notin> set (build_execution_waves par steps)
   \<and> (\<forall>v\<in>set (build_execution_waves par steps). 1 < length v \<longrightarrow> par \<and> (\<forall>i\<in>set v. kind_of steps i \<in> {Retrieve, Skill}))"
proof -
  have "concat (build_execution_waves par steps) = concat (build_execution_waves False steps)"
    unfolding build_execution_waves_def by (rule concat_waves_loop_par)
  moreover have "[] \<notin> set (build_execution_waves par steps)"
    unfolding build_execution_waves_def by (rule waves_loop_nonempty)
  moreover have "par \<and> (\<forall>i\<in>set v. kind_of steps i \<in> {Retrieve, Skill})" if "v \<in> set (build_execution_waves par steps)" "1 < length v" for v
    using waves_loop_parallel [OF that [unfolded build_execution_waves_def]] by (auto simp: PARALLELIZABLE_def)
  ultimately show ?thesis using distinct_waves set_waves by blast
qed

section \<open>Dependencies come first\<close>







subsection \<open>Inferred dependencies point backwards\<close>





lemma map_id_infer_from: "map ps_id (infer_from steps st ss) = map ps_id ss"
  by (induction steps st ss rule: infer_from.induct) simp_all



lemma map_id_infer: "map ps_id (infer_dependencies plan) = map ps_id plan"
  by (simp add: infer_dependencies_def map_id_infer_from)




definition sample_step :: "ident \<Rightarrow> step_kind \<Rightarrow> string \<Rightarrow> plan_step" where
  "sample_step i kind q = \<lparr>ps_id = i, ps_kind = kind, ps_query = Some q, ps_skill_hint = None, ps_depends_on = [], ps_status = Step_pending\<rparr>"

definition sample_plan :: "plan_step list" where
  "sample_plan = [sample_step ''s1'' Retrieve ''leave'', sample_step ''s2'' Retrieve ''pay'', sample_step ''s3'' Verify ''all'']"

lemma sample_waves: "build_execution_waves True (infer_dependencies sample_plan) = [[''s1'', ''s2''], [''s3'']]"
  by code_simp

theorem waves_run_every_step_once_witness:
  "build_execution_waves True (infer_dependencies sample_plan) = [[''s1'', ''s2''], [''s3'']]
   \<and> kind_of (infer_dependencies sample_plan) ''s2'' \<in> {Retrieve, Skill}"
  using waves_run_every_step_once [of True "infer_dependencies sample_plan"] by (simp add: sample_waves)


section \<open>Merging evidence\<close>

lemma set_dedup: "set (dedup key seen xs) \<subseteq> set xs"
  by (induction key seen xs rule: dedup.induct) auto

lemma keys_dedup: "key ` set (dedup key seen xs) = key ` set xs - seen"
  by (induction key seen xs rule: dedup.induct) auto

lemma distinct_dedup: "distinct (map key (dedup key seen xs))"
  by (induction key seen xs rule: dedup.induct) (auto simp: keys_dedup)

lemma dedup_id: "distinct (map key xs) \<Longrightarrow> key ` set xs \<inter> seen = {} \<Longrightarrow> dedup key seen (xs @ ys) = xs @ dedup key (seen \<union> key ` set xs) ys"
  by (induction xs arbitrary: seen) (auto simp: insert_commute)

lemma evidence_key_rank [simp]: "evidence_key sha1 (e\<lparr>ev_rank := n\<rparr>) = evidence_key sha1 e"
  by (simp add: evidence_key_def)

lemma map_renumber: "(\<And>e n. f (e\<lparr>ev_rank := n\<rparr>) = f e) \<Longrightarrow> map f (renumber n es) = map f es"
  by (induction n es rule: renumber.induct) simp_all

lemma ranks_renumber: "map ev_rank (renumber n es) = [n..<n + length es]"
  by (induction n es rule: renumber.induct) (simp_all add: upt_rec)

lemma renumber_id: "map ev_rank es = [n..<n + length es] \<Longrightarrow> renumber n es = es"
  by (induction n es rule: renumber.induct) (simp_all add: upt_conv_Cons del: upt_Suc)

lemma set_renumberD: "e \<in> set (renumber n es) \<Longrightarrow> \<exists>e0\<in>set es. e = e0\<lparr>ev_rank := ev_rank e\<rparr>"
  by (induction n es rule: renumber.induct) (auto split: if_splits)

text \<open>A bag as the executor keeps it: no key twice, ranks from one.\<close>

definition tidy :: "(string \<Rightarrow> string) \<Rightarrow> 'r evidence list \<Rightarrow> bool" where
  "tidy sha1 es \<longleftrightarrow> distinct (map (evidence_key sha1) es) \<and> map ev_rank es = [1..<Suc (length es)]"

lemma tidy_merge: "tidy sha1 (merge_evidence sha1 es fs)"
  unfolding tidy_def merge_evidence_def
  by (simp add: map_renumber distinct_dedup ranks_renumber del: upt_Suc)
    (metis length_map ranks_renumber length_upt add_diff_cancel_left')

lemma merge_covered:
  assumes "tidy sha1 es" and "evidence_key sha1 ` set fs \<subseteq> evidence_key sha1 ` set es"
  shows "merge_evidence sha1 es fs = es"
proof -
  have "dedup (evidence_key sha1) {} (es @ fs) = es @ dedup (evidence_key sha1) (evidence_key sha1 ` set es) fs"
    using assms(1) by (simp add: tidy_def dedup_id)
  moreover have "dedup (evidence_key sha1) (evidence_key sha1 ` set es) fs = []"
    using keys_dedup [of "evidence_key sha1" "evidence_key sha1 ` set es" fs] assms(2)
    by (metis Diff_eq_empty_iff image_is_empty set_empty)
  ultimately show ?thesis using assms(1) by (simp add: merge_evidence_def tidy_def renumber_id)
qed

lemma set_merge_evidenceD:
  assumes "e \<in> set (merge_evidence sha1 es fs)"
  shows "\<exists>e0\<in>set es \<union> set fs. e = e0\<lparr>ev_rank := ev_rank e\<rparr>"
  using set_renumberD [OF assms [unfolded merge_evidence_def]] set_dedup [of "evidence_key sha1" "{}" "es @ fs"] by auto

section \<open>What an outcome changes\<close>

lemma fold_field: "(\<And>x st. f (g x st) = f st) \<Longrightarrow> f (fold g xs st) = f st"
  by (induction xs arbitrary: st) simp_all

lemma add_suggestion_fields [simp]:
  "xs_bag (add_suggestion h st) = xs_bag st" "xs_steps (add_suggestion h st) = xs_steps st"
  "xs_errors (add_suggestion h st) = xs_errors st" "xs_turn (add_suggestion h st) = xs_turn st"
  by (simp_all add: add_suggestion_def)

lemma add_warning_fields [simp]:
  "xs_bag (add_warning i c st) = xs_bag st" "xs_steps (add_warning i c st) = xs_steps st" "xs_errors (add_warning i c st) = xs_errors st"
  by (simp_all add: add_warning_def)

lemma add_outcome_fields [simp]:
  "xs_bag (add_outcome i k status st) = xs_bag st" "xs_steps (add_outcome i k status st) = xs_steps st"
  by (simp_all add: add_outcome_def split: option.splits prod.splits)

lemmas fold_fields [simp] =
  fold_field [where f = xs_bag and g = add_suggestion] fold_field [where f = xs_steps and g = add_suggestion]
  fold_field [where f = xs_errors and g = add_suggestion] fold_field [where f = xs_turn and g = add_suggestion]
  fold_field [where f = xs_bag and g = "add_warning i" for i] fold_field [where f = xs_steps and g = "add_warning i" for i]
  fold_field [where f = xs_errors and g = "add_warning i" for i]

lemma bag_apply_outcome:
  "xs_bag (apply_outcome sha1 steps i (status, side) st) =
     (if sf_evidence side \<noteq> [] then merge_evidence sha1 (xs_bag st) (sf_evidence side) else xs_bag st)"
  by (simp add: apply_outcome_def Let_def)

lemma steps_apply_outcome: "xs_steps (apply_outcome sha1 steps i (status, side) st) = set_step i status (xs_steps st)"
  by (simp add: apply_outcome_def Let_def)

section \<open>Invariants of a run\<close>

lemma run_steps_outcome:
  "run_steps ex inp bag ss w = (w', Inr outs) \<Longrightarrow>
     map fst outs = map ps_id ss \<and> (\<forall>(i, out)\<in>set outs. \<exists>s w0 w1. ps_id s = i \<and> run_step ex inp bag s w0 = (w1, Inr out))"
proof (induction ss arbitrary: w w' outs)
  case (Cons s ss)
  then obtain w1 out outs' where "run_step ex inp bag s w = (w1, Inr out)" "run_steps ex inp bag ss w1 = (w', Inr outs')" "outs = (ps_id s, out) # outs'"
    by (auto split: prod.splits sum.splits)
  with Cons.IH [OF this(2)] show ?case by auto
qed simp

text \<open>A property of the state that running marks and outcomes keep holds at the end.\<close>

lemma fold_keeps: "(\<And>x st. x \<in> set xs \<Longrightarrow> I st \<Longrightarrow> I (g x st)) \<Longrightarrow> I st \<Longrightarrow> I (fold g xs st)"
  by (induction xs arbitrary: st) auto

lemma run_waves_keep:
  assumes out: "\<And>steps i status side bag s w0 w1 st. run_step ex inp bag s w0 = (w1, Inr (status, side)) \<Longrightarrow> I st
      \<Longrightarrow> I (apply_outcome (ex_sha1 ex) steps i (status, side) st)"
    and marks: "\<And>st steps. I st \<Longrightarrow> I (st\<lparr>xs_steps := steps\<rparr>)"
  shows "run_waves ex inp waves st w = (w', Inr st') \<Longrightarrow> I st \<Longrightarrow> I st'"
proof (induction waves arbitrary: st w)
  case (Cons wave waves)
  let ?wave = "filter (\<lambda>s. ps_id s \<in> set wave) (xs_steps st)"
  let ?st = "st\<lparr>xs_steps := fold (\<lambda>s. set_step (ps_id s) Step_running) ?wave (xs_steps st)\<rparr>"
  from Cons.prems(1) obtain w1 outs where outs: "run_steps ex inp (xs_bag st) ?wave w = (w1, Inr outs)"
    and rest: "run_waves ex inp waves (apply_wave (ex_sha1 ex) (xs_steps ?st) ?wave outs ?st) w1 = (w', Inr st')"
    by (auto simp: run_wave_def Let_def split: prod.splits sum.splits)
  have step: "I (case map_of (rev outs) (ps_id s) of None \<Rightarrow> st0 | Some out \<Rightarrow> apply_outcome (ex_sha1 ex) (xs_steps ?st) (ps_id s) out st0)"
    if "I st0" for s st0
  proof (cases "map_of (rev outs) (ps_id s)")
    case (Some out)
    then have "(ps_id s, out) \<in> set outs" by (auto dest: map_of_SomeD)
    with run_steps_outcome [OF outs] obtain t w0 w1 where "run_step ex inp (xs_bag st) t w0 = (w1, Inr out)" by blast
    with that Some out show ?thesis by (cases out) auto
  qed (use that in simp)
  have "I (apply_wave (ex_sha1 ex) (xs_steps ?st) ?wave outs ?st)"
    unfolding apply_wave_def by (rule fold_keeps) (use step marks [OF Cons.prems(2)] in auto)
  with rest show ?case by (rule Cons.IH)
qed simp

lemma run_planE:
  assumes "run_plan ex inp plan turn w = (w', Inr (res, turn'))"
  obtains st where "run_waves ex inp (build_execution_waves (ex_parallel_enabled ex) (infer_dependencies plan)) (initial_state (infer_dependencies plan) turn) w = (w', Inr st)"
    and "xr_evidence res = xs_bag st" and "xr_plan_steps res = xs_steps st"
    and "xr_waves res = build_execution_waves (ex_parallel_enabled ex) (infer_dependencies plan)"
    and "xr_errors res = (case xs_turn st of None \<Rightarrow> xs_errors st | Some t \<Rightarrow> ts_errors (publish_turn (xs_steps st) (xr_waves res) (xr_parallel_used res) (xs_warnings st) t))"
  using assms by (auto simp: run_plan_def Let_def split: prod.splits sum.splits option.splits)

section \<open>The evidence of a run\<close>

text \<open>An item of a retrieval whose evidence supports the question.\<close>

definition relevant_item :: "('w, 'x, 'r, 's) executor \<Rightarrow> string \<Rightarrow> 'r evidence \<Rightarrow> bool" where
  "relevant_item ex question e \<longleftrightarrow> (\<exists>query w0 w1 res e0. ex_retrieve ex query w0 = (w1, Inr res) \<and> e0 \<in> set (rr_evidence res) \<and> e = e0\<lparr>ev_rank := ev_rank e\<rparr>
     \<and> rl_supported (question_evidence_relevance (ex_lexical ex) (ex_threshold ex) question (rr_evidence res)))"

lemma relevant_item_rank: "relevant_item ex question e0 \<Longrightarrow> e = e0\<lparr>ev_rank := n\<rparr> \<Longrightarrow> relevant_item ex question e"
  unfolding relevant_item_def by (metis (no_types, lifting) evidence.simps evidence.surjective evidence.update_convs(5))

lemma kept_evidence_relevant:
  assumes "kept_evidence (ex_assess ex question (rr_evidence res) rw n) (rr_evidence res) = (es, ws)" and "e \<in> set es" and "ex_retrieve ex query w0 = (w1, Inr res)"
  shows "relevant_item ex question e"
proof -
  from assms(1,2) have "e \<in> set (rr_evidence res)"
    and "rl_supported (question_evidence_relevance (ex_lexical ex) (ex_threshold ex) question (rr_evidence res))"
    by (auto simp: kept_evidence_def assess_retrieval_quality_def Let_def split: if_splits)
  with assms(3) show ?thesis unfolding relevant_item_def by (intro exI [of _ query] exI [of _ w0] exI [of _ w1] exI [of _ res] exI [of _ e]) simp
qed

lemma no_side_evidence [simp]: "sf_evidence no_side_effects = []"
  by (simp add: no_side_effects_def)

lemma run_retrieve_relevant:
  assumes "run_retrieve ex inp s w = (w', Inr (status, side))" and "e \<in> set (sf_evidence side)"
  shows "relevant_item ex (ri_question inp) e"
  using assms
  by (auto simp: run_retrieve_def Let_def simp del: first_nonempty.simps split: if_splits prod.splits sum.splits elim: kept_evidence_relevant)

lemma run_step_relevant:
  "run_step ex inp bag s w = (w', Inr (status, side)) \<Longrightarrow> e \<in> set (sf_evidence side) \<Longrightarrow> relevant_item ex (ri_question inp) e"
  by (cases "ps_kind s")
    (auto simp: run_step_def run_skill_def Let_def dest: run_retrieve_relevant split: if_splits prod.splits)

text \<open>C32. The evidence a run hands to the answer is relevant: every item was returned by a retrieval whose evidence supports the question of the user
  (only its rank is new). No item is there twice, and the ranks count from one.\<close>

theorem run_evidence_is_relevant:
  assumes "run_plan ex inp plan turn w = (w', Inr (res, turn'))" and "e \<in> set (xr_evidence res)"
  shows "relevant_item ex (ri_question inp) e \<and> distinct (map (evidence_key (ex_sha1 ex)) (xr_evidence res))
    \<and> map ev_rank (xr_evidence res) = [1..<Suc (length (xr_evidence res))]"
proof -
  let ?I = "\<lambda>st :: ('c, 'd) exec_state. tidy (ex_sha1 ex) (xs_bag st) \<and> (\<forall>e\<in>set (xs_bag st). relevant_item ex (ri_question inp) e)"
  from assms(1) obtain st where run: "run_waves ex inp (build_execution_waves (ex_parallel_enabled ex) (infer_dependencies plan))
      (initial_state (infer_dependencies plan) turn) w = (w', Inr st)" and bag: "xr_evidence res = xs_bag st"
    by (rule run_planE)
  have "?I st"
  proof (rule run_waves_keep [OF _ _ run])
    fix steps i status side bag' s w0 w1 st
    assume *: "run_step ex inp bag' s w0 = (w1, Inr (status, side))" "?I st"
    show "?I (apply_outcome (ex_sha1 ex) steps i (status, side) st)"
      using *(2) tidy_merge by (auto simp: bag_apply_outcome dest!: set_merge_evidenceD intro: relevant_item_rank dest: run_step_relevant [OF *(1)])
  qed (simp_all add: initial_state_def tidy_def)
  with assms(2) show ?thesis by (simp add: bag tidy_def)
qed

section \<open>The ledger of errors\<close>

definition ledger :: "('r, 's) exec_state \<Rightarrow> turn_error list" where
  "ledger st = (case xs_turn st of None \<Rightarrow> xs_errors st | Some t \<Rightarrow> ts_errors t)"

definition settled :: "turn_error set \<Rightarrow> plan_step \<Rightarrow> bool" where
  "settled errs s \<longleftrightarrow> ps_status s \<in> {Step_success, Step_skipped, Step_error} \<and>
     (ps_status s \<noteq> Step_success \<longrightarrow>
       (\<exists>e\<in>errs. te_step_id e = Some (ps_id s) \<and> te_severity e = (if ps_status s = Step_skipped then Sev_info else Sev_error)))"

lemma settled_mono: "settled errs s \<Longrightarrow> errs \<subseteq> errs' \<Longrightarrow> settled errs' s"
  unfolding settled_def by blast

lemma ts_errors_record_error: "ts_errors (fst (record_error t code i sev k)) = ts_errors t @ [snd (record_error t code i sev k)]"
  by (simp add: record_error_def Let_def)

lemma ledger_add_warnings: "set (ledger st) \<subseteq> set (ledger (fold (add_warning i) ws st))"
proof (induction ws arbitrary: st)
  case (Cons c ws)
  have "set (ledger st) \<subseteq> set (ledger (add_warning i c st))"
    by (auto simp: ledger_def add_warning_def ts_errors_record_error split: option.splits)
  also have "\<dots> \<subseteq> set (ledger (fold (add_warning i) ws (add_warning i c st)))" by (rule Cons.IH)
  finally show ?case by simp
qed simp

lemma ledger_add_outcome:
  assumes "status \<in> {Step_success, Step_skipped, Step_error}" and "i \<noteq> []" "length i \<le> 32"
  shows "set (ledger st) \<subseteq> set (ledger (add_outcome i k status st)) \<and> (status \<noteq> Step_success \<longrightarrow>
    (\<exists>e\<in>set (ledger (add_outcome i k status st)). te_step_id e = Some i \<and> te_severity e = (if status = Step_skipped then Sev_info else Sev_error)))"
  using assms by (cases "xs_turn st") (auto simp: ledger_def add_outcome_def record_step_outcome_def record_error_def Let_def split: if_splits)

lemma ledger_cong: "xs_turn st = xs_turn st' \<Longrightarrow> xs_errors st = xs_errors st' \<Longrightarrow> ledger st = ledger st'"
  by (simp add: ledger_def cong: option.case_cong)

definition all_settled :: "ident set \<Rightarrow> ('r, 's) exec_state \<Rightarrow> bool" where
  "all_settled ids st \<longleftrightarrow> (\<forall>s\<in>set (xs_steps st). ps_id s \<in> ids \<longrightarrow> settled (set (ledger st)) s)"

lemma map_id_set_step [simp]: "map ps_id (set_step i status steps) = map ps_id steps"
  by (induction steps) (simp_all add: set_step_def)

lemma set_set_stepD: "s \<in> set (set_step i status steps) \<Longrightarrow> (ps_id s = i \<and> ps_status s = status) \<or> (ps_id s \<noteq> i \<and> s \<in> set steps)"
  by (auto simp: set_step_def split: if_splits)

lemma apply_outcome_settles:
  assumes "status \<in> {Step_success, Step_skipped, Step_error}" and "i \<noteq> []" "length i \<le> 32" and "all_settled ids st"
  shows "all_settled (insert i ids) (apply_outcome sha1 steps i (status, side) st)"
proof -
  define st1 where "st1 = (let st = (if sf_evidence side \<noteq> [] then st\<lparr>xs_bag := merge_evidence sha1 (xs_bag st) (sf_evidence side)\<rparr> else st);
          st = st\<lparr>xs_skill_results := xs_skill_results st @ sf_skill_results side\<rparr>;
          st = fold add_suggestion (sf_suggested side) st
       in st\<lparr>xs_latency_ms := xs_latency_ms st + sf_latency_ms side, xs_rerank_applied := (xs_rerank_applied st \<or> sf_rerank_applied side)\<rparr>)"
  have "xs_turn st1 = xs_turn st" "xs_errors st1 = xs_errors st" and st1: "xs_steps st1 = xs_steps st"
    by (simp_all add: st1_def Let_def)
  then have l1: "ledger st1 = ledger st" by (intro ledger_cong)
  define st2 where "st2 = fold (add_warning i) (sf_warnings side) st1"
  define st3 where "st3 = st2\<lparr>xs_steps := set_step i status (xs_steps st)\<rparr>"
  have eq: "apply_outcome sha1 steps i (status, side) st = add_outcome i (kind_of steps i) status st3"
    by (simp add: apply_outcome_def Let_def st1_def st2_def st3_def)
  have "set (ledger st) \<subseteq> set (ledger st2)" using ledger_add_warnings [of st1] by (simp add: l1 st2_def)
  also have "ledger st2 = ledger st3" by (rule ledger_cong) (simp_all add: st3_def)
  finally have l3: "set (ledger st) \<subseteq> set (ledger st3)" .
  note out = ledger_add_outcome [OF assms(1-3), of st3 "kind_of steps i"]
  show ?thesis
    unfolding all_settled_def eq
  proof (intro ballI impI)
    fix s assume s: "s \<in> set (xs_steps (add_outcome i (kind_of steps i) status st3))" "ps_id s \<in> insert i ids"
    then have s3: "s \<in> set (set_step i status (xs_steps st))" by (simp add: st3_def)
    show "settled (set (ledger (add_outcome i (kind_of steps i) status st3))) s"
    proof (cases "ps_id s = i")
      case True
      then have "ps_status s = status" using set_set_stepD [OF s3] by blast
      with True out assms(1) show ?thesis by (simp add: settled_def)
    next
      case False
      then have "s \<in> set (xs_steps st)" using set_set_stepD [OF s3] by blast
      with False s(2) assms(4) have "settled (set (ledger st)) s" by (simp add: all_settled_def)
      with l3 out show ?thesis using settled_mono by blast
    qed
  qed
qed

lemma run_step_final: "run_step ex inp bag s w = (w', Inr (status, side)) \<Longrightarrow> status \<in> {Step_success, Step_skipped, Step_error}"
  by (cases "ps_kind s")
    (auto simp: run_step_def run_skill_def run_retrieve_def Let_def simp del: first_nonempty.simps split: if_splits prod.splits sum.splits skill_status.splits)

lemma map_id_marks [simp]: "map ps_id (fold (\<lambda>s. set_step (ps_id s) status) ss steps) = map ps_id steps"
  by (induction ss arbitrary: steps) simp_all

lemma marked_other: "s \<in> set (fold (\<lambda>s. set_step (ps_id s) status) ss steps) \<Longrightarrow> ps_id s \<notin> ps_id ` set ss \<Longrightarrow> s \<in> set steps"
proof (induction ss arbitrary: steps)
  case (Cons t ss)
  then have "s \<in> set (set_step (ps_id t) status steps)" by simp
  with Cons.prems(2) set_set_stepD [OF this] show ?case by simp
qed simp

lemma apply_wave_settles:
  assumes outs: "\<And>s. s \<in> set ss \<Longrightarrow> \<exists>status side. map_of (rev outs) (ps_id s) = Some (status, side) \<and> status \<in> {Step_success, Step_skipped, Step_error}"
    and "\<And>s. s \<in> set ss \<Longrightarrow> ps_id s \<noteq> [] \<and> length (ps_id s) \<le> 32" and "all_settled ids st"
  shows "all_settled (ids \<union> ps_id ` set ss) (apply_wave sha1 steps ss outs st) \<and> map ps_id (xs_steps (apply_wave sha1 steps ss outs st)) = map ps_id (xs_steps st)"
  using assms
proof (induction ss arbitrary: ids st)
  case (Cons s ss)
  obtain status side where out: "map_of (rev outs) (ps_id s) = Some (status, side)" "status \<in> {Step_success, Step_skipped, Step_error}"
    using Cons.prems(1) [of s] by auto
  let ?st = "apply_outcome sha1 steps (ps_id s) (status, side) st"
  have "all_settled (insert (ps_id s) ids) ?st"
    using out(2) Cons.prems(2) [of s] Cons.prems(3) by (intro apply_outcome_settles) simp_all
  from Cons.IH [OF _ _ this] Cons.prems(1,2) out(1) show ?case
    by (simp add: apply_wave_def steps_apply_outcome)
qed (simp add: apply_wave_def)

lemma run_waves_settle:
  assumes "run_waves ex inp waves st w = (w', Inr st')" and "distinct (concat waves)" and "set (concat waves) \<inter> ids = {}"
    and "all_settled ids st" and "\<And>i. i \<in> ps_id ` set (xs_steps st) \<Longrightarrow> i \<noteq> [] \<and> length i \<le> 32"
  shows "all_settled (ids \<union> set (concat waves)) st' \<and> map ps_id (xs_steps st') = map ps_id (xs_steps st)"
  using assms
proof (induction waves arbitrary: st w ids)
  case (Cons wave waves)
  let ?wave = "filter (\<lambda>s. ps_id s \<in> set wave) (xs_steps st)"
  let ?st = "st\<lparr>xs_steps := fold (\<lambda>s. set_step (ps_id s) Step_running) ?wave (xs_steps st)\<rparr>"
  from Cons.prems(1) obtain w1 outs where outs: "run_steps ex inp (xs_bag st) ?wave w = (w1, Inr outs)"
    and rest: "run_waves ex inp waves (apply_wave (ex_sha1 ex) (xs_steps ?st) ?wave outs ?st) w1 = (w', Inr st')"
    by (auto simp: run_wave_def Let_def split: prod.splits sum.splits)
  let ?st1 = "apply_wave (ex_sha1 ex) (xs_steps ?st) ?wave outs ?st"
  have "\<exists>status side. map_of (rev outs) (ps_id s) = Some (status, side) \<and> status \<in> {Step_success, Step_skipped, Step_error}"
    if "s \<in> set ?wave" for s
  proof -
    have "map fst outs = map ps_id ?wave" using run_steps_outcome [OF outs] by (rule conjunct1)
    then have "fst ` set (rev outs) = ps_id ` set ?wave" by (metis list.set_map set_rev)
    with that have "ps_id s \<in> fst ` set (rev outs)" by blast
    then obtain out where out: "map_of (rev outs) (ps_id s) = Some out" by (cases "map_of (rev outs) (ps_id s)") (auto simp only: map_of_eq_None_iff)
    then have "(ps_id s, out) \<in> set outs" by (auto dest: map_of_SomeD)
    with run_steps_outcome [OF outs] obtain t w0 w1 where "run_step ex inp (xs_bag st) t w0 = (w1, Inr out)" by blast
    moreover obtain status side where eq: "out = (status, side)" by (cases out)
    ultimately have "status \<in> {Step_success, Step_skipped, Step_error}" by (auto dest: run_step_final)
    with out show ?thesis unfolding eq by blast
  qed
  moreover have "all_settled ids ?st"
  proof -
    have l: "ledger ?st = ledger st" by (rule ledger_cong) simp_all
    have "s \<in> set (xs_steps st)" if "s \<in> set (xs_steps ?st)" "ps_id s \<in> ids" for s
    proof (rule marked_other)
      show "s \<in> set (fold (\<lambda>s. set_step (ps_id s) Step_running) ?wave (xs_steps st))" using that(1) by simp
      have "ps_id s \<notin> set wave" using that(2) Cons.prems(3) by fastforce
      then show "ps_id s \<notin> ps_id ` set ?wave" by force
    qed
    with Cons.prems(4) show ?thesis unfolding all_settled_def l by blast
  qed
  moreover have "ps_id s \<noteq> [] \<and> length (ps_id s) \<le> 32" if "s \<in> set ?wave" for s using Cons.prems(5) that by simp
  ultimately have st1: "all_settled (ids \<union> ps_id ` set ?wave) ?st1" "map ps_id (xs_steps ?st1) = map ps_id (xs_steps st)"
    using apply_wave_settles [of ?wave outs ids ?st "ex_sha1 ex" "xs_steps ?st"] by simp_all
  have ids1: "ps_id ` set (xs_steps ?st1) = ps_id ` set (xs_steps st)" using st1(2) by (metis list.set_map)
  have "all_settled (ids \<union> set wave) ?st1"
    unfolding all_settled_def
  proof (intro ballI impI)
    fix s assume s: "s \<in> set (xs_steps ?st1)" "ps_id s \<in> ids \<union> set wave"
    then have "ps_id s \<in> ps_id ` set (xs_steps st)" using ids1 by blast
    with s have "ps_id s \<in> ids \<union> ps_id ` set ?wave" by auto
    with s(1) st1(1) show "settled (set (ledger ?st1)) s" unfolding all_settled_def by blast
  qed
  then have "all_settled (ids \<union> set wave \<union> set (concat waves)) st' \<and> map ps_id (xs_steps st') = map ps_id (xs_steps ?st1)"
  proof (rule Cons.IH [OF rest, rotated 2])
    show "distinct (concat waves)" "set (concat waves) \<inter> (ids \<union> set wave) = {}" using Cons.prems(2,3) by auto
    show "i \<noteq> [] \<and> length i \<le> 32" if "i \<in> ps_id ` set (xs_steps ?st1)" for i using Cons.prems(5) that unfolding ids1 by blast
  qed
  then show ?case using st1(2) by (simp add: Un_assoc)
qed simp

lemma publish_keeps_errors [simp]: "ts_errors (publish_turn steps waves par ws t) = ts_errors t"
proof -
  have "ts_errors (fold (\<lambda>c t. if c \<in> set (ts_warnings t) then t else t\<lparr>ts_warnings := ts_warnings t @ [c]\<rparr>) ws t) = ts_errors t" for t
    by (rule fold_field) simp
  then show ?thesis unfolding publish_turn_def Let_def by (rule trans) simp
qed

text \<open>C33. When a run returns, every step has succeeded, was skipped or failed; and each that did not succeed is in the ledger of errors under
  its id, as information when it was skipped and as an error when it failed.\<close>

theorem failures_are_in_the_ledger:
  assumes "run_plan ex inp plan turn w = (w', Inr (res, turn'))" and "\<forall>s\<in>set plan. ps_id s \<noteq> [] \<and> length (ps_id s) \<le> 32"
    and "s \<in> set (xr_plan_steps res)"
  shows "ps_status s \<in> {Step_success, Step_skipped, Step_error} \<and> (ps_status s \<noteq> Step_success \<longrightarrow>
    (\<exists>e\<in>set (xr_errors res). te_step_id e = Some (ps_id s) \<and> te_severity e = (if ps_status s = Step_skipped then Sev_info else Sev_error)))"
proof -
  let ?steps = "infer_dependencies plan"
  let ?waves = "build_execution_waves (ex_parallel_enabled ex) ?steps"
  from assms(1) obtain st where run: "run_waves ex inp ?waves (initial_state ?steps turn) w = (w', Inr st)" and steps: "xr_plan_steps res = xs_steps st"
    and errs: "xr_errors res = (case xs_turn st of None \<Rightarrow> xs_errors st | Some t \<Rightarrow> ts_errors (publish_turn (xs_steps st) (xr_waves res) (xr_parallel_used res) (xs_warnings st) t))"
    by (rule run_planE)
  have ids: "ps_id ` set ?steps = ps_id ` set plan" by (metis map_id_infer list.set_map)
  have "all_settled ({} \<union> set (concat ?waves)) st \<and> map ps_id (xs_steps st) = map ps_id (xs_steps (initial_state ?steps turn :: ('c, 'd) exec_state))"
  proof (rule run_waves_settle [OF run distinct_waves])
    show "i \<noteq> [] \<and> length i \<le> 32" if "i \<in> ps_id ` set (xs_steps (initial_state ?steps turn :: ('c, 'd) exec_state))" for i
      using that assms(2) by (auto simp: initial_state_def ids)
  qed (simp_all add: all_settled_def)
  then have settled: "all_settled (ps_id ` set plan) st" and "map ps_id (xs_steps st) = map ps_id plan"
    unfolding set_waves ids by (simp_all add: initial_state_def map_id_infer)
  then have "ps_id s \<in> ps_id ` set plan" using assms(3) steps by (metis image_eqI list.set_map)
  moreover have "ledger st = xr_errors res" using errs by (simp add: ledger_def cong: option.case_cong)
  ultimately have "settled (set (xr_errors res)) s" using settled assms(3) steps unfolding all_settled_def by metis
  then show ?thesis by (simp add: settled_def)
qed

section \<open>A run in memory\<close>

definition sample_evidence :: "unit evidence" where
  "sample_evidence = \<lparr>ev_knowledge_base_id = ''kb'', ev_document_id = None, ev_chunk_id = Some ''c'', ev_snippet = ''x'', ev_rank = 7, ev_rerank_score = None,
     ev_rerank_method = None, ev_meta_rerank_score = No_score, ev_rest = ()\<rparr>"

text \<open>Retrieval finds the same chunk for every query but the one about pay, which finds nothing.\<close>

definition sample_executor :: "(nat, string, unit, string) executor" where
  "sample_executor = \<lparr>ex_retrieve = (\<lambda>q n. (Suc n, Inr \<lparr>rr_evidence = (if q = ''leave'' then [sample_evidence] else []), rr_latency_ms = 5, rr_rerank_applied = False\<rparr>)),
     ex_suggest = (\<lambda>_. []), ex_execute_skill = (\<lambda>name q es i n. (n, Skill_failed, name)), ex_resolve_skill_name = (\<lambda>_. None),
     ex_lexical = (\<lambda>_ es. es \<noteq> []), ex_threshold = None, ex_sha1 = (\<lambda>s. s), ex_parallel_enabled = True\<rparr>"

definition sample_input :: run_input where
  "sample_input = \<lparr>ri_question = ''why'', ri_rewrite_query = None, ri_fallback_query = [], ri_retrieval = True, ri_enable_skill = True, ri_execute_skills = False, ri_identity = True\<rparr>"

definition sample_result :: "(unit, string) executor_result \<times> turn_state option" where
  "sample_result = (case run_plan sample_executor sample_input sample_plan None 0 of (_, Inr r) \<Rightarrow> r)"

lemma sample_plan_run: "run_plan sample_executor sample_input sample_plan None 0 = (3, Inr (fst sample_result, None))"
  by code_simp

lemma sample_result_evidence: "xr_evidence (fst sample_result) = [sample_evidence\<lparr>ev_rank := 1\<rparr>]"
  by code_simp

theorem run_evidence_is_relevant_witness: "relevant_item sample_executor ''why'' (sample_evidence\<lparr>ev_rank := 1\<rparr>)"
  using run_evidence_is_relevant [OF sample_plan_run, of "sample_evidence\<lparr>ev_rank := 1\<rparr>"] by (simp add: sample_result_evidence sample_input_def)

theorem failures_are_in_the_ledger_witness:
  "ps_status (xr_plan_steps (fst sample_result) ! 1) = Step_error \<and>
   (\<exists>e\<in>set (xr_errors (fst sample_result)). te_step_id e = Some ''s2'' \<and> te_severity e = Sev_error)"
proof -
  have s: "xr_plan_steps (fst sample_result) ! 1 \<in> set (xr_plan_steps (fst sample_result))"
    "ps_status (xr_plan_steps (fst sample_result) ! 1) = Step_error" "ps_id (xr_plan_steps (fst sample_result) ! 1) = ''s2''"
    by code_simp+
  have "\<forall>s\<in>set sample_plan. ps_id s \<noteq> [] \<and> length (ps_id s) \<le> 32" by (simp add: sample_plan_def sample_step_def)
  from failures_are_in_the_ledger [OF sample_plan_run this s(1)] s show ?thesis by simp
qed

end
