(* ===== verification/Identity_Repos.thy ===== *)
theory Identity_Repos
  imports Repo_Core
begin

text \<open>
  Tenants, members, roles and their grants (\<open>db/repositories.py\<close>): the rows as \<open>db/models.py\<close> declares them, the four repositories over them, the
  resource catalogue and the grant source that fresh authorization reads. The tables live in one \<open>identity_db\<close>; a call that raises leaves it as it was.
  Foreign keys and unique constraints are those of the models, as PostgreSQL enforces them; instants carry their time zone, so that \<open>_as_utc\<close> is the identity.
\<close>

section \<open>Rows\<close>

record tenant =
  te_id :: ident
  te_code :: string
  te_name :: string
  te_status :: string
  te_resource_policy_id :: "ident option"
  te_created_at :: instant
  te_updated_at :: instant

record department =
  dp_id :: ident
  dp_name :: string
  dp_code :: string
  dp_parent_id :: "ident option"
  dp_created_at :: instant

record role =
  ro_id :: ident
  ro_tenant_id :: "ident option"
  ro_code :: string
  ro_name :: string
  ro_description :: string
  ro_actions :: "string list"
  ro_version :: int
  ro_created_at :: instant
  ro_updated_at :: instant

record user =
  us_id :: ident
  us_tenant_id :: "ident option"
  us_external_subject :: "string option"
  us_username :: string
  us_email :: string
  us_password_hash :: string
  us_display_name :: string
  us_department_id :: "ident option"
  us_status :: string
  us_version :: int
  us_created_at :: instant
  us_updated_at :: instant

record user_role_grant =
  ug_id :: ident
  ug_tenant_id :: ident
  ug_user_id :: ident
  ug_role_id :: ident
  ug_scope :: string
  ug_valid_from :: instant
  ug_expires_at :: "instant option"
  ug_granted_by :: "ident option"
  ug_revoked_at :: "instant option"
  ug_revoked_by :: "ident option"
  ug_revocation_reason :: "string option"
  ug_version :: int
  ug_created_at :: instant
  ug_updated_at :: instant

record identity_db =
  id_tenants :: "tenant list"
  id_departments :: "department list"
  id_users :: "user list"
  id_roles :: "role list"
  id_grants :: "user_role_grant list"

abbreviation grant_tenant :: "user_role_grant \<Rightarrow> ident option" where
  "grant_tenant g \<equiv> Some (ug_tenant_id g)"

abbreviation set_us_version :: "int \<Rightarrow> user \<Rightarrow> user" where "set_us_version v r \<equiv> r\<lparr>us_version := v\<rparr>"
abbreviation set_ro_version :: "int \<Rightarrow> role \<Rightarrow> role" where "set_ro_version v r \<equiv> r\<lparr>ro_version := v\<rparr>"
abbreviation set_ug_version :: "int \<Rightarrow> user_role_grant \<Rightarrow> user_role_grant" where "set_ug_version v r \<equiv> r\<lparr>ug_version := v\<rparr>"
abbreviation touch_user :: "instant \<Rightarrow> user \<Rightarrow> user" where "touch_user now r \<equiv> r\<lparr>us_updated_at := now\<rparr>"
abbreviation touch_role :: "instant \<Rightarrow> role \<Rightarrow> role" where "touch_role now r \<equiv> r\<lparr>ro_updated_at := now\<rparr>"
abbreviation touch_grant :: "instant \<Rightarrow> user_role_grant \<Rightarrow> user_role_grant" where "touch_grant now r \<equiv> r\<lparr>ug_updated_at := now\<rparr>"

interpretation users: tenant_table us_id us_version set_us_version us_tenant_id "touch_user now"
  by unfold_locales simp_all

interpretation roles: tenant_table ro_id ro_version set_ro_version ro_tenant_id "touch_role now"
  by unfold_locales simp_all

interpretation grants: tenant_table ug_id ug_version set_ug_version grant_tenant "touch_grant now"
  by unfold_locales simp_all

section \<open>\<open>TenantRepository\<close>\<close>

definition tenant_get_visible :: "identity_db \<Rightarrow> string \<Rightarrow> repo_error + tenant" where
  "tenant_get_visible db tenant_id =
     res_bind (require_tenant tenant_id ''TenantRepository.get_visible'') (\<lambda>tn.
       res_of_option (Tenant_not_found tn) (fetch_optional te_id (\<lambda>_. None) (id_tenants db) tn None))"

definition tenant_get_by_code :: "identity_db \<Rightarrow> string \<Rightarrow> repo_error + tenant" where
  "tenant_get_by_code db code =
     res_bind (require_text ''code'' code) (\<lambda>c. res_of_option (Tenant_not_found c) (find (\<lambda>r. te_code r = c) (id_tenants db)))"

definition tenant_exists :: "identity_db \<Rightarrow> string \<Rightarrow> repo_error + bool" where
  "tenant_exists db tenant_id =
     res_bind (require_tenant tenant_id ''TenantRepository.exists'') (\<lambda>tn. Inr (list_ex (\<lambda>r. te_id r = tn) (id_tenants db)))"

definition tenant_create :: "identity_db \<Rightarrow> instant \<Rightarrow> ident \<Rightarrow> string \<Rightarrow> string \<Rightarrow> string \<Rightarrow> repo_error + identity_db \<times> tenant" where
  "tenant_create db now nid code name status =
     res_bind (require_text ''code'' code) (\<lambda>c.
     res_bind (require_text ''name'' name) (\<lambda>n.
     res_bind (require_text ''status'' status) (\<lambda>s.
       let row = \<lparr>te_id = nid, te_code = c, te_name = n, te_status = s, te_resource_policy_id = None, te_created_at = now, te_updated_at = now\<rparr> in
       if list_ex (\<lambda>r. te_id r = nid \<or> te_code r = c) (id_tenants db) then Inl Repo_integrity_error
       else Inr (db\<lparr>id_tenants := id_tenants db @ [row]\<rparr>, row))))"

section \<open>\<open>UserRepository\<close>\<close>

definition user_get :: "identity_db \<Rightarrow> string \<Rightarrow> string \<Rightarrow> repo_error + user" where
  "user_get db tenant_id user_id =
     res_bind (require_tenant tenant_id ''UserRepository.get'') (\<lambda>tn.
     res_bind (require_text ''user_id'' user_id) (\<lambda>i. fetch_one us_id us_tenant_id ''user'' (id_users db) i (Some tn)))"

definition find_by_external_subject :: "identity_db \<Rightarrow> string \<Rightarrow> string \<Rightarrow> repo_error + user option" where
  "find_by_external_subject db tenant_id external_subject =
     res_bind (require_tenant tenant_id ''UserRepository.find_by_external_subject'') (\<lambda>tn.
     res_bind (require_text ''external_subject'' external_subject) (\<lambda>s.
       Inr (find (\<lambda>r. us_tenant_id r = Some tn \<and> us_external_subject r = Some s) (id_users db))))"

definition find_by_username :: "identity_db \<Rightarrow> string \<Rightarrow> string \<Rightarrow> repo_error + user option" where
  "find_by_username db tenant_id username =
     res_bind (require_tenant tenant_id ''UserRepository.find_by_username'') (\<lambda>tn.
     res_bind (require_text ''username'' username) (\<lambda>n.
       Inr (find (\<lambda>r. us_tenant_id r = Some tn \<and> us_username r = n) (id_users db))))"

text \<open>\<open>username\<close> and \<open>email\<close> are unique over all tenants, \<open>external_subject\<close> (where there is one) within the tenant.\<close>

definition user_insert :: "identity_db \<Rightarrow> user \<Rightarrow> repo_error + identity_db \<times> user" where
  "user_insert db row =
     (if list_ex (\<lambda>r. us_id r = us_id row \<or> us_username r = us_username row \<or> us_email r = us_email row \<or>
           us_external_subject row \<noteq> None \<and> us_tenant_id r = us_tenant_id row \<and> us_external_subject r = us_external_subject row) (id_users db)
       \<or> \<not> list_ex (\<lambda>t. Some (te_id t) = us_tenant_id row) (id_tenants db)
       \<or> us_department_id row \<noteq> None \<and> \<not> list_ex (\<lambda>d. Some (dp_id d) = us_department_id row) (id_departments db)
      then Inl Repo_integrity_error else Inr (db\<lparr>id_users := id_users db @ [row]\<rparr>, row))"

definition user_create :: "identity_db \<Rightarrow> instant \<Rightarrow> ident \<Rightarrow> string \<Rightarrow> string \<Rightarrow> string \<Rightarrow> string \<Rightarrow> string \<Rightarrow> string option \<Rightarrow> ident option \<Rightarrow> string
    \<Rightarrow> repo_error + identity_db \<times> user" where
  "user_create db now nid tenant_id username email password_hash display_name external_subject department_id status =
     res_bind (require_tenant tenant_id ''UserRepository.create'') (\<lambda>tn.
     res_bind (require_text ''username'' username) (\<lambda>un.
     res_bind (require_text ''email'' email) (\<lambda>em.
     res_bind (require_text ''password_hash'' password_hash) (\<lambda>ph.
     res_bind (require_text ''display_name'' display_name) (\<lambda>dn.
     res_bind (require_text ''status'' status) (\<lambda>st.
       user_insert db \<lparr>us_id = nid, us_tenant_id = Some tn, us_external_subject = external_subject, us_username = un, us_email = em,
         us_password_hash = ph, us_display_name = dn, us_department_id = department_id, us_status = st, us_version = 1,
         us_created_at = now, us_updated_at = now\<rparr>))))))"

definition user_set_status :: "identity_db \<Rightarrow> instant \<Rightarrow> string \<Rightarrow> string \<Rightarrow> string \<Rightarrow> int \<Rightarrow> repo_error + identity_db \<times> user" where
  "user_set_status db now tenant_id user_id status expected_version =
     res_bind (require_tenant tenant_id ''UserRepository.set_status'') (\<lambda>tn.
     res_bind (require_text ''user_id'' user_id) (\<lambda>i.
     res_bind (require_version expected_version ''UserRepository.set_status'') (\<lambda>v.
     res_bind (require_text ''status'' status) (\<lambda>s.
     res_bind (apply_compare_and_set us_id us_tenant_id us_version set_us_version (touch_user now) ''user'' (id_users db) i (Some tn) v
         (\<lambda>r. r\<lparr>us_status := s\<rparr>)) (\<lambda>(t, r).
       Inr (db\<lparr>id_users := t\<rparr>, r))))))"

section \<open>\<open>RoleRepository\<close>\<close>

text \<open>The sorted set of the trimmed codes; the first blank one is refused.\<close>

definition normalise_actions :: "string list \<Rightarrow> repo_error + string list" where
  "normalise_actions actions =
     (if list_ex (\<lambda>a. py_strip a = []) actions then Inl (Repo_value_error ''action'') else Inr (sort (remdups (map py_strip actions))))"

definition role_get :: "identity_db \<Rightarrow> string \<Rightarrow> string \<Rightarrow> repo_error + role" where
  "role_get db tenant_id role_id =
     res_bind (require_tenant tenant_id ''RoleRepository.get'') (\<lambda>tn.
     res_bind (require_text ''role_id'' role_id) (\<lambda>i. fetch_one ro_id ro_tenant_id ''role'' (id_roles db) i (Some tn)))"

definition role_get_by_code :: "identity_db \<Rightarrow> string \<Rightarrow> string \<Rightarrow> repo_error + role" where
  "role_get_by_code db tenant_id code =
     res_bind (require_tenant tenant_id ''RoleRepository.get_by_code'') (\<lambda>tn.
     res_bind (require_text ''code'' code) (\<lambda>c.
       res_of_option (Resource_not_found ''role'' c) (find (\<lambda>r. ro_tenant_id r = Some tn \<and> ro_code r = c) (id_roles db))))"

definition role_list_for_tenant :: "identity_db \<Rightarrow> string \<Rightarrow> repo_error + role list" where
  "role_list_for_tenant db tenant_id =
     res_bind (require_tenant tenant_id ''RoleRepository.list_for_tenant'') (\<lambda>tn.
       Inr (sort_key ro_code (filter (\<lambda>r. ro_tenant_id r = Some tn) (id_roles db))))"

definition role_create :: "identity_db \<Rightarrow> instant \<Rightarrow> ident \<Rightarrow> string \<Rightarrow> string \<Rightarrow> string \<Rightarrow> string list \<Rightarrow> string \<Rightarrow> repo_error + identity_db \<times> role" where
  "role_create db now nid tenant_id code name actions description =
     res_bind (require_tenant tenant_id ''RoleRepository.create'') (\<lambda>tn.
     res_bind (require_text ''code'' code) (\<lambda>c.
     res_bind (require_text ''name'' name) (\<lambda>n.
     res_bind (normalise_actions actions) (\<lambda>as.
       let row = \<lparr>ro_id = nid, ro_tenant_id = Some tn, ro_code = c, ro_name = n, ro_description = description, ro_actions = as, ro_version = 1,
                  ro_created_at = now, ro_updated_at = now\<rparr> in
       if list_ex (\<lambda>r. ro_id r = nid \<or> ro_tenant_id r = Some tn \<and> ro_code r = c) (id_roles db) \<or> \<not> list_ex (\<lambda>t. te_id t = tn) (id_tenants db)
       then Inl Repo_integrity_error else Inr (db\<lparr>id_roles := id_roles db @ [row]\<rparr>, row)))))"

definition role_replace_actions :: "identity_db \<Rightarrow> instant \<Rightarrow> string \<Rightarrow> string \<Rightarrow> string list \<Rightarrow> int \<Rightarrow> repo_error + identity_db \<times> role" where
  "role_replace_actions db now tenant_id role_id actions expected_version =
     res_bind (require_tenant tenant_id ''RoleRepository.replace_actions'') (\<lambda>tn.
     res_bind (require_text ''role_id'' role_id) (\<lambda>i.
     res_bind (require_version expected_version ''RoleRepository.replace_actions'') (\<lambda>v.
     res_bind (normalise_actions actions) (\<lambda>as.
     res_bind (apply_compare_and_set ro_id ro_tenant_id ro_version set_ro_version (touch_role now) ''role'' (id_roles db) i (Some tn) v
         (\<lambda>r. r\<lparr>ro_actions := as\<rparr>)) (\<lambda>(t, r).
       Inr (db\<lparr>id_roles := t\<rparr>, r))))))"

section \<open>\<open>UserRoleGrantRepository\<close>\<close>

definition grant_get :: "identity_db \<Rightarrow> string \<Rightarrow> string \<Rightarrow> repo_error + user_role_grant" where
  "grant_get db tenant_id grant_id =
     res_bind (require_tenant tenant_id ''UserRoleGrantRepository.get'') (\<lambda>tn.
     res_bind (require_text ''grant_id'' grant_id) (\<lambda>i. fetch_one ug_id grant_tenant ''user_role_grant'' (id_grants db) i (Some tn)))"

definition grant_insert :: "identity_db \<Rightarrow> user_role_grant \<Rightarrow> repo_error + identity_db \<times> user_role_grant" where
  "grant_insert db row =
     (if list_ex (\<lambda>r. ug_id r = ug_id row \<or> ug_tenant_id r = ug_tenant_id row \<and> ug_user_id r = ug_user_id row \<and>
           ug_role_id r = ug_role_id row \<and> ug_scope r = ug_scope row) (id_grants db)
       \<or> \<not> list_ex (\<lambda>t. te_id t = ug_tenant_id row) (id_tenants db)
       \<or> \<not> list_ex (\<lambda>u. us_id u = ug_user_id row) (id_users db)
       \<or> \<not> list_ex (\<lambda>r. ro_id r = ug_role_id row) (id_roles db)
      then Inl Repo_integrity_error else Inr (db\<lparr>id_grants := id_grants db @ [row]\<rparr>, row))"

definition grant_create :: "identity_db \<Rightarrow> instant \<Rightarrow> ident \<Rightarrow> string \<Rightarrow> string \<Rightarrow> string \<Rightarrow> string \<Rightarrow> instant option \<Rightarrow> instant option \<Rightarrow> ident option
    \<Rightarrow> repo_error + identity_db \<times> user_role_grant" where
  "grant_create db now nid tenant_id user_id role_id scope valid_from expires_at granted_by =
     res_bind (require_tenant tenant_id ''UserRoleGrantRepository.create'') (\<lambda>tn.
       let start = (case valid_from of None \<Rightarrow> now | Some f \<Rightarrow> f) in
       if (case expires_at of None \<Rightarrow> False | Some e \<Rightarrow> e \<le> start) then Inl (Repo_value_error ''expires_at'')
       else
         res_bind (require_text ''user_id'' user_id) (\<lambda>u.
         res_bind (require_text ''role_id'' role_id) (\<lambda>r.
         res_bind (require_text ''scope'' scope) (\<lambda>s.
           grant_insert db \<lparr>ug_id = nid, ug_tenant_id = tn, ug_user_id = u, ug_role_id = r, ug_scope = s, ug_valid_from = start,
             ug_expires_at = expires_at, ug_granted_by = granted_by, ug_revoked_at = None, ug_revoked_by = None, ug_revocation_reason = None,
             ug_version = 1, ug_created_at = now, ug_updated_at = now\<rparr>))))"

text \<open>The window of a grant, as the two queries spell it out.\<close>

definition grant_active :: "instant \<Rightarrow> user_role_grant \<Rightarrow> bool" where
  "grant_active moment g \<longleftrightarrow> ug_valid_from g \<le> moment \<and> ug_revoked_at g = None \<and> (case ug_expires_at g of None \<Rightarrow> True | Some e \<Rightarrow> moment < e)"

definition active_grants :: "identity_db \<Rightarrow> instant \<Rightarrow> string \<Rightarrow> string \<Rightarrow> instant option \<Rightarrow> repo_error + user_role_grant list" where
  "active_grants db clk tenant_id user_id now =
     res_bind (require_tenant tenant_id ''UserRoleGrantRepository.active_grants'') (\<lambda>tn.
     res_bind (require_text ''user_id'' user_id) (\<lambda>member.
       let moment = (case now of None \<Rightarrow> clk | Some n \<Rightarrow> n) in
       Inr (sort_key (\<lambda>g. (ug_valid_from g, ug_id g))
              (filter (\<lambda>g. ug_tenant_id g = tn \<and> ug_user_id g = member \<and> grant_active moment g) (id_grants db)))))"

definition active_role_codes :: "identity_db \<Rightarrow> instant \<Rightarrow> string \<Rightarrow> string \<Rightarrow> instant option \<Rightarrow> repo_error + string list" where
  "active_role_codes db clk tenant_id user_id now =
     res_bind (require_tenant tenant_id ''UserRoleGrantRepository.active_role_codes'') (\<lambda>tn.
     res_bind (require_text ''user_id'' user_id) (\<lambda>member.
       let moment = (case now of None \<Rightarrow> clk | Some n \<Rightarrow> n) in
       Inr (sort (concat (map (\<lambda>g. map ro_code (filter (\<lambda>r. ro_id r = ug_role_id g \<and> ro_tenant_id r = Some tn) (id_roles db)))
              (filter (\<lambda>g. ug_tenant_id g = tn \<and> ug_user_id g = member \<and> grant_active moment g) (id_grants db)))))))"

definition grant_revoke :: "identity_db \<Rightarrow> instant \<Rightarrow> string \<Rightarrow> string \<Rightarrow> string \<Rightarrow> string option \<Rightarrow> int \<Rightarrow> repo_error + identity_db \<times> user_role_grant" where
  "grant_revoke db now tenant_id grant_id revoked_by reason expected_version =
     res_bind (require_tenant tenant_id ''UserRoleGrantRepository.revoke'') (\<lambda>tn.
     res_bind (require_text ''grant_id'' grant_id) (\<lambda>i.
     res_bind (require_version expected_version ''UserRoleGrantRepository.revoke'') (\<lambda>v.
     res_bind (require_text ''revoked_by'' revoked_by) (\<lambda>by1.
     res_bind (apply_compare_and_set ug_id grant_tenant ug_version set_ug_version (touch_grant now) ''user_role_grant'' (id_grants db) i (Some tn) v
         (\<lambda>r. r\<lparr>ug_revoked_at := Some now, ug_revoked_by := Some by1, ug_revocation_reason := reason\<rparr>)) (\<lambda>(t, r).
       Inr (db\<lparr>id_grants := t\<rparr>, r))))))"

section \<open>\<open>UnitOfWorkGrantSource\<close>\<close>

text \<open>The membership of the request is a gate: it must be one of the active grants; then all of them count.\<close>

definition selected_grants :: "identity_db \<Rightarrow> instant \<Rightarrow> string \<Rightarrow> string \<Rightarrow> string \<Rightarrow> repo_error + user_role_grant list" where
  "selected_grants db clk tenant_id user_id membership_id =
     res_bind (require_text ''membership_id'' membership_id) (\<lambda>member.
     res_bind (active_grants db clk tenant_id user_id None) (\<lambda>gs.
       Inr (if list_ex (\<lambda>g. ug_id g = member) gs then gs else [])))"

fun union_scopes :: "identity_db \<Rightarrow> string \<Rightarrow> user_role_grant list \<Rightarrow> repo_error + string set" where
  "union_scopes db tenant_id [] = Inr {}"
| "union_scopes db tenant_id (g # gs) =
     (let label = (if py_strip (ug_scope g) = [] then {} else {py_strip (ug_scope g)}) in
      if py_strip (ug_role_id g) = [] then res_bind (union_scopes db tenant_id gs) (\<lambda>s. Inr (label \<union> s))
      else res_bind (role_get db tenant_id (ug_role_id g)) (\<lambda>r.
           res_bind (union_scopes db tenant_id gs) (\<lambda>s.
             Inr (label \<union> py_strip ` {a \<in> set (ro_actions r). py_strip a \<noteq> []} \<union> s))))"

definition scopes_for :: "identity_db \<Rightarrow> instant \<Rightarrow> string \<Rightarrow> string \<Rightarrow> string \<Rightarrow> repo_error + string set" where
  "scopes_for db clk tenant_id user_id membership_id =
     res_bind (selected_grants db clk tenant_id user_id membership_id) (\<lambda>gs. union_scopes db tenant_id gs)"

definition authorization_version_for :: "identity_db \<Rightarrow> instant \<Rightarrow> string \<Rightarrow> string \<Rightarrow> string \<Rightarrow> repo_error + int" where
  "authorization_version_for db clk tenant_id user_id membership_id =
     res_bind (selected_grants db clk tenant_id user_id membership_id) (\<lambda>gs. Inr (sum_list (map ug_version gs)))"

end
