(* ===== verification/Fresh_Authorization.thy ===== *)
theory Fresh_Authorization
  imports Identity_Repos Authorization
begin

text \<open>
  The request side of authorization: how the principal of a request is read from the tenant's rows (\<open>api/deps.py\<close>) and how a
  decision is taken over the grants in force (\<open>AuthorizationService.authorize_fresh\<close> over \<open>UnitOfWorkGrantSource\<close> and the two resource
  catalogues of \<open>db/repositories.py\<close>). The catalogues see the tables of all tenant-owned kinds as the pairs of primary key and owner.
\<close>

datatype fresh_error = Fresh_repo repo_error | Fresh_auth auth_error | Fresh_principal principal_error | Not_authenticated string

abbreviation of_repo :: "repo_error + 'a \<Rightarrow> fresh_error + 'a" where "of_repo \<equiv> map_sum Fresh_repo id"

section \<open>Resource catalogues\<close>

type_synonym catalog_rows = "string \<Rightarrow> (ident \<times> ident option) list"

text \<open>Whether the rows of a kind carry a tenant.\<close>

definition catalog_model :: "string \<Rightarrow> repo_error + bool" where
  "catalog_model kind = (if kind \<in> set RESOURCE_KINDS then Inr (kind \<noteq> ''tenant'') else Inl (Unknown_resource_kind kind))"

definition uow_contains :: "catalog_rows \<Rightarrow> string \<Rightarrow> string \<Rightarrow> string \<Rightarrow> repo_error + bool" where
  "uow_contains rows tenant_id resource_kind resource_id =
     res_bind (require_tenant tenant_id ''UnitOfWorkResourceCatalog.contains'') (\<lambda>tn.
     res_bind (require_text ''resource_kind'' resource_kind) (\<lambda>kind.
     res_bind (require_text ''resource_id'' resource_id) (\<lambda>i.
     res_bind (catalog_model kind) (\<lambda>owned.
       Inr (if \<not> owned then i = tn else list_ex (\<lambda>(j, o1). j = i \<and> o1 = Some tn) (rows kind))))))"

definition contains_ref :: "catalog_rows \<Rightarrow> resource_ref \<Rightarrow> repo_error + bool" where
  "contains_ref rows r = uow_contains rows (case rr_tenant_id r of None \<Rightarrow> [] | Some tn \<Rightarrow> tn) (rr_kind r) (rr_id r)"

definition sql_contains :: "catalog_rows \<Rightarrow> resource_ref \<Rightarrow> repo_error + bool" where
  "sql_contains rows r =
     res_bind (catalog_model (rr_kind r)) (\<lambda>owned.
       Inr (if \<not> owned then Some (rr_id r) = rr_tenant_id r
            else (case rr_tenant_id r of
                None \<Rightarrow> False
              | Some tn \<Rightarrow> py_strip tn \<noteq> [] \<and> list_ex (\<lambda>(j, o1). j = rr_id r \<and> o1 = Some (py_strip tn)) (rows (rr_kind r)))))"

section \<open>Fresh authorization\<close>

text \<open>\<open>clk\<close> and \<open>clk'\<close> are the instants of the two reads of the grants.\<close>

definition uow_authorize_fresh :: "identity_db \<Rightarrow> catalog_rows \<Rightarrow> instant \<Rightarrow> instant \<Rightarrow> request_principal \<Rightarrow> string \<Rightarrow> resource_ref
    \<Rightarrow> fresh_error + decision" where
  "uow_authorize_fresh db rows clk clk' p action r =
     res_bind (map_sum Fresh_auth id (as_action action)) (\<lambda>a.
     res_bind (of_repo (scopes_for db clk (pr_tenant_id p) (pr_user_id p) (pr_membership_id p))) (\<lambda>scopes.
     res_bind (of_repo (authorization_version_for db clk' (pr_tenant_id p) (pr_user_id p) (pr_membership_id p))) (\<lambda>version.
     res_bind (map_sum (\<lambda>_. Fresh_auth Negative_version) id (with_authorization_version p version)) (\<lambda>p'.
     res_bind (of_repo (contains_ref rows r)) (\<lambda>ex.
       Inr (evaluate_authorization p' a r scopes None (Some ex)))))))"

definition require_authorization :: "identity_db \<Rightarrow> catalog_rows \<Rightarrow> instant \<Rightarrow> instant \<Rightarrow> request_principal \<Rightarrow> string \<Rightarrow> resource_ref
    \<Rightarrow> fresh_error + decision" where
  "require_authorization db rows clk clk' p action r =
     res_bind (uow_authorize_fresh db rows clk clk' p action r) (\<lambda>d.
     res_bind (map_sum Fresh_auth id (decision_raise_for_denial d)) (\<lambda>_. Inr d))"

section \<open>The principal of a request\<close>

definition get_current_user :: "identity_db \<Rightarrow> string \<Rightarrow> ident \<Rightarrow> fresh_error + user" where
  "get_current_user db tenant_id sub = (case get_row us_id (id_users db) sub of
     None \<Rightarrow> Inl (Not_authenticated ''AUTH_INVALID_TOKEN'')
   | Some u \<Rightarrow> if us_tenant_id u \<noteq> Some tenant_id then Inl (Not_authenticated ''AUTH_INVALID_TOKEN'')
              else if us_status u \<noteq> ''active'' then Inl (Not_authenticated ''AUTH_USER_DISABLED'') else Inr u)"

definition claimed_identity :: "string option \<Rightarrow> ident_value option" where
  "claimed_identity value = (case value of None \<Rightarrow> None | Some s \<Rightarrow> if py_strip s = [] then None else Some (Id_text (py_strip s)))"

text \<open>The role codes and windows of the active grants; a role that cannot be read raises.\<close>

fun grant_windows :: "identity_db \<Rightarrow> string \<Rightarrow> user_role_grant list \<Rightarrow> repo_error + (string \<times> role_grant) list" where
  "grant_windows db tenant_id [] = Inr []"
| "grant_windows db tenant_id (g # gs) =
     res_bind (role_get db tenant_id (ug_role_id g)) (\<lambda>r.
     res_bind (grant_windows db tenant_id gs) (\<lambda>ws.
       Inr ((ro_code r, \<lparr>rg_role_code = ro_code r, rg_scopes = set (ro_actions r), rg_valid_from = Some (ug_valid_from g),
                         rg_expires_at = ug_expires_at g, rg_revoked = False\<rparr>) # ws)))"

definition tenant_entity :: "tenant \<Rightarrow> entity" where
  "tenant_entity r = \<lparr>en_id = Some (Id_text (te_id r)), en_tenant_id = None, en_user_id = None, en_status = Some (Status_text (te_status r))\<rparr>"

definition user_entity :: "user \<Rightarrow> entity" where
  "user_entity r = \<lparr>en_id = Some (Id_text (us_id r)), en_tenant_id = map_option Id_text (us_tenant_id r), en_user_id = None,
     en_status = Some (Status_text (us_status r))\<rparr>"

definition membership_entity :: "user_role_grant \<Rightarrow> entity" where
  "membership_entity g = \<lparr>en_id = Some (Id_text (ug_id g)), en_tenant_id = Some (Id_text (ug_tenant_id g)), en_user_id = Some (Id_text (ug_user_id g)),
     en_status = None\<rparr>"

record token_payload =
  tk_tenant_id :: string
  tk_sub :: string
  tk_session_id :: "string option"
  tk_jti :: "string option"

definition get_principal :: "identity_db \<Rightarrow> instant \<Rightarrow> instant \<Rightarrow> token_payload \<Rightarrow> string option \<Rightarrow> string option \<Rightarrow> string option
    \<Rightarrow> fresh_error + request_principal" where
  "get_principal db clk clk' payload request_id claimed_tenant claimed_user =
     res_bind (of_repo (require_tenant (tk_tenant_id payload) ''set_tenant_context'')) (\<lambda>_.
     res_bind (of_repo (tenant_get_visible db (tk_tenant_id payload))) (\<lambda>tn.
     res_bind (of_repo (user_get db (tk_tenant_id payload) (tk_sub payload))) (\<lambda>u.
     res_bind (of_repo (active_grants db clk (tk_tenant_id payload) (tk_sub payload) None)) (\<lambda>gs.
       case gs of
         [] \<Rightarrow> Inl (Not_authenticated ''AUTH_FORBIDDEN'')
       | m # _ \<Rightarrow>
           res_bind (of_repo (grant_windows db (tk_tenant_id payload) gs)) (\<lambda>ws.
           res_bind (of_repo (authorization_version_for db clk' (tk_tenant_id payload) (tk_sub payload) (ug_id m))) (\<lambda>version.
             map_sum Fresh_principal id
               (resolve_principal (Some (tenant_entity tn)) (Some (user_entity u)) (Some (membership_entity m)) (map fst ws)
                  (sorted_list_of_set (\<Union>w\<in>set ws. rg_scopes (snd w))) (map snd ws) version
                  (Some (Id_text (case tk_session_id payload of Some s \<Rightarrow> s | None \<Rightarrow> case tk_jti payload of Some j \<Rightarrow> j | None \<Rightarrow> ug_id m)))
                  (Some (Id_text (case request_id of Some q \<Rightarrow> q | None \<Rightarrow> ug_id m))) None
                  (claimed_identity claimed_tenant) (claimed_identity claimed_user) None ACTIVE_STATUS)))))))"

end
