(* ===== verification/Fresh_Safety.thy ===== *)
theory Fresh_Safety
  imports Fresh_Authorization
begin

text \<open>
  What fresh authorization guarantees: an allowed action rests on grants that are active now, a revoked membership is refused at once, and the scopes a request
  carries are never wider than the ones its grants give.
\<close>

lemma map_sum_Inr_iff [res_simps]: "map_sum f id x = Inr y \<longleftrightarrow> x = Inr y"
  by (cases x) auto

section \<open>Grants in force\<close>

definition member_grant :: "identity_db \<Rightarrow> instant \<Rightarrow> string \<Rightarrow> string \<Rightarrow> user_role_grant \<Rightarrow> bool" where
  "member_grant db clk tenant_id user_id g \<longleftrightarrow> g \<in> set (id_grants db) \<and> ug_tenant_id g = py_strip tenant_id \<and> ug_user_id g = py_strip user_id \<and>
     grant_active clk g"

text \<open>A scope a grant gives: its label, or an action of its role in the same tenant.\<close>

definition gives :: "identity_db \<Rightarrow> string \<Rightarrow> user_role_grant \<Rightarrow> string \<Rightarrow> bool" where
  "gives db tenant_id g s \<longleftrightarrow> s \<noteq> [] \<and> (s = py_strip (ug_scope g) \<or>
     (\<exists>r\<in>set (id_roles db). ro_id r = py_strip (ug_role_id g) \<and> ro_tenant_id r = Some (py_strip tenant_id) \<and> s \<in> py_strip ` set (ro_actions r)))"

lemma fetch_one_Inr: "fetch_one key tenant_of kind t i (Some tn) = Inr r \<Longrightarrow> r \<in> set t \<and> key r = i \<and> tenant_of r = Some tn"
  by (auto simp: fetch_one_def res_simps entity_where_def find_Some_iff)

lemma role_get_Inr:
  assumes "role_get db tenant_id i = Inr r"
  shows "r \<in> set (id_roles db) \<and> ro_id r = py_strip i \<and> ro_tenant_id r = Some (py_strip tenant_id) \<and> py_strip i \<noteq> []"
  using assms by (auto simp: role_get_def require_tenant_def require_text_def res_simps dest!: fetch_one_Inr split: if_splits)

lemma active_grants_Inr:
  assumes "active_grants db clk tenant_id user_id None = Inr gs"
  shows "set gs = {g. member_grant db clk tenant_id user_id g}" and "py_strip tenant_id \<noteq> []" and "py_strip user_id \<noteq> []"
  using assms by (auto simp: active_grants_def require_tenant_def require_text_def member_grant_def res_simps Let_def split: if_splits)

lemma union_scopes_gives: "union_scopes db tenant_id gs = Inr S \<Longrightarrow> s \<in> S \<Longrightarrow> \<exists>g\<in>set gs. gives db tenant_id g s"
proof (induction gs arbitrary: S)
  case (Cons g gs)
  show ?case
  proof (cases "py_strip (ug_role_id g) = []")
    case True
    with Cons show ?thesis by (auto simp: res_simps gives_def Let_def split: if_splits)
  next
    case False
    with Cons.prems obtain r S' where r: "role_get db tenant_id (ug_role_id g) = Inr r" and S': "union_scopes db tenant_id gs = Inr S'"
      and S: "S = (if py_strip (ug_scope g) = [] then {} else {py_strip (ug_scope g)}) \<union> py_strip ` {a \<in> set (ro_actions r). py_strip a \<noteq> []} \<union> S'"
      by (auto simp: res_simps Let_def)
    consider "s = py_strip (ug_scope g)" "s \<noteq> []" | "s \<in> py_strip ` set (ro_actions r)" "s \<noteq> []" | "s \<in> S'"
      using Cons.prems(2) unfolding S by (auto split: if_splits)
    then show ?thesis
    proof cases
      case 3
      then show ?thesis using Cons.IH [OF S'] by auto
    qed (use role_get_Inr [OF r] in \<open>auto simp: gives_def\<close>)
  qed
qed simp

lemma scopes_for_gives:
  assumes "scopes_for db clk tenant_id user_id m = Inr S" and "s \<in> S"
  shows "(\<exists>g. member_grant db clk tenant_id user_id g \<and> ug_id g = py_strip m) \<and> (\<exists>g. member_grant db clk tenant_id user_id g \<and> gives db tenant_id g s)"
proof -
  from assms(1) obtain gs where gs: "active_grants db clk tenant_id user_id None = Inr gs"
    and u: "union_scopes db tenant_id (if list_ex (\<lambda>g. ug_id g = py_strip m) gs then gs else []) = Inr S"
    by (auto simp: scopes_for_def selected_grants_def require_text_def res_simps split: if_splits)
  have ex: "list_ex (\<lambda>g. ug_id g = py_strip m) gs" using u assms(2) by (cases "list_ex (\<lambda>g. ug_id g = py_strip m) gs") auto
  with u have "union_scopes db tenant_id gs = Inr S" by simp
  from union_scopes_gives [OF this assms(2)] ex show ?thesis
    using active_grants_Inr(1) [OF gs] by (auto simp: list_ex_iff)
qed

lemma fresh_Inr:
  assumes "uow_authorize_fresh db rows clk clk' p action r = Inr d" and "dc_allowed d"
  obtains S where "scopes_for db clk (pr_tenant_id p) (pr_user_id p) (pr_membership_id p) = Inr S" "action \<in> S" "contains_ref rows r = Inr True"
    "rr_tenant_id r = Some (pr_tenant_id p) \<or> CROSS_TENANT_SCOPE \<in> S"
proof -
  from assms(1) obtain a S v p' ex where a: "as_action action = Inr a" and S: "scopes_for db clk (pr_tenant_id p) (pr_user_id p) (pr_membership_id p) = Inr S"
    and p': "with_authorization_version p v = Inr p'" and ex: "contains_ref rows r = Inr ex"
    and d: "d = evaluate_authorization p' a r S None (Some ex)"
    by (auto simp: uow_authorize_fresh_def res_simps)
  have t: "pr_tenant_id p' = pr_tenant_id p" using p' by (auto simp: with_authorization_version_def split: if_splits)
  have "action = action_value a" using a by (simp add: as_action_Inr)
  then have "action \<in> S \<and> ex = True \<and> (rr_tenant_id r = Some (pr_tenant_id p) \<or> CROSS_TENANT_SCOPE \<in> S)"
    using assms(2) unfolding d evaluate_authorization_def Let_def t
    by (auto simp: auth_deny_def auth_allow_def has_scope_def required_scope_def split: if_splits)
  with S ex that show ?thesis by blast
qed

lemma action_nonempty: "as_action action = Inr a \<Longrightarrow> action \<noteq> []"
  by (cases a) (auto simp: as_action_Inr)

lemma fresh_gate:
  assumes "uow_authorize_fresh db rows clk clk' p action r = Inr d" and "dc_allowed d"
  obtains g where "member_grant db clk (pr_tenant_id p) (pr_user_id p) g" "ug_id g = py_strip (pr_membership_id p)"
proof -
  from assms obtain S where "scopes_for db clk (pr_tenant_id p) (pr_user_id p) (pr_membership_id p) = Inr S" "action \<in> S" by (rule fresh_Inr)
  from scopes_for_gives [OF this] that show ?thesis by blast
qed

lemma filter_map_same: "(\<And>x. x \<in> set xs \<Longrightarrow> f x = x \<or> \<not> P x \<and> \<not> P (f x)) \<Longrightarrow> filter P (map f xs) = filter P xs"
proof (induction xs)
  case (Cons x xs)
  have "f x = x \<or> \<not> P x \<and> \<not> P (f x)" by (rule Cons.prems) simp
  moreover have "filter P (map f xs) = filter P xs" by (rule Cons.IH) (simp add: Cons.prems)
  ultimately show ?case by auto
qed simp

lemma union_scopes_roles: "union_scopes (db\<lparr>id_grants := t\<rparr>) tenant_id gs = union_scopes db tenant_id gs"
  by (induction gs) (simp_all add: role_get_def)

section \<open>Decisions\<close>

text \<open>C8. An action is allowed only on grants in force: at the instant of the decision the membership of the request is itself an active grant
  of the member, the action is given by an active grant of the same member in the same tenant, as its label or through a role of that tenant, and the resource
  is one the catalogue shows to the tenant that owns it (or the member holds the cross-tenant scope by such a grant).\<close>

theorem fresh_decisions_are_current:
  assumes "uow_authorize_fresh db rows clk clk' p action r = Inr d" and "dc_allowed d"
  shows "(\<exists>g. member_grant db clk (pr_tenant_id p) (pr_user_id p) g \<and> ug_id g = py_strip (pr_membership_id p)) \<and>
    (\<exists>g. member_grant db clk (pr_tenant_id p) (pr_user_id p) g \<and> gives db (pr_tenant_id p) g action) \<and>
    contains_ref rows r = Inr True \<and>
    (rr_tenant_id r = Some (pr_tenant_id p) \<or>
     (\<exists>g. member_grant db clk (pr_tenant_id p) (pr_user_id p) g \<and> gives db (pr_tenant_id p) g CROSS_TENANT_SCOPE))"
proof -
  from assms obtain S where S: "scopes_for db clk (pr_tenant_id p) (pr_user_id p) (pr_membership_id p) = Inr S" "action \<in> S"
    "contains_ref rows r = Inr True" "rr_tenant_id r = Some (pr_tenant_id p) \<or> CROSS_TENANT_SCOPE \<in> S"
    by (rule fresh_Inr)
  show ?thesis using scopes_for_gives [OF S(1,2)] scopes_for_gives [OF S(1)] S(3,4) by blast
qed

section \<open>Revocation\<close>

lemma revoke_Inr:
  assumes "grant_revoke db now tenant_id grant_id who reason v = Inr (db', g)"
  shows "db' = db\<lparr>id_grants := map (\<lambda>r. if entity_where ug_id grant_tenant (py_strip grant_id) (Some (py_strip tenant_id)) r \<and> ug_version r = v
      then r\<lparr>ug_revoked_at := Some now, ug_revoked_by := Some (py_strip who), ug_revocation_reason := reason, ug_updated_at := now, ug_version := ug_version r + 1\<rparr>
      else r) (id_grants db)\<rparr>"
    and "\<exists>r\<in>set (id_grants db). entity_where ug_id grant_tenant (py_strip grant_id) (Some (py_strip tenant_id)) r \<and> ug_version r = v"
    and "g \<in> set (id_grants db')" and "ug_id g = py_strip grant_id"
proof -
  from assms obtain t where c: "apply_compare_and_set ug_id grant_tenant ug_version set_ug_version (touch_grant now) ''user_role_grant'' (id_grants db)
      (py_strip grant_id) (Some (py_strip tenant_id)) v (\<lambda>r. r\<lparr>ug_revoked_at := Some now, ug_revoked_by := Some (py_strip who), ug_revocation_reason := reason\<rparr>) = Inr (t, g)"
    and db': "db' = db\<lparr>id_grants := t\<rparr>"
    by (auto simp: grant_revoke_def require_tenant_def require_text_def require_version_def res_simps split: if_splits)
  note i = grants.cas_Inr [OF c]
  show "db' = db\<lparr>id_grants := map (\<lambda>r. if entity_where ug_id grant_tenant (py_strip grant_id) (Some (py_strip tenant_id)) r \<and> ug_version r = v
      then r\<lparr>ug_revoked_at := Some now, ug_revoked_by := Some (py_strip who), ug_revocation_reason := reason, ug_updated_at := now, ug_version := ug_version r + 1\<rparr>
      else r) (id_grants db)\<rparr>"
    unfolding db' i(1) by (auto simp: next_version_def intro!: map_cong)
  show "\<exists>r\<in>set (id_grants db). entity_where ug_id grant_tenant (py_strip grant_id) (Some (py_strip tenant_id)) r \<and> ug_version r = v" by (rule i(2))
  show "g \<in> set (id_grants db')" "ug_id g = py_strip grant_id" using i(3,4) by (simp_all add: db')
qed

text \<open>C9. A revocation counts at once: after the grant a request was authenticated by is revoked, no fresh authorization of that request
  allows anything, at any later or earlier instant and whatever scopes the principal carries, and the scopes of other members are what they were.\<close>

theorem revoked_membership_is_refused:
  assumes "keys_distinct ug_id (id_grants db)"
    and "grant_revoke db now tenant_id (pr_membership_id p) who reason v = Inr (db', g)"
  shows "\<not> (\<exists>rows clk clk' action r d. uow_authorize_fresh db' rows clk clk' p action r = Inr d \<and> dc_allowed d) \<and>
    (\<forall>clk tn u m. py_strip u = ug_user_id g \<or> scopes_for db' clk tn u m = scopes_for db clk tn u m)"
proof -
  let ?m = "py_strip (pr_membership_id p)"
  let ?hit = "\<lambda>r. entity_where ug_id grant_tenant ?m (Some (py_strip tenant_id)) r \<and> ug_version r = v"
  let ?f = "\<lambda>r. if ?hit r then r\<lparr>ug_revoked_at := Some now, ug_revoked_by := Some (py_strip who), ug_revocation_reason := reason, ug_updated_at := now,
      ug_version := ug_version r + 1\<rparr> else r"
  note rv = revoke_Inr [OF assms(2)]
  obtain r0 where r0: "r0 \<in> set (id_grants db)" "?hit r0" using rv(2) by blast
  have id0: "ug_id r0 = ?m" using r0(2) by (simp add: entity_where_def)
  have one: "r = r0" if "r \<in> set (id_grants db)" "ug_id r = ?m" for r
    using get_row_in_set [OF assms(1) that(1)] get_row_in_set [OF assms(1) r0(1)] that(2) id0 by simp
  have f0: "ug_revoked_at (?f r0) \<noteq> None" using r0(2) by simp
  have dead: "ug_revoked_at r \<noteq> None" if r: "r \<in> set (id_grants db')" "ug_id r = ?m" for r
  proof -
    from r(1) obtain x where x: "x \<in> set (id_grants db)" "r = ?f x" by (auto simp: rv(1))
    have "ug_id x = ?m" using r(2) x(2) by (simp split: if_splits)
    then have "x = r0" by (rule one [OF x(1)])
    with x(2) have e: "r = ?f r0" by (simp only:)
    show ?thesis unfolding e by (rule f0)
  qed
  have "\<not> dc_allowed d" if fr: "uow_authorize_fresh db' rows clk clk' p action r = Inr d" for rows clk clk' action r d
  proof
    assume "dc_allowed d"
    with fr obtain h where h: "member_grant db' clk (pr_tenant_id p) (pr_user_id p) h" "ug_id h = ?m"
      by (rule fresh_gate)
    have "h \<in> set (id_grants db')" "ug_revoked_at h = None" using h(1) by (simp_all add: member_grant_def grant_active_def)
    with dead [OF _ h(2)] show False by simp
  qed
  moreover have "scopes_for db' clk tn u m = scopes_for db clk tn u m" if other: "py_strip u \<noteq> ug_user_id g" for clk tn u m
  proof -
    from rv(3) obtain y where y: "y \<in> set (id_grants db)" "g = ?f y" by (auto simp: rv(1))
    have "ug_id y = ?m" using y(2) rv(4) by (simp split: if_splits)
    then have "y = r0" by (rule one [OF y(1)])
    then have u0: "ug_user_id r0 = ug_user_id g" using y(2) by simp
    have gr: "id_grants db' = map ?f (id_grants db)" by (simp add: rv(1))
    have "filter (\<lambda>h. ug_tenant_id h = py_strip tn \<and> ug_user_id h = py_strip u \<and> grant_active clk h) (id_grants db') =
        filter (\<lambda>h. ug_tenant_id h = py_strip tn \<and> ug_user_id h = py_strip u \<and> grant_active clk h) (id_grants db)"
      unfolding gr
    proof (rule filter_map_same)
      fix x assume x: "x \<in> set (id_grants db)"
      have "?f x = x \<or> ug_user_id x = ug_user_id g" using one [OF x] u0 by (auto simp: entity_where_def)
      moreover have "ug_user_id (?f x) = ug_user_id x" by simp
      ultimately show "?f x = x \<or> \<not> (ug_tenant_id x = py_strip tn \<and> ug_user_id x = py_strip u \<and> grant_active clk x) \<and>
          \<not> (ug_tenant_id (?f x) = py_strip tn \<and> ug_user_id (?f x) = py_strip u \<and> grant_active clk (?f x))"
        using other by metis
    qed
    then show ?thesis
      by (simp add: scopes_for_def selected_grants_def active_grants_def require_tenant_def require_text_def rv(1) union_scopes_roles)
  qed
  ultimately show ?thesis by blast
qed

section \<open>The principal of a request\<close>

lemma unique_codes_Inr: "unique_codes vs field = Inr D \<Longrightarrow> D = py_strip ` set vs \<and> (\<forall>v\<in>set vs. py_strip v \<noteq> [])"
  by (induction vs arbitrary: D) (auto simp: res_simps split: if_splits)

lemma resolve_principal_scopes:
  assumes "resolve_principal tn u m role_codes scopes gs av sid rid run_id ct cu now es = Inr p" and "s \<in> pr_scopes p"
  shows "(\<exists>g\<in>set gs. s \<in> rg_scopes g) \<and> (scopes \<noteq> [] \<longrightarrow> py_strip s = s \<and> s \<noteq> [])"
proof (cases m)
  case None
  with assms show ?thesis by (simp add: resolve_principal_def)
next
  case (Some en)
  from assms(1) obtain D where D: "unique_codes scopes ''scopes'' = Inr D"
    and p: "pr_scopes p = (if D = {} then \<Union>g\<in>set (filter (\<lambda>g. is_valid_at g now) gs). rg_scopes g
      else D \<inter> (\<Union>g\<in>set (filter (\<lambda>g. is_valid_at g now) gs). rg_scopes g))"
    unfolding resolve_principal_def Some option.case Let_def res_bind_Inr_iff res_guard_iff require_identifier_Inr require_entity_identifier_Inr
    by (elim exE conjE) (rule that, assumption, drule sum.inject(2) [THEN iffD1], erule subst, simp only: request_principal.simps)
  show ?thesis using assms(2) unique_codes_Inr [OF D] by (auto simp: p split: if_splits)
qed

lemma stringified_membership:
  assumes "resolve_principal tn u (Some (membership_entity m)) role_codes scopes gs av sid rid run_id ct cu now es = Inr p"
  shows "pr_tenant_id p = py_strip (ug_tenant_id m) \<and> pr_user_id p = py_strip (ug_user_id m) \<and> pr_membership_id p = py_strip (ug_id m) \<and> pr_membership_id p \<noteq> []"
proof -
  from assms obtain e where "Some (membership_entity m) = Some e" "stringify_identifier (en_tenant_id e) = Some (pr_tenant_id p)"
    "stringify_identifier (en_user_id e) = Some (pr_user_id p)" "stringify_identifier (en_id e) = Some (pr_membership_id p)"
    by (rule resolve_principal_Inr) (rule that; assumption)
  then show ?thesis by (auto simp: membership_entity_def stringify_identifier_def split: if_splits)
qed

lemma grant_windows_scopes:
  assumes "grant_windows db tenant_id gs = Inr ws"
  shows "\<exists>S. union_scopes db tenant_id gs = Inr S \<and> (\<forall>w\<in>set ws. py_strip ` {a \<in> rg_scopes (snd w). py_strip a \<noteq> []} \<subseteq> S)"
  using assms
proof (induction gs arbitrary: ws)
  case (Cons g gs)
  from Cons.prems obtain r ws' where r: "role_get db tenant_id (ug_role_id g) = Inr r" and ws': "grant_windows db tenant_id gs = Inr ws'"
    and ws: "ws = (ro_code r, \<lparr>rg_role_code = ro_code r, rg_scopes = set (ro_actions r), rg_valid_from = Some (ug_valid_from g),
        rg_expires_at = ug_expires_at g, rg_revoked = False\<rparr>) # ws'"
    by (auto simp: res_simps)
  from Cons.IH [OF ws'] obtain S where S: "union_scopes db tenant_id gs = Inr S" "\<forall>w\<in>set ws'. py_strip ` {a \<in> rg_scopes (snd w). py_strip a \<noteq> []} \<subseteq> S"
    by blast
  show ?case using role_get_Inr [OF r] S by (auto simp: ws r Let_def)
qed simp

lemma grant_windows_finite: "grant_windows db tenant_id gs = Inr ws \<Longrightarrow> w \<in> set ws \<Longrightarrow> finite (rg_scopes (snd w))"
  by (induction gs arbitrary: ws) (auto simp: res_simps)

lemma role_get_strip: "role_get db (py_strip tenant_id) i = role_get db tenant_id i"
  by (simp add: role_get_def require_tenant_def)

lemma union_scopes_strip: "union_scopes db (py_strip tenant_id) gs = union_scopes db tenant_id gs"
  by (induction gs) (simp_all add: role_get_strip)

lemma selected_grants_strip: "selected_grants db clk (py_strip tenant_id) (py_strip user_id) (py_strip m) = selected_grants db clk tenant_id user_id m"
  by (simp add: selected_grants_def active_grants_def require_tenant_def require_text_def)

lemma get_principal_Inr:
  assumes "get_principal db clk clk' payload q ct cu = Inr p"
  obtains tn u m gs ws version where "tenant_get_visible db (tk_tenant_id payload) = Inr tn" "user_get db (tk_tenant_id payload) (tk_sub payload) = Inr u"
    "active_grants db clk (tk_tenant_id payload) (tk_sub payload) None = Inr (m # gs)" "grant_windows db (tk_tenant_id payload) (m # gs) = Inr ws"
    "resolve_principal (Some (tenant_entity tn)) (Some (user_entity u)) (Some (membership_entity m)) (map fst ws)
       (sorted_list_of_set (\<Union>w\<in>set ws. rg_scopes (snd w))) (map snd ws) version
       (Some (Id_text (case tk_session_id payload of Some s \<Rightarrow> s | None \<Rightarrow> case tk_jti payload of Some j \<Rightarrow> j | None \<Rightarrow> ug_id m)))
       (Some (Id_text (case q of Some q \<Rightarrow> q | None \<Rightarrow> ug_id m))) None (claimed_identity ct) (claimed_identity cu) None ACTIVE_STATUS = Inr p"
proof -
  from assms obtain tn u gs where tn: "tenant_get_visible db (tk_tenant_id payload) = Inr tn" and u: "user_get db (tk_tenant_id payload) (tk_sub payload) = Inr u"
    and gs: "active_grants db clk (tk_tenant_id payload) (tk_sub payload) None = Inr gs"
    unfolding get_principal_def res_bind_Inr_iff map_sum_Inr_iff by blast
  show thesis
  proof (cases gs)
    case Nil
    with assms gs show ?thesis by (auto simp: get_principal_def res_simps)
  next
    case (Cons m gs')
    with assms tn u gs show ?thesis
      by (auto simp: get_principal_def res_bind_Inr_iff map_sum_Inr_iff simp del: grant_windows.simps intro: that)
  qed
qed

text \<open>C40. A request never carries more authority than its grants: the scopes of the principal the token yields are among the scopes fresh authorization
  reads for it at that instant, which exist (no role is missing), provided grant ids carry no surrounding white space.\<close>

theorem principal_scopes_are_fresh:
  assumes "\<forall>g\<in>set (id_grants db). py_strip (ug_id g) = ug_id g" and "get_principal db clk clk' payload q ct cu = Inr p"
  shows "\<exists>S. scopes_for db clk (pr_tenant_id p) (pr_user_id p) (pr_membership_id p) = Inr S \<and> pr_scopes p \<subseteq> S"
proof -
  let ?t = "tk_tenant_id payload" and ?u = "tk_sub payload"
  from assms(2) obtain tn u m gs ws version sid rid c1 c2 where tn: "tenant_get_visible db ?t = Inr tn" and u: "user_get db ?t ?u = Inr u"
    and gs: "active_grants db clk ?t ?u None = Inr (m # gs)" and ws: "grant_windows db ?t (m # gs) = Inr ws"
    and p: "resolve_principal (Some (tenant_entity tn)) (Some (user_entity u)) (Some (membership_entity m)) (map fst ws)
       (sorted_list_of_set (\<Union>w\<in>set ws. rg_scopes (snd w))) (map snd ws) version sid rid None c1 c2 None ACTIVE_STATUS = Inr p"
    by (rule get_principal_Inr) (rule that)
  have m: "member_grant db clk ?t ?u m" using active_grants_Inr(1) [OF gs] by auto
  have ids: "pr_tenant_id p = py_strip ?t" "pr_user_id p = py_strip ?u" "pr_membership_id p = ug_id m"
    using stringified_membership [OF p] m assms(1) by (simp_all add: member_grant_def)
  obtain S where S: "union_scopes db ?t (m # gs) = Inr S" "\<forall>w\<in>set ws. py_strip ` {a \<in> rg_scopes (snd w). py_strip a \<noteq> []} \<subseteq> S"
    using grant_windows_scopes [OF ws] by blast
  have idm: "py_strip (ug_id m) = ug_id m" using m assms(1) by (simp add: member_grant_def)
  have "pr_membership_id p \<noteq> []" using stringified_membership [OF p] by blast
  then have "selected_grants db clk ?t ?u (ug_id m) = Inr (m # gs)"
    using gs idm by (simp add: selected_grants_def require_text_def ids(3))
  then have "selected_grants db clk (py_strip ?t) (py_strip ?u) (ug_id m) = Inr (m # gs)"
    using selected_grants_strip [of db clk ?t ?u "ug_id m"] idm by simp
  then have "scopes_for db clk (pr_tenant_id p) (pr_user_id p) (pr_membership_id p) = Inr S"
    using S(1) by (simp add: scopes_for_def ids union_scopes_strip del: union_scopes.simps)
  moreover have "pr_scopes p \<subseteq> S"
  proof
    fix s assume s: "s \<in> pr_scopes p"
    note r = resolve_principal_scopes [OF p s]
    then obtain w where w: "w \<in> set ws" "s \<in> rg_scopes (snd w)" by auto
    have "finite (\<Union>w\<in>set ws. rg_scopes (snd w))" using grant_windows_finite [OF ws] by auto
    then have "sorted_list_of_set (\<Union>w\<in>set ws. rg_scopes (snd w)) \<noteq> []" using w by (auto simp: sorted_list_of_set_eq_Nil_iff)
    with r have "py_strip s = s" "s \<noteq> []" by simp_all
    then have "s \<in> py_strip ` {a \<in> rg_scopes (snd w). py_strip a \<noteq> []}" using w(2) by (auto intro!: image_eqI [of s _ s])
    with S(2) w(1) show "s \<in> S" by blast
  qed
  ultimately show ?thesis by blast
qed

section \<open>Witnesses\<close>

definition sample_grant :: "ident \<Rightarrow> ident \<Rightarrow> user_role_grant" where
  "sample_grant i role_id = \<lparr>ug_id = i, ug_tenant_id = ''t1'', ug_user_id = ''u1'', ug_role_id = role_id, ug_scope = ''tenant'', ug_valid_from = 0,
     ug_expires_at = None, ug_granted_by = None, ug_revoked_at = None, ug_revoked_by = None, ug_revocation_reason = None, ug_version = 1,
     ug_created_at = 0, ug_updated_at = 0\<rparr>"

definition sample_role :: "ident \<Rightarrow> string list \<Rightarrow> role" where
  "sample_role i actions = \<lparr>ro_id = i, ro_tenant_id = Some ''t1'', ro_code = i, ro_name = i, ro_description = [], ro_actions = actions, ro_version = 1,
     ro_created_at = 0, ro_updated_at = 0\<rparr>"

definition sample_ids :: identity_db where
  "sample_ids = \<lparr>id_tenants = [\<lparr>te_id = ''t1'', te_code = ''acme'', te_name = ''Acme'', te_status = ''active'', te_resource_policy_id = None,
        te_created_at = 0, te_updated_at = 0\<rparr>], id_departments = [],
     id_users = [\<lparr>us_id = ''u1'', us_tenant_id = Some ''t1'', us_external_subject = None, us_username = ''ann'', us_email = ''a@x'', us_password_hash = ''h'',
        us_display_name = ''Ann'', us_department_id = None, us_status = ''active'', us_version = 1, us_created_at = 0, us_updated_at = 0\<rparr>],
     id_roles = [sample_role ''r1'' [''admin'', ''read''], sample_role ''r2'' [''edit'']],
     id_grants = [sample_grant ''m1'' ''r1'', sample_grant ''m2'' ''r2'']\<rparr>"

definition sample_ref :: resource_ref where
  "sample_ref = \<lparr>rr_kind = ''tenant'', rr_id = ''t1'', rr_tenant_id = Some ''t1'', rr_attributes = []\<rparr>"

lemma sample_allowed: "map_sum id dc_allowed (uow_authorize_fresh sample_ids (\<lambda>_. []) 10 10 sample_principal ''edit'' sample_ref) = Inr True"
  by code_simp

theorem fresh_decisions_are_current_witness:
  "\<exists>g. member_grant sample_ids 10 (pr_tenant_id sample_principal) (pr_user_id sample_principal) g \<and> gives sample_ids (pr_tenant_id sample_principal) g ''edit''"
proof -
  obtain d where "uow_authorize_fresh sample_ids (\<lambda>_. []) 10 10 sample_principal ''edit'' sample_ref = Inr d" "dc_allowed d"
    using sample_allowed by (cases "uow_authorize_fresh sample_ids (\<lambda>_. []) 10 10 sample_principal ''edit'' sample_ref") auto
  from fresh_decisions_are_current [OF this] show ?thesis by blast
qed

lemma sample_revoked: "map_sum id (ug_revoked_at \<circ> snd) (grant_revoke sample_ids 5 ''t1'' ''m1'' ''root'' None 1) = Inr (Some 5)"
  by code_simp

theorem revoked_membership_is_refused_witness:
  "\<exists>db' g. grant_revoke sample_ids 5 ''t1'' (pr_membership_id sample_principal) ''root'' None 1 = Inr (db', g) \<and>
     \<not> (\<exists>d. uow_authorize_fresh db' (\<lambda>_. []) 10 10 sample_principal ''edit'' sample_ref = Inr d \<and> dc_allowed d)"
proof -
  have m: "pr_membership_id sample_principal = ''m1''" by (simp add: sample_principal_def)
  obtain db' g where r: "grant_revoke sample_ids 5 ''t1'' (pr_membership_id sample_principal) ''root'' None 1 = Inr (db', g)"
    using sample_revoked unfolding m by (cases "grant_revoke sample_ids 5 ''t1'' ''m1'' ''root'' None 1") auto
  have "keys_distinct ug_id (id_grants sample_ids)" by code_simp
  from revoked_membership_is_refused [OF this r] r show ?thesis by blast
qed

definition sample_payload :: token_payload where
  "sample_payload = \<lparr>tk_tenant_id = ''t1'', tk_sub = ''u1'', tk_session_id = None, tk_jti = Some ''j''\<rparr>"

lemma sample_principal_read: "map_sum id pr_scopes (get_principal sample_ids 10 10 sample_payload (Some ''q'') None None) = Inr {''admin'', ''read'', ''edit''}"
  by code_simp

theorem principal_scopes_are_fresh_witness:
  "\<exists>p S. get_principal sample_ids 10 10 sample_payload (Some ''q'') None None = Inr p \<and> ''edit'' \<in> pr_scopes p \<and>
     scopes_for sample_ids 10 (pr_tenant_id p) (pr_user_id p) (pr_membership_id p) = Inr S \<and> pr_scopes p \<subseteq> S"
proof -
  obtain p where p: "get_principal sample_ids 10 10 sample_payload (Some ''q'') None None = Inr p" "pr_scopes p = {''admin'', ''read'', ''edit''}"
    using sample_principal_read by (cases "get_principal sample_ids 10 10 sample_payload (Some ''q'') None None") auto
  have "\<forall>g\<in>set (id_grants sample_ids). py_strip (ug_id g) = ug_id g" by code_simp
  from principal_scopes_are_fresh [OF this p(1)] p show ?thesis by blast
qed

section \<open>What the code does not do\<close>

text \<open>A grant row stays when it is revoked or has expired, and the role of that row cannot be granted to the member again: the insert violates the
  unique constraint of the table.\<close>

lemma revoked_role_cannot_be_granted_again:
  assumes "g \<in> set (id_grants db)"
  shows "\<not> (\<exists>q. grant_create db now nid (ug_tenant_id g) (ug_user_id g) (ug_role_id g) (ug_scope g) f e who = Inr q \<and>
    py_strip (ug_tenant_id g) = ug_tenant_id g \<and> py_strip (ug_user_id g) = ug_user_id g \<and> py_strip (ug_role_id g) = ug_role_id g \<and>
    py_strip (ug_scope g) = ug_scope g)"
  using assms by (auto simp: grant_create_def grant_insert_def require_tenant_def require_text_def list_ex_iff res_simps Let_def split: if_splits)

text \<open>The authorization version, a sum of row versions, can be the same for different grants in force.\<close>

lemma version_sum_is_ambiguous:
  "\<exists>db1 g1 db2 g2. grant_revoke sample_ids 5 ''t1'' ''m2'' ''root'' None 1 = Inr (db1, g1) \<and>
     grant_create db1 6 ''m3'' ''t1'' ''u1'' ''r2'' ''approve'' None None None = Inr (db2, g2) \<and>
     authorization_version_for db2 10 ''t1'' ''u1'' ''m1'' = authorization_version_for sample_ids 10 ''t1'' ''u1'' ''m1'' \<and>
     scopes_for db2 10 ''t1'' ''u1'' ''m1'' \<noteq> scopes_for sample_ids 10 ''t1'' ''u1'' ''m1''"
proof -
  define r1 where "r1 = grant_revoke sample_ids 5 ''t1'' ''m2'' ''root'' None 1"
  define r2 where "r2 = res_bind r1 (\<lambda>(db1, _). grant_create db1 6 ''m3'' ''t1'' ''u1'' ''r2'' ''approve'' None None None)"
  have v: "res_bind r2 (\<lambda>(db2, _). authorization_version_for db2 10 ''t1'' ''u1'' ''m1'') = authorization_version_for sample_ids 10 ''t1'' ''u1'' ''m1''"
    and ok: "\<not> isl r2"
    and old: "map_sum id (\<lambda>S. ''approve'' \<in> S) (scopes_for sample_ids 10 ''t1'' ''u1'' ''m1'') = Inr False"
    and new: "map_sum id (\<lambda>S. ''approve'' \<in> S) (res_bind r2 (\<lambda>(db2, _). scopes_for db2 10 ''t1'' ''u1'' ''m1'')) = Inr True"
    unfolding r1_def r2_def by code_simp+
  from ok obtain db2 g2 where r2: "r2 = Inr (db2, g2)" by (cases r2) auto
  from r2 obtain db1 g1 where r1: "r1 = Inr (db1, g1)" by (cases r1) (auto simp: r2_def)
  have c: "grant_create db1 6 ''m3'' ''t1'' ''u1'' ''r2'' ''approve'' None None None = Inr (db2, g2)" using r2 by (simp add: r2_def r1)
  have "scopes_for db2 10 ''t1'' ''u1'' ''m1'' \<noteq> scopes_for sample_ids 10 ''t1'' ''u1'' ''m1''" using old new unfolding r2 by fastforce
  with r1 c v show ?thesis unfolding r1_def r2 by auto
qed

end
