(* ===== verification/Admin_Service.thy ===== *)
theory Admin_Service
  imports Fresh_Authorization Audit_Events
begin

text \<open>
  Roles and grants in the administration (\<open>services/admin_service.py\<close>). Every call opens one unit of work over the tenant's rows and the audit table
  (\<open>admin_db\<close>), authorizes freshly and ends in one commit; the first component of a result is what is committed, so a call that raises before its commit
  returns the old rows. The catalogue, the instants and the ids of the rows it writes are arguments, \<open>isoformat\<close> too.
\<close>

record admin_db =
  ad_ids :: identity_db
  ad_audit :: "audit_event list"

datatype admin_error = Admin_fresh fresh_error | Admin_error string string

abbreviation admin_repo :: "repo_error + 'a \<Rightarrow> admin_error + 'a" where
  "admin_repo \<equiv> map_sum (\<lambda>e. Admin_fresh (Fresh_repo e)) id"

definition PAGE_LIMIT_MAX :: int where "PAGE_LIMIT_MAX = 100"

definition admin_page :: "int \<Rightarrow> int \<Rightarrow> int \<times> int" where
  "admin_page limit offset = (max 1 (min limit PAGE_LIMIT_MAX), max 0 offset)"

text \<open>The arguments every call has beside its own: clock, ids for the audit row, catalogue.\<close>

record admin_ctx =
  cx_now :: instant
  cx_row_id :: ident
  cx_event_id :: ident
  cx_rows :: catalog_rows

definition admin_audit :: "admin_ctx \<Rightarrow> request_principal \<Rightarrow> string \<Rightarrow> string \<Rightarrow> string \<Rightarrow> string option \<Rightarrow> string option \<Rightarrow> (string \<times> json) list
    \<Rightarrow> admin_db \<Rightarrow> admin_error + admin_db" where
  "admin_audit cx p action outcome resource_kind resource_id reason_code metadata db =
     (case append_audit (ad_audit db) \<lparr>au_id = cx_row_id cx, au_event_id = cx_event_id cx, au_tenant_id = pr_tenant_id p, au_run_id = None,
        au_request_id = Some (pr_request_id p), au_trace_id = None, au_actor_ref = pr_user_id p,
        au_authorization_version = (if pr_authorization_version p = 0 then 1 else pr_authorization_version p), au_action = action,
        au_resource_kind = resource_kind, au_resource_id = resource_id, au_outcome = outcome, au_reason_code = reason_code,
        au_redacted_metadata = metadata, au_occurred_at = cx_now cx\<rparr> of
        (t, Inl e) \<Rightarrow> admin_repo (Inl e)
      | (t, Inr _) \<Rightarrow> Inr (db\<lparr>ad_audit := t\<rparr>))"

text \<open>A denial is recorded and committed before it is raised.\<close>

definition authorize_or_audit_denial :: "admin_ctx \<Rightarrow> request_principal \<Rightarrow> string \<Rightarrow> string \<Rightarrow> string \<Rightarrow> string option \<Rightarrow> admin_db
    \<Rightarrow> admin_db \<times> (admin_error + unit)" where
  "authorize_or_audit_denial cx p action audit_action resource_kind resource_id db =
     (case uow_authorize_fresh (ad_ids db) (cx_rows cx) (cx_now cx) (cx_now cx) p action
         \<lparr>rr_kind = resource_kind, rr_id = (case resource_id of None \<Rightarrow> pr_tenant_id p | Some i \<Rightarrow> if i = [] then pr_tenant_id p else i),
          rr_tenant_id = Some (pr_tenant_id p), rr_attributes = []\<rparr> of
        Inl e \<Rightarrow> (db, Inl (Admin_fresh e))
      | Inr d \<Rightarrow>
          if dc_allowed d then (db, Inr ())
          else (case admin_audit cx p audit_action ''denied'' resource_kind resource_id (dc_code d) [(''required_action'', JStr action)] db of
              Inl e \<Rightarrow> (db, Inl e)
            | Inr db' \<Rightarrow> (db', map_sum (\<lambda>e. Admin_fresh (Fresh_auth e)) id (decision_raise_for_denial d))))"

text \<open>The frame of every call: the tenant context, the authorization, then the call itself.\<close>

definition as_admin :: "admin_ctx \<Rightarrow> request_principal \<Rightarrow> string \<Rightarrow> (admin_db \<Rightarrow> admin_db \<times> (admin_error + 'a)) \<Rightarrow> admin_db \<Rightarrow> admin_db \<times> (admin_error + 'a)" where
  "as_admin cx p audit_action body db =
     (case require_tenant (pr_tenant_id p) ''set_tenant_context'' of
        Inl e \<Rightarrow> (db, admin_repo (Inl e))
      | Inr _ \<Rightarrow> (case authorize_or_audit_denial cx p ''admin'' audit_action ''tenant'' None db of
            (db', Inl e) \<Rightarrow> (db', Inl e)
          | (db', Inr _) \<Rightarrow> body db'))"

text \<open>A body that audits at its end and commits: if the audit fails nothing is committed.\<close>

definition audited :: "admin_ctx \<Rightarrow> request_principal \<Rightarrow> string \<Rightarrow> string \<Rightarrow> string \<Rightarrow> string option \<Rightarrow> string option \<Rightarrow> (string \<times> json) list
    \<Rightarrow> (admin_error + 'a) \<Rightarrow> admin_db \<Rightarrow> admin_db \<Rightarrow> admin_db \<times> (admin_error + 'a)" where
  "audited cx p action outcome kind i reason metadata result old db =
     (case admin_audit cx p action outcome kind i reason metadata db of Inl e \<Rightarrow> (old, Inl e) | Inr db' \<Rightarrow> (db', result))"

section \<open>Reading\<close>

record role_view =
  rv_role_id :: ident
  rv_code :: string
  rv_name :: string
  rv_description :: string
  rv_actions :: "string list"
  rv_active_grants :: int
  rv_version :: int

text \<open>\<open>active_grants\<close> counts the grants that were not revoked, whatever their window.\<close>

definition role_view_of :: "user_role_grant list \<Rightarrow> string \<Rightarrow> role \<Rightarrow> role_view" where
  "role_view_of gs tenant r = \<lparr>rv_role_id = ro_id r, rv_code = ro_code r, rv_name = ro_name r, rv_description = ro_description r, rv_actions = ro_actions r,
     rv_active_grants = int (length (filter (\<lambda>g. ug_tenant_id g = tenant \<and> ug_revoked_at g = None \<and> ug_role_id g = ro_id r) gs)), rv_version = ro_version r\<rparr>"

definition admin_list_roles :: "admin_ctx \<Rightarrow> request_principal \<Rightarrow> admin_db \<Rightarrow> admin_db \<times> (admin_error + role_view list)" where
  "admin_list_roles cx p = as_admin cx p ''admin.role.list'' (\<lambda>db.
     case role_list_for_tenant (ad_ids db) (pr_tenant_id p) of
       Inl e \<Rightarrow> (db, admin_repo (Inl e))
     | Inr roles \<Rightarrow>
         (let items = map (role_view_of (id_grants (ad_ids db)) (pr_tenant_id p)) (sort_key ro_code roles) in
          audited cx p ''admin.role.list'' ''allowed'' ''role'' None None [(''returned'', JInt (int (length items)))] (Inr items) db db))"

record grant_view =
  gv_grant_id :: ident
  gv_user_id :: ident
  gv_role_id :: ident
  gv_scope :: string
  gv_valid_from :: string
  gv_expires_at :: "string option"
  gv_revoked_at :: "string option"
  gv_revocation_reason :: "string option"
  gv_version :: int

definition grant_view_of :: "(instant \<Rightarrow> string) \<Rightarrow> user_role_grant \<Rightarrow> grant_view" where
  "grant_view_of isoformat g = \<lparr>gv_grant_id = ug_id g, gv_user_id = ug_user_id g, gv_role_id = ug_role_id g, gv_scope = ug_scope g,
     gv_valid_from = isoformat (ug_valid_from g), gv_expires_at = map_option isoformat (ug_expires_at g), gv_revoked_at = map_option isoformat (ug_revoked_at g),
     gv_revocation_reason = ug_revocation_reason g, gv_version = ug_version g\<rparr>"

text \<open>The page of views, the total, and the window that was applied.\<close>

definition admin_list_grants :: "(instant \<Rightarrow> string) \<Rightarrow> admin_ctx \<Rightarrow> request_principal \<Rightarrow> int \<Rightarrow> int \<Rightarrow> string option \<Rightarrow> admin_db
    \<Rightarrow> admin_db \<times> (admin_error + grant_view list \<times> int \<times> int \<times> int)" where
  "admin_list_grants isoformat cx p limit offset member_id =
     (let (bounded_limit, bounded_offset) = admin_page limit offset in
      as_admin cx p ''admin.grant.list'' (\<lambda>db.
        let rows = filter (\<lambda>g. ug_tenant_id g = pr_tenant_id p \<and> (case member_id of None \<Rightarrow> True | Some m \<Rightarrow> m = [] \<or> ug_user_id g = m)) (id_grants (ad_ids db));
            items = map (grant_view_of isoformat) (take (nat bounded_limit) (drop (nat bounded_offset) (sort_key (\<lambda>g. (- ug_created_at g, ug_id g)) rows)))
        in audited cx p ''admin.grant.list'' ''allowed'' ''user_role_grant'' None None
             [(''returned'', JInt (int (length items))), (''offset'', JInt bounded_offset)]
             (Inr (items, int (length rows), bounded_limit, bounded_offset)) db db))"

section \<open>Granting and revoking\<close>

definition find_role :: "identity_db \<Rightarrow> string \<Rightarrow> string option \<Rightarrow> string option \<Rightarrow> repo_error + role option" where
  "find_role ids tenant role_id role_code =
     (if role_id \<noteq> None \<and> role_id \<noteq> Some [] then map_sum id Some (role_get ids tenant (the role_id))
      else if role_code \<noteq> None \<and> role_code \<noteq> Some [] then map_sum id Some (role_get_by_code ids tenant (the role_code))
      else Inr None)"

text \<open>A grant of the role that is in force already is returned as it is; otherwise a new row is written.\<close>

definition add_grant :: "(instant \<Rightarrow> string) \<Rightarrow> admin_ctx \<Rightarrow> request_principal \<Rightarrow> ident \<Rightarrow> string \<Rightarrow> instant option \<Rightarrow> instant option \<Rightarrow> role
    \<Rightarrow> admin_db \<Rightarrow> admin_db \<times> (admin_error + grant_view \<times> bool)" where
  "add_grant isoformat cx p nid user_id valid_from expires_at r db =
     (case active_grants (ad_ids db) (cx_now cx) (pr_tenant_id p) user_id None of
        Inl e \<Rightarrow> (db, admin_repo (Inl e))
      | Inr existing \<Rightarrow>
          (case find (\<lambda>g. ug_role_id g = ro_id r) existing of
             Some g \<Rightarrow> (db, Inr (grant_view_of isoformat g, False))
           | None \<Rightarrow>
               (case grant_create (ad_ids db) (cx_now cx) nid (pr_tenant_id p) user_id (ro_id r) ''tenant'' valid_from expires_at (Some (pr_user_id p)) of
                  Inl e \<Rightarrow> (db, admin_repo (Inl e))
                | Inr (ids, g) \<Rightarrow>
                    audited cx p ''admin.grant.create'' ''allowed'' ''user_role_grant'' (Some (ug_id g)) None
                      [(''role_code'', JStr (ro_code r)), (''target_user_id'', JStr user_id),
                       (''expires_at'', case ug_expires_at g of None \<Rightarrow> JNull | Some x \<Rightarrow> JStr (isoformat x))]
                      (Inr (grant_view_of isoformat g, True)) db (db\<lparr>ad_ids := ids\<rparr>))))"

text \<open>The branch for a member that is not there is left out: \<open>users.get\<close> raises and never returns nothing.\<close>

definition grant_role :: "(instant \<Rightarrow> string) \<Rightarrow> admin_ctx \<Rightarrow> request_principal \<Rightarrow> ident \<Rightarrow> string \<Rightarrow> instant option \<Rightarrow> instant option \<Rightarrow> role
    \<Rightarrow> admin_db \<Rightarrow> admin_db \<times> (admin_error + grant_view \<times> bool)" where
  "grant_role isoformat cx p nid user_id valid_from expires_at r db =
     (case user_get (ad_ids db) (pr_tenant_id p) user_id of
        Inl e \<Rightarrow> (db, admin_repo (Inl e))
      | Inr _ \<Rightarrow>
          (let missing = sort (remdups (filter (\<lambda>a. a \<notin> pr_scopes p) (ro_actions r))) in
           if missing \<noteq> [] then
             audited cx p ''admin.grant.create'' ''denied'' ''role'' (Some (ro_id r)) (Some ''AUTH_FORBIDDEN'')
               [(''reason'', JStr ''grant_exceeds_operator_scopes''), (''missing_scopes'', JArr (map JStr missing))]
               (Inl (Admin_error ''AUTH_FORBIDDEN'' ''cannot grant actions the operator does not hold'')) db db
           else add_grant isoformat cx p nid user_id valid_from expires_at r db))"

definition admin_create_grant :: "(instant \<Rightarrow> string) \<Rightarrow> admin_ctx \<Rightarrow> request_principal \<Rightarrow> ident \<Rightarrow> string \<Rightarrow> string option \<Rightarrow> string option \<Rightarrow> instant option
    \<Rightarrow> instant option \<Rightarrow> admin_db \<Rightarrow> admin_db \<times> (admin_error + grant_view \<times> bool)" where
  "admin_create_grant isoformat cx p nid user_id role_id role_code valid_from expires_at = as_admin cx p ''admin.grant.create'' (\<lambda>db.
     case find_role (ad_ids db) (pr_tenant_id p) role_id role_code of
       Inl e \<Rightarrow> (db, admin_repo (Inl e))
     | Inr None \<Rightarrow>
         audited cx p ''admin.grant.create'' ''denied'' ''role'' None (Some ''RESOURCE_NOT_FOUND'') [(''reason'', JStr ''role_not_in_tenant'')]
           (Inl (Admin_error ''RESOURCE_NOT_FOUND'' ''no such role in this tenant'')) db db
     | Inr (Some r) \<Rightarrow> grant_role isoformat cx p nid user_id valid_from expires_at r db)"

definition admin_revoke_grant :: "(instant \<Rightarrow> string) \<Rightarrow> admin_ctx \<Rightarrow> request_principal \<Rightarrow> string \<Rightarrow> string option \<Rightarrow> admin_db
    \<Rightarrow> admin_db \<times> (admin_error + grant_view \<times> bool)" where
  "admin_revoke_grant isoformat cx p grant_id reason = as_admin cx p ''admin.grant.revoke'' (\<lambda>db.
     case grant_get (ad_ids db) (pr_tenant_id p) grant_id of
       Inl e \<Rightarrow> (db, admin_repo (Inl e))
     | Inr g \<Rightarrow>
         if ug_revoked_at g \<noteq> None then (db, Inr (grant_view_of isoformat g, False))
         else (case grant_revoke (ad_ids db) (cx_now cx) (pr_tenant_id p) (ug_id g) (pr_user_id p) reason (ug_version g) of
             Inl e \<Rightarrow> (db, admin_repo (Inl e))
           | Inr (ids, g') \<Rightarrow>
               audited cx p ''admin.grant.revoke'' ''allowed'' ''user_role_grant'' (Some (ug_id g)) None
                 [(''reason'', JStr (case reason of None \<Rightarrow> [] | Some x \<Rightarrow> x))] (Inr (grant_view_of isoformat g', True)) db (db\<lparr>ad_ids := ids\<rparr>)))"

end
