(* ===== verification/Admin_Safety.thy ===== *)
theory Admin_Safety
  imports Admin_Service Fresh_Safety
begin

text \<open>
  What the administration of grants guarantees: only an operator with a current \<open>admin\<close> grant changes them, a change and its audit row are committed together,
  and a role is handed out only if the operator carries all its actions.
\<close>

definition fresh_ids :: "admin_ctx \<Rightarrow> admin_db \<Rightarrow> bool" where
  "fresh_ids cx db \<longleftrightarrow> py_strip (cx_event_id cx) \<noteq> [] \<and> (\<forall>a\<in>set (ad_audit db). au_event_id a \<noteq> py_strip (cx_event_id cx) \<and> au_id a \<noteq> cx_row_id cx)"

text \<open>The row an audit appends.\<close>

definition audit_row :: "request_principal \<Rightarrow> string \<Rightarrow> string \<Rightarrow> string option \<Rightarrow> audit_event \<Rightarrow> bool" where
  "audit_row p action outcome i a \<longleftrightarrow> au_tenant_id a = py_strip (pr_tenant_id p) \<and> au_actor_ref a = py_strip (pr_user_id p) \<and> au_action a = py_strip action \<and>
     au_outcome a = py_strip outcome \<and> au_resource_id a = i"

lemma admin_audit_Inr:
  assumes "admin_audit cx p action outcome kind i reason m db = Inr db'" and "fresh_ids cx db"
  shows "ad_ids db' = ad_ids db \<and> (\<exists>a. ad_audit db' = ad_audit db @ [a] \<and> audit_row p action outcome i a)"
proof -
  have "find_by_event_id (ad_audit db) tn (py_strip (cx_event_id cx)) = None" for tn
    using assms(2) by (auto simp: find_by_event_id_def fresh_ids_def find_None_iff)
  moreover have "\<not> list_ex (\<lambda>x. au_event_id x = py_strip (cx_event_id cx) \<or> au_id x = cx_row_id cx) (ad_audit db)"
    using assms(2) by (auto simp: fresh_ids_def list_ex_iff)
  ultimately show ?thesis
    using assms(1) by (auto simp: admin_audit_def append_audit_def require_tenant_def require_text_def audit_row_def Let_def split: if_splits)
qed

lemma audited_cases:
  assumes "audited cx p action outcome kind i reason m result old db = (db', r)" and "fresh_ids cx db"
  obtains "db' = old" "isl r"
  | a where "ad_ids db' = ad_ids db" "ad_audit db' = ad_audit db @ [a]" "audit_row p action outcome i a" "r = result"
proof (cases "admin_audit cx p action outcome kind i reason m db")
  case (Inl e)
  with assms(1) that(1) show ?thesis by (auto simp: audited_def)
next
  case (Inr db1)
  from admin_audit_Inr [OF Inr assms(2)] obtain a where "ad_ids db1 = ad_ids db" "ad_audit db1 = ad_audit db @ [a]" "audit_row p action outcome i a" by blast
  moreover have "db' = db1" "r = result" using assms(1) Inr by (simp_all add: audited_def)
  ultimately show ?thesis using that(2) by simp
qed

lemma as_admin_cases:
  assumes "as_admin cx p act body db = (db', r)"
  obtains "ad_ids db' = ad_ids db" "isl r"
  | rs d where "uow_authorize_fresh (ad_ids db) (cx_rows cx) (cx_now cx) (cx_now cx) p ''admin'' rs = Inr d" "dc_allowed d" "body db = (db', r)"
proof (cases "authorize_or_audit_denial cx p ''admin'' act ''tenant'' None db")
  case (Pair db1 r1)
  have ids: "ad_ids db1 = ad_ids db"
    using Pair by (auto simp: authorize_or_audit_denial_def admin_audit_def split: sum.splits if_splits prod.splits)
  show ?thesis
  proof (cases "isl r1 \<or> py_strip (pr_tenant_id p) = []")
    case True
    with assms Pair ids show ?thesis by (auto simp: as_admin_def require_tenant_def split: if_splits sum.splits intro: that(1))
  next
    case False
    let ?ref = "\<lparr>rr_kind = ''tenant'', rr_id = pr_tenant_id p, rr_tenant_id = Some (pr_tenant_id p), rr_attributes = []\<rparr>"
    let ?fresh = "uow_authorize_fresh (ad_ids db) (cx_rows cx) (cx_now cx) (cx_now cx) p ''admin'' ?ref"
    obtain d where d: "?fresh = Inr d" using Pair False by (cases ?fresh) (auto simp: authorize_or_audit_denial_def)
    have ok: "dc_allowed d"
    proof (rule ccontr)
      assume n: "\<not> dc_allowed d"
      have "isl r1" using Pair d n
        by (cases "admin_audit cx p act ''denied'' ''tenant'' None (dc_code d) [(''required_action'', JStr ''admin'')] db")
           (simp_all add: authorize_or_audit_denial_def decision_raise_for_denial_def isl_def, auto)
      with False show False by simp
    qed
    have "db1 = db" "r1 = Inr ()" using Pair d ok by (simp_all add: authorize_or_audit_denial_def)
    then have "body db = (db', r)" using assms Pair False by (simp add: as_admin_def require_tenant_def)
    with d ok show ?thesis by (rule that(2))
  qed
qed

text \<open>The operator's \<open>admin\<close> scope is given by a grant in force.\<close>

definition is_admin_now :: "identity_db \<Rightarrow> instant \<Rightarrow> request_principal \<Rightarrow> bool" where
  "is_admin_now ids clk p \<longleftrightarrow> (\<exists>g. member_grant ids clk (pr_tenant_id p) (pr_user_id p) g \<and> ug_id g = py_strip (pr_membership_id p)) \<and>
     (\<exists>g. member_grant ids clk (pr_tenant_id p) (pr_user_id p) g \<and> gives ids (pr_tenant_id p) g ''admin'')"

lemma allowed_is_admin:
  assumes "uow_authorize_fresh ids rows clk clk' p ''admin'' rs = Inr d" and "dc_allowed d"
  shows "is_admin_now ids clk p"
proof -
  obtain S where S: "scopes_for ids clk (pr_tenant_id p) (pr_user_id p) (pr_membership_id p) = Inr S" "''admin'' \<in> S"
    by (rule fresh_Inr [OF assms])
  show ?thesis using scopes_for_gives [OF S] by (simp add: is_admin_now_def)
qed

lemma grant_create_Inr:
  assumes "grant_create ids now nid tenant_id user_id role_id scope f e who = Inr (ids', g)"
  shows "ids' = ids\<lparr>id_grants := id_grants ids @ [g]\<rparr> \<and> ug_tenant_id g = py_strip tenant_id \<and> ug_user_id g = py_strip user_id \<and> ug_role_id g = py_strip role_id \<and>
    ug_revoked_at g = None"
  using assms by (auto simp: grant_create_def grant_insert_def require_tenant_def require_text_def res_simps Let_def split: if_splits)

lemma find_role_Inr:
  assumes "find_role ids tenant role_id role_code = Inr (Some r)"
  shows "r \<in> set (id_roles ids) \<and> ro_tenant_id r = Some (py_strip tenant)"
proof -
  have "r \<in> set (id_roles ids) \<and> ro_tenant_id r = Some (py_strip tenant)" if "role_get_by_code ids tenant c = Inr r" for c
    using that by (auto simp: role_get_by_code_def require_tenant_def require_text_def res_simps find_Some_iff split: if_splits)
  moreover have "r \<in> set (id_roles ids) \<and> ro_tenant_id r = Some (py_strip tenant)" if "role_get ids tenant i = Inr r" for i
    using role_get_Inr [OF that] by blast
  moreover have "x = Inr r" if "map_sum id Some x = Inr (Some r)" for x :: "repo_error + role" using that by (cases x) auto
  ultimately show ?thesis using assms unfolding find_role_def by (auto split: if_splits)
qed

lemma none_missing: "sort (remdups (filter (\<lambda>a. a \<notin> S) xs)) = [] \<Longrightarrow> set xs \<subseteq> S"
proof -
  assume "sort (remdups (filter (\<lambda>a. a \<notin> S) xs)) = []"
  then have "set (sort (remdups (filter (\<lambda>a. a \<notin> S) xs))) = {}" by simp
  then show ?thesis by auto
qed

lemma add_grant_adds:
  assumes "add_grant isof cx p nid user_id vf ex ro db = (db', r)" and "fresh_ids cx db"
  shows "ad_ids db' = ad_ids db \<or>
    (\<exists>g a. ad_ids db' = (ad_ids db)\<lparr>id_grants := id_grants (ad_ids db) @ [g]\<rparr> \<and> ug_tenant_id g = py_strip (pr_tenant_id p) \<and> ug_role_id g = py_strip (ro_id ro) \<and>
       ad_audit db' = ad_audit db @ [a] \<and> audit_row p ''admin.grant.create'' ''allowed'' (Some (ug_id g)) a)"
proof (cases "grant_create (ad_ids db) (cx_now cx) nid (pr_tenant_id p) user_id (ro_id ro) ''tenant'' vf ex (Some (pr_user_id p))")
  case (Inl e)
  with assms(1) show ?thesis by (auto simp: add_grant_def split: sum.splits option.splits)
next
  case (Inr q)
  obtain ids g where q: "q = (ids, g)" by (cases q)
  note gc = grant_create_Inr [OF Inr [unfolded q]]
  have f: "fresh_ids cx (db\<lparr>ad_ids := ids\<rparr>)" using assms(2) by (simp add: fresh_ids_def)
  from assms(1) consider "ad_ids db' = ad_ids db"
    | "audited cx p ''admin.grant.create'' ''allowed'' ''user_role_grant'' (Some (ug_id g)) None [(''role_code'', JStr (ro_code ro)), (''target_user_id'', JStr user_id),
        (''expires_at'', case ug_expires_at g of None \<Rightarrow> JNull | Some x \<Rightarrow> JStr (isof x))] (Inr (grant_view_of isof g, True)) db (db\<lparr>ad_ids := ids\<rparr>) = (db', r)"
    unfolding add_grant_def Inr q sum.case prod.case by (auto split: sum.splits option.splits)
  then show ?thesis
  proof cases
    case 2
    then show ?thesis using f gc by (cases rule: audited_cases) auto
  qed simp
qed

lemma grant_role_adds:
  assumes "grant_role isof cx p nid user_id vf ex ro db = (db', r)" and "fresh_ids cx db"
  shows "ad_ids db' = ad_ids db \<or>
    (\<exists>g a. ad_ids db' = (ad_ids db)\<lparr>id_grants := id_grants (ad_ids db) @ [g]\<rparr> \<and> ug_tenant_id g = py_strip (pr_tenant_id p) \<and> ug_role_id g = py_strip (ro_id ro) \<and>
       set (ro_actions ro) \<subseteq> pr_scopes p \<and> ad_audit db' = ad_audit db @ [a] \<and> audit_row p ''admin.grant.create'' ''allowed'' (Some (ug_id g)) a)"
proof (cases "user_get (ad_ids db) (pr_tenant_id p) user_id")
  case (Inl e)
  with assms(1) show ?thesis by (simp add: grant_role_def)
next
  case (Inr u)
  let ?missing = "sort (remdups (filter (\<lambda>a. a \<notin> pr_scopes p) (ro_actions ro)))"
  show ?thesis
  proof (cases "?missing = []")
    case True
    then have "set (ro_actions ro) \<subseteq> pr_scopes p" by (rule none_missing)
    moreover have "add_grant isof cx p nid user_id vf ex ro db = (db', r)" using assms(1) Inr True by (simp add: grant_role_def Let_def)
    ultimately show ?thesis using add_grant_adds [OF _ assms(2)] by blast
  next
    case False
    then have "audited cx p ''admin.grant.create'' ''denied'' ''role'' (Some (ro_id ro)) (Some ''AUTH_FORBIDDEN'')
        [(''reason'', JStr ''grant_exceeds_operator_scopes''), (''missing_scopes'', JArr (map JStr ?missing))]
        (Inl (Admin_error ''AUTH_FORBIDDEN'' ''cannot grant actions the operator does not hold'')) db db = (db', r)"
      using assms(1) Inr by (simp only: grant_role_def Let_def sum.case if_True not_False_eq_True)
    then show ?thesis using assms(2) by (cases rule: audited_cases) simp_all
  qed
qed

text \<open>C10. Handing out a role escalates nobody: whenever a call of the administration changes the tables, the operator's membership and its \<open>admin\<close> scope rest on
  grants in force, exactly one grant was added, in the operator's tenant and for a role of that tenant whose every action the operator's principal carries,
  and the audit row naming that grant was committed with it.\<close>

theorem grants_never_exceed_the_operator:
  assumes "admin_create_grant isof cx p nid user_id role_id role_code vf ex db = (db', r)" and "fresh_ids cx db"
  shows "ad_ids db' = ad_ids db \<or>
    is_admin_now (ad_ids db) (cx_now cx) p \<and>
    (\<exists>g ro a. ad_ids db' = (ad_ids db)\<lparr>id_grants := id_grants (ad_ids db) @ [g]\<rparr> \<and> ug_tenant_id g = py_strip (pr_tenant_id p) \<and> ug_role_id g = py_strip (ro_id ro) \<and>
       ro \<in> set (id_roles (ad_ids db)) \<and> ro_tenant_id ro = Some (py_strip (pr_tenant_id p)) \<and> set (ro_actions ro) \<subseteq> pr_scopes p \<and>
       ad_audit db' = ad_audit db @ [a] \<and> audit_row p ''admin.grant.create'' ''allowed'' (Some (ug_id g)) a)"
proof -
  let ?ids = "ad_ids db" and ?t = "pr_tenant_id p"
  from assms(1) [unfolded admin_create_grant_def] show ?thesis
  proof (cases rule: as_admin_cases)
    case (2 rs d)
    have adm: "is_admin_now ?ids (cx_now cx) p" by (rule allowed_is_admin [OF 2(1,2)])
    note body = 2(3)
    show ?thesis
    proof (cases "find_role ?ids ?t role_id role_code")
      case (Inl e) with body show ?thesis by simp
    next
      case (Inr x)
      show ?thesis
      proof (cases x)
        case None
        with body Inr have "audited cx p ''admin.grant.create'' ''denied'' ''role'' None (Some ''RESOURCE_NOT_FOUND'') [(''reason'', JStr ''role_not_in_tenant'')]
           (Inl (Admin_error ''RESOURCE_NOT_FOUND'' ''no such role in this tenant'')) db db = (db', r)" by simp
        then show ?thesis using assms(2) by (cases rule: audited_cases) simp_all
      next
        case (Some ro)
        with Inr have ro: "ro \<in> set (id_roles ?ids)" "ro_tenant_id ro = Some (py_strip ?t)" using find_role_Inr by blast+
        have "grant_role isof cx p nid user_id vf ex ro db = (db', r)" using body by (simp add: Inr Some)
        from grant_role_adds [OF this assms(2)] ro adm show ?thesis by blast
      qed
    qed
  qed simp
qed

section \<open>Witness, and what the code does not do\<close>

definition sample_admin_db :: "role list \<Rightarrow> admin_db" where
  "sample_admin_db roles = \<lparr>ad_ids = sample_ids\<lparr>id_roles := sample_role ''r1'' [''admin'', ''read''] # roles, id_grants := [sample_grant ''m1'' ''r1'']\<rparr>, ad_audit = []\<rparr>"

definition sample_ctx :: admin_ctx where
  "sample_ctx = \<lparr>cx_now = 10, cx_row_id = ''a1'', cx_event_id = ''e1'', cx_rows = (\<lambda>_. [])\<rparr>"

definition sample_operator :: "string set \<Rightarrow> request_principal" where
  "sample_operator S = sample_principal\<lparr>pr_scopes := S\<rparr>"

lemma sample_granted:
  "map_prod (\<lambda>db. length (id_grants (ad_ids db))) isl (admin_create_grant (\<lambda>_. []) sample_ctx (sample_operator {''admin'', ''edit''}) ''m2'' ''u1'' (Some ''r2'') None None None
     (sample_admin_db [sample_role ''r2'' [''edit'']])) = (2, False)"
  by code_simp

theorem grants_never_exceed_the_operator_witness:
  "\<exists>db' r g. admin_create_grant (\<lambda>_. []) sample_ctx (sample_operator {''admin'', ''edit''}) ''m2'' ''u1'' (Some ''r2'') None None None
     (sample_admin_db [sample_role ''r2'' [''edit'']]) = (db', r) \<and> id_grants (ad_ids db') = [sample_grant ''m1'' ''r1'', g]"
proof -
  let ?db = "sample_admin_db [sample_role ''r2'' [''edit'']]" and ?p = "sample_operator {''admin'', ''edit''}"
  obtain db' r where run: "admin_create_grant (\<lambda>_. []) sample_ctx ?p ''m2'' ''u1'' (Some ''r2'') None None None ?db = (db', r)" by fastforce
  have n: "length (id_grants (ad_ids db')) = 2" using sample_granted by (simp add: run)
  have "fresh_ids sample_ctx ?db" by code_simp
  from grants_never_exceed_the_operator [OF run this] n show ?thesis
    using run by (auto simp: sample_admin_db_def)
qed

text \<open>The scopes the guard compares with are those the principal was given when the request began: an operator whose cross-tenant scope has been withdrawn since,
  and who is still an administrator, can hand it out.\<close>

lemma withdrawn_scope_can_be_handed_out:
  "\<exists>db' v. admin_create_grant (\<lambda>_. []) sample_ctx (sample_operator {''admin'', CROSS_TENANT_SCOPE}) ''m2'' ''u1'' (Some ''r2'') None None None
       (sample_admin_db [sample_role ''r2'' [CROSS_TENANT_SCOPE]]) = (db', Inr (v, True)) \<and>
     map_sum id (\<lambda>S. CROSS_TENANT_SCOPE \<in> S) (scopes_for (ad_ids (sample_admin_db [sample_role ''r2'' [CROSS_TENANT_SCOPE]])) 10 ''t1'' ''u1'' ''m1'') = Inr False"
proof -
  let ?run = "admin_create_grant (\<lambda>_. []) sample_ctx (sample_operator {''admin'', CROSS_TENANT_SCOPE}) ''m2'' ''u1'' (Some ''r2'') None None None
       (sample_admin_db [sample_role ''r2'' [CROSS_TENANT_SCOPE]])"
  have a: "map_sum id snd (snd ?run) = Inr True" by code_simp
  have b: "map_sum id (\<lambda>S. CROSS_TENANT_SCOPE \<in> S) (scopes_for (ad_ids (sample_admin_db [sample_role ''r2'' [CROSS_TENANT_SCOPE]])) 10 ''t1'' ''u1'' ''m1'') = Inr False"
    by code_simp
  obtain db' q where q: "?run = (db', q)" by fastforce
  with a obtain v where "q = Inr (v, True)" by (cases q) auto
  with q b show ?thesis by blast
qed

text \<open>A refusal because the member or the role is not there leaves no audit row.\<close>

lemma missing_member_is_not_audited:
  assumes "find_role (ad_ids db) (pr_tenant_id p) role_id role_code = Inr (Some ro)" and "user_get (ad_ids db) (pr_tenant_id p) user_id = Inl e"
    and "authorize_or_audit_denial cx p ''admin'' ''admin.grant.create'' ''tenant'' None db = (db, Inr ())" and "py_strip (pr_tenant_id p) \<noteq> []"
  shows "admin_create_grant isof cx p nid user_id role_id role_code vf ex db = (db, Inl (Admin_fresh (Fresh_repo e)))"
  using assms by (simp add: admin_create_grant_def as_admin_def require_tenant_def grant_role_def)

text \<open>A revocation by the administration is audited with it, and made by an operator who is an administrator now.\<close>

lemma revocations_are_audited:
  assumes "admin_revoke_grant isof cx p gid reason db = (db', r)" and "fresh_ids cx db"
  shows "ad_ids db' = ad_ids db \<or> is_admin_now (ad_ids db) (cx_now cx) p \<and>
    (\<exists>g a. g \<in> set (id_grants (ad_ids db)) \<and> ug_tenant_id g = py_strip (pr_tenant_id p) \<and> ug_revoked_at g = None \<and>
       ad_audit db' = ad_audit db @ [a] \<and> audit_row p ''admin.grant.revoke'' ''allowed'' (Some (ug_id g)) a)"
  using assms(1) [unfolded admin_revoke_grant_def]
proof (cases rule: as_admin_cases)
  case (2 rs d)
  have adm: "is_admin_now (ad_ids db) (cx_now cx) p" by (rule allowed_is_admin [OF 2(1,2)])
  show ?thesis
  proof (cases "grant_get (ad_ids db) (pr_tenant_id p) gid")
    case (Inl e) with 2(3) show ?thesis by simp
  next
    case (Inr g)
    have g: "g \<in> set (id_grants (ad_ids db))" "ug_tenant_id g = py_strip (pr_tenant_id p)"
      using Inr by (auto simp: grant_get_def require_tenant_def require_text_def res_simps dest!: fetch_one_Inr split: if_splits)
    show ?thesis
    proof (cases "ug_revoked_at g = None \<and> \<not> isl (grant_revoke (ad_ids db) (cx_now cx) (pr_tenant_id p) (ug_id g) (pr_user_id p) reason (ug_version g))")
      case True
      then obtain ids g' where q: "grant_revoke (ad_ids db) (cx_now cx) (pr_tenant_id p) (ug_id g) (pr_user_id p) reason (ug_version g) = Inr (ids, g')"
        by (cases "grant_revoke (ad_ids db) (cx_now cx) (pr_tenant_id p) (ug_id g) (pr_user_id p) reason (ug_version g)") auto
      have f: "fresh_ids cx (db\<lparr>ad_ids := ids\<rparr>)" using assms(2) by (simp add: fresh_ids_def)
      from 2(3) Inr True q have "audited cx p ''admin.grant.revoke'' ''allowed'' ''user_role_grant'' (Some (ug_id g)) None
          [(''reason'', JStr (case reason of None \<Rightarrow> [] | Some x \<Rightarrow> x))] (Inr (grant_view_of isof g', True)) db (db\<lparr>ad_ids := ids\<rparr>) = (db', r)" by simp
      then show ?thesis using f g True adm by (cases rule: audited_cases) auto
    next
      case False
      with 2(3) Inr show ?thesis by (auto split: sum.splits if_splits)
    qed
  qed
qed simp

end
