(* ===== verification/Spec2Isabelle.thy ===== *)
theory Spec2Isabelle
  imports Prelude Canonical_Json Outbox Durable_Jobs Job_Invariants Job_Operations Job_Runner Py_Text Action_Digest Approvals Submission Submission_Safety
    Quota Quota_Safety Run_Vocabulary Run_Events Run_Events_Safety Authorization Runs_Api Sandbox_Validation Sandbox_Safety Sandbox_Processors Vector_Index Vector_Index_Safety Object_Store Material_Saga Material_Saga_Safety
    Reconciliation Reconciliation_Worker Reconciliation_Safety Evidence_Gates Plan_Executor Plan_Executor_Safety
    Repo_Core Identity_Repos Fresh_Authorization Fresh_Safety Audit_Events Admin_Service Admin_Safety
begin

text \<open>
  \<^bold>\<open>PolicyFlow AI: the transactional core of the backend.\<close>

  PolicyFlow AI (\<open>src/backend/app\<close>) answers policy questions and prepares changes to documents with
  language models. What it may do to the outside world is decided by the part modelled here: durable
  jobs that survive a crash, an outbox for their events, approvals bound to a digest of the action,
  a submission to an external system that happens at most once, quotas in front of the queue, the
  event stream of a run, the authorization of every action, the checks on what enters the sandbox, and
  the life of a material across the database, the object store and the vector index.

  \<^bold>\<open>The parts and how they interact.\<close> A caller is a principal derived from a membership (\<open>auth/principal.py\<close>)
  and may act as far as its scopes allow (\<open>auth/authorization.py\<close>). \<open>POST /runs\<close> (\<open>api/routes_runs.py\<close>) asks the
  admission gate (\<open>quota/admission.py\<close> over \<open>quota/coordinator.py\<close>), then enqueues a durable job
  (\<open>jobs/service.py\<close>); the transition and its outbox event are one transaction, and the publisher
  (\<open>jobs/publisher.py\<close>) relays the events to a transport. A worker (\<open>jobs/runner.py\<close>, \<open>jobs/consumer.py\<close>) leases a
  job, runs its handler and records the outcome, and publishes lifecycle events that the SSE endpoint
  (\<open>sse/endpoint.py\<close>) replays from a bounded Redis stream (\<open>sse/stream.py\<close>) or, after a gap, from the durable
  milestones (\<open>sse/snapshot.py\<close>, \<open>RunEventRepository\<close>). A reviewer decides an approval of a change set
  (\<open>approvals/service.py\<close>) over its digest (\<open>approvals/digest.py\<close>), and \<open>approvals/submission.py\<close> consumes the approval.
  A material is uploaded, verified, scanned, indexed and deleted by the saga (\<open>storage/saga.py\<close>), one durable step per call, over
  the object store (\<open>storage/object_store.py\<close>) and the vector index (\<open>retrieval/indexer.py\<close> over \<open>retrieval/milvus.py\<close>), and every step emits an
  outbox event. The reconciler (\<open>storage/reconciliation.py\<close>) sweeps a tenant's rows against the two other stores, records what differs and repairs
  what it may; its worker (\<open>jobs/reconciliation_worker.py\<close>) sweeps every tenant, confirms repairs and appends audit rows (\<open>AuditEventRepository\<close>).
  An agent run executes its plan in waves (\<open>agents/plan_executor.py\<close>) and passes what it found through the evidence gates
  (\<open>graph/evidence_gate.py\<close>, \<open>graph/grounding.py\<close>, \<open>retrieval/evidence_gate.py\<close>). Files and archives that reach the sandbox pass \<open>sandbox/validation.py\<close>; what may run there is registered in \<open>sandbox/processors.py\<close>.

  \<^bold>\<open>Theories.\<close>
  \<^item> \<open>Prelude\<close>: tables as lists of rows, the compare-and-set \<open>cas_row\<close> every service uses (\<open>UPDATE .. WHERE id AND version\<close>),
    results that may carry an error, transition systems. Locales \<open>versioned_table\<close> (interpreted for jobs,
    outbox rows, approvals, change sets and submission jobs) and \<open>invariant_system\<close> (interpreted for
    every system below).
  \<^item> \<open>Canonical_Json\<close>, \<open>Py_Text\<close>: \<open>json.dumps(sort_keys=True)\<close> with its injectivity up to key order, and the methods of
    \<open>str\<close> the code calls.
  \<^item> \<open>Outbox\<close>: \<open>OutboxEvent\<close> and \<open>OutboxPublisher\<close>; the locale \<open>outbox_transport\<close> is the contract of a transport, interpreted for
    \<open>MockTransport\<close>. Nothing is marked delivered that was not sent; claims are exclusive; due rows are delivered.
  \<^item> \<open>Durable_Jobs\<close>: \<open>DurableJob\<close> and every transition of \<open>JobService\<close>. Each operation takes the database it read (\<open>snap\<close>) and the
    one it writes to (\<open>cur\<close>), so that stale reads and lost races are part of the model. \<open>job_spec_step\<close> is the abstract
    specification. \<open>Job_Invariants\<close>: every call on any earlier read refines it; the row invariant; exactly one terminal event.
    \<open>Job_Operations\<close>: leases, idempotent enqueue, backoff, reaper, fencing.
  \<^item> \<open>Job_Runner\<close>: \<open>LocalJobRunner\<close> and the worker cycle. A handler is a parameter: its ticks (time passing, other
    transactions) and its outcome.
  \<^item> \<open>Action_Digest\<close>, \<open>Approvals\<close>: what the digest binds; creation, decision, expiry and invalidation of approvals.
  \<^item> \<open>Submission\<close>, \<open>Submission_Safety\<close>: \<open>SubmissionService\<close> as a program whose commits are visible to others, over a
    provider given by the locale \<open>submission_provider\<close> (interpreted for \<open>MockSubmissionConnector\<close>); at most one external effect.
  \<^item> \<open>Quota\<close>, \<open>Quota_Safety\<close>: the two Lua scripts, the coordinator, the gate and the quota ledger; the concurrency limit,
    the rate bound, progress and fail-closed behaviour.
  \<^item> \<open>Run_Vocabulary\<close>, \<open>Run_Events\<close>, \<open>Run_Events_Safety\<close>: stream, milestones, channel and event source; resuming loses nothing silently.
  \<^item> \<open>Authorization\<close>: principals and decisions; denials are no oracle; a revocation is immediate (locale \<open>grant_source\<close>,
    interpreted for \<open>InMemoryGrantSource\<close>).
  \<^item> \<open>Runs_Api\<close>: the routes that compose these parts.
  \<^item> \<open>Sandbox_Validation\<close>, \<open>Sandbox_Safety\<close>, \<open>Sandbox_Processors\<close>: relative paths, containment and links, media types, archive limits, the
    upload gate and the processor registry. The archive walk equals a reference over the whole tree; accepted paths stay below the root.
  \<^item> \<open>Vector_Index\<close>, \<open>Vector_Index_Safety\<close>: the manifest life cycle and the filtered collection; filters determine their scope, an activation
    switches atomically for every reader, a deletion removes exactly its rows.
  \<^item> \<open>Object_Store\<close>: derived keys, upload verification, range reads, version listings and physical deletion. The listing and the deletion
    loop are partial functions; on a bucket that keeps the documented contract they are proved to return.
  \<^item> \<open>Material_Saga\<close>, \<open>Material_Saga_Safety\<close>: every operation of the saga. A step that uses several transactions takes a \<open>gap\<close>, what the world
    has become by its last transaction. Undisturbed steps follow the transition table; in every sequential history budgets, version chains and
    tombstones are sound; a deletion that succeeds is complete in all three stores; and a deletion requested in a gap can be lost.
  \<^item> \<open>Reconciliation\<close>, \<open>Reconciliation_Worker\<close>, \<open>Reconciliation_Safety\<close>: the three checks of a sweep, the upsert of a finding, the repairs and
    the worker's rounds. A sweep that only detects reports exactly the differences and running it again changes nothing; repairs never touch a
    version or a material beyond its pointer; pointers converge; a finding is confirmed by looking at the rows again.
  \<^item> \<open>Evidence_Gates\<close>: the lexical and cross-encoder gates and their verdicts. \<open>Plan_Executor\<close>, \<open>Plan_Executor_Safety\<close>: the waves of a plan, the
    ledger and what each step hands on. Every step runs once and after its dependencies; only relevant evidence reaches the answer; failures are listed.

  \<^bold>\<open>Correspondence.\<close> A table is a list of rows in insertion order, a row is a record with the columns the
  code reads or writes, a session that is rolled back returns the old table, a raised exception is a value on
  the left of a sum, and a transaction is one function from the database it read and the current one to the next one.
  Clocks, generated identifiers and random draws are arguments. Instants are rational seconds (integers where
  the code counts milliseconds), token counts are rationals where Lua uses doubles.
  Concurrency is a step relation whose state holds the databases committed so far; a step may read any of them.

  \<^bold>\<open>Parameters.\<close> The hash function is an argument; properties that need it assume that it is injective. The transport, the
  submission provider, grant sources, catalogues, quota limits and job handlers are arguments with the
  contracts named above, each shown satisfiable by an interpretation on the program's own implementation. The clients of S3 and
  Milvus, the HMAC, SHA-1 and \<open>uuid5\<close>, the agents a plan calls and their evidence, the scores of the cross encoder, the file system, \<open>zipfile\<close> and the chunker are arguments as well; what S3 and Milvus document is stated as
  \<open>versioned_bucket\<close> and \<open>client_contract\<close> and shown satisfiable by stores in memory.

  \<^bold>\<open>Loops.\<close> Loops run over finite lists or, in the two drains, over the bounds \<open>max_jobs\<close> and \<open>max_steps\<close> of the code. The page and round loops of the
  object store, which the provider decides, are \<open>partial_function (option)\<close> with a proof that they return. The rounds of a plan are bounded by
  its length plus five; the bound is proved never to be reached.

  \<^bold>\<open>Not modelled.\<close> The agents and language models themselves, ranking, document parsing, the storage authority, the container backend of the sandbox, the graph runtime, most repositories and services, telemetry, migrations and the remaining routes. They are
  input and output around third-party services, or CRUD over tables; the manifest lists them with the reason. Metrics and log
  lines of modelled functions are left out as they change no state the program reads.
\<close>

end
